(* ===== verification/Prelude.thy ===== *)
theory Prelude
  imports Main
begin

text \<open>
  Shared vocabulary of the development: Python timestamps, the few string operations the
  service uses, truthiness of optional strings, the first-minimum search of \<open>min(..., key=...)\<close>
  and association-list tables with SQL-like conditional updates. The named collections declared
  here are filled by the component theories.
\<close>

named_theorems gate_simps \<open>unfolding of request guards\<close>
named_theorems row_simps \<open>effects of conditional row updates\<close>

subsection \<open>Timestamps\<close>

text \<open>
  A Python \<^verbatim>\<open>datetime\<close> is naive (SQLite) or carries a UTC offset (PostgreSQL). Both are counted
  in microseconds. The code normalises every stored value before comparing it: a naive value is
  read as UTC, an aware one is shifted by its offset.
\<close>

datatype py_datetime = Naive int | Aware int int

fun utc :: "py_datetime \<Rightarrow> int" where
  "utc (Naive t) = t"
| "utc (Aware t off) = t - off"

definition seconds :: "int \<Rightarrow> int" where
  "seconds n = n * 1000000"

definition minutes :: "int \<Rightarrow> int" where
  "minutes n = n * 60000000"

definition hours :: "int \<Rightarrow> int" where
  "hours n = n * 3600000000"

definition days :: "int \<Rightarrow> int" where
  "days n = n * 86400000000"

lemma durations_pos [simp]:
  "0 < minutes n \<longleftrightarrow> 0 < n" "0 < hours n \<longleftrightarrow> 0 < n" "0 < days n \<longleftrightarrow> 0 < n"
  "0 < seconds n \<longleftrightarrow> 0 < n"
  by (simp_all add: minutes_def hours_def days_def seconds_def)

subsection \<open>Optional strings\<close>

text \<open>Python truthiness of \<^verbatim>\<open>str | None\<close>: both \<^verbatim>\<open>None\<close> and the empty string are false.\<close>

definition truthy :: "string option \<Rightarrow> bool" where
  "truthy s = (case s of None \<Rightarrow> False | Some t \<Rightarrow> t \<noteq> [])"

lemma truthy_simps [simp]:
  "truthy None = False" "truthy (Some t) = (t \<noteq> [])"
  by (simp_all add: truthy_def)

lemma truthyE: "truthy s \<Longrightarrow> (\<And>t. s = Some t \<Longrightarrow> t \<noteq> [] \<Longrightarrow> P) \<Longrightarrow> P"
  by (cases s) auto

text \<open>\<^verbatim>\<open>a or b\<close> on optional strings, and \<^verbatim>\<open>a or b\<close> with a string as last operand.\<close>

definition or_opt :: "string option \<Rightarrow> string option \<Rightarrow> string option" where
  "or_opt a b = (if truthy a then a else b)"

definition or_str :: "string option \<Rightarrow> string \<Rightarrow> string" where
  "or_str a b = (case a of Some t \<Rightarrow> (if t \<noteq> [] then t else b) | None \<Rightarrow> b)"

lemma or_str_nonempty: "b \<noteq> [] \<Longrightarrow> or_str a b \<noteq> []"
  by (simp add: or_str_def split: option.splits)

subsection \<open>Strings\<close>

fun startswith :: "string \<Rightarrow> string \<Rightarrow> bool" where
  "startswith s [] = True"
| "startswith [] (p # ps) = False"
| "startswith (c # cs) (p # ps) = (c = p \<and> startswith cs ps)"

lemma startswith_append [simp]: "startswith (p @ s) p"
  by (induction p) auto

lemma startswith_iff: "startswith s p \<longleftrightarrow> (\<exists>t. s = p @ t)"
  by (induction s p rule: startswith.induct) auto

definition is_space :: "char \<Rightarrow> bool" where
  "is_space c \<longleftrightarrow> c \<in> {CHR '' '', CHR 0x09, CHR 0x0A, CHR 0x0B, CHR 0x0C, CHR 0x0D,
     CHR 0x1C, CHR 0x1D, CHR 0x1E, CHR 0x1F, CHR 0x85, CHR 0xA0}"

definition lstrip :: "string \<Rightarrow> string" where
  "lstrip s = dropWhile is_space s"

definition strip :: "string \<Rightarrow> string" where
  "strip s = rev (lstrip (rev (lstrip s)))"

definition rstrip_char :: "char \<Rightarrow> string \<Rightarrow> string" where
  "rstrip_char c s = rev (dropWhile (\<lambda>x. x = c) (rev s))"

definition lower_char :: "char \<Rightarrow> char" where
  "lower_char c = (let n = (of_char c :: nat) in if 65 \<le> n \<and> n \<le> 90 then char_of (n + 32) else c)"

definition lower :: "string \<Rightarrow> string" where
  "lower s = map lower_char s"

text \<open>\<^verbatim>\<open>s.split(c, 1)\<close>: the part before the first \<open>c\<close> and, if there is one, the part after it.\<close>

definition split_once :: "char \<Rightarrow> string \<Rightarrow> string \<times> string option" where
  "split_once c s =
     (takeWhile (\<lambda>x. x \<noteq> c) s,
      case dropWhile (\<lambda>x. x \<noteq> c) s of [] \<Rightarrow> None | _ # t \<Rightarrow> Some t)"

text \<open>\<^verbatim>\<open>s.split(c)\<close>, with the part being read in reverse in \<open>acc\<close>.\<close>

fun split_all :: "char \<Rightarrow> string \<Rightarrow> string \<Rightarrow> string list" where
  "split_all c acc [] = [rev acc]"
| "split_all c acc (x # xs) = (if x = c then rev acc # split_all c [] xs else split_all c (x # acc) xs)"

lemma split_once_join:
  "split_once c s = (a, Some b) \<Longrightarrow> s = a @ c # b \<and> c \<notin> set a"
proof -
  assume a: "split_once c s = (a, Some b)"
  then obtain d where d: "dropWhile (\<lambda>x. x \<noteq> c) s = d # b"
    by (auto simp: split_once_def split: list.splits)
  then have "d = c"
    by (metis (mono_tags, lifting) dropWhile_eq_Cons_conv)
  with a d show ?thesis
    by (auto simp: split_once_def dest: set_takeWhileD)
      (metis takeWhile_dropWhile_id)
qed

subsection \<open>The first minimum under a key\<close>

text \<open>
  \<^verbatim>\<open>min(xs, key=k)\<close> scans from the left and replaces its candidate only by a strictly smaller
  one, so the first of several minimal elements wins; an empty sequence has no minimum.
\<close>

fun min_scan :: "('k \<Rightarrow> 'k \<Rightarrow> bool) \<Rightarrow> ('a \<Rightarrow> 'k) \<Rightarrow> 'a \<Rightarrow> 'a list \<Rightarrow> 'a" where
  "min_scan lt key b [] = b"
| "min_scan lt key b (x # xs) = min_scan lt key (if lt (key x) (key b) then x else b) xs"

fun py_min :: "('k \<Rightarrow> 'k \<Rightarrow> bool) \<Rightarrow> ('a \<Rightarrow> 'k) \<Rightarrow> 'a list \<Rightarrow> 'a option" where
  "py_min lt key [] = None"
| "py_min lt key (x # xs) = Some (min_scan lt key x xs)"

text \<open>What the search needs of the comparison: a strict weak order.\<close>

locale key_order =
  fixes lt :: "'k \<Rightarrow> 'k \<Rightarrow> bool"
  assumes lt_irrefl: "\<not> lt a a"
    and lt_trans: "lt a b \<Longrightarrow> lt b c \<Longrightarrow> lt a c"
    and lt_cotrans: "lt a c \<Longrightarrow> lt a b \<or> lt b c"
begin

lemma min_scan_in: "min_scan lt key b xs \<in> insert b (set xs)"
  by (induction xs arbitrary: b) (auto split: if_splits)

lemma min_scan_not_above: "\<not> lt (key b) (key (min_scan lt key b xs))"
proof (induction xs arbitrary: b)
  case Nil
  then show ?case by (simp add: lt_irrefl)
next
  case (Cons x xs)
  show ?case
  proof (cases "lt (key x) (key b)")
    case True
    with Cons.IH [of x] show ?thesis
      by (auto dest: lt_trans)
  next
    case False
    with Cons.IH [of b] show ?thesis by simp
  qed
qed

lemma min_scan_least: "y \<in> insert b (set xs) \<Longrightarrow> \<not> lt (key y) (key (min_scan lt key b xs))"
proof (induction xs arbitrary: b)
  case Nil
  then show ?case by (simp add: lt_irrefl)
next
  case (Cons x xs)
  let ?b = "if lt (key x) (key b) then x else b"
  show ?case
  proof (cases "y \<in> insert ?b (set xs)")
    case True
    then show ?thesis using Cons.IH [of ?b] by simp
  next
    case False
    with Cons.prems have nb: "\<not> lt (key y) (key ?b)"
      by (auto split: if_splits dest: lt_trans simp: lt_irrefl)
    have "\<not> lt (key ?b) (key (min_scan lt key ?b xs))"
      by (rule min_scan_not_above)
    with nb have "\<not> lt (key y) (key (min_scan lt key ?b xs))"
      using lt_cotrans by blast
    then show ?thesis by simp
  qed
qed

lemma py_min_in: "py_min lt key xs = Some m \<Longrightarrow> m \<in> set xs"
proof (cases xs)
  case (Cons x xs')
  assume "py_min lt key xs = Some m"
  with Cons show ?thesis using min_scan_in [of key x xs'] by auto
qed simp

lemma py_min_least: "py_min lt key xs = Some m \<Longrightarrow> y \<in> set xs \<Longrightarrow> \<not> lt (key y) (key m)"
proof (cases xs)
  case (Cons x xs')
  assume "py_min lt key xs = Some m" and "y \<in> set xs"
  with Cons show ?thesis using min_scan_least [of y x xs' key] by auto
qed simp

end

lemma py_min_None_iff [simp]: "py_min lt key xs = None \<longleftrightarrow> xs = []"
  by (cases xs) auto

interpretation int_key: key_order "(<) :: int \<Rightarrow> int \<Rightarrow> bool"
  by unfold_locales auto

text \<open>A comprehension with a \<^verbatim>\<open>continue\<close>: the elements for which the body produced a value.\<close>

primrec collect_some :: "('a \<Rightarrow> 'b option) \<Rightarrow> 'a list \<Rightarrow> 'b list" where
  "collect_some f [] = []"
| "collect_some f (x # xs) =
     (case f x of None \<Rightarrow> collect_some f xs | Some y \<Rightarrow> y # collect_some f xs)"

lemma set_collect_some: "y \<in> set (collect_some f xs) \<longleftrightarrow> (\<exists>x \<in> set xs. f x = Some y)"
  by (induction xs) (auto split: option.splits)

subsection \<open>Tables\<close>

text \<open>
  A table is a partial map from its primary key to rows. \<^verbatim>\<open>UPDATE t SET f WHERE pk = k AND p\<close> is
  \<open>update_where\<close>; its row count is 0 or 1.
\<close>

definition update_where :: "'k \<Rightarrow> ('r \<Rightarrow> bool) \<Rightarrow> ('r \<Rightarrow> 'r) \<Rightarrow> ('k \<rightharpoonup> 'r) \<Rightarrow> ('k \<rightharpoonup> 'r) \<times> nat" where
  "update_where k p f t =
     (case t k of
        Some r \<Rightarrow> (if p r then (t(k \<mapsto> f r), 1) else (t, 0))
      | None \<Rightarrow> (t, 0))"

lemma update_where_won [row_simps]:
  "snd (update_where k p f t) = 1 \<longleftrightarrow> (\<exists>r. t k = Some r \<and> p r)"
  by (auto simp: update_where_def split: option.splits)

lemma update_where_lost [row_simps]:
  "snd (update_where k p f t) \<noteq> 1 \<Longrightarrow> fst (update_where k p f t) = t"
  by (auto simp: update_where_def split: option.splits)

lemma update_where_hit [simp]:
  "t k = Some r \<Longrightarrow> p r \<Longrightarrow> update_where k p f t = (t(k \<mapsto> f r), 1)"
  by (simp add: update_where_def)

lemma update_where_miss [simp]:
  "t k = Some r \<Longrightarrow> \<not> p r \<Longrightarrow> update_where k p f t = (t, 0)"
  by (simp add: update_where_def)

lemma update_where_absent [simp]:
  "t k = None \<Longrightarrow> update_where k p f t = (t, 0)"
  by (simp add: update_where_def)

lemma update_where_other:
  "j \<noteq> k \<Longrightarrow> fst (update_where k p f t) j = t j"
  by (auto simp: update_where_def split: option.splits)

lemma update_where_dom [simp]: "dom (fst (update_where k p f t)) = dom t"
  by (auto simp: update_where_def split: option.splits)

subsection \<open>Tables as lists of rows\<close>

text \<open>Where the order of rows matters a table is a list; a primary key makes its rows unique.\<close>

definition unique_by :: "('r \<Rightarrow> 'k) \<Rightarrow> 'r list \<Rightarrow> bool" where
  "unique_by key t \<longleftrightarrow> distinct (map key t)"

lemma unique_by_filter: "unique_by key t \<Longrightarrow> unique_by key (filter p t)"
  by (induction t) (auto simp: unique_by_def)

lemma unique_by_map: "(\<And>r. key (f r) = key r) \<Longrightarrow> unique_by key (map f t) = unique_by key t"
  by (simp add: unique_by_def comp_def)

lemma unique_by_append: "unique_by key (t @ [r]) \<longleftrightarrow> unique_by key t \<and> key r \<notin> key ` set t"
  by (auto simp: unique_by_def)

lemma find_append: "find p (xs @ ys) = (case find p xs of None \<Rightarrow> find p ys | Some x \<Rightarrow> Some x)"
  by (induction xs) auto

lemma find_hit: "find p xs = Some x \<Longrightarrow> x \<in> set xs \<and> p x"
  by (induction xs) (auto split: if_splits)

lemma find_key_None: "find (\<lambda>r. key r = k) t = None \<longleftrightarrow> k \<notin> key ` set t"
  by (induction t) auto

lemma find_unique:
  "unique_by key t \<Longrightarrow> r \<in> set t \<Longrightarrow> find (\<lambda>r. key r = k) t = Some r \<longleftrightarrow> key r = k"
  by (induction t) (auto simp: unique_by_def image_iff dest!: find_hit split: if_splits)

lemma find_filter_unique:
  assumes "unique_by key t"
  shows "find (\<lambda>r. key r = k) (filter p t) =
     (case find (\<lambda>r. key r = k) t of None \<Rightarrow> None | Some r \<Rightarrow> if p r then Some r else None)"
  using assms
proof (induction t)
  case (Cons r t)
  then show ?case
    by (cases "key r = k")
      (auto simp: unique_by_def find_key_None image_iff dest!: find_hit split: option.splits)
qed simp

lemma find_map_key:
  "(\<And>r. key (f r) = key r) \<Longrightarrow>
   find (\<lambda>r. key r = k) (map f t) = map_option f (find (\<lambda>r. key r = k) t)"
  by (induction t) auto

text \<open>Selection by key, and the write of one row.\<close>

definition row_at :: "('r \<Rightarrow> 'k) \<Rightarrow> 'k \<Rightarrow> 'r list \<Rightarrow> 'r option" where
  "row_at key k t = find (\<lambda>r. key r = k) t"

definition alter_row :: "('r \<Rightarrow> 'k) \<Rightarrow> 'k \<Rightarrow> ('r \<Rightarrow> 'r) \<Rightarrow> 'r list \<Rightarrow> 'r list" where
  "alter_row key k f t = map (\<lambda>r. if key r = k then f r else r) t"

definition put_row :: "('r \<Rightarrow> 'k) \<Rightarrow> 'r \<Rightarrow> 'r list \<Rightarrow> 'r list" where
  "put_row key r t = alter_row key (key r) (\<lambda>_. r) t"

lemma row_at_Some: "row_at key k t = Some r \<Longrightarrow> r \<in> set t \<and> key r = k"
  by (auto simp: row_at_def dest: find_hit)

lemma row_at_Nil [simp]: "row_at key k [] = None"
  by (simp add: row_at_def)

lemma row_at_Cons [simp]: "row_at key k (r # t) = (if key r = k then Some r else row_at key k t)"
  by (simp add: row_at_def)

lemma row_at_append: "row_at key k (s @ t) = (case row_at key k s of None \<Rightarrow> row_at key k t | Some r \<Rightarrow> Some r)"
  by (auto simp: row_at_def find_append split: option.splits)

lemma row_at_member: "unique_by key t \<Longrightarrow> r \<in> set t \<Longrightarrow> row_at key (key r) t = Some r"
  by (simp add: row_at_def find_unique)

lemma row_at_alter:
  "(\<And>r. r \<in> set t \<Longrightarrow> key r = k \<Longrightarrow> key (f r) = k) \<Longrightarrow>
   row_at key j (alter_row key k f t) = (if j = k then map_option f (row_at key j t) else row_at key j t)"
  by (induction t) (auto simp: alter_row_def)

lemma row_at_map: "(\<And>r. key (f r) = key r) \<Longrightarrow> row_at key k (map f t) = map_option f (row_at key k t)"
  by (induction t) (auto simp: row_at_def)

lemma row_at_put:
  "row_at key j (put_row key r t) = (if j = key r then map_option (\<lambda>_. r) (row_at key j t) else row_at key j t)"
  by (simp add: put_row_def row_at_alter)

lemma unique_by_alter:
  "(\<And>r. r \<in> set t \<Longrightarrow> key r = k \<Longrightarrow> key (f r) = k) \<Longrightarrow> unique_by key (alter_row key k f t) = unique_by key t"
proof -
  assume "\<And>r. r \<in> set t \<Longrightarrow> key r = k \<Longrightarrow> key (f r) = k"
  then have "map key (alter_row key k f t) = map key t" by (auto simp: alter_row_def)
  then show ?thesis by (simp add: unique_by_def)
qed

lemma unique_by_put [simp]: "unique_by key (put_row key r t) = unique_by key t"
  by (simp add: put_row_def unique_by_alter)

lemma put_row_cases: "x \<in> set (put_row key r t) \<Longrightarrow> x = r \<or> x \<in> set t \<and> key x \<noteq> key r"
  by (auto simp: put_row_def alter_row_def split: if_splits)

lemma put_row_other: "x \<in> set t \<Longrightarrow> key x \<noteq> key r \<Longrightarrow> x \<in> set (put_row key r t)"
  by (force simp: put_row_def alter_row_def)

end
