(* ===== verification/Py_Decimal.thy ===== *)
theory Py_Decimal
  imports Complex_Main Prelude
begin

text \<open>
  Python's \<^verbatim>\<open>decimal.Decimal\<close> under the default context (28 significant digits,
  ROUND_HALF_EVEN), for finite values: a signed coefficient and an exponent. The exponent is kept
  because the service renders prices with \<^verbatim>\<open>format(value, "f")\<close> and calls \<^verbatim>\<open>quantize\<close>. The order is
  the order of the rational value, decided on the coefficients brought to a common exponent.
\<close>

datatype decimal = Dec (coeff: int) (expo: int)

definition dec_of_int :: "int \<Rightarrow> decimal" where
  "dec_of_int n = Dec n 0"

fun ndigits :: "nat \<Rightarrow> nat" where
  "ndigits n = (if n < 10 then 1 else Suc (ndigits (n div 10)))"

declare ndigits.simps [simp del]

lemma ndigits_bound: "n < 10 ^ ndigits n"
proof (induction n rule: ndigits.induct)
  case (1 n)
  show ?case
  proof (cases "n < 10")
    case True
    then show ?thesis by (simp add: ndigits.simps [of n])
  next
    case False
    with 1 have "n div 10 < 10 ^ ndigits (n div 10)" by simp
    then have "n < 10 * 10 ^ ndigits (n div 10)" by arith
    with False show ?thesis by (simp add: ndigits.simps [of n])
  qed
qed

lemma ndigits_le: "0 < k \<Longrightarrow> n < 10 ^ k \<Longrightarrow> ndigits n \<le> k"
proof (induction n arbitrary: k rule: ndigits.induct)
  case (1 n)
  show ?case
  proof (cases "n < 10")
    case True
    with 1 show ?thesis by (simp add: ndigits.simps [of n])
  next
    case False
    then have "k \<noteq> 1" using 1 by auto
    with "1.prems" obtain j where j: "k = Suc j" "0 < j" by (cases k) auto
    with "1.prems" have "n div 10 < 10 ^ j" by auto
    with 1 False j have "ndigits (n div 10) \<le> j" by simp
    with False j show ?thesis by (simp add: ndigits.simps [of n])
  qed
qed

subsection \<open>Value and order\<close>

definition pow10 :: "int \<Rightarrow> int" where
  "pow10 e = 10 ^ nat e"

text \<open>The coefficient a decimal has at exponent \<open>m\<close>, for \<open>m\<close> at most its own exponent.\<close>

definition coeff_at :: "int \<Rightarrow> decimal \<Rightarrow> int" where
  "coeff_at m d = coeff d * pow10 (expo d - m)"

definition dec_less :: "decimal \<Rightarrow> decimal \<Rightarrow> bool" where
  "dec_less a b = (let m = min (expo a) (expo b) in coeff_at m a < coeff_at m b)"

definition dec_le :: "decimal \<Rightarrow> decimal \<Rightarrow> bool" where
  "dec_le a b = (\<not> dec_less b a)"

definition dec_eq :: "decimal \<Rightarrow> decimal \<Rightarrow> bool" where
  "dec_eq a b = (\<not> dec_less a b \<and> \<not> dec_less b a)"

definition dec_val :: "decimal \<Rightarrow> rat" where
  "dec_val d = of_int (coeff d) * 10 powi expo d"

lemma coeff_at_val: "m \<le> expo d \<Longrightarrow> of_int (coeff_at m d) * 10 powi m = dec_val d"
proof -
  assume m: "m \<le> expo d"
  have "(10 :: rat) ^ nat (expo d - m) = 10 powi (expo d - m)"
    using m by (simp add: power_int_def)
  moreover have "(10 :: rat) powi (expo d - m) * 10 powi m = 10 powi expo d"
    by (simp add: power_int_add [symmetric])
  ultimately show ?thesis
    by (simp add: coeff_at_def dec_val_def pow10_def)
qed

lemma pow10_powi_pos: "0 < (10 :: rat) powi m"
  by (simp add: zero_less_power_int)

lemma dec_less_val: "dec_less a b \<longleftrightarrow> dec_val a < dec_val b"
proof -
  let ?m = "min (expo a) (expo b)"
  have a: "of_int (coeff_at ?m a) * 10 powi ?m = dec_val a"
    and b: "of_int (coeff_at ?m b) * 10 powi ?m = dec_val b"
    by (simp_all add: coeff_at_val)
  have "(of_int (coeff_at ?m a) :: rat) * 10 powi ?m < of_int (coeff_at ?m b) * 10 powi ?m
      \<longleftrightarrow> coeff_at ?m a < coeff_at ?m b"
    using pow10_powi_pos [of ?m] by simp
  then show ?thesis by (simp add: dec_less_def Let_def a b)
qed

lemma dec_le_val: "dec_le a b \<longleftrightarrow> dec_val a \<le> dec_val b"
  by (auto simp: dec_le_def dec_less_val)

lemma dec_eq_val: "dec_eq a b \<longleftrightarrow> dec_val a = dec_val b"
  by (auto simp: dec_eq_def dec_less_val)

interpretation dec_key: key_order dec_less
  by unfold_locales (auto simp: dec_less_val)

subsection \<open>Rounding to the context precision\<close>

definition round_half_even :: "nat \<Rightarrow> nat \<Rightarrow> nat" where
  "round_half_even n d =
     (let q = n div d; r = n mod d in
      if 2 * r < d then q else if d < 2 * r then Suc q else if even q then q else Suc q)"

abbreviation context_prec :: nat where
  "context_prec \<equiv> 28"

definition dec_fix :: "decimal \<Rightarrow> decimal" where
  "dec_fix d =
     (let n = nat \<bar>coeff d\<bar>; k = ndigits n in
      if k \<le> context_prec then d
      else let q = round_half_even n (10 ^ (k - context_prec)); e = expo d + int (k - context_prec) in
        if ndigits q \<le> context_prec then Dec (sgn (coeff d) * int q) e
        else Dec (sgn (coeff d) * int (q div 10)) (e + 1))"

lemma dec_fix_exact: "\<bar>coeff d\<bar> < 10 ^ context_prec \<Longrightarrow> dec_fix d = d"
proof -
  assume a: "\<bar>coeff d\<bar> < 10 ^ context_prec"
  then have "nat \<bar>coeff d\<bar> < 10 ^ context_prec"
    by (simp add: nat_less_iff)
  then have "ndigits (nat \<bar>coeff d\<bar>) \<le> context_prec"
    by (rule ndigits_le [rotated]) simp
  then show ?thesis by (simp add: dec_fix_def)
qed

subsection \<open>Arithmetic\<close>

definition dec_add :: "decimal \<Rightarrow> decimal \<Rightarrow> decimal" where
  "dec_add a b = (let m = min (expo a) (expo b) in dec_fix (Dec (coeff_at m a + coeff_at m b) m))"

definition dec_neg :: "decimal \<Rightarrow> decimal" where
  "dec_neg a = Dec (- coeff a) (expo a)"

definition dec_sub :: "decimal \<Rightarrow> decimal \<Rightarrow> decimal" where
  "dec_sub a b = dec_add a (dec_neg b)"

definition dec_abs :: "decimal \<Rightarrow> decimal" where
  "dec_abs a = dec_fix (Dec \<bar>coeff a\<bar> (expo a))"

definition dec_mul :: "decimal \<Rightarrow> decimal \<Rightarrow> decimal" where
  "dec_mul a b = dec_fix (Dec (coeff a * coeff b) (expo a + expo b))"

text \<open>
  Division follows the reference algorithm: enough extra digits, a sticky last digit when the
  quotient is inexact, and trailing zeros removed down to the ideal exponent when it is exact.
  A zero divisor raises (\<open>None\<close>).
\<close>

fun strip_zeros :: "nat \<Rightarrow> int \<Rightarrow> int \<Rightarrow> nat \<times> int" where
  "strip_zeros n e ideal =
     (if 0 < n \<and> n mod 10 = 0 \<and> e < ideal then strip_zeros (n div 10) (e + 1) ideal else (n, e))"

declare strip_zeros.simps [simp del]

definition dec_div :: "decimal \<Rightarrow> decimal \<Rightarrow> decimal option" where
  "dec_div a b =
     (if coeff b = 0 then None
      else if coeff a = 0 then Some (Dec 0 (expo a - expo b))
      else
       (let x = nat \<bar>coeff a\<bar>; y = nat \<bar>coeff b\<bar>;
            shift = int (ndigits y) - int (ndigits x) + int context_prec + 1;
            e = expo a - expo b - shift;
            num = (if 0 \<le> shift then x * 10 ^ nat shift else x);
            den = (if 0 \<le> shift then y else y * 10 ^ nat (- shift));
            q = num div den; r = num mod den;
            s = sgn (coeff a) * sgn (coeff b);
            (q', e') = (if r \<noteq> 0 then (if q mod 5 = 0 then q + 1 else q, e)
                        else strip_zeros q e (expo a - expo b))
        in Some (dec_fix (Dec (s * int q') e'))))"

text \<open>\<^verbatim>\<open>d.quantize(Decimal("1E<e>"))\<close>; a result with more than 28 digits raises (\<open>None\<close>).\<close>

definition dec_quantize :: "int \<Rightarrow> decimal \<Rightarrow> decimal option" where
  "dec_quantize e d =
     (let c = (if e \<le> expo d then coeff_at e d
               else sgn (coeff d) * int (round_half_even (nat \<bar>coeff d\<bar>) (10 ^ nat (e - expo d))))
      in if ndigits (nat \<bar>c\<bar>) \<le> context_prec then Some (Dec c e) else None)"

lemma dec_val_of_int [simp]: "dec_val (dec_of_int n) = of_int n"
  by (simp add: dec_val_def dec_of_int_def)

lemma dec_val_neg [simp]: "dec_val (dec_neg a) = - dec_val a"
  by (simp add: dec_val_def dec_neg_def)

lemma dec_val_mul:
  "\<bar>coeff a * coeff b\<bar> < 10 ^ context_prec \<Longrightarrow> dec_val (dec_mul a b) = dec_val a * dec_val b"
  by (simp add: dec_mul_def dec_fix_exact dec_val_def power_int_add)

lemma dec_val_add:
  assumes "\<bar>coeff_at (min (expo a) (expo b)) a + coeff_at (min (expo a) (expo b)) b\<bar> < 10 ^ context_prec"
  shows "dec_val (dec_add a b) = dec_val a + dec_val b"
proof -
  let ?m = "min (expo a) (expo b)"
  have "dec_val (dec_add a b) = of_int (coeff_at ?m a + coeff_at ?m b) * 10 powi ?m"
    using assms by (simp add: dec_add_def Let_def dec_fix_exact dec_val_def)
  also have "\<dots> = dec_val a + dec_val b"
    by (simp add: distrib_right coeff_at_val)
  finally show ?thesis .
qed

lemma dec_quantize_exact:
  "e \<le> expo d \<Longrightarrow> dec_quantize e d = Some q \<Longrightarrow> dec_val q = dec_val d"
  by (auto simp: dec_quantize_def Let_def dec_val_def [of "Dec _ _"] coeff_at_val split: if_splits)

subsection \<open>Rendering\<close>

definition digit_chr :: "nat \<Rightarrow> char" where
  "digit_chr n = ''0123456789'' ! n"

lemma digit_cases: "n < 10 \<Longrightarrow> n \<in> {0, 1, 2, 3, 4, 5, 6, 7, 8, 9 :: nat}"
  by auto

lemma digit_char: "n < 10 \<Longrightarrow> (of_char (digit_chr n) :: nat) = 48 + n"
  by (drule digit_cases) (auto simp: digit_chr_def)

fun nat_str :: "nat \<Rightarrow> string" where
  "nat_str n = (if n < 10 then [digit_chr n] else nat_str (n div 10) @ [digit_chr (n mod 10)])"

declare nat_str.simps [simp del]

text \<open>Conditional equations, for evaluation by the simplifier.\<close>

lemma nat_str_eval:
  "n < 10 \<Longrightarrow> nat_str n = [digit_chr n]"
  "10 \<le> n \<Longrightarrow> nat_str n = nat_str (n div 10) @ [digit_chr (n mod 10)]"
  by (simp_all add: nat_str.simps [of n])

lemma ndigits_eval:
  "n < 10 \<Longrightarrow> ndigits n = 1"
  "10 \<le> n \<Longrightarrow> ndigits n = Suc (ndigits (n div 10))"
  by (simp_all add: ndigits.simps [of n])

lemma strip_zeros_eval:
  "0 < n \<Longrightarrow> n mod 10 = 0 \<Longrightarrow> e < ideal \<Longrightarrow> strip_zeros n e ideal = strip_zeros (n div 10) (e + 1) ideal"
  "\<not> (0 < n \<and> n mod 10 = 0 \<and> e < ideal) \<Longrightarrow> strip_zeros n e ideal = (n, e)"
  by (simp add: strip_zeros.simps [of n e ideal], subst strip_zeros.simps, auto)

definition int_str :: "int \<Rightarrow> string" where
  "int_str i = (if i < 0 then CHR ''-'' # nat_str (nat (- i)) else nat_str (nat i))"

text \<open>\<^verbatim>\<open>format(d, "f")\<close>: no exponent, and exactly \<open>-expo\<close> fraction digits when that is positive.\<close>

definition dec_format_f :: "decimal \<Rightarrow> string" where
  "dec_format_f d =
     (let sign = (if coeff d < 0 then ''-'' else []); n = nat \<bar>coeff d\<bar> in
      if 0 \<le> expo d then sign @ nat_str (n * 10 ^ nat (expo d))
      else let k = nat (- expo d); ds = nat_str n;
               padded = replicate (Suc k - length ds) CHR ''0'' @ ds;
               w = length padded - k
           in sign @ take w padded @ CHR ''.'' # drop w padded)"

text \<open>
  \<^verbatim>\<open>Decimal(s)\<close> for an unsigned literal \<^verbatim>\<open>digits[.digits]\<close>: the literal's digits are the coefficient,
  the number of fraction digits the exponent. Anything else raises (\<open>None\<close>).
\<close>

text \<open>\<^verbatim>\<open>str(Decimal)\<close>: plain notation unless the exponent is positive or the value very small.\<close>

definition dec_str :: "decimal \<Rightarrow> string" where
  "dec_str d =
     (let ds = nat_str (nat \<bar>coeff d\<bar>); n = int (length ds); left = expo d + n;
          dot = (if expo d \<le> 0 \<and> - 6 < left then left else 1);
          body = (if dot \<le> 0 then ''0.'' @ replicate (nat (- dot)) CHR ''0'' @ ds
                  else if n \<le> dot then ds @ replicate (nat (dot - n)) CHR ''0''
                  else take (nat dot) ds @ ''.'' @ drop (nat dot) ds);
          ex = left - dot
      in (if coeff d < 0 then ''-'' else []) @ body @
         (if ex = 0 then [] else ''E'' @ (if 0 < ex then ''+'' @ int_str ex else int_str ex)))"

definition is_digit :: "char \<Rightarrow> bool" where
  "is_digit c \<longleftrightarrow> 48 \<le> (of_char c :: nat) \<and> (of_char c :: nat) \<le> 57"

definition str_nat :: "string \<Rightarrow> nat" where
  "str_nat s = foldl (\<lambda>a c. 10 * a + (of_char c - 48)) 0 s"

definition parse_decimal :: "string \<Rightarrow> decimal option" where
  "parse_decimal s =
     (let (w, f) = split_once CHR ''.'' s in
      case f of
        None \<Rightarrow> (if w \<noteq> [] \<and> list_all is_digit w then Some (Dec (int (str_nat w)) 0) else None)
      | Some fr \<Rightarrow>
          (if w @ fr \<noteq> [] \<and> list_all is_digit (w @ fr)
           then Some (Dec (int (str_nat (w @ fr))) (- int (length fr))) else None))"

lemma str_nat_foldl:
  "foldl (\<lambda>a c. 10 * a + (of_char c - 48)) n s = n * 10 ^ length s + str_nat s"
proof (induction s arbitrary: n)
  case Nil
  then show ?case by (simp add: str_nat_def)
next
  case (Cons c s)
  have "str_nat (c # s) = (of_char c - 48) * 10 ^ length s + str_nat s"
    using Cons [of "of_char c - 48"] by (simp add: str_nat_def)
  with Cons [of "10 * n + (of_char c - 48)"] show ?case
    by (simp add: algebra_simps)
qed

lemma str_nat_append: "str_nat (s @ t) = str_nat s * 10 ^ length t + str_nat t"
  using str_nat_foldl [of "str_nat s" t] by (simp add: str_nat_def)

lemma str_nat_zeros [simp]: "str_nat (replicate k CHR ''0'') = 0"
proof (induction k)
  case (Suc k)
  have "str_nat (CHR ''0'' # replicate k CHR ''0'')
      = str_nat [CHR ''0''] * 10 ^ length (replicate k CHR ''0'') + str_nat (replicate k CHR ''0'')"
    using str_nat_append [of "[CHR ''0'']" "replicate k CHR ''0''"] by simp
  with Suc show ?case by (simp add: str_nat_def)
qed (simp add: str_nat_def)

lemma str_nat_nat_str [simp]: "str_nat (nat_str n) = n"
proof (induction n rule: nat_str.induct)
  case (1 n)
  show ?case
  proof (cases "n < 10")
    case True
    then show ?thesis by (simp add: nat_str.simps [of n] str_nat_def digit_char)
  next
    case False
    have d: "str_nat [digit_chr (n mod 10)] = n mod 10"
      by (simp add: str_nat_def digit_char)
    from False 1 d show ?thesis
      by (simp add: nat_str.simps [of n] str_nat_append)
  qed
qed

lemma nat_str_digits [simp]: "list_all is_digit (nat_str n)"
proof (induction n rule: nat_str.induct)
  case (1 n)
  show ?case
  proof (cases "n < 10")
    case True
    then show ?thesis by (simp add: nat_str.simps [of n] is_digit_def digit_char)
  next
    case False
    have "n mod 10 < 10" by simp
    then have "is_digit (digit_chr (n mod 10))"
      unfolding is_digit_def by (simp only: digit_char) arith
    with False 1 show ?thesis by (simp add: nat_str.simps [of n])
  qed
qed

lemma nat_str_nonempty [simp]: "nat_str n \<noteq> []"
  by (subst nat_str.simps) simp

lemma dot_not_digit: "list_all is_digit s \<Longrightarrow> CHR ''.'' \<notin> set s"
  by (auto simp: list_all_iff is_digit_def)

lemma split_once_absent: "c \<notin> set w \<Longrightarrow> split_once c w = (w, None)"
proof -
  assume "c \<notin> set w"
  then have "\<forall>x \<in> set w. x \<noteq> c" by blast
  then have "takeWhile (\<lambda>x. x \<noteq> c) w = w" "dropWhile (\<lambda>x. x \<noteq> c) w = []"
    by (simp_all add: takeWhile_eq_all_conv dropWhile_eq_Nil_conv)
  then show ?thesis unfolding split_once_def by (simp only: list.case)
qed

lemma split_once_present: "c \<notin> set w \<Longrightarrow> split_once c (w @ c # f) = (w, Some f)"
proof -
  assume "c \<notin> set w"
  then have "takeWhile (\<lambda>x. x \<noteq> c) (w @ c # f) = w" "dropWhile (\<lambda>x. x \<noteq> c) (w @ c # f) = c # f"
    by (auto simp: takeWhile_append dropWhile_append)
  then show ?thesis by (simp add: split_once_def)
qed

end
