(* ===== verification/Models.thy ===== *)
theory Models
  imports Py_Decimal
begin

text \<open>
  The enumerations and request models of \<^verbatim>\<open>hyrule_cloud/models.py\<close> that several components share. Each
  \<^verbatim>\<open>StrEnum\<close> is a datatype; the string its members carry in the database and in JSON is
  \<open>..._value\<close>, and reading a member from a string is \<open>..._of\<close>, which fails where the
  Python constructor raises \<^verbatim>\<open>ValueError\<close>.
\<close>

subsection \<open>Enumerations\<close>

datatype vm_size = XS | SM | MD | LG

datatype vm_status = PROVISIONING | READY | RUNNING | SUSPENDED | FAILED | DESTROYED

datatype launch_proof_status =
  LP_ACCEPTED | LP_PAYMENT_REQUIRED | LP_PROVISIONING | LP_PROVISIONED | LP_DEGRADED | LP_FAILED | LP_ROLLED_BACK

datatype payment_status = PS_PAID | PS_PAYMENT_REQUIRED | PS_NOT_REQUIRED

datatype ssh_smoke_status = SSH_NOT_RUN | SSH_PASSED | SSH_FAILED

datatype dns_resolution_status = DNS_NOT_RUN | DNS_PASSED | DNS_FAILED

datatype domain_mode = AUTO | CUSTOM

datatype crypto_intent_status =
  I_PENDING | I_PAID | I_CREATED | I_WAITING_PAYMENT | I_UNDERPAID | I_OVERPAID | I_LATE_PAID
| I_SETTLED | I_EXPIRED | I_PROVISIONING | I_PROVISIONED | I_FAILED | I_REFUND_MANUAL

datatype quote_status = Q_CREATED | Q_CONSUMED | Q_EXPIRED

fun vm_size_value :: "vm_size \<Rightarrow> string" where
  "vm_size_value XS = ''xs''"
| "vm_size_value SM = ''sm''"
| "vm_size_value MD = ''md''"
| "vm_size_value LG = ''lg''"

fun vm_status_value :: "vm_status \<Rightarrow> string" where
  "vm_status_value PROVISIONING = ''provisioning''"
| "vm_status_value READY = ''ready''"
| "vm_status_value RUNNING = ''running''"
| "vm_status_value SUSPENDED = ''suspended''"
| "vm_status_value FAILED = ''failed''"
| "vm_status_value DESTROYED = ''destroyed''"

fun quote_status_value :: "quote_status \<Rightarrow> string" where
  "quote_status_value Q_CREATED = ''created''"
| "quote_status_value Q_CONSUMED = ''consumed''"
| "quote_status_value Q_EXPIRED = ''expired''"

text \<open>Members in declaration order, which is the order of iteration over the Python class.\<close>

definition all_vm_sizes :: "vm_size list" where
  "all_vm_sizes = [XS, SM, MD, LG]"

definition all_vm_statuses :: "vm_status list" where
  "all_vm_statuses = [PROVISIONING, READY, RUNNING, SUSPENDED, FAILED, DESTROYED]"

text \<open>Reading a member from its value: the members are searched for the value.\<close>

definition member_of :: "('a \<Rightarrow> string) \<Rightarrow> 'a list \<Rightarrow> string \<Rightarrow> 'a option" where
  "member_of value members s = find (\<lambda>m. value m = s) members"

definition vm_status_of :: "string \<Rightarrow> vm_status option" where
  "vm_status_of = member_of vm_status_value all_vm_statuses"

definition vm_size_of :: "string \<Rightarrow> vm_size option" where
  "vm_size_of = member_of vm_size_value all_vm_sizes"

lemma member_of_Some: "member_of value members s = Some m \<Longrightarrow> value m = s"
  by (auto simp: member_of_def find_Some_iff)

lemma vm_status_of_value [simp]: "vm_status_of (vm_status_value st) = Some st"
  by (cases st) (simp_all add: vm_status_of_def member_of_def all_vm_statuses_def)

lemma vm_size_of_value [simp]: "vm_size_of (vm_size_value sz) = Some sz"
  by (cases sz) (simp_all add: vm_size_of_def member_of_def all_vm_sizes_def)

lemma vm_status_of_Some: "vm_status_of s = Some st \<longleftrightarrow> s = vm_status_value st"
  by (metis member_of_Some vm_status_of_def vm_status_of_value)

subsection \<open>Resources and orders\<close>

record resources =
  r_vcpu :: int
  r_ram_mb :: int
  r_disk_gb :: int

fun VM_SPECS :: "vm_size \<Rightarrow> resources" where
  "VM_SPECS XS = \<lparr>r_vcpu = 1, r_ram_mb = 1024, r_disk_gb = 10\<rparr>"
| "VM_SPECS SM = \<lparr>r_vcpu = 1, r_ram_mb = 2048, r_disk_gb = 20\<rparr>"
| "VM_SPECS MD = \<lparr>r_vcpu = 2, r_ram_mb = 4096, r_disk_gb = 20\<rparr>"
| "VM_SPECS LG = \<lparr>r_vcpu = 4, r_ram_mb = 4096, r_disk_gb = 40\<rparr>"

fun VM_PROFILE_LABELS :: "vm_size \<Rightarrow> string" where
  "VM_PROFILE_LABELS XS = ''1C-1G-10G''"
| "VM_PROFILE_LABELS SM = ''1C-2G-20G''"
| "VM_PROFILE_LABELS MD = ''2C-4G-20G''"
| "VM_PROFILE_LABELS LG = ''4C-4G-40G''"

text \<open>The shape every stored specification has, and the increments a new order must respect.\<close>

definition valid_resource_spec :: "resources \<Rightarrow> bool" where
  "valid_resource_spec r \<longleftrightarrow> 0 < r_vcpu r \<and> 0 < r_ram_mb r \<and> 0 < r_disk_gb r"

definition valid_order_resources :: "resources \<Rightarrow> bool" where
  "valid_order_resources r \<longleftrightarrow>
     valid_resource_spec r \<and> r_ram_mb r mod 1024 = 0 \<and> r_disk_gb r mod 10 = 0"

record vm_create_request =
  duration_days :: int
  o_size :: vm_size
  o_resources :: "resources option"
  o_os :: string
  o_ssh_pubkey :: string
  o_domain_mode :: domain_mode
  o_domain :: "string option"
  o_open_ports :: "int list"
  o_setup_script :: "string option"
  o_quote_id :: "string option"

text \<open>What request validation guarantees before a handler sees the model.\<close>

definition valid_create_request :: "vm_create_request \<Rightarrow> bool" where
  "valid_create_request o1 \<longleftrightarrow>
     1 \<le> duration_days o1 \<and> duration_days o1 \<le> 365 \<and>
     (case o_resources o1 of None \<Rightarrow> True | Some r \<Rightarrow> valid_order_resources r) \<and>
     (case o_quote_id o1 of None \<Rightarrow> True | Some q \<Rightarrow> length q \<le> 36)"

end
