(* ===== verification/Vm_Pricing.thy ===== *)
theory Vm_Pricing
  imports Models
begin

text \<open>
  \<^verbatim>\<open>hyrule_cloud/services/vm_pricing.py\<close>: the canonical resource selection. A request is priced from
  every base profile that fits inside it, and rebound to the cheapest one. The configuration object
  is the record \<open>payment_cfg\<close>: a missing attribute (\<open>None\<close>) falls back to the module's default.
\<close>

subsection \<open>Constants and configuration\<close>

definition MIN_RESOURCES :: resources where
  "MIN_RESOURCES = \<lparr>r_vcpu = 1, r_ram_mb = 1024, r_disk_gb = 10\<rparr>"

definition MAX_RESOURCES :: resources where
  "MAX_RESOURCES = \<lparr>r_vcpu = 4, r_ram_mb = 8192, r_disk_gb = 40\<rparr>"

definition RESOURCE_INCREMENTS :: resources where
  "RESOURCE_INCREMENTS = \<lparr>r_vcpu = 1, r_ram_mb = 1024, r_disk_gb = 10\<rparr>"

lemmas resource_limits = MIN_RESOURCES_def MAX_RESOURCES_def RESOURCE_INCREMENTS_def

fun DEFAULT_BASE_PRICES :: "vm_size \<Rightarrow> decimal" where
  "DEFAULT_BASE_PRICES XS = Dec 20 (-2)"
| "DEFAULT_BASE_PRICES SM = Dec 40 (-2)"
| "DEFAULT_BASE_PRICES MD = Dec 60 (-2)"
| "DEFAULT_BASE_PRICES LG = Dec 80 (-2)"

definition DEFAULT_ADDON_VCPU :: decimal where
  "DEFAULT_ADDON_VCPU = Dec 10 (-2)"

definition DEFAULT_ADDON_RAM_GB :: decimal where
  "DEFAULT_ADDON_RAM_GB = Dec 15 (-2)"

definition DEFAULT_ADDON_DISK_10GB :: decimal where
  "DEFAULT_ADDON_DISK_10GB = Dec 5 (-2)"

record payment_cfg =
  price_vm :: "vm_size \<Rightarrow> decimal option"
  price_vm_addon_vcpu :: "decimal option"
  price_vm_addon_ram_gb :: "decimal option"
  price_vm_addon_disk_10gb :: "decimal option"

definition getattr :: "'a option \<Rightarrow> 'a \<Rightarrow> 'a" where
  "getattr a fallback = (case a of None \<Rightarrow> fallback | Some v \<Rightarrow> v)"

lemma getattr_simps [simp]: "getattr None d = d" "getattr (Some v) d = v"
  by (simp_all add: getattr_def)

definition base_prices :: "payment_cfg \<Rightarrow> vm_size \<Rightarrow> decimal" where
  "base_prices payment sz = getattr (price_vm payment sz) (DEFAULT_BASE_PRICES sz)"

definition addon_prices :: "payment_cfg \<Rightarrow> decimal \<times> decimal \<times> decimal" where
  "addon_prices payment =
     (getattr (price_vm_addon_vcpu payment) DEFAULT_ADDON_VCPU,
      getattr (price_vm_addon_ram_gb payment) DEFAULT_ADDON_RAM_GB,
      getattr (price_vm_addon_disk_10gb payment) DEFAULT_ADDON_DISK_10GB)"

subsection \<open>Rendering money\<close>

definition ljust0 :: "nat \<Rightarrow> string \<Rightarrow> string" where
  "ljust0 n s = s @ replicate (n - length s) CHR ''0''"

definition money :: "decimal \<Rightarrow> string" where
  "money value =
     (let rendered = dec_format_f value in
      case split_once CHR ''.'' rendered of
        (_, None) \<Rightarrow> rendered @ ''.00''
      | (whole, Some fraction) \<Rightarrow> whole @ ''.'' @ ljust0 2 (rstrip_char CHR ''0'' fraction))"

record vm_customization =
  c_minimum :: resources
  c_maximum :: resources
  c_increments :: resources
  c_vcpu_usd_day :: string
  c_ram_gb_usd_day :: string
  c_disk_10gb_usd_day :: string

definition customization_contract :: "payment_cfg \<Rightarrow> vm_customization" where
  "customization_contract payment =
     (case addon_prices payment of (cpu, ram, disk) \<Rightarrow>
       \<lparr>c_minimum = MIN_RESOURCES, c_maximum = MAX_RESOURCES, c_increments = RESOURCE_INCREMENTS,
        c_vcpu_usd_day = money cpu, c_ram_gb_usd_day = money ram, c_disk_10gb_usd_day = money disk\<rparr>)"

subsection \<open>Requested resources and their validation\<close>

datatype pricing_error =
  VcpuOutOfRange | RamOutOfRange | DiskOutOfRange | RamGranularity | DiskGranularity | NoCompatibleProfile

definition resources_for_profile :: "vm_size \<Rightarrow> resources" where
  "resources_for_profile sz = VM_SPECS sz"

definition requested_resources :: "vm_create_request \<Rightarrow> resources" where
  "requested_resources order =
     (case o_resources order of Some r \<Rightarrow> r | None \<Rightarrow> resources_for_profile (o_size order))"

definition validate_new_order_resources :: "resources \<Rightarrow> pricing_error + unit" where
  "validate_new_order_resources res =
     (if \<not> (r_vcpu MIN_RESOURCES \<le> r_vcpu res \<and> r_vcpu res \<le> r_vcpu MAX_RESOURCES) then Inl VcpuOutOfRange
      else if \<not> (r_ram_mb MIN_RESOURCES \<le> r_ram_mb res \<and> r_ram_mb res \<le> r_ram_mb MAX_RESOURCES) then Inl RamOutOfRange
      else if \<not> (r_disk_gb MIN_RESOURCES \<le> r_disk_gb res \<and> r_disk_gb res \<le> r_disk_gb MAX_RESOURCES) then Inl DiskOutOfRange
      else if r_ram_mb res mod r_ram_mb RESOURCE_INCREMENTS \<noteq> 0 then Inl RamGranularity
      else if r_disk_gb res mod r_disk_gb RESOURCE_INCREMENTS \<noteq> 0 then Inl DiskGranularity
      else Inr ())"

subsection \<open>Pricing an order\<close>

record price_breakdown =
  base_profile :: vm_size
  base_label :: string
  base_price_usd_day :: string
  addon_vcpu :: int
  addon_ram_mb :: int
  addon_disk_gb :: int
  addon_vcpu_usd_day :: string
  addon_ram_usd_day :: string
  addon_disk_usd_day :: string
  daily_price_usd :: string
  b_duration_days :: int
  total_usd :: string

record priced_order =
  p_order :: vm_create_request
  p_resources :: resources
  p_daily_price :: decimal
  p_total :: decimal
  p_breakdown :: price_breakdown

type_synonym price_key = "decimal \<times> int \<times> int \<times> int"
type_synonym candidate = "price_key \<times> vm_size \<times> (int \<times> int \<times> int)"

text \<open>Python compares the candidate tuples lexicographically, decimals by value.\<close>

fun key_less :: "price_key \<Rightarrow> price_key \<Rightarrow> bool" where
  "key_less (d1, x1, u1, p1) (d2, x2, u2, p2) =
     (dec_less d1 d2 \<or> dec_eq d1 d2 \<and> (x1 < x2 \<or> x1 = x2 \<and> (u1 < u2 \<or> u1 = u2 \<and> p1 < p2)))"

interpretation price_order: key_order key_less
  by unfold_locales (auto simp: dec_less_val dec_eq_val)

definition fits :: "resources \<Rightarrow> resources \<Rightarrow> bool" where
  "fits base res \<longleftrightarrow>
     \<not> (r_vcpu base > r_vcpu res \<or> r_ram_mb base > r_ram_mb res \<or> r_disk_gb base > r_disk_gb res)"

text \<open>The daily price of a base profile plus add-ons, in the code's order of additions.\<close>

definition daily_price :: "payment_cfg \<Rightarrow> vm_size \<Rightarrow> int \<Rightarrow> int \<Rightarrow> int \<Rightarrow> decimal" where
  "daily_price payment sz a_vcpu a_ram a_disk =
     (case addon_prices payment of (cpu_rate, ram_rate, disk_rate) \<Rightarrow>
       dec_add (dec_add (dec_add (base_prices payment sz)
         (dec_mul (dec_of_int a_vcpu) cpu_rate))
         (dec_mul (dec_of_int (a_ram div 1024)) ram_rate))
         (dec_mul (dec_of_int (a_disk div 10)) disk_rate))"

definition price_candidate :: "payment_cfg \<Rightarrow> resources \<Rightarrow> int \<times> vm_size \<Rightarrow> candidate option" where
  "price_candidate payment res ps =
     (case ps of (position, sz) \<Rightarrow>
       let base = resources_for_profile sz in
       if \<not> fits base res then None
       else
         let a_vcpu = r_vcpu res - r_vcpu base;
             a_ram = r_ram_mb res - r_ram_mb base;
             a_disk = r_disk_gb res - r_disk_gb base;
             daily = daily_price payment sz a_vcpu a_ram a_disk;
             exact = (if a_vcpu \<noteq> 0 \<or> a_ram \<noteq> 0 \<or> a_disk \<noteq> 0 then 1 else 0);
             units = a_vcpu + a_ram div 1024 + a_disk div 10
         in Some ((daily, exact, units, position), sz, (a_vcpu, a_ram, a_disk)))"

definition price_candidates :: "payment_cfg \<Rightarrow> resources \<Rightarrow> candidate list" where
  "price_candidates payment res =
     collect_some (price_candidate payment res) [(0, XS), (1, SM), (2, MD), (3, LG)]"

definition price_vm_order :: "vm_create_request \<Rightarrow> payment_cfg \<Rightarrow> pricing_error + priced_order" where
  "price_vm_order order payment =
     (let res = requested_resources order in
      case validate_new_order_resources res of
        Inl e \<Rightarrow> Inl e
      | Inr _ \<Rightarrow>
        (case py_min key_less fst (price_candidates payment res) of
           None \<Rightarrow> Inl NoCompatibleProfile
         | Some (key, sz, a_vcpu, a_ram, a_disk) \<Rightarrow>
             (case addon_prices payment of (cpu_rate, ram_rate, disk_rate) \<Rightarrow>
              let daily = fst key;
                  duration = duration_days order;
                  total = dec_mul daily (dec_of_int duration)
              in Inr \<lparr>
                p_order = order\<lparr>o_size := sz, o_resources := Some res\<rparr>,
                p_resources = res,
                p_daily_price = daily,
                p_total = total,
                p_breakdown = \<lparr>
                  base_profile = sz,
                  base_label = VM_PROFILE_LABELS sz,
                  base_price_usd_day = money (base_prices payment sz),
                  addon_vcpu = a_vcpu,
                  addon_ram_mb = a_ram,
                  addon_disk_gb = a_disk,
                  addon_vcpu_usd_day = money (dec_mul (dec_of_int a_vcpu) cpu_rate),
                  addon_ram_usd_day = money (dec_mul (dec_of_int (a_ram div 1024)) ram_rate),
                  addon_disk_usd_day = money (dec_mul (dec_of_int (a_disk div 10)) disk_rate),
                  daily_price_usd = money daily,
                  b_duration_days = duration,
                  total_usd = money total\<rparr>\<rparr>)))"

subsection \<open>Snapshots and extension pricing\<close>

text \<open>A quote migrated from before customization: no add-ons, the recorded amount kept. A zero
  duration raises in the division.\<close>

definition legacy_pricing_snapshot :: "vm_create_request \<Rightarrow> decimal \<Rightarrow> price_breakdown option" where
  "legacy_pricing_snapshot order amount =
     map_option (\<lambda>daily. \<lparr>
        base_profile = o_size order, base_label = VM_PROFILE_LABELS (o_size order),
        base_price_usd_day = money daily,
        addon_vcpu = 0, addon_ram_mb = 0, addon_disk_gb = 0,
        addon_vcpu_usd_day = ''0.00'', addon_ram_usd_day = ''0.00'', addon_disk_usd_day = ''0.00'',
        daily_price_usd = money daily, b_duration_days = duration_days order,
        total_usd = money amount\<rparr>)
      (dec_div amount (dec_of_int (duration_days order)))"

definition billing_addons_from_snapshot :: "price_breakdown option \<Rightarrow> int \<times> int \<times> int" where
  "billing_addons_from_snapshot snapshot =
     (case snapshot of None \<Rightarrow> (0, 0, 0)
      | Some b \<Rightarrow> (addon_vcpu b, addon_ram_mb b, addon_disk_gb b))"

text \<open>The billing columns of a VM row: its profile and the add-ons it was sold with (nullable).\<close>

record vm_billing =
  vb_size :: vm_size
  vb_addon_vcpu :: "int option"
  vb_addon_ram_mb :: "int option"
  vb_addon_disk_gb :: "int option"

definition current_daily_price_for_vm :: "vm_billing \<Rightarrow> payment_cfg \<Rightarrow> decimal" where
  "current_daily_price_for_vm row payment =
     daily_price payment (vb_size row)
       (getattr (vb_addon_vcpu row) 0) (getattr (vb_addon_ram_mb row) 0) (getattr (vb_addon_disk_gb row) 0)"

subsection \<open>The canonical choice\<close>

lemma set_price_candidates:
  "c \<in> set (price_candidates payment res) \<longleftrightarrow>
     (\<exists>ps \<in> set [(0, XS), (1, SM), (2, MD), (3, LG)]. price_candidate payment res ps = Some c)"
  unfolding price_candidates_def by (rule set_collect_some)

lemma valid_resources_bounds:
  "validate_new_order_resources res = Inr u \<longleftrightarrow>
     1 \<le> r_vcpu res \<and> r_vcpu res \<le> 4 \<and> 1024 \<le> r_ram_mb res \<and> r_ram_mb res \<le> 8192 \<and>
     10 \<le> r_disk_gb res \<and> r_disk_gb res \<le> 40 \<and> r_ram_mb res mod 1024 = 0 \<and> r_disk_gb res mod 10 = 0"
  by (auto simp: validate_new_order_resources_def resource_limits)

lemma price_candidates_nonempty:
  assumes "validate_new_order_resources res = Inr u"
  shows "price_candidates payment res \<noteq> []"
proof -
  have "fits (resources_for_profile XS) res"
    using assms by (simp add: valid_resources_bounds fits_def resources_for_profile_def)
  then obtain c where "price_candidate payment res (0, XS) = Some c"
    by (simp add: price_candidate_def Let_def)
  then have "c \<in> set (price_candidates payment res)"
    by (auto simp: set_price_candidates)
  then show ?thesis by auto
qed

text \<open>What a successful pricing has chosen.\<close>

lemma price_vm_order_chosen:
  assumes "price_vm_order order payment = Inr r"
  obtains key sz av ar ad where
    "py_min key_less fst (price_candidates payment (requested_resources order)) = Some (key, sz, av, ar, ad)"
    "validate_new_order_resources (requested_resources order) = Inr ()"
    "p_daily_price r = fst key" "p_resources r = requested_resources order"
    "p_order r = order\<lparr>o_size := sz, o_resources := Some (requested_resources order)\<rparr>"
    "p_total r = dec_mul (fst key) (dec_of_int (duration_days order))"
    "base_profile (p_breakdown r) = sz" "addon_vcpu (p_breakdown r) = av"
    "addon_ram_mb (p_breakdown r) = ar" "addon_disk_gb (p_breakdown r) = ad"
    "total_usd (p_breakdown r) = money (p_total r)" "b_duration_days (p_breakdown r) = duration_days order"
  using assms that
  by (auto simp: price_vm_order_def Let_def addon_prices_def split: sum.splits option.splits prod.splits)

lemma price_candidate_Some:
  assumes "price_candidate payment res (pos, s) = Some (key, sz, av, ar, ad)"
  shows "s = sz \<and> fits (VM_SPECS sz) res \<and> av = r_vcpu res - r_vcpu (VM_SPECS sz) \<and>
    ar = r_ram_mb res - r_ram_mb (VM_SPECS sz) \<and> ad = r_disk_gb res - r_disk_gb (VM_SPECS sz) \<and>
    fst key = daily_price payment sz av ar ad"
proof (cases "fits (VM_SPECS s) res")
  case True
  with assms show ?thesis
    unfolding price_candidate_def Let_def resources_for_profile_def
    by (simp only: prod.case not_True_eq_False if_False option.inject prod.inject) force
next
  case False
  with assms show ?thesis
    by (simp add: price_candidate_def Let_def resources_for_profile_def)
qed

lemma price_candidate_shape:
  assumes "(key, sz, av, ar, ad) \<in> set (price_candidates payment res)"
  shows "fits (VM_SPECS sz) res \<and> av = r_vcpu res - r_vcpu (VM_SPECS sz) \<and>
    ar = r_ram_mb res - r_ram_mb (VM_SPECS sz) \<and> ad = r_disk_gb res - r_disk_gb (VM_SPECS sz) \<and>
    fst key = daily_price payment sz av ar ad"
proof -
  obtain ps where "price_candidate payment res ps = Some (key, sz, av, ar, ad)"
    using assms unfolding set_price_candidates by blast
  then show ?thesis
    by (cases ps) (simp only: price_candidate_Some)
qed

lemma price_candidate_fits:
  assumes "fits (VM_SPECS sz) res"
  shows "\<exists>key. price_candidate payment res (pos, sz)
    = Some (key, sz, r_vcpu res - r_vcpu (VM_SPECS sz), r_ram_mb res - r_ram_mb (VM_SPECS sz),
      r_disk_gb res - r_disk_gb (VM_SPECS sz))"
  using assms by (simp add: price_candidate_def Let_def resources_for_profile_def)

lemma size_position: "\<exists>pos. (pos, sz) \<in> set [(0 :: int, XS), (1, SM), (2, MD), (3, LG)]"
  by (cases sz) auto

lemma price_candidate_exists:
  assumes "fits (VM_SPECS sz) res"
  shows "\<exists>key. (key, sz, r_vcpu res - r_vcpu (VM_SPECS sz), r_ram_mb res - r_ram_mb (VM_SPECS sz),
      r_disk_gb res - r_disk_gb (VM_SPECS sz)) \<in> set (price_candidates payment res)"
proof -
  obtain pos where "(pos, sz) \<in> set [(0 :: int, XS), (1, SM), (2, MD), (3, LG)]"
    using size_position [of sz] ..
  with price_candidate_fits [OF assms, of payment pos] show ?thesis
    unfolding set_price_candidates by blast
qed

lemma priced_as_daily:
  assumes "price_vm_order order payment = Inr r"
  shows "p_daily_price r = daily_price payment (base_profile (p_breakdown r))
    (addon_vcpu (p_breakdown r)) (addon_ram_mb (p_breakdown r)) (addon_disk_gb (p_breakdown r))"
  using assms
proof (rule price_vm_order_chosen)
  fix key sz av ar ad
  assume m: "py_min key_less fst (price_candidates payment (requested_resources order)) = Some (key, sz, av, ar, ad)"
    and eqs: "p_daily_price r = fst key" "base_profile (p_breakdown r) = sz"
      "addon_vcpu (p_breakdown r) = av" "addon_ram_mb (p_breakdown r) = ar" "addon_disk_gb (p_breakdown r) = ad"
  from price_candidate_shape [OF price_order.py_min_in [OF m]] eqs show ?thesis by simp
qed

subsection \<open>Money strings read back\<close>

lemma rstrip_char_zeros: "\<exists>k. s = rstrip_char c s @ replicate k c"
proof -
  have "takeWhile (\<lambda>x. x = c) (rev s) = replicate (length (takeWhile (\<lambda>x. x = c) (rev s))) c"
    by (metis (mono_tags, lifting) replicate_length_same set_takeWhileD)
  then have "s = rstrip_char c s @ rev (replicate (length (takeWhile (\<lambda>x. x = c) (rev s))) c)"
    unfolding rstrip_char_def by (metis rev_append rev_rev_ident takeWhile_dropWhile_id)
  then show ?thesis by (metis rev_replicate)
qed

text \<open>Trailing zeros move the exponent, not the value.\<close>

lemma str_nat_zeros_val:
  "(of_nat (str_nat (s @ replicate k CHR ''0'')) :: rat) * 10 powi (- int (n + k))
     = of_nat (str_nat s) * 10 powi (- int n)"
proof -
  have "(10 :: rat) ^ k = 10 powi int k" by simp
  then have "(10 :: rat) ^ k * 10 powi (- int (n + k)) = 10 powi (int k + - int (n + k))"
    by (metis power_int_add zero_neq_numeral)
  also have "int k + - int (n + k) = - int n" by simp
  finally have "(10 :: rat) ^ k * 10 powi (- int (n + k)) = 10 powi (- int n)" .
  then show ?thesis by (simp add: str_nat_append mult.assoc)
qed

lemma dec_format_f_nonneg:
  assumes "0 \<le> coeff d"
  shows "(0 \<le> expo d \<and> dec_format_f d = nat_str (nat (coeff d) * 10 ^ nat (expo d))) \<or>
    (expo d < 0 \<and> (\<exists>w f. dec_format_f d = w @ CHR ''.'' # f \<and> w \<noteq> [] \<and> list_all is_digit (w @ f) \<and>
      int (length f) = - expo d \<and> str_nat (w @ f) = nat (coeff d)))"
proof (cases "0 \<le> expo d")
  case True
  with assms show ?thesis by (simp add: dec_format_f_def)
next
  case False
  define k where "k = nat (- expo d)"
  define ds where "ds = nat_str (nat (coeff d))"
  define padded where "padded = replicate (Suc k - length ds) CHR ''0'' @ ds"
  have len: "k < length padded" by (auto simp: padded_def)
  have dig: "list_all is_digit padded"
    using nat_str_digits [of "nat (coeff d)"] by (auto simp: padded_def ds_def list_all_iff is_digit_def)
  have val: "str_nat padded = nat (coeff d)"
    by (simp add: padded_def ds_def str_nat_append)
  let ?w = "take (length padded - k) padded" and ?f = "drop (length padded - k) padded"
  have "dec_format_f d = ?w @ CHR ''.'' # ?f"
    using assms False by (simp add: dec_format_f_def Let_def k_def ds_def padded_def)
  moreover have "?w \<noteq> []" using len by auto
  moreover have "int (length ?f) = - expo d" using len False by (simp add: k_def)
  ultimately show ?thesis using False dig val
    by (metis append_take_drop_id not_le_imp_less)
qed

lemma rstrip_char_digits: "list_all P s \<Longrightarrow> list_all P (rstrip_char c s)"
  by (auto simp: rstrip_char_def list_all_iff dest: set_dropWhileD)

text \<open>The fraction a money string shows: the rendered one with trailing zeros moved or added.\<close>

lemma money_fraction_val:
  "(of_nat (str_nat (w @ ljust0 n (rstrip_char CHR ''0'' f))) :: rat)
      * 10 powi (- int (length (ljust0 n (rstrip_char CHR ''0'' f))))
   = of_nat (str_nat (w @ f)) * 10 powi (- int (length f))"
proof -
  let ?g = "rstrip_char CHR ''0'' f"
  obtain k where f: "f = ?g @ replicate k CHR ''0''"
    using rstrip_char_zeros [of f "CHR ''0''"] by blast
  then have "length f = length ?g + k" by (metis length_append length_replicate)
  then have "(of_nat (str_nat (w @ f)) :: rat) * 10 powi (- int (length f))
      = of_nat (str_nat (w @ ?g)) * 10 powi (- int (length ?g))"
    by (metis f append.assoc str_nat_zeros_val)
  moreover have "(of_nat (str_nat (w @ ljust0 n ?g)) :: rat) * 10 powi (- int (length (ljust0 n ?g)))
      = of_nat (str_nat (w @ ?g)) * 10 powi (- int (length ?g))"
    unfolding ljust0_def
    by (metis append.assoc length_append length_replicate str_nat_zeros_val)
  ultimately show ?thesis by simp
qed

lemma parse_fraction:
  assumes "list_all is_digit (w @ f)" "w \<noteq> []"
  shows "parse_decimal (w @ CHR ''.'' # f) = Some (Dec (int (str_nat (w @ f))) (- int (length f)))"
  using assms by (auto simp: parse_decimal_def split_once_present dot_not_digit list_all_iff)

lemma money_parses:
  assumes "0 \<le> coeff d"
  shows "\<exists>q. parse_decimal (money d) = Some q \<and> dec_val q = dec_val d"
  using dec_format_f_nonneg [OF assms]
proof (elim disjE conjE exE)
  assume e: "0 \<le> expo d" and r: "dec_format_f d = nat_str (nat (coeff d) * 10 ^ nat (expo d))"
  let ?w = "nat_str (nat (coeff d) * 10 ^ nat (expo d))"
  have m: "money d = ?w @ CHR ''.'' # ''00''"
    by (simp add: money_def r split_once_absent dot_not_digit)
  have "list_all is_digit (?w @ ''00'')" by (simp add: is_digit_def)
  then have "parse_decimal (money d) = Some (Dec (int (str_nat (?w @ ''00''))) (- 2))"
    unfolding m by (simp add: parse_fraction)
  moreover have "str_nat ''00'' = 0" by (simp add: str_nat_def)
  then have "int (str_nat (?w @ ''00'')) = coeff d * 10 ^ nat (expo d) * 100"
    using assms by (simp add: str_nat_append)
  moreover have "(10 :: rat) ^ nat (expo d) = 10 powi expo d"
    using e by (simp add: power_int_def)
  ultimately show ?thesis by (simp add: dec_val_def power_int_def power2_eq_square)
next
  fix w f
  assume e: "expo d < 0" and r: "dec_format_f d = w @ CHR ''.'' # f" and w: "w \<noteq> []"
    and dig: "list_all is_digit (w @ f)" and l: "int (length f) = - expo d"
    and v: "str_nat (w @ f) = nat (coeff d)"
  let ?g = "ljust0 2 (rstrip_char CHR ''0'' f)"
  have m: "money d = w @ CHR ''.'' # ?g"
    using dig by (simp add: money_def r split_once_present dot_not_digit)
  have "list_all is_digit ?g"
    using dig rstrip_char_digits [of is_digit f "CHR ''0''"]
    by (auto simp: ljust0_def list_all_iff is_digit_def)
  with dig w have p: "parse_decimal (money d) = Some (Dec (int (str_nat (w @ ?g))) (- int (length ?g)))"
    unfolding m by (intro parse_fraction) simp_all
  have "dec_val (Dec (int (str_nat (w @ ?g))) (- int (length ?g)))
      = of_nat (str_nat (w @ f)) * 10 powi (- int (length f))"
    using money_fraction_val [of w 2 f] by (simp add: dec_val_def)
  also have "\<dots> = dec_val d"
    using assms e l v by (simp add: dec_val_def)
  finally show ?thesis using p by blast
qed

subsection \<open>Properties\<close>

lemma price_vm_order_ok:
  assumes "validate_new_order_resources (requested_resources order) = Inr u"
  shows "\<exists>r. price_vm_order order payment = Inr r"
proof -
  have "py_min key_less fst (price_candidates payment (requested_resources order)) \<noteq> None"
    using price_candidates_nonempty [OF assms] by simp
  then obtain key sz av ar ad where
    "py_min key_less fst (price_candidates payment (requested_resources order)) = Some (key, sz, av, ar, ad)"
    by (metis not_None_eq prod_cases5)
  with assms show ?thesis
    by (simp add: price_vm_order_def Let_def addon_prices_def)
qed

text \<open>An order is priced exactly when its resources pass validation; the error is then the
  validation's own, and the "no compatible profile" branch is unreachable.\<close>

theorem price_vm_order_total:
  "(case validate_new_order_resources (requested_resources order) of
      Inl e \<Rightarrow> price_vm_order order payment = Inl e
    | Inr _ \<Rightarrow> (\<exists>r. price_vm_order order payment = Inr r))"
  by (auto simp: price_vm_order_ok split: sum.splits) (simp add: price_vm_order_def)


definition demo_order :: vm_create_request where
  "demo_order = \<lparr>duration_days = 30, o_size = SM,
     o_resources = Some \<lparr>r_vcpu = 2, r_ram_mb = 4096, r_disk_gb = 30\<rparr>,
     o_os = ''debian-13'', o_ssh_pubkey = ''ssh-ed25519 AAAA'', o_domain_mode = AUTO, o_domain = None,
     o_open_ports = [80, 443], o_setup_script = None, o_quote_id = None\<rparr>"

definition demo_cfg :: payment_cfg where
  "demo_cfg = \<lparr>price_vm = (\<lambda>_. None), price_vm_addon_vcpu = None, price_vm_addon_ram_gb = None,
     price_vm_addon_disk_10gb = None\<rparr>"


lemma demo_priced: "price_vm_order demo_order demo_cfg = Inr (projr (price_vm_order demo_order demo_cfg))"
proof -
  have "validate_new_order_resources (requested_resources demo_order) = Inr ()" by code_simp
  then obtain r where "price_vm_order demo_order demo_cfg = Inr r"
    using price_vm_order_ok by blast
  then show ?thesis by simp
qed


text \<open>Two orders for the same final resources and duration get the same price, profile and
  breakdown, whatever profile each of them named.\<close>

lemma price_depends_on_resources_only:
  assumes "requested_resources o1 = requested_resources o2" "duration_days o1 = duration_days o2"
    and "price_vm_order o1 payment = Inr r1"
  shows "\<exists>r2. price_vm_order o2 payment = Inr r2 \<and> p_daily_price r2 = p_daily_price r1 \<and>
    p_total r2 = p_total r1 \<and> p_breakdown r2 = p_breakdown r1 \<and> p_resources r2 = p_resources r1"
  using assms
  by (auto simp: price_vm_order_def Let_def addon_prices_def split: sum.splits option.splits prod.splits)

lemma price_depends_on_resources_only_witness:
  "\<exists>r2. price_vm_order (demo_order\<lparr>o_size := XS\<rparr>) demo_cfg = Inr r2 \<and>
     p_total r2 = p_total (projr (price_vm_order demo_order demo_cfg))"
proof -
  have "requested_resources demo_order = requested_resources (demo_order\<lparr>o_size := XS\<rparr>)"
    by (simp add: requested_resources_def demo_order_def)
  from price_depends_on_resources_only [OF this _ demo_priced] show ?thesis by auto
qed

text \<open>Rebasing is idempotent: pricing the canonical order again gives the same result, so a
  stored canonical order is never rebound.\<close>

lemma price_vm_order_idempotent:
  assumes "price_vm_order order payment = Inr r"
  shows "price_vm_order (p_order r) payment = Inr r"
  using assms
  by (auto simp: price_vm_order_def requested_resources_def Let_def addon_prices_def
      split: sum.splits option.splits prod.splits)

lemma price_vm_order_idempotent_witness:
  "price_vm_order (p_order (projr (price_vm_order demo_order demo_cfg))) demo_cfg
     = Inr (projr (price_vm_order demo_order demo_cfg))"
  by (rule price_vm_order_idempotent [OF demo_priced])

text \<open>Extending a VM is billed like creating it: under unchanged prices, the daily price computed
  from the add-ons recorded in the order's snapshot is the daily price of the order.\<close>

lemma extension_price_matches_order:
  assumes "price_vm_order order payment = Inr r"
  shows "case billing_addons_from_snapshot (Some (p_breakdown r)) of (av, ar, ad) \<Rightarrow>
    current_daily_price_for_vm \<lparr>vb_size = o_size (p_order r), vb_addon_vcpu = Some av,
      vb_addon_ram_mb = Some ar, vb_addon_disk_gb = Some ad\<rparr> payment = p_daily_price r"
proof -
  have "o_size (p_order r) = base_profile (p_breakdown r)"
    using assms by (rule price_vm_order_chosen) simp
  with assms show ?thesis
    by (simp add: current_daily_price_for_vm_def billing_addons_from_snapshot_def priced_as_daily)
qed

lemma extension_price_matches_order_witness:
  "case billing_addons_from_snapshot (Some (p_breakdown (projr (price_vm_order demo_order demo_cfg)))) of
     (av, ar, ad) \<Rightarrow>
    current_daily_price_for_vm \<lparr>vb_size = o_size (p_order (projr (price_vm_order demo_order demo_cfg))),
      vb_addon_vcpu = Some av, vb_addon_ram_mb = Some ar, vb_addon_disk_gb = Some ad\<rparr> demo_cfg
    = p_daily_price (projr (price_vm_order demo_order demo_cfg))"
  by (rule extension_price_matches_order [OF demo_priced])

text \<open>A price rendered for the API and stored in a snapshot reads back as the same amount.\<close>

lemma money_roundtrip:
  assumes "0 \<le> coeff value"
  shows "\<exists>q. parse_decimal (money value) = Some q \<and> dec_eq q value"
  using money_parses [OF assms] by (simp add: dec_eq_val)

lemma money_roundtrip_witness:
  "money (Dec 12500 (-4)) = ''1.25'' \<and> (\<exists>q. parse_decimal (money (Dec 12500 (-4))) = Some q \<and> dec_eq q (Dec 12500 (-4)))"
proof -
  have "money (Dec 12500 (-4)) = ''1.25''"
    by (simp add: money_def dec_format_f_def split_once_def nat_str_eval digit_chr_def Let_def ljust0_def rstrip_char_def)
  then show ?thesis using money_roundtrip [of "Dec 12500 (-4)"] by simp
qed

end
