(* ===== verification/Ledger.thy ===== *)
theory Ledger
  imports Py_Decimal
begin

text \<open>
  \<^verbatim>\<open>hyrule_cloud/services/payments_ledger.py\<close> and \<^verbatim>\<open>services/refunds.py\<close>: the append-only table of
  payment events and the refund obligations written to it. The random \<^verbatim>\<open>uuid4\<close> primary key is an
  argument; whether the database session commits is the argument \<open>ok\<close> of the writing operations.
\<close>

subsection \<open>Service groups\<close>

definition service_groups :: "(string \<times> string) list" where
  "service_groups = [
     (''/v1/vm'', ''vm''), (''/v1/domains'', ''domain''), (''/v1/domain'', ''domain''),
     (''/v1/zone'', ''domain''), (''/v1/network'', ''network_proxy''), (''/v1/bgp'', ''network_intel''),
     (''/v1/ip'', ''network_intel''), (''/v1/dns'', ''network_intel''), (''/v1/rdap'', ''network_intel''),
     (''/v1/whois'', ''network_intel''), (''/v1/web'', ''network_intel''), (''/v1/mx'', ''network_intel''),
     (''/v1/path'', ''network_intel''), (''/v1/ports'', ''network_intel''), (''/v1/nat'', ''network_intel''),
     (''/v1/threat'', ''network_intel''), (''/v1/voip'', ''network_intel''),
     (''/v1/speedtest'', ''network_intel''), (''/v1/mail'', ''mail'')]"

definition prefix_matches :: "string \<Rightarrow> string \<Rightarrow> bool" where
  "prefix_matches path pfx \<longleftrightarrow> path = pfx \<or> startswith path (pfx @ ''/'')"

fun group_in :: "(string \<times> string) list \<Rightarrow> string \<Rightarrow> string" where
  "group_in [] path = ''other''"
| "group_in ((pfx, grp) # rest) path =
     (if prefix_matches path pfx then grp else group_in rest path)"

definition service_group_for_path :: "string \<Rightarrow> string" where
  "service_group_for_path path = group_in service_groups path"

subsection \<open>Events\<close>

record payment_event =
  ev_id :: string
  ev_type :: string
  ev_path :: string
  ev_method :: string
  ev_group :: string
  ev_amount :: "decimal option"
  ev_network :: "string option"
  ev_asset :: "string option"
  ev_payer :: "string option"
  ev_tx :: "string option"
  ev_facilitator :: "string option"
  ev_error :: "string option"
  ev_extra :: "(string \<times> string option) list option"
  ev_actor :: "string option"

text \<open>The keyword arguments of the three entry points, with their defaults in \<open>blank_fields\<close>.\<close>

record event_fields =
  f_type :: string
  f_path :: string
  f_method :: string
  f_amount :: "decimal option"
  f_network :: "string option"
  f_asset :: "string option"
  f_payer :: "string option"
  f_tx :: "string option"
  f_facilitator :: "string option"
  f_error :: "string option"
  f_extra :: "(string \<times> string option) list option"
  f_actor :: "string option"

definition blank_fields :: event_fields where
  "blank_fields = \<lparr>f_type = [], f_path = [], f_method = [], f_amount = None, f_network = None,
     f_asset = None, f_payer = None, f_tx = None, f_facilitator = None, f_error = None,
     f_extra = None, f_actor = None\<rparr>"

definition none_if_empty :: "string option \<Rightarrow> string option" where
  "none_if_empty s = (if truthy s then s else None)"

definition build_event :: "string \<Rightarrow> event_fields \<Rightarrow> payment_event" where
  "build_event uid f = \<lparr>
     ev_id = uid, ev_type = f_type f, ev_path = take 256 (f_path f), ev_method = take 8 (f_method f),
     ev_group = service_group_for_path (f_path f), ev_amount = f_amount f, ev_network = f_network f,
     ev_asset = f_asset f, ev_payer = f_payer f, ev_tx = none_if_empty (f_tx f),
     ev_facilitator = f_facilitator f,
     ev_error = (if truthy (f_error f) then map_option (take 256) (f_error f) else None),
     ev_extra = f_extra f, ev_actor = f_actor f\<rparr>"

type_synonym ledger = "payment_event list"

datatype ledger_exn = LedgerWriteFailed

text \<open>A failed write is logged and swallowed unless the caller asked for it to be required.\<close>

definition record_event :: "bool \<Rightarrow> string \<Rightarrow> event_fields \<Rightarrow> bool \<Rightarrow> ledger \<Rightarrow> ledger \<times> ledger_exn option" where
  "record_event ok uid f required l =
     (if ok then (l @ [build_event uid f], None)
      else (l, if required then Some LedgerWriteFailed else None))"

definition ledger_record ::
    "bool \<Rightarrow> string \<Rightarrow> string \<Rightarrow> string \<Rightarrow> event_fields \<Rightarrow> bool \<Rightarrow> ledger \<Rightarrow> ledger \<times> ledger_exn option" where
  "ledger_record ok uid url_path method f required l =
     record_event ok uid (f\<lparr>f_path := url_path, f_method := method\<rparr>) required l"

subsection \<open>Refund obligations\<close>

definition REFUND_OWED_EVENT :: string where
  "REFUND_OWED_EVENT = ''refund_owed''"

record owed_fields =
  w_path :: string
  w_payer :: "string option"
  w_amount :: "decimal option"
  w_tx :: "string option"
  w_reason :: string
  w_network :: "string option"
  w_asset :: "string option"
  w_vm_id :: "string option"
  w_extra :: "(string \<times> string option) list"

text \<open>Something is owed when there is a payer and a positive amount.\<close>

definition is_owed :: "owed_fields \<Rightarrow> bool" where
  "is_owed w \<longleftrightarrow> truthy (w_payer w) \<and>
     (case w_amount w of None \<Rightarrow> False | Some a \<Rightarrow> \<not> dec_le a (Dec 0 0))"

text \<open>\<^verbatim>\<open>dict.update\<close> on the association list of extra fields: a key already present is overwritten.\<close>

fun dict_update :: "(string \<times> 'a) list \<Rightarrow> (string \<times> 'a) list \<Rightarrow> (string \<times> 'a) list" where
  "dict_update d [] = d"
| "dict_update d ((k, v) # kvs) =
     dict_update (if k \<in> fst ` set d then map (\<lambda>(k', v'). if k' = k then (k, v) else (k', v')) d
                  else d @ [(k, v)]) kvs"

definition owed_event_fields :: "owed_fields \<Rightarrow> event_fields" where
  "owed_event_fields w = blank_fields\<lparr>
     f_type := REFUND_OWED_EVENT, f_path := w_path w, f_amount := w_amount w, f_network := w_network w,
     f_asset := w_asset w, f_payer := w_payer w, f_tx := none_if_empty (w_tx w),
     f_error := Some (w_reason w),
     f_extra := Some (dict_update [(''vm_id'', w_vm_id w), (''original_tx'', w_tx w)] (w_extra w))\<rparr>"

text \<open>\<open>wired\<close>: whether a ledger is configured. The result says whether an obligation exists.\<close>

definition record_owed :: "bool \<Rightarrow> bool \<Rightarrow> string \<Rightarrow> owed_fields \<Rightarrow> ledger \<Rightarrow> bool \<times> ledger" where
  "record_owed wired ok uid w l =
     (if \<not> is_owed w then (False, l)
      else (True, if wired then fst (record_event ok uid (owed_event_fields w) False l) else l))"

definition build_owed_event :: "bool \<Rightarrow> string \<Rightarrow> owed_fields \<Rightarrow> payment_event option" where
  "build_owed_event wired uid w =
     (if \<not> is_owed w then None
      else if \<not> wired then None
      else Some (build_event uid (owed_event_fields w)))"

definition owed_to :: "ledger \<Rightarrow> string \<Rightarrow> payment_event list" where
  "owed_to l payer = filter (\<lambda>e. ev_type e = REFUND_OWED_EVENT \<and> ev_payer e = Some payer) l"

subsection \<open>Facts the clients use\<close>

lemma build_event_fields [simp]:
  "ev_type (build_event uid f) = f_type f" "ev_payer (build_event uid f) = f_payer f"
  "ev_amount (build_event uid f) = f_amount f" "ev_network (build_event uid f) = f_network f"
  "ev_asset (build_event uid f) = f_asset f" "ev_tx (build_event uid f) = none_if_empty (f_tx f)"
  "ev_actor (build_event uid f) = f_actor f"
  by (simp_all add: build_event_def)

lemma owed_event_fields_simps [simp]:
  "f_type (owed_event_fields w) = REFUND_OWED_EVENT" "f_payer (owed_event_fields w) = w_payer w"
  "f_amount (owed_event_fields w) = w_amount w" "f_network (owed_event_fields w) = w_network w"
  "f_asset (owed_event_fields w) = w_asset w"
  by (simp_all add: owed_event_fields_def)

lemma owed_to_append [simp]: "owed_to (l @ m) p = owed_to l p @ owed_to m p"
  by (simp add: owed_to_def)

lemma owed_to_Nil [simp]: "owed_to [] p = []"
  by (simp add: owed_to_def)

lemma owed_to_single:
  "owed_to [e] p = (if ev_type e = REFUND_OWED_EVENT \<and> ev_payer e = Some p then [e] else [])"
  by (simp add: owed_to_def)

lemma build_owed_event_Some:
  "build_owed_event wired uid w = Some e \<longleftrightarrow>
     is_owed w \<and> wired \<and> e = build_event uid (owed_event_fields w)"
  by (auto simp: build_owed_event_def)

subsection \<open>Path prefixes are disjoint\<close>

lemma prefix_matches_segment:
  assumes "CHR ''/'' \<notin> set seg" "prefix_matches path (''/v1/'' @ seg)"
  shows "takeWhile (\<lambda>c. c \<noteq> CHR ''/'') (drop 4 path) = seg"
proof -
  have tw: "takeWhile (\<lambda>c. c \<noteq> CHR ''/'') seg = seg"
    using assms(1) by (simp add: takeWhile_eq_all_conv) blast
  from assms(2) obtain t where "path = ''/v1/'' @ seg \<or> path = ''/v1/'' @ seg @ CHR ''/'' # t"
    by (auto simp: prefix_matches_def startswith_iff)
  then show ?thesis
  proof
    assume "path = ''/v1/'' @ seg"
    with tw show ?thesis by simp
  next
    assume p: "path = ''/v1/'' @ seg @ CHR ''/'' # t"
    have "takeWhile (\<lambda>c. c \<noteq> CHR ''/'') (seg @ CHR ''/'' # t) = seg"
      using assms(1) by (subst takeWhile_append2) auto
    with p show ?thesis by simp
  qed
qed

lemma service_group_prefix_shape:
  "pg \<in> set service_groups \<Longrightarrow> \<exists>seg. fst pg = ''/v1/'' @ seg \<and> CHR ''/'' \<notin> set seg"
  by (auto simp: service_groups_def)

lemma service_groups_one_match:
  assumes "pg \<in> set service_groups" "qh \<in> set service_groups"
    and "prefix_matches path (fst pg)" "prefix_matches path (fst qh)"
  shows "fst pg = fst qh"
proof -
  obtain s t where "fst pg = ''/v1/'' @ s" "CHR ''/'' \<notin> set s" "fst qh = ''/v1/'' @ t" "CHR ''/'' \<notin> set t"
    using assms(1,2) service_group_prefix_shape by metis
  with assms(3,4) have "s = t" by (metis prefix_matches_segment)
  with \<open>fst pg = _\<close> \<open>fst qh = _\<close> show ?thesis by simp
qed

lemma group_in_match:
  "(p, g) \<in> set table \<Longrightarrow> prefix_matches path p \<Longrightarrow>
   \<forall>(q, h) \<in> set table. prefix_matches path q \<longrightarrow> h = g \<Longrightarrow> group_in table path = g"
proof (induction table)
  case (Cons x table)
  then show ?case by (cases x) (auto split: if_splits)
qed simp

lemma group_in_no_match:
  "\<forall>(q, h) \<in> set table. \<not> prefix_matches path q \<Longrightarrow> group_in table path = ''other''"
proof (induction table)
  case (Cons x table)
  then show ?case by (cases x) auto
qed simp

lemma service_groups_distinct: "distinct (map fst service_groups)"
  by (simp add: service_groups_def)

text \<open>The order of the prefix table does not matter: any reordering of it assigns every path the
  same service group, because no path matches two prefixes.\<close>

lemma service_group_order_irrelevant:
  assumes "set table = set service_groups"
  shows "group_in table path = service_group_for_path path"
proof (cases "\<exists>p g. (p, g) \<in> set service_groups \<and> prefix_matches path p")
  case True
  then obtain p g where pg: "(p, g) \<in> set service_groups" "prefix_matches path p" by blast
  have uniq: "h = g" if "(q, h) \<in> set service_groups" "prefix_matches path q" for q h
  proof -
    have "q = p" using service_groups_one_match [OF that(1) pg(1)] that(2) pg(2) by simp
    with that(1) pg(1) service_groups_distinct show ?thesis
      by (metis eq_key_imp_eq_value)
  qed
  then have "\<forall>(q, h) \<in> set service_groups. prefix_matches path q \<longrightarrow> h = g" by blast
  with pg assms show ?thesis
    unfolding service_group_for_path_def by (metis group_in_match)
next
  case False
  then have "\<forall>(q, h) \<in> set service_groups. \<not> prefix_matches path q" by blast
  with assms show ?thesis
    unfolding service_group_for_path_def by (metis group_in_no_match)
qed

lemma service_group_order_irrelevant_witness:
  "group_in (rev service_groups) ''/v1/domains/orders'' = service_group_for_path ''/v1/domains/orders''"
  using service_group_order_irrelevant [of "rev service_groups"] by simp

text \<open>A refund obligation is recorded exactly for a known payer and a positive amount; it names that
  payer, amount, network and asset, and nothing else in the ledger changes. A ledger write that
  fails never reaches the caller.\<close>

theorem record_owed_spec:
  "record_owed wired ok uid w l =
     (is_owed w,
      if is_owed w \<and> wired \<and> ok then l @ [build_event uid (owed_event_fields w)] else l) \<and>
   (let e = build_event uid (owed_event_fields w) in
      ev_type e = REFUND_OWED_EVENT \<and> ev_payer e = w_payer w \<and> ev_amount e = w_amount w \<and>
      ev_network e = w_network w \<and> ev_asset e = w_asset w \<and> ev_tx e = none_if_empty (w_tx w))"
  by (simp add: record_owed_def record_event_def Let_def owed_event_fields_def none_if_empty_def)

end
