(* ===== verification/Quotes.thy ===== *)
theory Quotes
  imports Models Vm_Pricing
begin

text \<open>
  \<^verbatim>\<open>hyrule_cloud/services/quotes.py\<close>: durable order quotes. The table \<^verbatim>\<open>vm_quotes\<close> is shared by all
  processes; \<^verbatim>\<open>_claimed_quote_ids\<close> is one set per process. Every function that takes the per-quote
  lock runs as one step; the pre-insert check of \<^verbatim>\<open>create_quote\<close> and its insert are two transactions,
  so they see two database states.
\<close>

subsection \<open>State\<close>

record quote_row =
  q_payload :: vm_create_request
  q_amount_usd :: decimal
  q_snapshot :: "price_breakdown option"
  q_status :: quote_status
  q_client_order_id :: "string option"
  q_owner :: "string option"
  q_vm_id :: "string option"
  q_expires_at :: py_datetime

type_synonym quote_table = "string \<rightharpoonup> quote_row"

definition QUOTE_TTL :: int where
  "QUOTE_TTL = minutes 60"

text \<open>The stored specification leaves out the create-time binding to a quote.\<close>

definition payload_json :: "vm_create_request \<Rightarrow> vm_create_request" where
  "payload_json order_payload = order_payload\<lparr>o_quote_id := None\<rparr>"

definition is_expired :: "quote_row \<Rightarrow> int \<Rightarrow> bool" where
  "is_expired row now \<longleftrightarrow> utc (q_expires_at row) < now"

subsection \<open>Creation\<close>

datatype create_result =
  QCreated string quote_row
| QExists string quote_row       \<comment> \<open>\<open>QuoteExistsError\<close>: idempotent replay\<close>
| QConflict string quote_row     \<comment> \<open>\<open>QuoteConflictError\<close>: the key is bound to another spec\<close>
| QIntegrityError                \<comment> \<open>the insert's own error, re-raised\<close>

definition existing_error :: "string \<times> quote_row \<Rightarrow> vm_create_request \<Rightarrow> create_result" where
  "existing_error ex payload =
     (if q_payload (snd ex) = payload then QExists (fst ex) (snd ex) else QConflict (fst ex) (snd ex))"

text \<open>\<^verbatim>\<open>SELECT ... WHERE client_order_id = k\<close>; the unique index leaves at most one row.\<close>

definition has_key :: "string \<Rightarrow> quote_table \<Rightarrow> string \<Rightarrow> bool" where
  "has_key k t i \<longleftrightarrow> (case t i of None \<Rightarrow> False | Some r \<Rightarrow> q_client_order_id r = Some k)"

definition unique_keys :: "quote_table \<Rightarrow> bool" where
  "unique_keys t \<longleftrightarrow> (\<forall>i j k. has_key k t i \<and> has_key k t j \<longrightarrow> i = j)"

text \<open>
  The lookup by key is the parameter \<open>lookup\<close>: which row, if any, a scan of the table finds.
  \<open>scan_of\<close> says that it is a scan of the given table.
\<close>

type_synonym key_lookup = "quote_table \<Rightarrow> string \<Rightarrow> string option"

definition scan_of :: "key_lookup \<Rightarrow> quote_table \<Rightarrow> bool" where
  "scan_of lookup t \<longleftrightarrow>
     (\<forall>k i. lookup t k = Some i \<longrightarrow> has_key k t i) \<and> (\<forall>k i. has_key k t i \<longrightarrow> lookup t k \<noteq> None)"

definition select_by_key :: "key_lookup \<Rightarrow> quote_table \<Rightarrow> string \<Rightarrow> (string \<times> quote_row) option" where
  "select_by_key lookup t k =
     (case lookup t k of None \<Rightarrow> None | Some i \<Rightarrow> map_option (\<lambda>r. (i, r)) (t i))"

record quote_args =
  qa_payload :: vm_create_request
  qa_amount :: decimal
  qa_snapshot :: price_breakdown
  qa_key :: "string option"
  qa_owner :: "string option"

definition new_quote_row :: "quote_args \<Rightarrow> int \<Rightarrow> quote_row" where
  "new_quote_row a now = \<lparr>
     q_payload = payload_json (qa_payload a), q_amount_usd = qa_amount a, q_snapshot = Some (qa_snapshot a),
     q_status = Q_CREATED, q_client_order_id = qa_key a, q_owner = qa_owner a, q_vm_id = None,
     q_expires_at = Aware (now + QUOTE_TTL) 0\<rparr>"

text \<open>An insert violates a constraint when the primary key or a non-null order key is taken.\<close>

definition insert_conflicts :: "key_lookup \<Rightarrow> quote_table \<Rightarrow> string \<Rightarrow> string option \<Rightarrow> bool" where
  "insert_conflicts lookup t qid key \<longleftrightarrow>
     t qid \<noteq> None \<or> (case key of None \<Rightarrow> False | Some k \<Rightarrow> lookup t k \<noteq> None)"

text \<open>
  \<open>t1\<close> is the database at the pre-insert check, \<open>t2\<close> at the insert; \<open>qid\<close> is the generated id.
\<close>

definition create_quote ::
    "key_lookup \<Rightarrow> quote_args \<Rightarrow> string \<Rightarrow> int \<Rightarrow> quote_table \<Rightarrow> quote_table \<Rightarrow> create_result \<times> quote_table" where
  "create_quote lookup a qid now t1 t2 =
     (let payload = payload_json (qa_payload a);
          pre = (if truthy (qa_key a) then select_by_key lookup t1 (the (qa_key a)) else None)
      in case pre of
           Some ex \<Rightarrow> (existing_error ex payload, t2)
         | None \<Rightarrow>
           let row = new_quote_row a now in
           if \<not> insert_conflicts lookup t2 qid (qa_key a) then (QCreated qid row, t2(qid \<mapsto> row))
           else
             let won = (if truthy (qa_key a) then select_by_key lookup t2 (the (qa_key a)) else None)
             in (case won of Some ex \<Rightarrow> existing_error ex payload | None \<Rightarrow> QIntegrityError, t2))"

definition get_quote :: "quote_table \<Rightarrow> string \<Rightarrow> quote_row option" where
  "get_quote t qid = t qid"

subsection \<open>Claim, release, link\<close>

text \<open>A process sees the shared table and its own set of claimed ids.\<close>

definition claim_quote :: "string \<Rightarrow> string set \<Rightarrow> quote_table \<Rightarrow> bool \<times> string set \<times> quote_table" where
  "claim_quote qid claimed t =
     (if qid \<in> claimed then (False, claimed, t)
      else
        let (t', rowcount) = update_where qid (\<lambda>r. q_status r = Q_CREATED) (\<lambda>r. r\<lparr>q_status := Q_CONSUMED\<rparr>) t;
            won = (rowcount = 1)
        in (won, if won then insert qid claimed else claimed, t'))"

definition release_quote_claim :: "string \<Rightarrow> string set \<Rightarrow> quote_table \<Rightarrow> bool \<times> string set \<times> quote_table" where
  "release_quote_claim qid claimed t =
     (let (t', rowcount) = update_where qid (\<lambda>r. q_status r = Q_CONSUMED \<and> q_vm_id r = None)
            (\<lambda>r. r\<lparr>q_status := Q_CREATED\<rparr>) t;
          released = (rowcount = 1)
      in (released, if released then claimed - {qid} else claimed, t'))"

definition link_quote_vm :: "string \<Rightarrow> string \<Rightarrow> quote_table \<Rightarrow> quote_table" where
  "link_quote_vm qid vm t = fst (update_where qid (\<lambda>r. True) (\<lambda>r. r\<lparr>q_vm_id := Some vm\<rparr>) t)"

subsection \<open>The claim interface\<close>

text \<open>
  What a payment path relies on: a won claim consumed a created quote, a lost one changed nothing,
  and claims on other quotes do not interfere. The state \<open>'s\<close> is whatever the claimer sees.
\<close>

locale claim_store =
  fixes claim :: "string \<Rightarrow> 's \<Rightarrow> bool \<times> 's"
    and open_for :: "'s \<Rightarrow> string \<Rightarrow> bool"
  assumes claim_won: "claim q s = (True, s') \<Longrightarrow> open_for s q \<and> \<not> open_for s' q"
    and claim_lost: "claim q s = (False, s') \<Longrightarrow> s' = s"
    and claim_other: "claim q s = (w, s') \<Longrightarrow> p \<noteq> q \<Longrightarrow> open_for s' p = open_for s p"
begin

fun claim_run :: "string list \<Rightarrow> 's \<Rightarrow> bool list \<times> 's" where
  "claim_run [] s = ([], s)"
| "claim_run (q # qs) s =
     (let (w, s') = claim q s; (ws, s'') = claim_run qs s' in (w # ws, s''))"

definition wins :: "string \<Rightarrow> string list \<Rightarrow> bool list \<Rightarrow> nat" where
  "wins q qs ws = length (filter (\<lambda>(p, w). p = q \<and> w) (zip qs ws))"

lemma claim_closed: "\<not> open_for s q \<Longrightarrow> claim q s = (False, s)"
proof (cases "claim q s")
  case (Pair w s')
  assume "\<not> open_for s q"
  with Pair show ?thesis
    by (cases w) (auto dest: claim_won claim_lost)
qed

lemma claim_stays_closed: "\<not> open_for s q \<Longrightarrow> claim p s = (w, s') \<Longrightarrow> \<not> open_for s' q"
  by (cases "p = q") (auto simp: claim_closed dest: claim_other)

lemma claim_run_closed: "\<not> open_for s q \<Longrightarrow> wins q qs (fst (claim_run qs s)) = 0"
proof (induction qs arbitrary: s)
  case (Cons p qs)
  obtain w s' where c: "claim p s = (w, s')" by fastforce
  from Cons.prems c have "\<not> open_for s' q" by (rule claim_stays_closed)
  then have ih: "wins q qs (fst (claim_run qs s')) = 0" by (rule Cons.IH)
  have "p = q \<Longrightarrow> \<not> w" using Cons.prems c by (auto simp: claim_closed)
  with c ih show ?case by (auto simp: wins_def split: prod.splits)
qed (simp add: wins_def)

text \<open>Any sequence of claims wins each quote at most once.\<close>

lemma claim_run_at_most_once: "wins q qs (fst (claim_run qs s)) \<le> 1"
proof (induction qs arbitrary: s)
  case (Cons p qs)
  obtain w s' where c: "claim p s = (w, s')" by fastforce
  show ?case
  proof (cases "p = q \<and> w")
    case True
    with c have "\<not> open_for s' q" by (auto dest: claim_won)
    then have "wins q qs (fst (claim_run qs s')) = 0" by (rule claim_run_closed)
    with c True show ?thesis by (auto simp: wins_def split: prod.splits)
  next
    case False
    with c Cons.IH [of s'] show ?thesis by (auto simp: wins_def split: prod.splits)
  qed
qed (simp add: wins_def)

end

text \<open>The table is open for a quote while its row is \<^verbatim>\<open>created\<close>; the state pairs a process's own set
  with the shared table.\<close>

definition quote_open :: "quote_table \<Rightarrow> string \<Rightarrow> bool" where
  "quote_open t q \<longleftrightarrow> (case t q of None \<Rightarrow> False | Some r \<Rightarrow> q_status r = Q_CREATED)"

definition quote_claim :: "string \<Rightarrow> string set \<times> quote_table \<Rightarrow> bool \<times> string set \<times> quote_table" where
  "quote_claim q s = claim_quote q (fst s) (snd s)"

lemma claim_quote_won:
  "claim_quote q c t = (True, c', t') \<longleftrightarrow>
     q \<notin> c \<and> quote_open t q \<and> c' = insert q c \<and> t' = t(q \<mapsto> (the (t q))\<lparr>q_status := Q_CONSUMED\<rparr>)"
  by (auto simp: claim_quote_def quote_open_def update_where_def Let_def split: option.splits if_splits)

lemma claim_quote_lost:
  "claim_quote q c t = (False, c', t') \<Longrightarrow> c' = c \<and> t' = t \<and> (q \<in> c \<or> \<not> quote_open t q)"
  by (auto simp: claim_quote_def quote_open_def update_where_def Let_def split: option.splits if_splits)

interpretation qc: claim_store quote_claim "\<lambda>s. quote_open (snd s)"
proof unfold_locales
  fix q s s'
  assume "quote_claim q s = (True, s')"
  then show "quote_open (snd s) q \<and> \<not> quote_open (snd s') q"
    by (cases s') (auto simp: quote_claim_def claim_quote_won quote_open_def split: option.splits)
next
  fix q s s'
  assume "quote_claim q s = (False, s')"
  then show "s' = s"
    by (cases s; cases s') (auto simp: quote_claim_def dest: claim_quote_lost)
next
  fix q s w s' p
  assume "quote_claim q s = (w, s')" "p \<noteq> q"
  then show "quote_open (snd s') p = quote_open (snd s) p"
    by (cases w; cases s') (auto simp: quote_claim_def claim_quote_won quote_open_def dest!: claim_quote_lost)
qed

subsection \<open>Many processes\<close>

text \<open>
  The shared table and every process's own set of claimed ids. One step is one critical section of
  some process; which one runs next is not determined.
\<close>

record quote_sys =
  qs_table :: quote_table
  qs_claimed :: "nat \<Rightarrow> string set"

datatype quote_event =
  EvCreate string | EvClaim nat string bool | EvRelease nat string bool | EvLink string string

inductive quote_step :: "quote_sys \<Rightarrow> quote_event \<Rightarrow> quote_sys \<Rightarrow> bool" where
  create: "qs_table s q = None \<Longrightarrow>
     quote_step s (EvCreate q) (s\<lparr>qs_table := (qs_table s)(q \<mapsto> new_quote_row a now)\<rparr>)"
| claim: "claim_quote q (qs_claimed s p) (qs_table s) = (w, c', t') \<Longrightarrow>
     quote_step s (EvClaim p q w) (s\<lparr>qs_table := t', qs_claimed := (qs_claimed s)(p := c')\<rparr>)"
| release: "release_quote_claim q (qs_claimed s p) (qs_table s) = (w, c', t') \<Longrightarrow>
     quote_step s (EvRelease p q w) (s\<lparr>qs_table := t', qs_claimed := (qs_claimed s)(p := c')\<rparr>)"
| link: "quote_step s (EvLink q vm) (s\<lparr>qs_table := link_quote_vm q vm (qs_table s)\<rparr>)"

inductive_simps quote_step_create: "quote_step s (EvCreate q) s'"
inductive_simps quote_step_claim: "quote_step s (EvClaim p q w) s'"
inductive_simps quote_step_release: "quote_step s (EvRelease p q w) s'"
inductive_simps quote_step_link: "quote_step s (EvLink q vm) s'"

inductive quote_run :: "quote_sys \<Rightarrow> quote_event list \<Rightarrow> quote_sys \<Rightarrow> bool" where
  run_nil: "quote_run s [] s"
| run_cons: "quote_step s e s' \<Longrightarrow> quote_run s' es s'' \<Longrightarrow> quote_run s (e # es) s''"

lemma release_quote_claim_True:
  "release_quote_claim q c t = (True, c', t') \<longleftrightarrow>
     (\<exists>r. t q = Some r \<and> q_status r = Q_CONSUMED \<and> q_vm_id r = None \<and>
       c' = c - {q} \<and> t' = t(q \<mapsto> r\<lparr>q_status := Q_CREATED\<rparr>))"
  by (auto simp: release_quote_claim_def update_where_def Let_def split: option.splits if_splits)

lemma release_quote_claim_False:
  "release_quote_claim q c t = (False, c', t') \<Longrightarrow> c' = c \<and> t' = t"
  by (auto simp: release_quote_claim_def update_where_def Let_def split: option.splits if_splits)

definition open_count :: "quote_sys \<Rightarrow> string \<Rightarrow> nat" where
  "open_count s q = (if quote_open (qs_table s) q then 1 else 0)"

definition won_claims :: "string \<Rightarrow> quote_event list \<Rightarrow> nat" where
  "won_claims q es = length (filter (\<lambda>e. case e of EvClaim p q' w \<Rightarrow> q' = q \<and> w | _ \<Rightarrow> False) es)"

text \<open>What opens a quote: its creation, and a release that succeeded.\<close>

definition openings :: "string \<Rightarrow> quote_event list \<Rightarrow> nat" where
  "openings q es = length (filter (\<lambda>e. case e of
      EvCreate q' \<Rightarrow> q' = q | EvRelease p q' w \<Rightarrow> q' = q \<and> w | _ \<Rightarrow> False) es)"

lemma quote_step_balance:
  "quote_step s e s' \<Longrightarrow>
   won_claims q [e] + open_count s' q = openings q [e] + open_count s q"
proof (induction rule: quote_step.induct)
  case (claim q' s p w c' t')
  then show ?case
    by (cases w) (auto simp: won_claims_def openings_def open_count_def claim_quote_won quote_open_def
        dest!: claim_quote_lost split: option.splits)
next
  case (release q' s p w c' t')
  then show ?case
    by (cases w) (auto simp: won_claims_def openings_def open_count_def release_quote_claim_True quote_open_def
        dest!: release_quote_claim_False split: option.splits)
qed (auto simp: won_claims_def openings_def open_count_def quote_open_def new_quote_row_def
      link_quote_vm_def update_where_def split: option.splits)

lemma quote_run_balance:
  "quote_run s es s' \<Longrightarrow> won_claims q es + open_count s' q = openings q es + open_count s q"
proof (induction rule: quote_run.induct)
  case (run_cons s e s' es s'')
  have "won_claims q (e # es) = won_claims q [e] + won_claims q es"
    and "openings q (e # es) = openings q [e] + openings q es"
    by (auto simp: won_claims_def openings_def)
  with run_cons quote_step_balance [of s e s' q] show ?case by simp
qed (simp add: won_claims_def openings_def)

definition linked :: "quote_table \<Rightarrow> string \<Rightarrow> bool" where
  "linked t q \<longleftrightarrow> (\<exists>r. t q = Some r \<and> q_status r = Q_CONSUMED \<and> q_vm_id r \<noteq> None)"

lemma quote_step_linked:
  "quote_step s e s' \<Longrightarrow> linked (qs_table s) q \<Longrightarrow> linked (qs_table s') q \<and> won_claims q [e] = 0"
proof (induction rule: quote_step.induct)
  case (claim q' s p w c' t')
  then show ?case
    by (cases w) (auto simp: won_claims_def claim_quote_won quote_open_def linked_def dest!: claim_quote_lost)
next
  case (release q' s p w c' t')
  then show ?case
    by (cases w) (auto simp: won_claims_def release_quote_claim_True linked_def dest!: release_quote_claim_False)
qed (auto simp: won_claims_def linked_def link_quote_vm_def update_where_def split: option.splits)

lemma quote_run_linked:
  "quote_run s es s' \<Longrightarrow> linked (qs_table s) q \<Longrightarrow> linked (qs_table s') q \<and> won_claims q es = 0"
proof (induction rule: quote_run.induct)
  case (run_cons s e s' es s'')
  have "won_claims q (e # es) = won_claims q [e] + won_claims q es"
    by (auto simp: won_claims_def)
  with run_cons quote_step_linked [of s e s' q] show ?case by simp
qed (simp add: won_claims_def)

subsection \<open>Unique order keys\<close>

lemma scan_of_hit: "scan_of lk t \<Longrightarrow> lk t k = Some i \<Longrightarrow> has_key k t i"
  by (simp add: scan_of_def)

lemma scan_of_miss: "scan_of lk t \<Longrightarrow> lk t k = None \<Longrightarrow> \<not> has_key k t i"
  unfolding scan_of_def by metis

lemma select_by_key_Some:
  "scan_of lk t \<Longrightarrow> select_by_key lk t k = Some (i, r) \<Longrightarrow> t i = Some r \<and> q_client_order_id r = Some k"
  by (auto simp: select_by_key_def has_key_def split: option.splits dest: scan_of_hit)

lemma existing_error_QExists:
  "existing_error ex payload = QExists i r \<longleftrightarrow> ex = (i, r) \<and> q_payload r = payload"
  by (cases ex) (auto simp: existing_error_def)

lemma existing_error_QConflict:
  "existing_error ex payload = QConflict i r \<longleftrightarrow> ex = (i, r) \<and> q_payload r \<noteq> payload"
  by (cases ex) (auto simp: existing_error_def)

lemma existing_error_not:
  "existing_error ex payload \<noteq> QCreated i r" "existing_error ex payload \<noteq> QIntegrityError"
  by (simp_all add: existing_error_def)

lemmas existing_error_cases = existing_error_QExists existing_error_QConflict existing_error_not

lemma insert_keeps_unique:
  assumes lk: "scan_of lk t" and u: "unique_keys t" and c: "\<not> insert_conflicts lk t qid key"
    and row: "q_client_order_id row = key"
  shows "unique_keys (t(qid \<mapsto> row))"
proof -
  have fresh: "\<not> has_key k t i" if "key = Some k" for k i
    using c that scan_of_miss [OF lk, of k i] by (auto simp: insert_conflicts_def)
  have new: "has_key k (t(qid \<mapsto> row)) i \<longleftrightarrow> (if i = qid then key = Some k else has_key k t i)" for k i
    using row by (auto simp: has_key_def)
  show ?thesis
    unfolding unique_keys_def
  proof (intro allI impI)
    fix i j k
    assume "has_key k (t(qid \<mapsto> row)) i \<and> has_key k (t(qid \<mapsto> row)) j"
    then have i: "if i = qid then key = Some k else has_key k t i"
      and j: "if j = qid then key = Some k else has_key k t j"
      unfolding new by blast+
    show "i = j"
    proof (cases "key = Some k")
      case True
      with i j fresh show ?thesis by (metis (full_types))
    next
      case False
      with i j have "has_key k t i" "has_key k t j" by presburger+
      with u show ?thesis unfolding unique_keys_def by blast
    qed
  qed
qed

text \<open>A scan is computable on a table with known ids.\<close>

definition scan_ids :: "string list \<Rightarrow> key_lookup" where
  "scan_ids ids t k = find (\<lambda>i. has_key k t i) ids"

subsection \<open>Properties\<close>

text \<open>C22: whatever the interleaving of claims, releases, links and creations by any number of processes,
  the won claims of a quote never exceed its openings: between two openings at most one payment
  wins the quote. The count is exact.\<close>

theorem quote_claims_balanced:
  assumes "quote_run s es s'"
  shows "won_claims q es + open_count s' q = openings q es + open_count s q"
  using assms by (rule quote_run_balance)

definition demo_quote_args :: quote_args where
  "demo_quote_args = \<lparr>qa_payload = demo_order, qa_amount = Dec 1950 (-2),
     qa_snapshot = p_breakdown (projr (price_vm_order demo_order demo_cfg)), qa_key = Some ''k1'', qa_owner = None\<rparr>"

definition demo_quote_table :: quote_table where
  "demo_quote_table = [''q1'' \<mapsto> new_quote_row demo_quote_args 0]"

definition demo_quote_sys :: quote_sys where
  "demo_quote_sys = \<lparr>qs_table = demo_quote_table, qs_claimed = (\<lambda>_. {})\<rparr>"

lemma demo_quote_open: "quote_open demo_quote_table ''q1''"
  by (simp add: quote_open_def demo_quote_table_def new_quote_row_def)

lemma demo_claim_step:
  "\<exists>s'. quote_step demo_quote_sys (EvClaim 0 ''q1'' True) s' \<and> \<not> quote_open (qs_table s') ''q1''"
proof -
  have c: "claim_quote ''q1'' {} demo_quote_table
      = (True, {''q1''}, demo_quote_table(''q1'' \<mapsto> (the (demo_quote_table ''q1''))\<lparr>q_status := Q_CONSUMED\<rparr>))"
    by (simp add: claim_quote_won demo_quote_open)
  then have "quote_step demo_quote_sys (EvClaim 0 ''q1'' True) (demo_quote_sys\<lparr>
      qs_table := demo_quote_table(''q1'' \<mapsto> (the (demo_quote_table ''q1''))\<lparr>q_status := Q_CONSUMED\<rparr>),
      qs_claimed := (qs_claimed demo_quote_sys)(0 := {''q1''})\<rparr>)"
    using quote_step.claim [of "''q1''" demo_quote_sys 0] by (simp add: demo_quote_sys_def)
  then show ?thesis by (intro exI conjI) (auto simp: quote_open_def)
qed

theorem quote_claims_balanced_witness:
  "\<exists>s'. quote_run demo_quote_sys [EvClaim 0 ''q1'' True] s' \<and>
     won_claims ''q1'' [EvClaim 0 ''q1'' True] + open_count s' ''q1''
       = openings ''q1'' [EvClaim 0 ''q1'' True] + open_count demo_quote_sys ''q1''"
proof -
  obtain s' where "quote_run demo_quote_sys [EvClaim 0 ''q1'' True] s'"
    using demo_claim_step by (blast intro: quote_run.intros)
  then show ?thesis using quote_claims_balanced by blast
qed

text \<open>A quote that was consumed and linked to a VM stays so for ever: no later run reopens it, and
  no later claim wins it.\<close>

theorem linked_quote_final:
  assumes "quote_run s es s'" and "linked (qs_table s) q"
  shows "linked (qs_table s') q \<and> won_claims q es = 0"
  using assms by (rule quote_run_linked)

definition demo_linked_sys :: quote_sys where
  "demo_linked_sys = \<lparr>qs_table = [''q1'' \<mapsto> (new_quote_row demo_quote_args 0)\<lparr>q_status := Q_CONSUMED, q_vm_id := Some ''vm1''\<rparr>],
     qs_claimed = (\<lambda>_. {})\<rparr>"

theorem linked_quote_final_witness:
  "\<exists>s'. quote_run demo_linked_sys [EvRelease 0 ''q1'' False] s' \<and> linked (qs_table s') ''q1''"
proof -
  have l: "linked (qs_table demo_linked_sys) ''q1''" by (simp add: linked_def demo_linked_sys_def)
  have "release_quote_claim ''q1'' {} (qs_table demo_linked_sys) = (False, {}, qs_table demo_linked_sys)"
    by (simp add: release_quote_claim_def demo_linked_sys_def update_where_def)
  then have "quote_run demo_linked_sys [EvRelease 0 ''q1'' False]
      (demo_linked_sys\<lparr>qs_table := qs_table demo_linked_sys, qs_claimed := (qs_claimed demo_linked_sys)(0 := {})\<rparr>)"
    using quote_step.release [of "''q1''" demo_linked_sys 0] by (auto simp: demo_linked_sys_def intro: quote_run.intros)
  with linked_quote_final [OF this l] show ?thesis by blast
qed

text \<open>Creating a quote is idempotent on the client's order key, also when another process inserts
  between the check and the insert: the key stays unique, a stored row is never changed, and an
  answer that names an existing quote names one that carries the key, as a replay exactly when the
  specifications agree.\<close>

theorem create_quote_idempotent:
  assumes "scan_of lk t1" and "scan_of lk t2" and "unique_keys t2"
    and "create_quote lk a qid now t1 t2 = (res, t3)"
  shows "unique_keys t3 \<and> (\<forall>i r. t2 i = Some r \<longrightarrow> t3 i = Some r) \<and>
    (case res of
       QCreated i r \<Rightarrow> i = qid \<and> t2 qid = None \<and> t3 = t2(qid \<mapsto> r) \<and> q_status r = Q_CREATED \<and>
         utc (q_expires_at r) = now + QUOTE_TTL
     | QExists i r \<Rightarrow> t3 = t2 \<and> (t1 i = Some r \<or> t2 i = Some r) \<and> q_client_order_id r = qa_key a \<and>
         q_payload r = payload_json (qa_payload a)
     | QConflict i r \<Rightarrow> t3 = t2 \<and> (t1 i = Some r \<or> t2 i = Some r) \<and> q_client_order_id r = qa_key a \<and>
         q_payload r \<noteq> payload_json (qa_payload a)
     | QIntegrityError \<Rightarrow> t3 = t2)"
proof (cases res)
  case (QCreated i r)
  with assms(4) have "\<not> insert_conflicts lk t2 qid (qa_key a)" "r = new_quote_row a now" "i = qid"
      "t3 = t2(qid \<mapsto> r)"
    by (auto simp: create_quote_def Let_def existing_error_cases split: option.splits if_splits)
  moreover from this have "unique_keys t3"
    using insert_keeps_unique [OF assms(2,3)] by (simp add: new_quote_row_def)
  ultimately show ?thesis
    using QCreated by (auto simp: insert_conflicts_def new_quote_row_def)
next
  case (QExists i r)
  with assms show ?thesis
    by (auto simp: create_quote_def Let_def existing_error_cases elim!: truthyE
        dest!: select_by_key_Some split: option.splits if_splits)
next
  case (QConflict i r)
  with assms show ?thesis
    by (auto simp: create_quote_def Let_def existing_error_cases elim!: truthyE
        dest!: select_by_key_Some split: option.splits if_splits)
next
  case QIntegrityError
  with assms show ?thesis
    by (auto simp: create_quote_def Let_def existing_error_cases split: option.splits if_splits)
qed

lemma demo_scan: "scan_of (scan_ids [''q1'']) demo_quote_table"
  by (auto simp: scan_of_def scan_ids_def has_key_def demo_quote_table_def new_quote_row_def demo_quote_args_def
      split: if_splits)

theorem create_quote_idempotent_witness:
  "fst (create_quote (scan_ids [''q1'']) demo_quote_args ''q2'' 7 demo_quote_table demo_quote_table)
     = QExists ''q1'' (new_quote_row demo_quote_args 0) \<and> unique_keys demo_quote_table"
proof -
  let ?c = "create_quote (scan_ids [''q1'']) demo_quote_args ''q2'' 7 demo_quote_table demo_quote_table"
  have u: "unique_keys demo_quote_table"
    by (auto simp: unique_keys_def has_key_def demo_quote_table_def split: if_splits)
  have s: "select_by_key (scan_ids [''q1'']) demo_quote_table ''k1'' = Some (''q1'', new_quote_row demo_quote_args 0)"
    by (simp add: select_by_key_def scan_ids_def has_key_def demo_quote_table_def new_quote_row_def demo_quote_args_def)
  have r: "q_payload (new_quote_row demo_quote_args 0) = payload_json (qa_payload demo_quote_args)"
    "qa_key demo_quote_args = Some ''k1''"
    by (simp_all add: new_quote_row_def demo_quote_args_def)
  have c: "?c = (QExists ''q1'' (new_quote_row demo_quote_args 0), demo_quote_table)"
    using s by (simp add: create_quote_def existing_error_def r Let_def truthy_def)
  from create_quote_idempotent [OF demo_scan demo_scan u c] c show ?thesis by simp
qed

end
