(* ===== verification/Sessions.thy ===== *)
theory Sessions
  imports Prelude
begin

text \<open>
  \<^verbatim>\<open>services/sessions.py\<close> and \<^verbatim>\<open>services/api_keys.py\<close>: opaque browser sessions and scoped API keys. A
  table is the list of its rows. \<^verbatim>\<open>hashlib.sha256\<close> is the parameter \<open>sha256\<close>; the random part of a
  token is an argument of the operation that draws it.
\<close>

subsection \<open>Sessions\<close>

record session_row =
  ss_token_hash :: string
  ss_account :: string
  ss_expires_at :: py_datetime
  ss_last_seen_at :: py_datetime
  ss_user_agent :: "string option"
  ss_ip_prefix_hash :: "string option"
  ss_csrf_hash :: "string option"
  ss_elevated_at :: "py_datetime option"

type_synonym sessions = "session_row list"
type_synonym hash = "string \<Rightarrow> string"

definition SESSION_TTL :: int where
  "SESSION_TTL = days 30"

definition generate_session_token :: "string \<Rightarrow> string" where
  "generate_session_token rnd = ''hyr_sess_'' @ rnd"

definition generate_csrf_token :: "string \<Rightarrow> string" where
  "generate_csrf_token rnd = ''hyr_csrf_'' @ rnd"

definition hash_session_token :: "hash \<Rightarrow> string \<Rightarrow> string" where
  "hash_session_token sha256 token = sha256 token"

definition hash_csrf_token :: "hash \<Rightarrow> string \<Rightarrow> string" where
  "hash_csrf_token sha256 token = sha256 token"

definition session_get :: "sessions \<Rightarrow> string \<Rightarrow> session_row option" where
  "session_get t th = find (\<lambda>r. ss_token_hash r = th) t"

text \<open>\<open>None\<close>: the primary key is taken and the commit raises.\<close>

definition create_session ::
    "hash \<Rightarrow> string \<Rightarrow> string option \<Rightarrow> string option \<Rightarrow> string \<Rightarrow> string \<Rightarrow> int \<Rightarrow> sessions
     \<Rightarrow> ((string \<times> string) \<times> sessions) option" where
  "create_session sha256 account user_agent ip_hash rnd1 rnd2 now t =
     (let token = generate_session_token rnd1; csrf = generate_csrf_token rnd2;
          ua = take 256 (or_str user_agent []);
          row = \<lparr>ss_token_hash = hash_session_token sha256 token, ss_account = account,
                 ss_expires_at = Aware (now + SESSION_TTL) 0, ss_last_seen_at = Aware now 0,
                 ss_user_agent = (if ua = [] then None else Some ua), ss_ip_prefix_hash = ip_hash,
                 ss_csrf_hash = Some (hash_csrf_token sha256 csrf), ss_elevated_at = None\<rparr>
      in if session_get t (ss_token_hash row) \<noteq> None then None
         else Some ((token, csrf), t @ [row]))"

definition lookup_session :: "hash \<Rightarrow> string option \<Rightarrow> int \<Rightarrow> sessions \<Rightarrow> session_row option" where
  "lookup_session sha256 token now t =
     (if \<not> truthy token then None
      else case session_get t (hash_session_token sha256 (the token)) of
        None \<Rightarrow> None
      | Some row \<Rightarrow> if utc (ss_expires_at row) < now then None else Some row)"

definition touch_session :: "session_row \<Rightarrow> int \<Rightarrow> sessions \<Rightarrow> sessions" where
  "touch_session row now t =
     (if now - utc (ss_last_seen_at row) < minutes 5 then t
      else map (\<lambda>r. if ss_token_hash r = ss_token_hash row then r\<lparr>ss_last_seen_at := Aware now 0\<rparr> else r) t)"

definition revoke_session :: "hash \<Rightarrow> string option \<Rightarrow> sessions \<Rightarrow> sessions" where
  "revoke_session sha256 token t =
     (if \<not> truthy token then t
      else filter (\<lambda>r. ss_token_hash r \<noteq> hash_session_token sha256 (the token)) t)"

text \<open>A \<^verbatim>\<open>DELETE\<close> with its row count.\<close>

definition delete_rows :: "('r \<Rightarrow> bool) \<Rightarrow> 'r list \<Rightarrow> nat \<times> 'r list" where
  "delete_rows p t = (length (filter p t), filter (\<lambda>r. \<not> p r) t)"

definition revoke_all_sessions_for :: "string \<Rightarrow> sessions \<Rightarrow> nat \<times> sessions" where
  "revoke_all_sessions_for account t = delete_rows (\<lambda>r. ss_account r = account) t"

definition purge_expired_sessions :: "int \<Rightarrow> sessions \<Rightarrow> nat \<times> sessions" where
  "purge_expired_sessions now t = delete_rows (\<lambda>r. utc (ss_expires_at r) < now) t"

record cookie_kwargs =
  ck_key :: string
  ck_httponly :: bool
  ck_secure :: bool
  ck_samesite :: string
  ck_path :: string
  ck_max_age :: int

definition SESSION_COOKIE_NAME :: string where "SESSION_COOKIE_NAME = ''hyr_sess''"
definition CSRF_COOKIE_NAME :: string where "CSRF_COOKIE_NAME = ''hyr_csrf''"

definition cookie_kwargs_for_set :: "bool \<Rightarrow> cookie_kwargs" where
  "cookie_kwargs_for_set secure = \<lparr>ck_key = SESSION_COOKIE_NAME, ck_httponly = True, ck_secure = secure,
     ck_samesite = ''lax'', ck_path = ''/'', ck_max_age = SESSION_TTL div 1000000\<rparr>"

definition csrf_cookie_kwargs_for_set :: "bool \<Rightarrow> cookie_kwargs" where
  "csrf_cookie_kwargs_for_set secure = \<lparr>ck_key = CSRF_COOKIE_NAME, ck_httponly = False, ck_secure = secure,
     ck_samesite = ''strict'', ck_path = ''/'', ck_max_age = SESSION_TTL div 1000000\<rparr>"

definition find_session_token_in_cookies ::
    "hash \<Rightarrow> string option \<Rightarrow> int \<Rightarrow> sessions \<Rightarrow> session_row option \<times> string option" where
  "find_session_token_in_cookies sha256 cookie now t =
     (if \<not> truthy cookie then (None, None) else (lookup_session sha256 cookie now t, cookie))"

subsection \<open>API keys\<close>

datatype api_key_scope =
  VM_READ | VM_CREATE | VM_REBOOT | VM_EXTEND | VM_DESTROY | INTENT_CREATE | INTENT_READ
| DOMAIN_READ | DOMAIN_QUOTE | DOMAIN_PURCHASE | DOMAIN_RENEW | DOMAIN_DNS | DOMAIN_NAMESERVERS
| DOMAIN_TRANSFER | DOMAIN_REGISTER | API_KEYS_READ | API_KEYS_WRITE

fun scope_value :: "api_key_scope \<Rightarrow> string" where
  "scope_value VM_READ = ''vm:read''"
| "scope_value VM_CREATE = ''vm:create''"
| "scope_value VM_REBOOT = ''vm:reboot''"
| "scope_value VM_EXTEND = ''vm:extend''"
| "scope_value VM_DESTROY = ''vm:destroy''"
| "scope_value INTENT_CREATE = ''intent:create''"
| "scope_value INTENT_READ = ''intent:read''"
| "scope_value DOMAIN_READ = ''domain:read''"
| "scope_value DOMAIN_QUOTE = ''domain:quote''"
| "scope_value DOMAIN_PURCHASE = ''domain:purchase''"
| "scope_value DOMAIN_RENEW = ''domain:renew''"
| "scope_value DOMAIN_DNS = ''domain:dns''"
| "scope_value DOMAIN_NAMESERVERS = ''domain:nameservers''"
| "scope_value DOMAIN_TRANSFER = ''domain:transfer''"
| "scope_value DOMAIN_REGISTER = ''domain:register''"
| "scope_value API_KEYS_READ = ''api_keys:read''"
| "scope_value API_KEYS_WRITE = ''api_keys:write''"

definition all_scopes :: "api_key_scope list" where
  "all_scopes = [VM_READ, VM_CREATE, VM_REBOOT, VM_EXTEND, VM_DESTROY, INTENT_CREATE, INTENT_READ,
     DOMAIN_READ, DOMAIN_QUOTE, DOMAIN_PURCHASE, DOMAIN_RENEW, DOMAIN_DNS, DOMAIN_NAMESERVERS,
     DOMAIN_TRANSFER, DOMAIN_REGISTER, API_KEYS_READ, API_KEYS_WRITE]"

definition DEFAULT_BOOTSTRAP_SCOPES :: "api_key_scope list" where
  "DEFAULT_BOOTSTRAP_SCOPES = [VM_READ, VM_CREATE, INTENT_CREATE, INTENT_READ, DOMAIN_READ, DOMAIN_QUOTE]"

record api_key_row =
  k_id :: string
  k_account :: string
  k_hash :: string
  k_name :: string
  k_scopes :: "string list"
  k_created_at :: py_datetime
  k_expires_at :: "py_datetime option"
  k_revoked_at :: "py_datetime option"
  k_last_used_at :: "py_datetime option"

type_synonym api_keys = "api_key_row list"

definition API_KEY_PREFIX :: string where
  "API_KEY_PREFIX = ''hyr_sk_''"

definition generate_api_key :: "string \<Rightarrow> string" where
  "generate_api_key rnd = API_KEY_PREFIX @ rnd"

definition hash_api_key :: "hash \<Rightarrow> string \<Rightarrow> string" where
  "hash_api_key sha256 cleartext = sha256 cleartext"

definition looks_like_api_key :: "string \<Rightarrow> bool" where
  "looks_like_api_key token \<longleftrightarrow>
     startswith token API_KEY_PREFIX \<and> length token = length API_KEY_PREFIX + 32"

datatype scope_error =
  UnknownScope string
| ScopesExceed "string set"
| KeyIntegrityError

fun validate_scopes_from :: "string list \<Rightarrow> string list \<Rightarrow> string list \<Rightarrow> scope_error + string list" where
  "validate_scopes_from valid out [] = Inr out"
| "validate_scopes_from valid out (s # ss) =
     (if s \<notin> set valid then Inl (UnknownScope s)
      else if s \<in> set out then validate_scopes_from valid out ss
      else validate_scopes_from valid (out @ [s]) ss)"

definition validate_scopes :: "string list \<Rightarrow> scope_error + string list" where
  "validate_scopes scopes = validate_scopes_from (map scope_value all_scopes) [] scopes"

definition assert_key_scopes_subset :: "string list \<Rightarrow> string list \<Rightarrow> scope_error + unit" where
  "assert_key_scopes_subset issuing requested =
     (let extra = set requested - set issuing in if extra \<noteq> {} then Inl (ScopesExceed extra) else Inr ())"

definition create_api_key ::
    "hash \<Rightarrow> string \<Rightarrow> string \<Rightarrow> string list \<Rightarrow> py_datetime option \<Rightarrow> string \<Rightarrow> string \<Rightarrow> int \<Rightarrow> api_keys
     \<Rightarrow> scope_error + (string \<times> api_key_row) \<times> api_keys" where
  "create_api_key sha256 account name scopes expires rnd uid now t =
     (let cleartext = generate_api_key rnd in
      case validate_scopes scopes of
        Inl e \<Rightarrow> Inl e
      | Inr valid \<Rightarrow>
        let row = \<lparr>k_id = uid, k_account = account, k_hash = hash_api_key sha256 cleartext,
              k_name = (if take 64 name = [] then ''(unnamed)'' else take 64 name), k_scopes = valid,
              k_created_at = Aware now 0, k_expires_at = expires, k_revoked_at = None, k_last_used_at = None\<rparr>
        in if \<exists>r \<in> set t. k_id r = uid \<or> k_hash r = k_hash row then Inl KeyIntegrityError
           else Inr ((cleartext, row), t @ [row]))"

text \<open>\<open>write_ok\<close>: whether the best-effort update of \<^verbatim>\<open>last_used_at\<close> commits.\<close>

definition lookup_api_key ::
    "hash \<Rightarrow> string \<Rightarrow> int \<Rightarrow> bool \<Rightarrow> api_keys \<Rightarrow> api_key_row option \<times> api_keys" where
  "lookup_api_key sha256 cleartext now write_ok t =
     (if \<not> looks_like_api_key cleartext then (None, t)
      else case find (\<lambda>r. k_hash r = hash_api_key sha256 cleartext) t of
        None \<Rightarrow> (None, t)
      | Some row \<Rightarrow>
        if k_revoked_at row \<noteq> None then (None, t)
        else if (case k_expires_at row of None \<Rightarrow> False | Some e \<Rightarrow> utc e < now) then (None, t)
        else (Some row,
              if write_ok
              then map (\<lambda>r. if k_id r = k_id row then r\<lparr>k_last_used_at := Some (Aware now 0)\<rparr> else r) t
              else t))"

definition list_keys_for_account :: "string \<Rightarrow> api_keys \<Rightarrow> api_keys" where
  "list_keys_for_account account t =
     sort_key (\<lambda>r. - utc (k_created_at r)) (filter (\<lambda>r. k_account r = account \<and> k_revoked_at r = None) t)"

definition revoke_api_key :: "string \<Rightarrow> string \<Rightarrow> int \<Rightarrow> api_keys \<Rightarrow> bool \<times> api_keys" where
  "revoke_api_key account key_id now t =
     (case find (\<lambda>r. k_id r = key_id) t of
        None \<Rightarrow> (False, t)
      | Some row \<Rightarrow>
        if k_account row \<noteq> account then (False, t)
        else if k_revoked_at row \<noteq> None then (True, t)
        else (True, map (\<lambda>r. if k_id r = key_id then r\<lparr>k_revoked_at := Some (Aware now 0)\<rparr> else r) t))"

subsection \<open>Session lemmas\<close>

definition sessions_wf :: "sessions \<Rightarrow> bool" where
  "sessions_wf t \<longleftrightarrow> unique_by ss_token_hash t"

lemma session_get_find: "session_get t th = find (\<lambda>r. ss_token_hash r = th) t"
  by (simp add: session_get_def)

lemma lookup_session_hit:
  "lookup_session sha256 (Some token) now t = Some row \<longleftrightarrow>
     token \<noteq> [] \<and> session_get t (sha256 token) = Some row \<and> now \<le> utc (ss_expires_at row)"
  by (auto simp: lookup_session_def hash_session_token_def split: option.splits)

lemma lookup_session_account:
  "lookup_session sha256 token now t = Some row \<Longrightarrow> row \<in> set t \<and> now \<le> utc (ss_expires_at row)"
  by (auto simp: lookup_session_def session_get_def dest: find_hit split: option.splits if_splits)

lemma session_ops_wf:
  assumes "sessions_wf t"
  shows "create_session sha256 a ua ip r1 r2 now t = Some (c, t') \<Longrightarrow> sessions_wf t'"
    and "sessions_wf (touch_session row now t)"
    and "sessions_wf (revoke_session sha256 token t)"
    and "sessions_wf (snd (revoke_all_sessions_for a t))"
    and "sessions_wf (snd (purge_expired_sessions now t))"
proof -
  show "create_session sha256 a ua ip r1 r2 now t = Some (c, t') \<Longrightarrow> sessions_wf t'"
    using assms
    by (auto simp: create_session_def Let_def sessions_wf_def unique_by_append session_get_def find_key_None
        split: if_splits)
  show "sessions_wf (touch_session row now t)"
    using assms by (simp add: touch_session_def sessions_wf_def unique_by_map)
qed (use assms in \<open>simp_all add: revoke_session_def revoke_all_sessions_for_def purge_expired_sessions_def
      delete_rows_def sessions_wf_def unique_by_filter\<close>)

lemma lookup_after_delete:
  assumes "sessions_wf t"
  shows "lookup_session sha256 token now (filter p t) =
    (case lookup_session sha256 token now t of None \<Rightarrow> None | Some r \<Rightarrow> if p r then Some r else None)"
  using assms
  by (simp add: lookup_session_def session_get_def sessions_wf_def find_filter_unique split: option.splits)

subsection \<open>API key lemmas\<close>

lemma validate_scopes_from_ok:
  "validate_scopes_from valid out scopes = Inr res \<Longrightarrow> distinct out \<Longrightarrow>
   distinct res \<and> set res = set out \<union> set scopes \<and> set scopes \<subseteq> set valid"
  by (induction valid out scopes rule: validate_scopes_from.induct) (auto split: if_splits)

lemma validate_scopes_from_err:
  "validate_scopes_from valid out scopes = Inl e \<longleftrightarrow>
   (\<exists>s. find (\<lambda>s. s \<notin> set valid) scopes = Some s \<and> e = UnknownScope s)"
  by (induction valid out scopes rule: validate_scopes_from.induct) auto

lemma create_api_key_ok:
  "create_api_key sha256 account name scopes expires rnd uid now t = Inr ((clear, row), t') \<Longrightarrow>
   t' = t @ [row] \<and> clear = generate_api_key rnd \<and> k_hash row = sha256 clear \<and> k_account row = account \<and>
   set (k_scopes row) = set scopes \<and> set scopes \<subseteq> set (map scope_value all_scopes) \<and>
   k_revoked_at row = None \<and> k_expires_at row = expires \<and> k_id row = uid \<and>
   (\<forall>r \<in> set t. k_id r \<noteq> uid \<and> k_hash r \<noteq> k_hash row)"
  by (auto simp: create_api_key_def Let_def validate_scopes_def hash_api_key_def
      dest!: validate_scopes_from_ok split: sum.splits if_splits)

lemma lookup_api_key_live:
  "lookup_api_key sha256 clear now ok t = (Some row, t') \<Longrightarrow>
   row \<in> set t \<and> k_hash row = sha256 clear \<and> k_revoked_at row = None \<and> looks_like_api_key clear \<and>
   (\<forall>e. k_expires_at row = Some e \<longrightarrow> now \<le> utc e)"
  by (auto simp: lookup_api_key_def hash_api_key_def dest: find_hit split: option.splits if_splits)

subsection \<open>Properties\<close>

text \<open>A fresh session resolves to its account for exactly thirty days, unless it is revoked: by itself,
  with the whole account, or not at all; it is not elevated, its CSRF cookie is the one that hashes
  to the stored digest, and no other token's resolution changes.\<close>

theorem session_lifecycle:
  assumes "sessions_wf t"
    and "create_session sha256 account ua ip rnd1 rnd2 now t = Some ((token, csrf), t')"
  shows "(\<exists>row. lookup_session sha256 (Some token) later t'
        = (if later \<le> now + SESSION_TTL then Some row else None) \<and>
      ss_account row = account \<and> ss_elevated_at row = None \<and> ss_csrf_hash row = Some (sha256 csrf)) \<and>
    lookup_session sha256 (Some token) later (revoke_session sha256 (Some token) t') = None \<and>
    lookup_session sha256 (Some token) later (snd (revoke_all_sessions_for account t')) = None \<and>
    (sha256 other \<noteq> sha256 token \<longrightarrow>
       lookup_session sha256 (Some other) later t' = lookup_session sha256 (Some other) later t)"
proof -
  define row where "row = \<lparr>ss_token_hash = hash_session_token sha256 token, ss_account = account,
     ss_expires_at = Aware (now + SESSION_TTL) 0, ss_last_seen_at = Aware now 0,
     ss_user_agent = (if take 256 (or_str ua []) = [] then None else Some (take 256 (or_str ua []))),
     ss_ip_prefix_hash = ip, ss_csrf_hash = Some (hash_csrf_token sha256 csrf), ss_elevated_at = None\<rparr>"
  have t': "t' = t @ [row]" and fresh: "session_get t (sha256 token) = None" and ne: "token \<noteq> []"
    using assms(2)
    by (auto simp: create_session_def Let_def row_def hash_session_token_def generate_session_token_def
        split: if_splits)
  have wf': "sessions_wf t'" using session_ops_wf(1) [OF assms] .
  have get: "session_get t' th = (case session_get t th of
      None \<Rightarrow> if th = sha256 token then Some row else None | Some r \<Rightarrow> Some r)" for th
    by (simp add: t' session_get_def find_append row_def hash_session_token_def split: option.splits)
  have look: "lookup_session sha256 (Some token) later t'
      = (if later \<le> now + SESSION_TTL then Some row else None)"
    using ne fresh get [of "sha256 token"]
    by (auto simp: lookup_session_def hash_session_token_def row_def)
  have "lookup_session sha256 (Some token) later (revoke_session sha256 (Some token) t') = None"
    using ne look by (simp add: revoke_session_def lookup_after_delete [OF wf'] row_def)
  moreover have "lookup_session sha256 (Some token) later (snd (revoke_all_sessions_for account t')) = None"
    using look by (simp add: revoke_all_sessions_for_def delete_rows_def lookup_after_delete [OF wf'] row_def)
  moreover have "lookup_session sha256 (Some other) later t' = lookup_session sha256 (Some other) later t"
    if "sha256 other \<noteq> sha256 token"
    using that get [of "sha256 other"]
    by (simp add: lookup_session_def hash_session_token_def split: option.splits)
  ultimately show ?thesis
    using look by (auto intro!: exI [of _ row] simp: row_def hash_csrf_token_def)
qed

theorem session_lifecycle_witness:
  "\<exists>t'. create_session rev ''acct1'' None None ''r1'' ''r2'' 5 [] = Some ((''hyr_sess_r1'', ''hyr_csrf_r2''), t') \<and>
     lookup_session rev (Some ''hyr_sess_r1'') (6 + SESSION_TTL) t' = None"
proof -
  have wf: "sessions_wf []" by (simp add: sessions_wf_def unique_by_def)
  obtain t' where c: "create_session rev ''acct1'' None None ''r1'' ''r2'' 5 []
      = Some ((''hyr_sess_r1'', ''hyr_csrf_r2''), t')"
    by (simp add: create_session_def generate_session_token_def generate_csrf_token_def session_get_def Let_def)
  from session_lifecycle [OF wf c, of "6 + SESSION_TTL"] c show ?thesis by auto
qed

text \<open>Deleting sessions removes exactly what it names. Revoking an account's sessions makes every
  token of that account resolve to nothing and leaves all other tokens alone; purging the expired
  rows is invisible to every lookup at or after the purge.\<close>

lemma session_deletions_exact:
  assumes "sessions_wf t" and "now \<le> later"
  shows "lookup_session sha256 token later (snd (revoke_all_sessions_for account t)) =
      (case lookup_session sha256 token later t of
         None \<Rightarrow> None | Some r \<Rightarrow> if ss_account r = account then None else Some r) \<and>
    lookup_session sha256 token later (snd (purge_expired_sessions now t)) = lookup_session sha256 token later t \<and>
    fst (revoke_all_sessions_for account t) + length (snd (revoke_all_sessions_for account t)) = length t"
  using assms lookup_session_account [of sha256 token later t]
  by (auto simp: revoke_all_sessions_for_def purge_expired_sessions_def delete_rows_def lookup_after_delete
      sum_length_filter_compl split: option.splits)

definition demo_session :: session_row where
  "demo_session = \<lparr>ss_token_hash = ''1t'', ss_account = ''acct1'', ss_expires_at = Naive 10,
     ss_last_seen_at = Naive 0, ss_user_agent = None, ss_ip_prefix_hash = None,
     ss_csrf_hash = Some ''1c'', ss_elevated_at = Some (Naive 3)\<rparr>"

lemma session_deletions_exact_witness:
  "lookup_session rev (Some ''t1'') 7 [demo_session] = Some demo_session \<and>
   lookup_session rev (Some ''t1'') 7 (snd (revoke_all_sessions_for ''acct1'' [demo_session])) = None"
proof -
  have wf: "sessions_wf [demo_session]" by (simp add: sessions_wf_def unique_by_def)
  have l: "lookup_session rev (Some ''t1'') 7 [demo_session] = Some demo_session"
    by (simp add: lookup_session_def session_get_def hash_session_token_def demo_session_def)
  from session_deletions_exact [OF wf, of 6 7 rev "Some ''t1''" "''acct1''"] l show ?thesis
    by (simp add: demo_session_def)
qed

end
