(* ===== verification/Access.thy ===== *)
theory Access
  imports Sessions
begin

text \<open>
  Who is calling: \<^verbatim>\<open>middleware/auth.py\<close> (the account dependency and the gates built on it),
  \<^verbatim>\<open>middleware/anon_token.py\<close> (management tokens of ownerless VMs), the privileged fence of
  \<^verbatim>\<open>services/admin_authorization.py\<close> and the API key endpoints of \<^verbatim>\<open>api/auth.py\<close>. A FastAPI dependency is
  a function that returns an \<^verbatim>\<open>HTTPException\<close> or a value, with the request state and the database it
  leaves behind.
\<close>

subsection \<open>Requests\<close>

datatype http_exn = HTTP int string

record request =
  rq_method :: string
  rq_path :: string
  rq_authorization :: "string option"
  rq_csrf_header :: "string option"
  rq_session_cookie :: "string option"
  rq_csrf_cookie :: "string option"
  rq_query_token :: "string option"
  rq_payment_signature :: "string option"
  rq_x_payment :: "string option"
  rq_dev_bypass :: "string option"

text \<open>The attributes \<^verbatim>\<open>current_account\<close> stamps on \<^verbatim>\<open>request.state\<close>.\<close>

record req_state =
  rs_is_api_key :: bool
  rs_scopes :: "string set"
  rs_key_id :: "string option"
  rs_session_hash :: "string option"
  rs_csrf_hash :: "string option"
  rs_elevated_at :: "py_datetime option"

record account =
  ac_id :: string
  ac_is_admin :: bool
  ac_disabled_at :: "py_datetime option"

record auth_db =
  db_sessions :: sessions
  db_keys :: api_keys
  db_accounts :: "string \<rightharpoonup> account"

type_synonym 'a dep = "(http_exn + 'a) \<times> req_state \<times> auth_db"

fun dep_bind :: "'a dep \<Rightarrow> ('a \<Rightarrow> req_state \<Rightarrow> auth_db \<Rightarrow> 'b dep) \<Rightarrow> 'b dep" where
  "dep_bind (Inl e, st, db) f = (Inl e, st, db)"
| "dep_bind (Inr x, st, db) f = f x st db"

subsection \<open>Bearer tokens\<close>

text \<open>\<^verbatim>\<open>auth.partition(" ")\<close> on a header: scheme and credential.\<close>

definition extract_bearer :: "request \<Rightarrow> string \<Rightarrow> string option" where
  "extract_bearer rq pfx =
     (let auth = strip (or_str (rq_authorization rq) []) in
      if auth = [] then None
      else let (scheme, cred) = split_once CHR '' '' auth in
        if lower scheme \<noteq> ''bearer'' then None
        else let candidate = strip (case cred of None \<Rightarrow> [] | Some c \<Rightarrow> c) in
          if startswith candidate pfx then Some candidate else None)"

definition ANON_TOKEN_PREFIX :: string where
  "ANON_TOKEN_PREFIX = ''hyr_vm_''"

definition hash_anon_token :: "hash \<Rightarrow> string \<Rightarrow> string" where
  "hash_anon_token sha256 token = sha256 token"

definition anon_management_token :: "request \<Rightarrow> string option" where
  "anon_management_token rq =
     (let auth = strip (or_str (rq_authorization rq) []);
          from_header =
            (if auth = [] then None
             else let (scheme, cred) = split_once CHR '' '' auth in
               if lower scheme = ''bearer'' then
                 let candidate = strip (case cred of None \<Rightarrow> [] | Some c \<Rightarrow> c) in
                 if startswith candidate ANON_TOKEN_PREFIX then Some candidate else None
               else None)
      in case from_header of
           Some c \<Rightarrow> Some c
         | None \<Rightarrow>
           (case rq_query_token rq of
              Some q \<Rightarrow> if q \<noteq> [] \<and> startswith q ANON_TOKEN_PREFIX then Some q else None
            | None \<Rightarrow> None))"

record vm_identity =
  vi_vm_id :: string
  vi_account :: "string option"
  vi_wallet :: "string option"
  vi_token_hash :: "string option"

definition can_view_public_status :: "vm_identity \<Rightarrow> bool" where
  "can_view_public_status vm = True"

definition can_manage_vm :: "hash \<Rightarrow> vm_identity \<Rightarrow> string option \<Rightarrow> bool" where
  "can_manage_vm sha256 vm presented =
     (if \<not> truthy presented then False
      else if \<not> truthy (vi_token_hash vm) then False
      else vi_token_hash vm = Some (hash_anon_token sha256 (the presented)))"

text \<open>An identity captured when access was granted matches a VM row while all four fields agree.\<close>

definition identity_matches :: "vm_identity \<Rightarrow> vm_identity \<Rightarrow> bool" where
  "identity_matches captured vm \<longleftrightarrow> captured = vm"

subsection \<open>The account dependency\<close>

definition blank_state :: req_state where
  "blank_state = \<lparr>rs_is_api_key = False, rs_scopes = {}, rs_key_id = None, rs_session_hash = None,
     rs_csrf_hash = None, rs_elevated_at = None\<rparr>"

text \<open>\<open>wired\<close>: whether a session factory is configured. \<open>write_ok\<close>: whether the best-effort touch of the
  key or the session commits.\<close>

definition current_account ::
    "hash \<Rightarrow> bool \<Rightarrow> request \<Rightarrow> int \<Rightarrow> bool \<Rightarrow> auth_db \<Rightarrow> account option dep" where
  "current_account sha256 wired rq now write_ok db =
     (if \<not> wired then (Inr None, blank_state, db)
      else
        case (case extract_bearer rq API_KEY_PREFIX of
                Some sk \<Rightarrow> if looks_like_api_key sk then Some sk else None
              | None \<Rightarrow> None) of
          Some sk \<Rightarrow>
            let (key_row, keys') = lookup_api_key sha256 sk now write_ok (db_keys db);
                db' = db\<lparr>db_keys := keys'\<rparr>
            in (case key_row of
                  None \<Rightarrow> (Inl (HTTP 401 ''Invalid or revoked API key''), blank_state, db')
                | Some k \<Rightarrow>
                  (case db_accounts db (k_account k) of
                     None \<Rightarrow> (Inl (HTTP 401 ''API key references missing account''), blank_state, db')
                   | Some account \<Rightarrow>
                     if ac_disabled_at account \<noteq> None then (Inl (HTTP 403 ''Account disabled''), blank_state, db')
                     else (Inr (Some account),
                           blank_state\<lparr>rs_is_api_key := True, rs_scopes := set (k_scopes k), rs_key_id := Some (k_id k)\<rparr>,
                           db')))
        | None \<Rightarrow>
            (if \<not> truthy (rq_session_cookie rq) then (Inr None, blank_state, db)
             else case lookup_session sha256 (rq_session_cookie rq) now (db_sessions db) of
               None \<Rightarrow> (Inr None, blank_state, db)
             | Some row \<Rightarrow>
               (case db_accounts db (ss_account row) of
                  None \<Rightarrow> (Inr None, blank_state, db)
                | Some account \<Rightarrow>
                  if ac_disabled_at account \<noteq> None then (Inl (HTTP 403 ''Account disabled''), blank_state, db)
                  else (Inr (Some account),
                        blank_state\<lparr>rs_session_hash := Some (ss_token_hash row), rs_csrf_hash := ss_csrf_hash row,
                          rs_elevated_at := ss_elevated_at row\<rparr>,
                        if write_ok then db\<lparr>db_sessions := touch_session row now (db_sessions db)\<rparr> else db))))"

definition require_account :: "hash \<Rightarrow> bool \<Rightarrow> request \<Rightarrow> int \<Rightarrow> bool \<Rightarrow> auth_db \<Rightarrow> account dep" where
  "require_account sha256 wired rq now write_ok db =
     dep_bind (current_account sha256 wired rq now write_ok db)
       (\<lambda>a st db. case a of None \<Rightarrow> (Inl (HTTP 401 ''Authentication required''), st, db) | Some a \<Rightarrow> (Inr a, st, db))"

definition require_browser_session :: "hash \<Rightarrow> bool \<Rightarrow> request \<Rightarrow> int \<Rightarrow> bool \<Rightarrow> auth_db \<Rightarrow> account dep" where
  "require_browser_session sha256 wired rq now write_ok db =
     dep_bind (require_account sha256 wired rq now write_ok db)
       (\<lambda>a st db. if rs_is_api_key st
          then (Inl (HTTP 403 ''This action requires a browser session, not an API key''), st, db)
          else (Inr a, st, db))"

definition verify_session_csrf :: "hash \<Rightarrow> request \<Rightarrow> req_state \<Rightarrow> http_exn + unit" where
  "verify_session_csrf sha256 rq st =
     (let expected = rs_csrf_hash st; supplied = rq_csrf_header rq; cookie = rq_csrf_cookie rq in
      if \<not> truthy expected \<or> \<not> truthy supplied \<or> \<not> truthy cookie
      then Inl (HTTP 403 ''CSRF validation failed'')
      else if supplied \<noteq> cookie \<or> Some (hash_csrf_token sha256 (the supplied)) \<noteq> expected
      then Inl (HTTP 403 ''CSRF validation failed'')
      else Inr ())"

definition require_admin_session :: "hash \<Rightarrow> bool \<Rightarrow> request \<Rightarrow> int \<Rightarrow> bool \<Rightarrow> auth_db \<Rightarrow> account dep" where
  "require_admin_session sha256 wired rq now write_ok db =
     dep_bind (require_browser_session sha256 wired rq now write_ok db)
       (\<lambda>a st db. if \<not> ac_is_admin a then (Inl (HTTP 403 ''Administrator access required''), st, db)
          else (Inr a, st, db))"

definition require_admin_csrf :: "hash \<Rightarrow> bool \<Rightarrow> request \<Rightarrow> int \<Rightarrow> bool \<Rightarrow> auth_db \<Rightarrow> account dep" where
  "require_admin_csrf sha256 wired rq now write_ok db =
     dep_bind (require_admin_session sha256 wired rq now write_ok db)
       (\<lambda>a st db. case verify_session_csrf sha256 rq st of Inl e \<Rightarrow> (Inl e, st, db) | Inr _ \<Rightarrow> (Inr a, st, db))"

text \<open>\<^verbatim>\<open>max_age_seconds or config.admin_step_up_seconds\<close>: an age of 0 falls back to the configuration.
  The age is the time since the elevation, in microseconds here.\<close>

definition elevation_expired :: "py_datetime option \<Rightarrow> int \<Rightarrow> int \<Rightarrow> bool" where
  "elevation_expired elevated_at now ttl =
     (case elevated_at of None \<Rightarrow> True | Some e \<Rightarrow> now - utc e > seconds ttl)"

definition require_admin_step_up ::
    "int option \<Rightarrow> int \<Rightarrow> int \<Rightarrow> hash \<Rightarrow> bool \<Rightarrow> request \<Rightarrow> int \<Rightarrow> bool \<Rightarrow> auth_db \<Rightarrow> account dep" where
  "require_admin_step_up max_age config_ttl now2 sha256 wired rq now write_ok db =
     dep_bind (require_admin_csrf sha256 wired rq now write_ok db)
       (\<lambda>a st db.
          let ttl = (case max_age of Some n \<Rightarrow> if n \<noteq> 0 then n else config_ttl | None \<Rightarrow> config_ttl) in
          if elevation_expired (rs_elevated_at st) now2 ttl
          then (Inl (HTTP 403 ''admin_step_up_required''), st, db) else (Inr a, st, db))"

definition require_scope ::
    "string list \<Rightarrow> hash \<Rightarrow> bool \<Rightarrow> request \<Rightarrow> int \<Rightarrow> bool \<Rightarrow> auth_db \<Rightarrow> account dep" where
  "require_scope needed sha256 wired rq now write_ok db =
     dep_bind (require_account sha256 wired rq now write_ok db)
       (\<lambda>a st db.
          if \<not> rs_is_api_key st then (Inr a, st, db)
          else if filter (\<lambda>s. s \<notin> rs_scopes st) needed \<noteq> []
          then (Inl (HTTP 403 ''API key missing required scope(s)''), st, db)
          else (Inr a, st, db))"

text \<open>The fence that a privileged dispatch takes inside its own transaction.\<close>

definition validate_admin_dispatch :: "auth_db \<Rightarrow> string \<Rightarrow> http_exn + account" where
  "validate_admin_dispatch db actor_id =
     (case db_accounts db actor_id of
        None \<Rightarrow> Inl (HTTP 403 ''Administrator access was revoked'')
      | Some a \<Rightarrow>
        if \<not> ac_is_admin a \<or> ac_disabled_at a \<noteq> None then Inl (HTTP 403 ''Administrator access was revoked'')
        else Inr a)"

subsection \<open>API key endpoints\<close>

record key_body =
  kb_name :: string
  kb_scopes :: "string list"
  kb_expires_in_days :: "int option"

text \<open>\<open>account\<close> and \<open>st\<close> come from \<^verbatim>\<open>require_account\<close>; \<open>db\<close> is the database when the handler opens its own
  transaction.\<close>

definition create_api_key_endpoint ::
    "hash \<Rightarrow> bool \<Rightarrow> key_body \<Rightarrow> account \<Rightarrow> req_state \<Rightarrow> string \<Rightarrow> string \<Rightarrow> int \<Rightarrow> auth_db
     \<Rightarrow> (http_exn + string \<times> api_key_row) \<times> auth_db" where
  "create_api_key_endpoint sha256 wired body account st rnd uid now db =
     (if rs_is_api_key st \<and> scope_value API_KEYS_WRITE \<notin> rs_scopes st
      then (Inl (HTTP 403 ''Missing scope: api_keys:write''), db)
      else if rs_is_api_key st \<and> \<not> set (kb_scopes body) \<subseteq> rs_scopes st
      then (Inl (HTTP 403 ''requested scopes exceed issuing key's''), db)
      else if \<not> wired then (Inl (HTTP 503 ''Database not available''), db)
      else
        let expires = map_option (\<lambda>d. Aware (now + days d) 0) (kb_expires_in_days body) in
        case db_accounts db (ac_id account) of
          None \<Rightarrow> (Inl (HTTP 403 ''Account disabled''), db)
        | Some current \<Rightarrow>
          if ac_disabled_at current \<noteq> None then (Inl (HTTP 403 ''Account disabled''), db)
          else (case create_api_key sha256 (ac_id account) (kb_name body) (kb_scopes body) expires rnd uid now (db_keys db) of
              Inl KeyIntegrityError \<Rightarrow> (Inl (HTTP 500 ''Internal Server Error''), db)
            | Inl e \<Rightarrow> (Inl (HTTP 400 ''unknown scope''), db)
            | Inr (res, keys') \<Rightarrow> (Inr res, db\<lparr>db_keys := keys'\<rparr>)))"

definition revoke_api_key_endpoint ::
    "bool \<Rightarrow> string \<Rightarrow> account \<Rightarrow> req_state \<Rightarrow> int \<Rightarrow> auth_db \<Rightarrow> (http_exn + bool) \<times> auth_db" where
  "revoke_api_key_endpoint wired key_id account st now db =
     (if rs_is_api_key st \<and> scope_value API_KEYS_WRITE \<notin> rs_scopes st
      then (Inl (HTTP 403 ''Missing scope: api_keys:write''), db)
      else if rs_is_api_key st \<and> rs_key_id st = Some key_id
      then (Inl (HTTP 403 ''An API key cannot revoke itself''), db)
      else if \<not> wired then (Inl (HTTP 503 ''Database not available''), db)
      else let (found, keys') = revoke_api_key (ac_id account) key_id now (db_keys db) in
        if \<not> found then (Inl (HTTP 404 ''API key not found''), db\<lparr>db_keys := keys'\<rparr>)
        else (Inr True, db\<lparr>db_keys := keys'\<rparr>))"

subsection \<open>What a granted dependency implies\<close>

lemma unit_sum_no_error: "(\<forall>e. r \<noteq> Inl e) \<longleftrightarrow> r = Inr ()" for r :: "'e + unit"
  by (cases r) auto

lemma dep_bind_Inr:
  "dep_bind d f = (Inr x, st, db) \<longleftrightarrow> (\<exists>y st1 db1. d = (Inr y, st1, db1) \<and> f y st1 db1 = (Inr x, st, db))"
  by (cases "(d, f)" rule: dep_bind.cases) auto

text \<open>Tables keyed by the row's own id.\<close>

definition accounts_wf :: "auth_db \<Rightarrow> bool" where
  "accounts_wf db \<longleftrightarrow> (\<forall>i a. db_accounts db i = Some a \<longrightarrow> ac_id a = i)"

definition by_api_key :: "hash \<Rightarrow> request \<Rightarrow> int \<Rightarrow> auth_db \<Rightarrow> account \<Rightarrow> req_state \<Rightarrow> bool" where
  "by_api_key sha256 rq now db a st \<longleftrightarrow>
     (\<exists>sk k. extract_bearer rq API_KEY_PREFIX = Some sk \<and> k \<in> set (db_keys db) \<and> k_hash k = sha256 sk \<and>
        k_revoked_at k = None \<and> (\<forall>e. k_expires_at k = Some e \<longrightarrow> now \<le> utc e) \<and>
        db_accounts db (k_account k) = Some a \<and> ac_disabled_at a = None \<and>
        rs_is_api_key st \<and> rs_scopes st = set (k_scopes k) \<and> rs_key_id st = Some (k_id k))"

definition by_session :: "hash \<Rightarrow> request \<Rightarrow> int \<Rightarrow> auth_db \<Rightarrow> account \<Rightarrow> req_state \<Rightarrow> bool" where
  "by_session sha256 rq now db a st \<longleftrightarrow>
     (\<exists>row. lookup_session sha256 (rq_session_cookie rq) now (db_sessions db) = Some row \<and>
        db_accounts db (ss_account row) = Some a \<and> ac_disabled_at a = None \<and> \<not> rs_is_api_key st \<and>
        rs_csrf_hash st = ss_csrf_hash row \<and> rs_elevated_at st = ss_elevated_at row)"

lemma current_account_granted:
  assumes "current_account sha256 wired rq now ok db = (Inr (Some a), st, db')"
  shows "by_api_key sha256 rq now db a st \<or> by_session sha256 rq now db a st"
proof -
  consider (key) sk where "extract_bearer rq API_KEY_PREFIX = Some sk" "looks_like_api_key sk"
    | (cookie) "(case extract_bearer rq API_KEY_PREFIX of
                Some sk \<Rightarrow> if looks_like_api_key sk then Some sk else None | None \<Rightarrow> None) = None"
    by (cases "extract_bearer rq API_KEY_PREFIX"; cases "looks_like_api_key (the (extract_bearer rq API_KEY_PREFIX))") auto
  then show ?thesis
  proof cases
    case key
    obtain kr keys' where l: "lookup_api_key sha256 sk now ok (db_keys db) = (kr, keys')" by fastforce
    with key assms obtain k where k: "kr = Some k"
      by (cases kr) (auto simp: current_account_def split: if_splits)
    from lookup_api_key_live [OF l [unfolded k]] key assms l k show ?thesis
      by (auto simp: current_account_def by_api_key_def blank_state_def Let_def split: if_splits option.splits)
  next
    case cookie
    with assms show ?thesis
      by (auto simp: current_account_def by_session_def blank_state_def split: if_splits option.splits)
  qed
qed

lemma require_account_granted:
  "require_account sha256 wired rq now ok db = (Inr a, st, db') \<Longrightarrow>
   by_api_key sha256 rq now db a st \<or> by_session sha256 rq now db a st"
  by (rule current_account_granted)
    (auto simp: require_account_def dep_bind_Inr split: option.splits)

lemma require_browser_session_granted:
  "require_browser_session sha256 wired rq now ok db = (Inr a, st, db') \<Longrightarrow> by_session sha256 rq now db a st"
  by (auto simp: require_browser_session_def dep_bind_Inr by_api_key_def
      dest!: require_account_granted split: if_splits)

lemma create_endpoint_by_key:
  assumes "create_api_key_endpoint sha256 wired body a st rnd uid now db = (Inr (clear, child), db')"
    and "rs_is_api_key st"
  shows "set (k_scopes child) \<subseteq> rs_scopes st \<and> k_account child = ac_id a \<and>
    scope_value API_KEYS_WRITE \<in> rs_scopes st \<and> db_keys db' = db_keys db @ [child]"
  using assms
  by (auto simp: create_api_key_endpoint_def Let_def dest!: create_api_key_ok
      split: if_splits option.splits sum.splits scope_error.splits)

subsection \<open>Delegation chains\<close>

text \<open>An authority is an account with a set of scopes. One step: a caller that authenticates with a key of
  the first authority mints a key of the second.\<close>

inductive mints :: "hash \<Rightarrow> string \<times> string set \<Rightarrow> string \<times> string set \<Rightarrow> bool" for sha256 where
  mint: "accounts_wf db \<Longrightarrow> require_account sha256 wired rq now ok db = (Inr a, st, db1) \<Longrightarrow> rs_is_api_key st \<Longrightarrow>
     create_api_key_endpoint sha256 wired body a st rnd uid now' db2 = (Inr (clear, child), db3) \<Longrightarrow>
     mints sha256 (ac_id a, rs_scopes st) (k_account child, set (k_scopes child))"

inductive lineage :: "hash \<Rightarrow> string \<times> string set \<Rightarrow> string \<times> string set \<Rightarrow> bool" for sha256 where
  root: "lineage sha256 r r"
| next_key: "lineage sha256 r k \<Longrightarrow> mints sha256 k k' \<Longrightarrow> lineage sha256 r k'"

lemma mints_within: "mints sha256 k k' \<Longrightarrow> fst k' = fst k \<and> snd k' \<subseteq> snd k"
  by (induction rule: mints.induct) (simp add: create_endpoint_by_key)

lemma lineage_within: "lineage sha256 r k \<Longrightarrow> fst k = fst r \<and> snd k \<subseteq> snd r"
  by (induction rule: lineage.induct) (auto dest: mints_within)

subsection \<open>Properties\<close>

text \<open>C29: no chain of keys minted by keys escalates: every key reachable by delegation belongs to the
  root key's account and holds only scopes the root key holds.\<close>

theorem key_delegation_never_escalates:
  assumes "lineage sha256 (account, scopes) (account', scopes')"
  shows "account' = account \<and> scopes' \<subseteq> scopes"
  using lineage_within [OF assms] by simp

definition demo_sk :: string where
  "demo_sk = ''hyr_sk_abcdefghijklmnopqrstuvwxyz012345''"

definition demo_key :: api_key_row where
  "demo_key = \<lparr>k_id = ''key1'', k_account = ''acct1'', k_hash = rev demo_sk, k_name = ''agent'',
     k_scopes = [''vm:read'', ''api_keys:write''], k_created_at = Naive 0, k_expires_at = None,
     k_revoked_at = None, k_last_used_at = None\<rparr>"

definition demo_account :: account where
  "demo_account = \<lparr>ac_id = ''acct1'', ac_is_admin = True, ac_disabled_at = None\<rparr>"

definition demo_auth_db :: auth_db where
  "demo_auth_db = \<lparr>db_sessions = [demo_session], db_keys = [demo_key], db_accounts = [''acct1'' \<mapsto> demo_account]\<rparr>"

definition demo_request :: request where
  "demo_request = \<lparr>rq_method = ''POST'', rq_path = ''/v1/me/api-keys'', rq_authorization = None,
     rq_csrf_header = Some ''c1'', rq_session_cookie = Some ''t1'', rq_csrf_cookie = Some ''c1'',
     rq_query_token = None, rq_payment_signature = None, rq_x_payment = None, rq_dev_bypass = None\<rparr>"

definition demo_key_request :: request where
  "demo_key_request = demo_request\<lparr>rq_authorization := Some (''Bearer '' @ demo_sk)\<rparr>"

lemma demo_bearer: "extract_bearer demo_key_request API_KEY_PREFIX = Some demo_sk"
  by code_simp

lemma demo_sk_shape: "looks_like_api_key demo_sk"
  by (simp add: looks_like_api_key_def demo_sk_def API_KEY_PREFIX_def)

lemma demo_wf: "accounts_wf demo_auth_db"
  by (simp add: accounts_wf_def demo_auth_db_def demo_account_def)

lemma demo_key_account:
  "require_account rev True demo_key_request 5 False demo_auth_db =
     (Inr demo_account, blank_state\<lparr>rs_is_api_key := True, rs_scopes := set (k_scopes demo_key),
        rs_key_id := Some ''key1''\<rparr>, demo_auth_db)"
proof -
  have "lookup_api_key rev demo_sk 5 False (db_keys demo_auth_db) = (Some demo_key, db_keys demo_auth_db)"
    by (simp add: lookup_api_key_def demo_sk_shape hash_api_key_def) (simp add: demo_auth_db_def demo_key_def)
  then show ?thesis
    by (simp add: require_account_def current_account_def demo_bearer demo_sk_shape)
      (simp add: demo_auth_db_def demo_account_def demo_key_def)
qed

theorem key_delegation_never_escalates_witness:
  "mints rev (''acct1'', {''vm:read'', ''api_keys:write''}) (''acct1'', {''vm:read''}) \<and>
   {''vm:read''} \<subseteq> {''vm:read'', ''api_keys:write''}"
proof -
  let ?st = "blank_state\<lparr>rs_is_api_key := True, rs_scopes := set (k_scopes demo_key), rs_key_id := Some ''key1''\<rparr>"
  let ?body = "\<lparr>kb_name = ''child'', kb_scopes = [''vm:read''], kb_expires_in_days = None\<rparr>"
  obtain clear child db' where e: "create_api_key_endpoint rev True ?body demo_account ?st ''x'' ''key2'' 9 demo_auth_db
      = (Inr (clear, child), db')" and c: "k_account child = ''acct1'' \<and> k_scopes child = [''vm:read'']"
    by (simp add: create_api_key_endpoint_def create_api_key_def validate_scopes_def all_scopes_def demo_auth_db_def
        demo_account_def demo_key_def blank_state_def hash_api_key_def generate_api_key_def API_KEY_PREFIX_def
        demo_sk_def Let_def)
  from mints.mint [OF demo_wf demo_key_account _ e] c
  have m: "mints rev (''acct1'', {''vm:read'', ''api_keys:write''}) (''acct1'', {''vm:read''})"
    by (simp add: demo_account_def demo_key_def)
  from key_delegation_never_escalates [OF lineage.next_key [OF lineage.root m]]
  have "{''vm:read''} \<subseteq> {''vm:read'', ''api_keys:write''}" by simp
  with m show ?thesis by blast
qed

text \<open>A request that presents an API key never gains anything from a cookie: its outcome is the same
  with any cookie, it fails when the key does not resolve, and when it succeeds it acts with exactly
  the scopes of a live key whose account is enabled.\<close>

theorem api_key_isolated_from_cookie:
  assumes "extract_bearer rq API_KEY_PREFIX = Some sk" and "looks_like_api_key sk"
  shows "current_account sha256 True (rq\<lparr>rq_session_cookie := cookie\<rparr>) now ok db
      = current_account sha256 True rq now ok db \<and>
    (fst (lookup_api_key sha256 sk now ok (db_keys db)) = None \<longrightarrow>
      fst (current_account sha256 True rq now ok db) = Inl (HTTP 401 ''Invalid or revoked API key'')) \<and>
    (\<forall>a st db'. current_account sha256 True rq now ok db = (Inr a, st, db') \<longrightarrow>
      (\<exists>acct. a = Some acct \<and> by_api_key sha256 rq now db acct st))"
proof -
  have b: "extract_bearer (rq\<lparr>rq_session_cookie := cookie\<rparr>) API_KEY_PREFIX = Some sk"
    using assms(1) by (simp add: extract_bearer_def)
  have "\<exists>acct. a = Some acct \<and> by_api_key sha256 rq now db acct st"
    if c: "current_account sha256 True rq now ok db = (Inr a, st, db')" for a st db'
  proof -
    from c assms have "a \<noteq> None \<and> rs_is_api_key st"
      by (cases a) (auto simp: current_account_def blank_state_def Let_def split: option.splits prod.splits if_splits)
    then obtain acct where "a = Some acct" "rs_is_api_key st" by auto
    with current_account_granted [of sha256 True rq now ok db acct st db'] c show ?thesis
      by (auto simp: by_session_def)
  qed
  moreover have "fst (current_account sha256 True rq now ok db) = Inl (HTTP 401 ''Invalid or revoked API key'')"
    if "fst (lookup_api_key sha256 sk now ok (db_keys db)) = None"
    using that assms by (cases "lookup_api_key sha256 sk now ok (db_keys db)") (simp add: current_account_def)
  ultimately show ?thesis
    using assms b by (auto simp: current_account_def)
qed

theorem api_key_isolated_from_cookie_witness:
  "fst (current_account rev True demo_key_request 5 False (demo_auth_db\<lparr>db_keys := []\<rparr>))
     = Inl (HTTP 401 ''Invalid or revoked API key'')"
  using api_key_isolated_from_cookie [OF demo_bearer demo_sk_shape, where db = "demo_auth_db\<lparr>db_keys := []\<rparr>"]
  by (simp add: lookup_api_key_def demo_sk_shape)



end
