(* ===== verification/Payment_Gate.thy ===== *)
theory Payment_Gate
  imports Py_Decimal Ledger Access
begin

text \<open>
  \<^verbatim>\<open>middleware/x402.py\<close>: the payment gate. The x402 SDK and the facilitator are the fields of \<open>sdk\<close>;
  a result \<open>None\<close> means that the call raised. What differs from call to call (clock, random part,
  database contents at the two authorization reads, outcome of the ledger write) is in \<open>gate_env\<close>. The
  gate's own state is \<open>gate\<close>, with the settlement calls it has made as a trace.
\<close>

subsection \<open>The SDK\<close>

record requirement =
  req_network :: string
  req_asset :: string

record resource_config =
  rc_scheme :: string
  rc_network :: string
  rc_pay_to :: string
  rc_price :: decimal

record verification =
  v_is_valid :: bool
  v_invalid_reason :: "string option"
  v_payer :: "string option"

record settlement =
  s_success :: bool
  s_error_reason :: "string option"
  s_payer :: "string option"
  s_transaction :: "string option"

text \<open>A header does not decode, decodes to another protocol version, or to a payload.\<close>

datatype 'p decoded = DecodeError | OtherVersion | Payload 'p

record 'p sdk =
  x_initialize :: bool
  x_build :: "resource_config \<Rightarrow> requirement list option"
  x_challenge :: "requirement list \<Rightarrow> string option \<Rightarrow> string option"
  x_decode :: "string \<Rightarrow> 'p decoded"
  x_match :: "requirement list \<Rightarrow> 'p \<Rightarrow> requirement option option"
  x_verify :: "'p \<Rightarrow> requirement \<Rightarrow> verification option"
  x_settle :: "'p \<Rightarrow> requirement \<Rightarrow> settlement option"
  x_encode_settlement :: "settlement \<Rightarrow> string option"
  x_auth_from :: "'p \<Rightarrow> string option"
  x_from :: "'p \<Rightarrow> string option"

subsection \<open>Configuration, state and environment\<close>

record gate_cfg =
  c_networks :: "(string \<times> string) list"
  c_receiver :: string
  c_dev_secret :: "string option"
  c_facilitator_host :: string
  c_has_ledger :: bool
  c_has_db :: bool
  c_admin_enabled :: bool
  c_step_up_seconds :: int
  c_diagnostic_limit :: int
  c_cost_limit :: int

type_synonym quota_slot = "string \<times> string \<times> int"
type_synonym quota = "quota_slot \<rightharpoonup> int"

record 'p gate =
  g_initialized :: bool
  g_ledger :: ledger
  g_quota :: quota
  g_settle_calls :: "('p \<times> requirement) list"

record admin_ctx =
  ax_account :: string
  ax_class :: string

text \<open>The payment attributes of \<^verbatim>\<open>request.state\<close>.\<close>

record pay_state =
  ps_tx :: "string option"
  ps_network :: "string option"
  ps_asset :: "string option"
  ps_mode :: "string option"
  ps_payer :: "string option"
  ps_headers :: "(string \<times> string) list"
  ps_ambiguous :: "bool option"
  ps_admin :: "admin_ctx option"

text \<open>A bounded write is confirmed, fails, or times out; a timed-out one may have landed.\<close>

datatype write_outcome = Written | WriteFailed | WriteTimedOut bool

record gate_env =
  e_uid :: string
  e_rnd :: string
  e_write :: write_outcome
  e_restore_ok :: bool
  e_sha256 :: hash
  e_catalog :: "string \<Rightarrow> string \<Rightarrow> string option"
  e_now1 :: int
  e_db1 :: auth_db
  e_now2 :: int
  e_db2 :: auth_db

record response =
  rp_status :: int
  rp_error :: "string option"
  rp_amount :: "decimal option"
  rp_headers :: "(string \<times> string) list"

text \<open>\<open>Crash\<close>: an exception that the gate does not handle.\<close>

datatype 'a outcome = Raises http_exn | Crash | Reply response | Granted 'a

definition json_response :: "int \<Rightarrow> string \<Rightarrow> (string \<times> string) list \<Rightarrow> response" where
  "json_response status err headers =
     \<lparr>rp_status = status, rp_error = Some err, rp_amount = None, rp_headers = headers\<rparr>"

subsection \<open>Requirements and challenges\<close>

definition ensure_initialized :: "'p sdk \<Rightarrow> 'p gate \<Rightarrow> bool \<times> 'p gate" where
  "ensure_initialized x g =
     (if g_initialized g then (True, g)
      else if x_initialize x then (True, g\<lparr>g_initialized := True\<rparr>) else (False, g))"

definition resource_configs :: "gate_cfg \<Rightarrow> decimal \<Rightarrow> resource_config list" where
  "resource_configs cfg amount =
     map (\<lambda>(scheme, network). \<lparr>rc_scheme = scheme, rc_network = network, rc_pay_to = c_receiver cfg,
       rc_price = amount\<rparr>) (c_networks cfg)"

fun extend_all :: "('a \<Rightarrow> 'b list option) \<Rightarrow> 'a list \<Rightarrow> 'b list option" where
  "extend_all f [] = Some []"
| "extend_all f (x # xs) =
     (case f x of None \<Rightarrow> None
      | Some ys \<Rightarrow> (case extend_all f xs of None \<Rightarrow> None | Some zs \<Rightarrow> Some (ys @ zs)))"

definition build_requirements :: "'p sdk \<Rightarrow> gate_cfg \<Rightarrow> decimal \<Rightarrow> requirement list option" where
  "build_requirements x cfg amount = extend_all (x_build x) (resource_configs cfg amount)"

definition payment_required_response ::
    "'p sdk \<Rightarrow> requirement list \<Rightarrow> decimal \<Rightarrow> string option \<Rightarrow> response option" where
  "payment_required_response x reqs amount err =
     (case x_challenge x reqs err of
        None \<Rightarrow> None
      | Some encoded \<Rightarrow> Some \<lparr>rp_status = 402, rp_error = err, rp_amount = Some amount,
          rp_headers = [(''PAYMENT-REQUIRED'', encoded), (''X-PAYMENT-REQUIRED'', encoded)]\<rparr>)"

definition unavailable :: response where
  "unavailable = json_response 503 ''Payment facilitator unavailable'' []"

definition build_402_response ::
    "'p sdk \<Rightarrow> gate_cfg \<Rightarrow> decimal \<Rightarrow> 'p gate \<Rightarrow> response option \<times> 'p gate" where
  "build_402_response x cfg amount g =
     (if c_networks cfg = [] \<or> c_receiver cfg = [] then (Some unavailable, g)
      else let (ready, g') = ensure_initialized x g in
        if \<not> ready then (Some unavailable, g')
        else case build_requirements x cfg amount of
          None \<Rightarrow> (Some unavailable, g')
        | Some reqs \<Rightarrow> (payment_required_response x reqs amount None, g'))"

definition payment_header :: "request \<Rightarrow> string option" where
  "payment_header rq = or_opt (rq_payment_signature rq) (rq_x_payment rq)"

subsection \<open>Ledger writes\<close>

definition event_for :: "gate_cfg \<Rightarrow> string \<Rightarrow> decimal \<Rightarrow> event_fields" where
  "event_for cfg kind amount =
     blank_fields\<lparr>f_type := kind, f_amount := Some amount, f_facilitator := Some (c_facilitator_host cfg)\<rparr>"

definition written :: "gate_env \<Rightarrow> request \<Rightarrow> event_fields \<Rightarrow> ledger \<Rightarrow> ledger" where
  "written env rq f l = fst (ledger_record True (e_uid env) (rq_path rq) (rq_method rq) f False l)"

text \<open>Best effort: nothing without a ledger, never raises.\<close>

definition record_soft :: "gate_cfg \<Rightarrow> gate_env \<Rightarrow> request \<Rightarrow> event_fields \<Rightarrow> 'p gate \<Rightarrow> 'p gate" where
  "record_soft cfg env rq f g =
     (if \<not> c_has_ledger cfg then g
      else case e_write env of
        Written \<Rightarrow> g\<lparr>g_ledger := written env rq f (g_ledger g)\<rparr>
      | WriteFailed \<Rightarrow> g\<lparr>g_ledger := fst (ledger_record False (e_uid env) (rq_path rq) (rq_method rq) f False (g_ledger g))\<rparr>
      | WriteTimedOut landed \<Rightarrow> if landed then g\<lparr>g_ledger := written env rq f (g_ledger g)\<rparr> else g)"

text \<open>Fail closed: only a confirmed write returns.\<close>

definition record_required ::
    "gate_cfg \<Rightarrow> gate_env \<Rightarrow> request \<Rightarrow> event_fields \<Rightarrow> 'p gate \<Rightarrow> (http_exn + unit) \<times> 'p gate" where
  "record_required cfg env rq f g =
     (let unavailable_audit = Inl (HTTP 503 ''Admin waiver audit unavailable'') in
      if \<not> c_has_ledger cfg then (unavailable_audit, g)
      else case e_write env of
        Written \<Rightarrow> (Inr (), g\<lparr>g_ledger := written env rq f (g_ledger g)\<rparr>)
      | WriteFailed \<Rightarrow> (unavailable_audit, g)
      | WriteTimedOut landed \<Rightarrow>
          (unavailable_audit, if landed then g\<lparr>g_ledger := written env rq f (g_ledger g)\<rparr> else g))"

subsection \<open>Administrator waivers\<close>

definition admin_operation_class :: "gate_env \<Rightarrow> request \<Rightarrow> http_exn + string" where
  "admin_operation_class env rq =
     (let path = rstrip_char CHR ''/'' (rq_path rq) in
      if (startswith path ''/v1/vm/'' \<or> startswith path ''/v1/tunnel/'') \<and>
         startswith (rev path) (rev ''/extend'') then Inr ''real_cost''
      else if path = ''/v1/domains/orders'' then Inr ''real_cost''
      else case e_catalog env (rq_method rq) (rq_path rq) of
        None \<Rightarrow> Inl (HTTP 403 ''admin_bypass_unclassified'')
      | Some cls \<Rightarrow> Inr cls)"

definition csrf_ok :: "hash \<Rightarrow> request \<Rightarrow> session_row \<Rightarrow> bool" where
  "csrf_ok sha256 rq row \<longleftrightarrow>
     truthy (rq_csrf_header rq) \<and> truthy (rq_csrf_cookie rq) \<and> truthy (ss_csrf_hash row) \<and>
     rq_csrf_header rq = rq_csrf_cookie rq \<and>
     Some (hash_csrf_token sha256 (the (rq_csrf_header rq))) = ss_csrf_hash row"

text \<open>\<open>now\<close> and \<open>db\<close> are what this read sees.\<close>

definition admin_context ::
    "gate_cfg \<Rightarrow> gate_env \<Rightarrow> request \<Rightarrow> bool \<Rightarrow> int \<Rightarrow> auth_db \<Rightarrow> pay_state
     \<Rightarrow> (http_exn + admin_ctx option) \<times> pay_state" where
  "admin_context cfg env rq force_refresh now db ps =
     (if rstrip_char CHR ''/'' (rq_path rq) = ''/v1/domains/registrations'' then (Inr None, ps)
      else if \<not> force_refresh \<and> ps_admin ps \<noteq> None then (Inr (ps_admin ps), ps)
      else if \<not> c_admin_enabled cfg \<or> \<not> c_has_db cfg then (Inr None, ps)
      else if truthy (rq_authorization rq) then (Inr None, ps)
      else if \<not> truthy (rq_session_cookie rq) then (Inr None, ps)
      else case lookup_session (e_sha256 env) (rq_session_cookie rq) now (db_sessions db) of
        None \<Rightarrow> (Inr None, ps)
      | Some row \<Rightarrow>
        (case db_accounts db (ss_account row) of
           None \<Rightarrow> (Inr None, ps)
         | Some account \<Rightarrow>
           if \<not> ac_is_admin account then (Inr None, ps)
           else if ac_disabled_at account \<noteq> None then (Inl (HTTP 403 ''Account disabled''), ps)
           else if \<not> csrf_ok (e_sha256 env) rq row then (Inl (HTTP 403 ''CSRF validation failed''), ps)
           else case admin_operation_class env rq of
             Inl e \<Rightarrow> (Inl e, ps)
           | Inr cls \<Rightarrow>
             if cls = ''real_cost'' \<and> elevation_expired (ss_elevated_at row) now (c_step_up_seconds cfg)
             then (Inl (HTTP 403 ''admin_step_up_required''), ps)
             else let ctx = \<lparr>ax_account = ac_id account, ax_class = cls\<rparr>
                  in (Inr (Some ctx), ps\<lparr>ps_admin := Some ctx\<rparr>)))"

definition ADMIN_BYPASS_RETENTION :: int where
  "ADMIN_BYPASS_RETENTION = days 2"

text \<open>Real-cost waivers count per hour, the others per minute.\<close>

definition quota_window :: "admin_ctx \<Rightarrow> int \<Rightarrow> int" where
  "quota_window ctx now =
     (if ax_class ctx = ''real_cost'' then now - now mod hours 1 else now - now mod minutes 1)"

definition quota_limit :: "gate_cfg \<Rightarrow> admin_ctx \<Rightarrow> int" where
  "quota_limit cfg ctx = (if ax_class ctx = ''real_cost'' then c_cost_limit cfg else c_diagnostic_limit cfg)"

definition quota_key :: "admin_ctx \<Rightarrow> int \<Rightarrow> quota_slot" where
  "quota_key ctx window = (ax_account ctx, ax_class ctx, window)"

definition prune_quota :: "int \<Rightarrow> quota \<Rightarrow> quota" where
  "prune_quota cutoff t = (\<lambda>k. if snd (snd k) < cutoff then None else t k)"

definition consume_admin_quota ::
    "gate_cfg \<Rightarrow> admin_ctx \<Rightarrow> int \<Rightarrow> quota \<Rightarrow> (http_exn + int) \<times> quota" where
  "consume_admin_quota cfg ctx now t =
     (let window = quota_window ctx now; k = quota_key ctx window;
          pruned = prune_quota (now - ADMIN_BYPASS_RETENTION) t
      in case pruned k of
           None \<Rightarrow> (Inr window, pruned(k \<mapsto> 1))
         | Some n \<Rightarrow>
           if n < quota_limit cfg ctx then (Inr window, pruned(k \<mapsto> n + 1))
           else (Inl (HTTP 429 (''Admin '' @ ax_class ctx @ '' waiver limit reached'')), pruned))"

definition restore_admin_quota :: "admin_ctx \<Rightarrow> int \<Rightarrow> quota \<Rightarrow> quota" where
  "restore_admin_quota ctx window t = fst (update_where (quota_key ctx window) (\<lambda>n. 0 < n) (\<lambda>n. n - 1) t)"

text \<open>A failure of the compensation itself is logged; the original error is what the caller sees.\<close>

definition restore_admin_quota_after_failure :: "bool \<Rightarrow> admin_ctx \<Rightarrow> int \<Rightarrow> quota \<Rightarrow> quota" where
  "restore_admin_quota_after_failure ok ctx window t =
     (if ok then restore_admin_quota ctx window t else t)"

definition waiver_fields ::
    "gate_cfg \<Rightarrow> gate_env \<Rightarrow> decimal \<Rightarrow> admin_ctx \<Rightarrow> (string \<times> string option) list option \<Rightarrow> event_fields" where
  "waiver_fields cfg env amount ctx extra =
     (event_for cfg ''admin_bypass'' amount)\<lparr>
        f_network := Some ''admin-bypass'', f_payer := Some (''admin:'' @ ax_account ctx),
        f_tx := Some (''admin_bypass_'' @ e_rnd env), f_actor := Some (ax_account ctx),
        f_extra := Some (dict_update (case extra of None \<Rightarrow> [] | Some d \<Rightarrow> d)
          [(''operation_class'', Some (ax_class ctx)), (''retail_amount_usd'', Some (dec_str amount))])\<rparr>"

definition apply_admin_bypass ::
    "gate_cfg \<Rightarrow> gate_env \<Rightarrow> request \<Rightarrow> decimal \<Rightarrow> admin_ctx \<Rightarrow> (string \<times> string option) list option
     \<Rightarrow> 'p gate \<Rightarrow> pay_state \<Rightarrow> string outcome \<times> 'p gate \<times> pay_state" where
  "apply_admin_bypass cfg env rq amount ctx extra g ps =
     (case admin_context cfg env rq True (e_now2 env) (e_db2 env) ps of
        (Inl e, ps') \<Rightarrow> (Raises e, g, ps')
      | (Inr live, ps') \<Rightarrow>
        if live \<noteq> Some ctx then (Raises (HTTP 403 ''Admin waiver authorization expired''), g, ps')
        else
          let (slot, quota') = consume_admin_quota cfg ctx (e_now2 env) (g_quota g);
              g1 = g\<lparr>g_quota := quota'\<rparr>
          in (case slot of
                Inl e \<Rightarrow> (Raises e, g1, ps')
              | Inr window \<Rightarrow>
                let (audit, g2) = record_required cfg env rq (waiver_fields cfg env amount ctx extra) g1 in
                (case audit of
                   Inl e \<Rightarrow> (Raises e,
                     g2\<lparr>g_quota := restore_admin_quota_after_failure (e_restore_ok env) ctx window (g_quota g2)\<rparr>, ps')
                 | Inr _ \<Rightarrow> (Granted (''admin:'' @ ax_account ctx), g2,
                     ps'\<lparr>ps_tx := Some (''admin_bypass_'' @ e_rnd env), ps_network := Some ''admin-bypass'',
                       ps_asset := None, ps_mode := Some ''admin-bypass'',
                       ps_headers := [(''X-Hyrule-Payment-Mode'', ''admin-bypass'')]\<rparr>))))"

subsection \<open>Credentials\<close>

definition dev_bypass :: "gate_cfg \<Rightarrow> request \<Rightarrow> bool" where
  "dev_bypass cfg rq \<longleftrightarrow> truthy (c_dev_secret cfg) \<and> rq_dev_bypass rq = c_dev_secret cfg"

definition has_payment_credentials ::
    "gate_cfg \<Rightarrow> gate_env \<Rightarrow> request \<Rightarrow> pay_state \<Rightarrow> (http_exn + bool) \<times> pay_state" where
  "has_payment_credentials cfg env rq ps =
     (if truthy (payment_header rq) then (Inr True, ps)
      else if dev_bypass cfg rq then (Inr True, ps)
      else case admin_context cfg env rq False (e_now1 env) (e_db1 env) ps of
        (Inl e, ps') \<Rightarrow> (Inl e, ps')
      | (Inr ctx, ps') \<Rightarrow> (Inr (ctx \<noteq> None), ps'))"

definition payment_authorization_hash :: "gate_cfg \<Rightarrow> gate_env \<Rightarrow> request \<Rightarrow> string option" where
  "payment_authorization_hash cfg env rq =
     (if truthy (payment_header rq) then Some (e_sha256 env (the (payment_header rq)))
      else if dev_bypass cfg rq
      then Some (e_sha256 env (''dev-bypass:'' @ rq_method rq @ '':'' @ rq_path rq))
      else None)"

definition challenge_payment ::
    "'p sdk \<Rightarrow> gate_cfg \<Rightarrow> gate_env \<Rightarrow> request \<Rightarrow> decimal \<Rightarrow> 'p gate \<Rightarrow> 'a outcome \<times> 'p gate" where
  "challenge_payment x cfg env rq amount g =
     (case build_402_response x cfg amount g of
        (None, g') \<Rightarrow> (Crash, g')
      | (Some r, g') \<Rightarrow>
        (Reply r, if rp_status r = 402 then record_soft cfg env rq (event_for cfg ''required_402'' amount) g' else g'))"

text \<open>\<^verbatim>\<open>admin_waiver_dispatch_guard\<close> and \<^verbatim>\<open>prospective_admin_dispatch_guard\<close>: the actor whose authority the
  accepting transaction checks again, if any.\<close>

definition admin_waiver_dispatch_guard :: "pay_state \<Rightarrow> http_exn + string option" where
  "admin_waiver_dispatch_guard ps =
     (if ps_mode ps \<noteq> Some ''admin-bypass'' then Inr None
      else case ps_admin ps of
        None \<Rightarrow> Inl (HTTP 403 ''Administrator waiver authorization is missing'')
      | Some ctx \<Rightarrow> Inr (Some (ax_account ctx)))"

definition prospective_admin_dispatch_guard ::
    "gate_cfg \<Rightarrow> gate_env \<Rightarrow> request \<Rightarrow> pay_state \<Rightarrow> (http_exn + string option) \<times> pay_state" where
  "prospective_admin_dispatch_guard cfg env rq ps =
     (if truthy (payment_header rq) then (Inr None, ps)
      else if dev_bypass cfg rq then (Inr None, ps)
      else case admin_context cfg env rq True (e_now1 env) (e_db1 env) ps of
        (Inl e, ps') \<Rightarrow> (Inl e, ps')
      | (Inr ctx, ps') \<Rightarrow> (Inr (map_option ax_account ctx), ps'))"

subsection \<open>Verification of a signed payment\<close>

datatype 'p verified_header =
  Failed response                                  \<comment> \<open>answered with a fresh challenge\<close>
| Valid 'p requirement verification

text \<open>The shared part of \<^verbatim>\<open>check_payment\<close> and \<^verbatim>\<open>verify_only\<close>; \<open>None\<close>: something raised inside the handler's
  \<^verbatim>\<open>try\<close>. The ledger event of a failure is written before the challenge is built.\<close>

definition reject ::
    "'p sdk \<Rightarrow> gate_cfg \<Rightarrow> gate_env \<Rightarrow> request \<Rightarrow> decimal \<Rightarrow> requirement list \<Rightarrow> event_fields \<Rightarrow> string
     \<Rightarrow> 'p gate \<Rightarrow> 'p verified_header option \<times> 'p gate" where
  "reject x cfg env rq amount reqs f err g =
     (map_option Failed (payment_required_response x reqs amount (Some err)),
      record_soft cfg env rq (f\<lparr>f_error := Some err\<rparr>) g)"

definition verify_header ::
    "'p sdk \<Rightarrow> gate_cfg \<Rightarrow> gate_env \<Rightarrow> request \<Rightarrow> decimal \<Rightarrow> string \<Rightarrow> 'p gate
     \<Rightarrow> 'p verified_header option \<times> 'p gate" where
  "verify_header x cfg env rq amount header g =
     (let f = event_for cfg ''verify_failed'' amount in
      case build_requirements x cfg amount of
        None \<Rightarrow> (None, g)
      | Some reqs \<Rightarrow>
        (case x_decode x header of
           DecodeError \<Rightarrow> reject x cfg env rq amount reqs f ''Malformed payment header'' g
         | OtherVersion \<Rightarrow> reject x cfg env rq amount reqs f ''Unsupported payment payload version'' g
         | Payload p \<Rightarrow>
           (case x_match x reqs p of
              None \<Rightarrow> (None, g)
            | Some None \<Rightarrow> reject x cfg env rq amount reqs f ''No matching payment requirements'' g
            | Some (Some req) \<Rightarrow>
              (case x_verify x p req of
                 None \<Rightarrow> (None, g)
               | Some v \<Rightarrow>
                 if \<not> v_is_valid v
                 then reject x cfg env rq amount reqs
                   (f\<lparr>f_network := Some (req_network req), f_payer := v_payer v\<rparr>)
                   (or_str (v_invalid_reason v) ''Payment verification failed'') g
                 else (Some (Valid p req v), g)))))"

definition extract_wallet :: "'p sdk \<Rightarrow> string \<Rightarrow> string option" where
  "extract_wallet x header =
     (case x_decode x header of Payload p \<Rightarrow> or_opt (x_auth_from x p) (x_from x p) | _ \<Rightarrow> None)"

definition processing_error :: response where
  "processing_error = json_response 502 ''Payment processing error'' []"

definition settlement_headers :: "string \<Rightarrow> (string \<times> string) list" where
  "settlement_headers h = [(''PAYMENT-RESPONSE'', h), (''X-PAYMENT-RESPONSE'', h)]"

subsection \<open>Charging before delivery\<close>

text \<open>Everything after the signature was found valid: settle, record, answer.\<close>

definition settle_now ::
    "'p sdk \<Rightarrow> gate_cfg \<Rightarrow> gate_env \<Rightarrow> request \<Rightarrow> decimal \<Rightarrow> (string \<times> string option) list option \<Rightarrow> string
     \<Rightarrow> 'p \<Rightarrow> requirement \<Rightarrow> verification \<Rightarrow> 'p gate \<Rightarrow> pay_state \<Rightarrow> string outcome \<times> 'p gate \<times> pay_state" where
  "settle_now x cfg env rq amount extra header p req v g ps =
     (let g1 = g\<lparr>g_settle_calls := g_settle_calls g @ [(p, req)]\<rparr> in
      case x_settle x p req of
        None \<Rightarrow> (Reply processing_error, g1, ps)
      | Some s \<Rightarrow>
        (case x_encode_settlement x s of
           None \<Rightarrow> (Reply processing_error, g1, ps)
         | Some enc \<Rightarrow>
           if \<not> s_success s then
             let err = or_str (s_error_reason s) ''Payment settlement failed'' in
             (Reply (json_response 402 err (settlement_headers enc)),
              record_soft cfg env rq ((event_for cfg ''settle_failed'' amount)\<lparr>f_network := Some (req_network req),
                f_asset := Some (req_asset req), f_payer := or_opt (s_payer s) (v_payer v), f_error := Some err\<rparr>) g1,
              ps)
           else
             let wallet = or_opt (or_opt (s_payer s) (v_payer v)) (extract_wallet x header);
                 tx = or_str (s_transaction s) []
             in (Granted (or_str wallet ''unknown''),
                 record_soft cfg env rq ((event_for cfg ''settled'' amount)\<lparr>f_network := Some (req_network req),
                   f_asset := Some (req_asset req), f_payer := wallet, f_tx := Some tx, f_extra := extra\<rparr>) g1,
                 ps\<lparr>ps_tx := Some tx, ps_network := Some (req_network req), ps_asset := Some (req_asset req),
                   ps_headers := settlement_headers enc\<rparr>)))"

definition check_payment ::
    "'p sdk \<Rightarrow> gate_cfg \<Rightarrow> gate_env \<Rightarrow> request \<Rightarrow> decimal \<Rightarrow> (string \<times> string option) list option
     \<Rightarrow> 'p gate \<Rightarrow> pay_state \<Rightarrow> string outcome \<times> 'p gate \<times> pay_state" where
  "check_payment x cfg env rq amount extra g ps =
     (let header = payment_header rq in
      if \<not> truthy header \<and> dev_bypass cfg rq then
        (Granted ''0xDEV_TEST_WALLET'',
         record_soft cfg env rq ((event_for cfg ''dev_bypass'' amount)\<lparr>f_payer := Some ''0xDEV_TEST_WALLET'',
           f_tx := Some ''dev_bypass_0x0'', f_extra := extra\<rparr>) g,
         ps\<lparr>ps_tx := Some ''dev_bypass_0x0'', ps_network := Some ''dev-bypass'', ps_asset := Some ''USDC'',
           ps_mode := Some ''dev-bypass''\<rparr>)
      else
        case (if truthy header then (Inr None, ps) else admin_context cfg env rq False (e_now1 env) (e_db1 env) ps) of
          (Inl e, ps1) \<Rightarrow> (Raises e, g, ps1)
        | (Inr (Some ctx), ps1) \<Rightarrow> apply_admin_bypass cfg env rq amount ctx extra g ps1
        | (Inr None, ps1) \<Rightarrow>
          if \<not> truthy header then
            let (out, g1) = challenge_payment x cfg env rq amount g in (out, g1, ps1)
          else
            let (ready, g1) = ensure_initialized x g in
            if \<not> ready then (Reply unavailable, g1, ps1)
            else (case verify_header x cfg env rq amount (the header) g1 of
                (None, g2) \<Rightarrow> (Reply processing_error, g2, ps1)
              | (Some (Failed r), g2) \<Rightarrow> (Reply r, g2, ps1)
              | (Some (Valid p req v), g2) \<Rightarrow>
                  settle_now x cfg env rq amount extra (the header) p req v g2 ps1))"

subsection \<open>Charging after delivery\<close>

record 'p verified =
  vp_payer :: string
  vp_amount :: decimal
  vp_payment :: "('p \<times> requirement) option"
  vp_dev_bypass :: bool
  vp_admin_bypass :: bool

definition verify_only ::
    "'p sdk \<Rightarrow> gate_cfg \<Rightarrow> gate_env \<Rightarrow> request \<Rightarrow> decimal \<Rightarrow> (string \<times> string option) list option
     \<Rightarrow> 'p gate \<Rightarrow> pay_state \<Rightarrow> 'p verified outcome \<times> 'p gate \<times> pay_state" where
  "verify_only x cfg env rq amount extra g ps =
     (let header = payment_header rq in
      if \<not> truthy header \<and> dev_bypass cfg rq then
        (Granted \<lparr>vp_payer = ''0xDEV_TEST_WALLET'', vp_amount = amount, vp_payment = None, vp_dev_bypass = True,
           vp_admin_bypass = False\<rparr>, g, ps)
      else
        case (if truthy header then (Inr None, ps) else admin_context cfg env rq False (e_now1 env) (e_db1 env) ps) of
          (Inl e, ps1) \<Rightarrow> (Raises e, g, ps1)
        | (Inr (Some ctx), ps1) \<Rightarrow>
          (case apply_admin_bypass cfg env rq amount ctx extra g ps1 of
             (Granted payer, g1, ps2) \<Rightarrow>
               (Granted \<lparr>vp_payer = payer, vp_amount = amount, vp_payment = None, vp_dev_bypass = False,
                  vp_admin_bypass = True\<rparr>, g1, ps2)
           | (Raises e, g1, ps2) \<Rightarrow> (Raises e, g1, ps2)
           | (Reply r, g1, ps2) \<Rightarrow> (Reply r, g1, ps2)
           | (Crash, g1, ps2) \<Rightarrow> (Crash, g1, ps2))
        | (Inr None, ps1) \<Rightarrow>
          if \<not> truthy header then
            let (out, g1) = challenge_payment x cfg env rq amount g in (out, g1, ps1)
          else
            let (ready, g1) = ensure_initialized x g in
            if \<not> ready then (Reply unavailable, g1, ps1)
            else (case verify_header x cfg env rq amount (the header) g1 of
                (None, g2) \<Rightarrow> (Reply processing_error, g2, ps1)
              | (Some (Failed r), g2) \<Rightarrow> (Reply r, g2, ps1)
              | (Some (Valid p req v), g2) \<Rightarrow>
                  (Granted \<lparr>vp_payer = or_str (v_payer v) [], vp_amount = amount, vp_payment = Some (p, req),
                     vp_dev_bypass = False, vp_admin_bypass = False\<rparr>, g2, ps1)))"

text \<open>\<open>None\<close>: an exception leaves the gate (the encoder's, or a handle without a payment).\<close>

definition settle_verified ::
    "'p sdk \<Rightarrow> gate_cfg \<Rightarrow> gate_env \<Rightarrow> request \<Rightarrow> 'p verified \<Rightarrow> (string \<times> string option) list option
     \<Rightarrow> 'p gate \<Rightarrow> pay_state \<Rightarrow> bool option \<times> 'p gate \<times> pay_state" where
  "settle_verified x cfg env rq vp extra g ps =
     (if vp_dev_bypass vp then
        (Some True,
         record_soft cfg env rq ((event_for cfg ''dev_bypass'' (vp_amount vp))\<lparr>f_payer := Some ''0xDEV_TEST_WALLET'',
           f_tx := Some ''dev_bypass_0x0'', f_extra := extra\<rparr>) g,
         ps\<lparr>ps_tx := Some ''dev_bypass_0x0'', ps_network := Some ''dev-bypass'', ps_asset := Some ''USDC'',
           ps_mode := Some ''dev-bypass'', ps_payer := Some (vp_payer vp), ps_ambiguous := Some False\<rparr>)
      else if vp_admin_bypass vp then (Some True, g, ps)
      else case vp_payment vp of
        None \<Rightarrow> (None, g, ps)
      | Some (p, req) \<Rightarrow>
        let ps1 = ps\<lparr>ps_network := Some (req_network req), ps_asset := Some (req_asset req),
                     ps_payer := Some (vp_payer vp)\<rparr>;
            g1 = g\<lparr>g_settle_calls := g_settle_calls g @ [(p, req)]\<rparr>;
            ev = (\<lambda>kind. (event_for cfg kind (vp_amount vp))\<lparr>f_network := Some (req_network req),
                    f_asset := Some (req_asset req), f_extra := extra\<rparr>)
        in (case x_settle x p req of
              None \<Rightarrow>
                (Some False,
                 record_soft cfg env rq ((ev ''settle_failed'')\<lparr>f_payer := Some (vp_payer vp),
                   f_error := Some ''Payment settlement error''\<rparr>) g1,
                 ps1\<lparr>ps_ambiguous := Some True\<rparr>)
            | Some s \<Rightarrow>
              (case x_encode_settlement x s of
                 None \<Rightarrow> (None, g1, ps1)
               | Some enc \<Rightarrow>
                 let ps2 = ps1\<lparr>ps_headers := settlement_headers enc\<rparr>;
                     payer = or_opt (s_payer s) (Some (vp_payer vp))
                 in if \<not> s_success s then
                      (Some False,
                       record_soft cfg env rq ((ev ''settle_failed'')\<lparr>f_payer := payer,
                         f_error := Some (or_str (s_error_reason s) ''Payment settlement failed'')\<rparr>) g1,
                       ps2\<lparr>ps_ambiguous := Some False\<rparr>)
                    else
                      let tx = or_str (s_transaction s) [] in
                      (Some True,
                       record_soft cfg env rq ((ev ''settled'')\<lparr>f_payer := payer, f_tx := Some tx\<rparr>) g1,
                       ps2\<lparr>ps_tx := Some tx, ps_payer := payer, ps_ambiguous := Some False\<rparr>))))"

subsection \<open>What each step leaves alone\<close>

lemma record_soft_frame [gate_simps]:
  "g_quota (record_soft cfg env rq f g) = g_quota g"
  "g_settle_calls (record_soft cfg env rq f g) = g_settle_calls g"
  "g_initialized (record_soft cfg env rq f g) = g_initialized g"
  by (simp_all add: record_soft_def split: write_outcome.splits)

lemma record_soft_written:
  "c_has_ledger cfg \<Longrightarrow> e_write env = Written \<Longrightarrow>
   g_ledger (record_soft cfg env rq f g) = written env rq f (g_ledger g)"
  by (simp add: record_soft_def)

lemma written_event:
  "written env rq f l = l @ [build_event (e_uid env) (f\<lparr>f_path := rq_path rq, f_method := rq_method rq\<rparr>)]"
  by (simp add: written_def ledger_record_def record_event_def)

lemma record_required_frame [gate_simps]:
  "g_quota (snd (record_required cfg env rq f g)) = g_quota g"
  "g_settle_calls (snd (record_required cfg env rq f g)) = g_settle_calls g"
  by (simp_all add: record_required_def Let_def split: write_outcome.splits)

lemma record_required_ok:
  "record_required cfg env rq f g = (Inr u, g') \<longleftrightarrow>
     c_has_ledger cfg \<and> e_write env = Written \<and> g' = g\<lparr>g_ledger := written env rq f (g_ledger g)\<rparr>"
  by (auto simp: record_required_def Let_def split: write_outcome.splits)

lemma ensure_initialized_frame [gate_simps]:
  "g_quota (snd (ensure_initialized x g)) = g_quota g"
  "g_settle_calls (snd (ensure_initialized x g)) = g_settle_calls g"
  by (simp_all add: ensure_initialized_def)

lemma build_402_frame [gate_simps]:
  "g_quota (snd (build_402_response x cfg amount g)) = g_quota g"
  "g_settle_calls (snd (build_402_response x cfg amount g)) = g_settle_calls g"
  by (simp_all add: build_402_response_def gate_simps Let_def split: prod.splits option.splits)
    (metis ensure_initialized_frame snd_conv)+

lemma challenge_frame [gate_simps]:
  "g_quota (snd (challenge_payment x cfg env rq amount g)) = g_quota g"
  "g_settle_calls (snd (challenge_payment x cfg env rq amount g)) = g_settle_calls g"
  using build_402_frame [of x cfg amount g]
  by (cases "build_402_response x cfg amount g",
      simp_all add: challenge_payment_def record_soft_frame split: option.splits)+

lemma challenge_not_granted: "challenge_payment x cfg env rq amount g \<noteq> (Granted a, g')"
  by (auto simp: challenge_payment_def split: prod.splits option.splits)

lemma verify_header_frame [gate_simps]:
  "g_quota (snd (verify_header x cfg env rq amount h g)) = g_quota g"
  "g_settle_calls (snd (verify_header x cfg env rq amount h g)) = g_settle_calls g"
  by (simp_all add: verify_header_def reject_def gate_simps Let_def
      split: option.splits decoded.splits)

lemma verify_header_valid:
  "verify_header x cfg env rq amount h g = (Some (Valid p req v), g') \<Longrightarrow>
   x_decode x h = Payload p \<and> x_verify x p req = Some v \<and> v_is_valid v \<and> g' = g \<and>
   (\<exists>reqs. build_requirements x cfg amount = Some reqs \<and> x_match x reqs p = Some (Some req))"
  by (auto simp: verify_header_def reject_def Let_def split: option.splits decoded.splits if_splits)

lemma settle_now_frame [gate_simps]:
  "g_quota (fst (snd (settle_now x cfg env rq amount extra h p req v g ps))) = g_quota g"
  "g_settle_calls (fst (snd (settle_now x cfg env rq amount extra h p req v g ps))) = g_settle_calls g @ [(p, req)]"
  by (simp_all add: settle_now_def gate_simps Let_def split: option.splits)

lemma settle_now_granted:
  "settle_now x cfg env rq amount extra h p req v g ps = (Granted w, g', ps') \<Longrightarrow>
   \<exists>s enc. x_settle x p req = Some s \<and> s_success s \<and> x_encode_settlement x s = Some enc \<and>
     w = or_str (or_opt (or_opt (s_payer s) (v_payer v)) (extract_wallet x h)) ''unknown'' \<and>
     ps_tx ps' = Some (or_str (s_transaction s) []) \<and> ps_network ps' = Some (req_network req) \<and>
     ps_mode ps' = ps_mode ps"
  by (auto simp: settle_now_def Let_def split: option.splits if_splits)

subsection \<open>Administrator lemmas\<close>

text \<open>What a live waiver authorization rests on.\<close>

definition waiver_authorized :: "gate_cfg \<Rightarrow> gate_env \<Rightarrow> request \<Rightarrow> int \<Rightarrow> auth_db \<Rightarrow> admin_ctx \<Rightarrow> bool" where
  "waiver_authorized cfg env rq now db ctx \<longleftrightarrow>
     c_admin_enabled cfg \<and> \<not> truthy (rq_authorization rq) \<and>
     rstrip_char CHR ''/'' (rq_path rq) \<noteq> ''/v1/domains/registrations'' \<and>
     (\<exists>row account. lookup_session (e_sha256 env) (rq_session_cookie rq) now (db_sessions db) = Some row \<and>
        db_accounts db (ss_account row) = Some account \<and> ac_is_admin account \<and> ac_disabled_at account = None \<and>
        csrf_ok (e_sha256 env) rq row \<and> ax_account ctx = ac_id account \<and>
        admin_operation_class env rq = Inr (ax_class ctx) \<and>
        (ax_class ctx = ''real_cost'' \<longrightarrow>
           \<not> elevation_expired (ss_elevated_at row) now (c_step_up_seconds cfg)))"

lemma admin_context_fresh:
  "admin_context cfg env rq True now db ps = (Inr (Some ctx), ps') \<Longrightarrow> waiver_authorized cfg env rq now db ctx"
  by (auto simp: admin_context_def waiver_authorized_def Let_def split: if_splits option.splits sum.splits)

lemma apply_admin_bypass_frame [gate_simps]:
  "g_settle_calls (fst (snd (apply_admin_bypass cfg env rq amount ctx extra g ps))) = g_settle_calls g"
  by (auto simp: apply_admin_bypass_def gate_simps Let_def split: sum.splits prod.splits)
    (metis record_required_frame(2) gate.select_convs(4) gate.surjective gate.update_convs(3) snd_conv)+

lemma apply_admin_bypass_granted:
  assumes "apply_admin_bypass cfg env rq amount ctx extra g ps = (Granted w, g', ps')"
  shows "waiver_authorized cfg env rq (e_now2 env) (e_db2 env) ctx \<and> w = ''admin:'' @ ax_account ctx \<and>
    c_has_ledger cfg \<and> e_write env = Written \<and>
    g_ledger g' = written env rq (waiver_fields cfg env amount ctx extra) (g_ledger g) \<and>
    (\<exists>window. consume_admin_quota cfg ctx (e_now2 env) (g_quota g) = (Inr window, g_quota g')) \<and>
    ps_mode ps' = Some ''admin-bypass''"
  using assms
  by (auto simp: apply_admin_bypass_def record_required_ok Let_def dest!: admin_context_fresh
      split: sum.splits prod.splits if_splits)

subsection \<open>Waiver quota\<close>

text \<open>A run of requests for slots; what each was told.\<close>

fun consume_run :: "gate_cfg \<Rightarrow> admin_ctx \<Rightarrow> int list \<Rightarrow> quota \<Rightarrow> bool list \<times> quota" where
  "consume_run cfg ctx [] t = ([], t)"
| "consume_run cfg ctx (now # nows) t =
     (let (r, t') = consume_admin_quota cfg ctx now t; (rs, t'') = consume_run cfg ctx nows t'
      in ((\<not> isl r) # rs, t''))"

definition wins_of :: "bool list \<Rightarrow> nat" where
  "wins_of rs = length (filter id rs)"

lemma quota_window_recent: "now - ADMIN_BYPASS_RETENTION \<le> quota_window ctx now"
proof -
  have "now mod 3600000000 < 3600000000" "now mod 60000000 < 60000000" by simp_all
  then show ?thesis
    by (auto simp: quota_window_def ADMIN_BYPASS_RETENTION_def days_def hours_def minutes_def)
qed

lemma consume_in_window:
  assumes "quota_window ctx now = window"
  shows "consume_admin_quota cfg ctx now t =
    (let pruned = prune_quota (now - ADMIN_BYPASS_RETENTION) t; k = quota_key ctx window in
     case t k of
       None \<Rightarrow> (Inr window, pruned(k \<mapsto> 1))
     | Some n \<Rightarrow> if n < quota_limit cfg ctx then (Inr window, pruned(k \<mapsto> n + 1))
         else (Inl (HTTP 429 (''Admin '' @ ax_class ctx @ '' waiver limit reached'')), pruned))"
  using quota_window_recent [of now ctx] assms
  by (auto simp: consume_admin_quota_def prune_quota_def quota_key_def Let_def split: option.splits)

lemma prune_keeps_window:
  "quota_window ctx now = window \<Longrightarrow>
   prune_quota (now - ADMIN_BYPASS_RETENTION) t (quota_key ctx window) = t (quota_key ctx window)"
  using quota_window_recent [of now ctx] by (auto simp: prune_quota_def quota_key_def)

lemma consume_run_used:
  assumes "\<forall>now \<in> set nows. quota_window ctx now = window" and "t (quota_key ctx window) = Some n"
  shows "wins_of (fst (consume_run cfg ctx nows t)) = min (length nows) (nat (quota_limit cfg ctx - n))"
  using assms
proof (induction nows arbitrary: t n)
  case (Cons now nows)
  then have w: "quota_window ctx now = window" by simp
  show ?case
  proof (cases "n < quota_limit cfg ctx")
    case True
    define t' where "t' = (prune_quota (now - ADMIN_BYPASS_RETENTION) t)(quota_key ctx window \<mapsto> n + 1)"
    have "consume_admin_quota cfg ctx now t = (Inr window, t')"
      using True Cons.prems(2) by (simp add: consume_in_window [OF w] t'_def Let_def)
    moreover have "wins_of (fst (consume_run cfg ctx nows t')) = min (length nows) (nat (quota_limit cfg ctx - (n + 1)))"
      by (rule Cons.IH) (use Cons.prems in \<open>auto simp: t'_def\<close>)
    ultimately show ?thesis using True by (auto simp: wins_of_def split: prod.splits)
  next
    case False
    define t' where "t' = prune_quota (now - ADMIN_BYPASS_RETENTION) t"
    have "consume_admin_quota cfg ctx now t = (Inl (HTTP 429 (''Admin '' @ ax_class ctx @ '' waiver limit reached'')), t')"
      using False Cons.prems(2) by (simp add: consume_in_window [OF w] t'_def Let_def)
    moreover have "wins_of (fst (consume_run cfg ctx nows t')) = min (length nows) (nat (quota_limit cfg ctx - n))"
      by (rule Cons.IH) (use Cons.prems w in \<open>auto simp: t'_def prune_keeps_window\<close>)
    ultimately show ?thesis using False by (auto simp: wins_of_def split: prod.splits)
  qed
qed (simp add: wins_of_def)

lemma restore_undoes_consume:
  assumes "consume_admin_quota cfg ctx now t = (Inr window, t')" and "\<forall>n. t (quota_key ctx window) = Some n \<longrightarrow> 0 \<le> n"
  shows "restore_admin_quota ctx window t' (quota_key ctx window)
     = Some (case t (quota_key ctx window) of None \<Rightarrow> 0 | Some n \<Rightarrow> n)"
proof -
  have w: "quota_window ctx now = window"
    using assms(1) by (auto simp: consume_admin_quota_def Let_def split: option.splits if_splits)
  from assms show ?thesis
    by (auto simp: consume_in_window [OF w] restore_admin_quota_def update_where_def Let_def
        split: option.splits if_splits)
qed

subsection \<open>Properties\<close>


definition demo_sdk :: "string sdk" where
  "demo_sdk = \<lparr>x_initialize = True, x_build = (\<lambda>rc. Some [\<lparr>req_network = rc_network rc, req_asset = ''USDC''\<rparr>]),
     x_challenge = (\<lambda>reqs err. Some ''challenge''),
     x_decode = (\<lambda>h. if h = ''sig'' then Payload ''auth'' else DecodeError),
     x_match = (\<lambda>reqs p. Some (find (\<lambda>r. True) reqs)),
     x_verify = (\<lambda>p req. Some \<lparr>v_is_valid = True, v_invalid_reason = None, v_payer = Some ''0xabc''\<rparr>),
     x_settle = (\<lambda>p req. Some \<lparr>s_success = True, s_error_reason = None, s_payer = None, s_transaction = Some ''0x1''\<rparr>),
     x_encode_settlement = (\<lambda>s. Some ''enc''), x_auth_from = (\<lambda>p. None), x_from = (\<lambda>p. None)\<rparr>"

definition demo_gate_cfg :: gate_cfg where
  "demo_gate_cfg = \<lparr>c_networks = [(''exact'', ''eip155:8453'')], c_receiver = ''0xrecv'', c_dev_secret = Some ''dev'',
     c_facilitator_host = ''pay.openfacilitator.io'', c_has_ledger = True, c_has_db = True, c_admin_enabled = True,
     c_step_up_seconds = 600, c_diagnostic_limit = 120, c_cost_limit = 10\<rparr>"

definition demo_gate_env :: gate_env where
  "demo_gate_env = \<lparr>e_uid = ''u1'', e_rnd = ''r1'', e_write = Written, e_restore_ok = True, e_sha256 = rev,
     e_catalog = (\<lambda>m p. Some ''diagnostic''), e_now1 = 5, e_db1 = demo_auth_db, e_now2 = 6, e_db2 = demo_auth_db\<rparr>"

definition demo_gate :: "string gate" where
  "demo_gate = \<lparr>g_initialized = False, g_ledger = [], g_quota = (\<lambda>_. None), g_settle_calls = []\<rparr>"

definition demo_pay_state :: pay_state where
  "demo_pay_state = \<lparr>ps_tx = None, ps_network = None, ps_asset = None, ps_mode = None, ps_payer = None,
     ps_headers = [], ps_ambiguous = None, ps_admin = None\<rparr>"

definition demo_paid_request :: request where
  "demo_paid_request = demo_request\<lparr>rq_payment_signature := Some ''sig''\<rparr>"

lemmas demo_gate_defs = demo_sdk_def demo_gate_cfg_def demo_gate_env_def demo_gate_def demo_pay_state_def
  demo_paid_request_def demo_request_def

lemma demo_paid:
  "\<exists>g' ps'. check_payment demo_sdk demo_gate_cfg demo_gate_env demo_paid_request (Dec 5 (-2)) None demo_gate demo_pay_state
     = (Granted ''0xabc'', g', ps')"
  by (simp add: check_payment_def payment_header_def or_opt_def ensure_initialized_def verify_header_def
      build_requirements_def resource_configs_def settle_now_def demo_gate_defs or_str_def Let_def)




text \<open>Verifying moves no money; a handle it grants for a signed payment carries the payload and the
  requirement that were found valid, and charging that handle is one settlement call on exactly
  these, which answers true only if the facilitator reported success and records the outcome as
  \<^verbatim>\<open>settled\<close>. An ambiguous settlement (the call raised) is marked as such and never answers true.\<close>

theorem verify_then_settle:
  assumes "verify_only x cfg env rq amount extra g ps = (Granted vp, g1, ps1)"
    and "vp_payment vp = Some (p, req)"
    and "settle_verified x cfg env' rq vp extra' g1 ps1 = (paid, g2, ps2)"
  shows "g_settle_calls g1 = g_settle_calls g \<and> g_quota g1 = g_quota g \<and>
    (\<exists>h v. payment_header rq = Some h \<and> x_decode x h = Payload p \<and> x_verify x p req = Some v \<and> v_is_valid v) \<and>
    g_settle_calls g2 = g_settle_calls g @ [(p, req)] \<and>
    (paid = Some True \<longleftrightarrow> (\<exists>s enc. x_settle x p req = Some s \<and> s_success s \<and> x_encode_settlement x s = Some enc)) \<and>
    (x_settle x p req = None \<longleftrightarrow> paid = Some False \<and> ps_ambiguous ps2 = Some True) \<and>
    (paid = Some True \<and> c_has_ledger cfg \<and> e_write env' = Written \<longrightarrow>
       (\<exists>e. g_ledger g2 = g_ledger g1 @ [e] \<and> ev_type e = ''settled'' \<and> ev_amount e = Some amount \<and>
          ev_network e = Some (req_network req)))"
proof (cases "truthy (payment_header rq)")
  case True
  then obtain h where h: "payment_header rq = Some h" "h \<noteq> []" by (elim truthyE)
  obtain ready g0 where i: "ensure_initialized x g = (ready, g0)" by fastforce
  obtain vh g3 where vh: "verify_header x cfg env rq amount h g0 = (vh, g3)" by fastforce
  from assms(1,2) h i vh obtain v where v: "vh = Some (Valid p req v)" "g3 = g1"
    "\<not> vp_dev_bypass vp" "\<not> vp_admin_bypass vp" "vp_amount vp = amount"
    by (auto simp: verify_only_def Let_def split: if_splits option.splits verified_header.splits)
  have g1: "g_settle_calls g1 = g_settle_calls g" "g_quota g1 = g_quota g"
    using verify_header_frame [of x cfg env rq amount h g0] ensure_initialized_frame [of x g] i vh v by simp_all
  have head: "\<exists>h v. payment_header rq = Some h \<and> x_decode x h = Payload p \<and> x_verify x p req = Some v \<and> v_is_valid v"
    using h verify_header_valid [OF vh [unfolded v(1)]] by blast
  have calls: "g_settle_calls g2 = g_settle_calls g @ [(p, req)]"
    using assms(2,3) v g1 by (auto simp: settle_verified_def record_soft_frame Let_def split: option.splits if_splits)
  have paid: "paid = Some True \<longleftrightarrow>
      (\<exists>s enc. x_settle x p req = Some s \<and> s_success s \<and> x_encode_settlement x s = Some enc)"
    using assms(2,3) v by (auto simp: settle_verified_def Let_def split: option.splits if_splits)
  have amb: "x_settle x p req = None \<longleftrightarrow> paid = Some False \<and> ps_ambiguous ps2 = Some True"
    using assms(2,3) v by (auto simp: settle_verified_def Let_def split: option.splits if_splits)
  have led: "\<exists>e. g_ledger g2 = g_ledger g1 @ [e] \<and> ev_type e = ''settled'' \<and> ev_amount e = Some amount \<and>
      ev_network e = Some (req_network req)" if "paid = Some True" "c_has_ledger cfg" "e_write env' = Written"
    using assms(2,3) v that
    by (auto simp: settle_verified_def record_soft_written written_event event_for_def Let_def
        split: option.splits if_splits)
  from g1 head calls paid amb led show ?thesis by blast
next
  case False
  obtain r ps' where a: "admin_context cfg env rq False (e_now1 env) (e_db1 env) ps = (r, ps')" by fastforce
  from False assms(1,2) a show ?thesis
    by (auto simp: verify_only_def Let_def challenge_not_granted split: if_splits sum.splits option.splits
        prod.splits outcome.splits)
qed

theorem verify_then_settle_witness:
  "\<exists>vp g1 ps1. verify_only demo_sdk demo_gate_cfg demo_gate_env demo_paid_request (Dec 5 (-2)) None demo_gate
       demo_pay_state = (Granted vp, g1, ps1) \<and>
     g_settle_calls (fst (snd (settle_verified demo_sdk demo_gate_cfg demo_gate_env demo_paid_request vp None g1 ps1)))
       = [(''auth'', \<lparr>req_network = ''eip155:8453'', req_asset = ''USDC''\<rparr>)]"
proof -
  obtain vp g1 ps1 where v: "verify_only demo_sdk demo_gate_cfg demo_gate_env demo_paid_request (Dec 5 (-2)) None
      demo_gate demo_pay_state = (Granted vp, g1, ps1)"
    and p: "vp_payment vp = Some (''auth'', \<lparr>req_network = ''eip155:8453'', req_asset = ''USDC''\<rparr>)"
    by (simp add: verify_only_def payment_header_def or_opt_def ensure_initialized_def verify_header_def
        build_requirements_def resource_configs_def demo_gate_defs or_str_def Let_def)
  obtain paid g2 ps2 where s: "settle_verified demo_sdk demo_gate_cfg demo_gate_env demo_paid_request vp None g1 ps1
      = (paid, g2, ps2)" by (rule prod_cases3)
  from verify_then_settle [OF v p s] have "g_settle_calls g2 = [(''auth'', \<lparr>req_network = ''eip155:8453'', req_asset = ''USDC''\<rparr>)]"
    by (simp add: demo_gate_def)
  with v s show ?thesis by auto
qed

text \<open>The waiver quota is exact: of any number of requests in one window that starts unused, the
  first \<open>max 1 limit\<close> are granted and no other. A configured limit of zero still grants one, since the
  first use of a window inserts its row without comparing the limit.\<close>

theorem waiver_quota_exact:
  assumes "\<forall>now \<in> set nows. quota_window ctx now = window" and "t (quota_key ctx window) = None"
  shows "wins_of (fst (consume_run cfg ctx nows t)) = min (length nows) (nat (max 1 (quota_limit cfg ctx)))"
proof (cases nows)
  case (Cons now rest)
  with assms have w: "quota_window ctx now = window" and r: "\<forall>n \<in> set rest. quota_window ctx n = window" by simp_all
  define t' where "t' = (prune_quota (now - ADMIN_BYPASS_RETENTION) t)(quota_key ctx window \<mapsto> 1)"
  have "consume_admin_quota cfg ctx now t = (Inr window, t')"
    using assms(2) by (simp add: consume_in_window [OF w] t'_def Let_def)
  moreover have "wins_of (fst (consume_run cfg ctx rest t')) = min (length rest) (nat (quota_limit cfg ctx - 1))"
    by (rule consume_run_used [OF r]) (simp add: t'_def)
  ultimately show ?thesis
    using Cons by (auto simp: wins_of_def split: prod.splits)
qed (simp add: wins_of_def)

definition demo_ctx :: admin_ctx where
  "demo_ctx = \<lparr>ax_account = ''acct1'', ax_class = ''real_cost''\<rparr>"

theorem waiver_quota_exact_witness:
  "wins_of (fst (consume_run (demo_gate_cfg\<lparr>c_cost_limit := 0\<rparr>) demo_ctx [5, 6, 7] (\<lambda>_. None))) = 1"
proof -
  have "\<forall>now \<in> set [5, 6, 7]. quota_window demo_ctx now = 0"
    by (simp add: quota_window_def demo_ctx_def hours_def)
  from waiver_quota_exact [OF this, of "\<lambda>_. None" "demo_gate_cfg\<lparr>c_cost_limit := 0\<rparr>"] show ?thesis
    by (simp add: quota_limit_def demo_ctx_def)
qed

text \<open>A waiver is never granted unaudited, and an unaudited one costs nothing: when the ledger is not
  configured or its write is not confirmed, the call ends in an exception, and if the compensation
  commits, the count of the window's slot is what it was before (zero for a new window).\<close>

theorem waiver_audit_fail_closed:
  assumes "apply_admin_bypass cfg env rq amount ctx extra g ps = (out, g', ps')"
    and "\<not> c_has_ledger cfg \<or> e_write env \<noteq> Written"
    and "e_restore_ok env" and "\<forall>k n. g_quota g k = Some n \<longrightarrow> 0 \<le> n"
  shows "(\<exists>e. out = Raises e) \<and>
    (let k = quota_key ctx (quota_window ctx (e_now2 env)) in
       g_quota g' k = g_quota g k \<or> (g_quota g k = None \<and> g_quota g' k = Some 0))"
proof -
  define k where "k = quota_key ctx (quota_window ctx (e_now2 env))"
  obtain live ps1 where a: "admin_context cfg env rq True (e_now2 env) (e_db2 env) ps = (live, ps1)" by fastforce
  show ?thesis
  proof (cases "live = Inr (Some ctx)")
    case False
    with assms(1) a show ?thesis
      by (auto simp: apply_admin_bypass_def Let_def split: sum.splits if_splits)
  next
    case True
    obtain slot q where c: "consume_admin_quota cfg ctx (e_now2 env) (g_quota g) = (slot, q)" by fastforce
    obtain audit g2 where r: "record_required cfg env rq (waiver_fields cfg env amount ctx extra) (g\<lparr>g_quota := q\<rparr>)
        = (audit, g2)" by fastforce
    from r assms(2) have au: "\<exists>e. audit = Inl e"
      by (cases audit) (auto simp: record_required_ok)
    have q2: "g_quota g2 = q"
      using record_required_frame(1) [of cfg env rq "waiver_fields cfg env amount ctx extra" "g\<lparr>g_quota := q\<rparr>"] r by simp
    show ?thesis
    proof (cases slot)
      case (Inl e)
      from c Inl have "q k = g_quota g k"
        by (auto simp: consume_in_window [OF refl] k_def prune_keeps_window Let_def split: option.splits if_splits)
      with assms(1) a True c Inl show ?thesis
        by (auto simp: apply_admin_bypass_def k_def Let_def)
    next
      case (Inr window)
      have w: "window = quota_window ctx (e_now2 env)"
        using c Inr by (auto simp: consume_in_window [OF refl] Let_def split: option.splits if_splits)
      have "restore_admin_quota ctx window q (quota_key ctx window)
          = Some (case g_quota g (quota_key ctx window) of None \<Rightarrow> 0 | Some n \<Rightarrow> n)"
        using assms(4) by (intro restore_undoes_consume [OF c [unfolded Inr]]) blast
      with assms(1,3) a True c Inr r au q2 w show ?thesis
        by (auto simp: apply_admin_bypass_def restore_admin_quota_after_failure_def Let_def split: option.splits)
    qed
  qed
qed

definition demo_waiver_env :: gate_env where
  "demo_waiver_env = demo_gate_env\<lparr>e_write := WriteTimedOut True\<rparr>"

definition demo_waiver_request :: request where
  "demo_waiver_request = demo_request\<lparr>rq_path := ''/v1/domains/orders''\<rparr>"

theorem waiver_audit_fail_closed_witness:
  "\<exists>e. fst (apply_admin_bypass demo_gate_cfg demo_waiver_env demo_waiver_request (Dec 5 (-2)) demo_ctx None demo_gate
     demo_pay_state) = Raises e"
proof -
  obtain out g' ps' where a: "apply_admin_bypass demo_gate_cfg demo_waiver_env demo_waiver_request (Dec 5 (-2)) demo_ctx
      None demo_gate demo_pay_state = (out, g', ps')" by (rule prod_cases3)
  from waiver_audit_fail_closed [OF a] a show ?thesis
    by (auto simp: demo_waiver_env_def demo_gate_env_def demo_gate_def)
qed

text \<open>A signed payment is never replaced by a local waiver: with a signature in the request, the outcome is
  the one of a gate that has neither a development secret nor administrator waivers.\<close>

theorem signature_beats_waivers:
  assumes "truthy (payment_header rq)"
  shows "check_payment x cfg env rq amount extra g ps
      = check_payment x (cfg\<lparr>c_dev_secret := None, c_admin_enabled := False\<rparr>) env
          (rq\<lparr>rq_dev_bypass := None, rq_session_cookie := None\<rparr>) amount extra g ps"
proof -
  have r: "record_soft (cfg\<lparr>c_dev_secret := None, c_admin_enabled := False\<rparr>) env
      (rq\<lparr>rq_dev_bypass := None, rq_session_cookie := None\<rparr>) f g0 = record_soft cfg env rq f g0" for f and g0 :: "'a gate"
    by (simp add: record_soft_def written_def split: write_outcome.splits)
  have b: "build_requirements x (cfg\<lparr>c_dev_secret := None, c_admin_enabled := False\<rparr>) amount
      = build_requirements x cfg amount"
    by (simp add: build_requirements_def resource_configs_def)
  have e: "event_for (cfg\<lparr>c_dev_secret := None, c_admin_enabled := False\<rparr>) = event_for cfg"
    by (simp add: event_for_def fun_eq_iff)
  have h: "payment_header (rq\<lparr>rq_dev_bypass := None, rq_session_cookie := None\<rparr>) = payment_header rq"
    by (simp add: payment_header_def)
  have v: "verify_header x (cfg\<lparr>c_dev_secret := None, c_admin_enabled := False\<rparr>) env
      (rq\<lparr>rq_dev_bypass := None, rq_session_cookie := None\<rparr>) amount hd0 g0 = verify_header x cfg env rq amount hd0 g0"
    for hd0 and g0 :: "'a gate"
    by (simp only: verify_header_def reject_def b e r)
  have s: "settle_now x (cfg\<lparr>c_dev_secret := None, c_admin_enabled := False\<rparr>) env
      (rq\<lparr>rq_dev_bypass := None, rq_session_cookie := None\<rparr>) amount extra hd0 p req w g0 ps0
      = settle_now x cfg env rq amount extra hd0 p req w g0 ps0" for hd0 p req w ps0 and g0 :: "'a gate"
    by (simp only: settle_now_def e r)
  show ?thesis
    unfolding check_payment_def h v s Let_def using assms by simp
qed

theorem signature_beats_waivers_witness:
  "check_payment demo_sdk demo_gate_cfg demo_gate_env demo_paid_request (Dec 5 (-2)) None demo_gate demo_pay_state
     = check_payment demo_sdk (demo_gate_cfg\<lparr>c_dev_secret := None, c_admin_enabled := False\<rparr>) demo_gate_env
         (demo_paid_request\<lparr>rq_dev_bypass := None, rq_session_cookie := None\<rparr>) (Dec 5 (-2)) None demo_gate demo_pay_state"
  by (rule signature_beats_waivers) (simp add: payment_header_def or_opt_def demo_gate_defs)

end
