(* ===== verification/Guest_Result.thy ===== *)
theory Guest_Result
  imports Models
begin

text \<open>
  \<^verbatim>\<open>services/guest_result.py\<close> and the polling side \<^verbatim>\<open>Orchestrator._poll_guest_result\<close>: a guest proves once,
  with a one-time credential, how its first boot ended. A receipt is created or replaced only while
  the VM has no guest; after a report it is immutable.
\<close>

datatype guest_outcome = Succeeded | Failed
datatype guest_stage = Cloud_Init | Setup_Script

record guest_result =
  gr_outcome :: guest_outcome
  gr_stage :: guest_stage
  gr_exit_code :: int

definition consistent_result :: "guest_result \<Rightarrow> bool" where
  "consistent_result r \<longleftrightarrow> 0 \<le> gr_exit_code r \<and> gr_exit_code r \<le> 255 \<and>
     (gr_outcome r = Succeeded \<longrightarrow> gr_stage r = Cloud_Init \<and> gr_exit_code r = 0) \<and>
     (gr_outcome r = Failed \<longrightarrow> gr_exit_code r \<noteq> 0)"

record receipt =
  rc_generation :: string
  rc_token_hash :: string
  rc_deadline :: py_datetime
  rc_result :: "guest_result option"       \<comment> \<open>outcome, stage and exit code, set together\<close>
  rc_received_at :: "int option"

type_synonym receipts = "string \<rightharpoonup> receipt"

datatype guest_rejected = Rejected int

text \<open>What the function reads of the locked VM row.\<close>

record guest_vm =
  gv_status :: vm_status
  gv_uuid :: "string option"

definition prepare_guest_result ::
    "(string \<Rightarrow> string) \<Rightarrow> string \<Rightarrow> guest_vm option \<Rightarrow> py_datetime \<Rightarrow> int \<Rightarrow> string \<Rightarrow> string \<Rightarrow> receipts
     \<Rightarrow> (guest_rejected + string \<times> string) \<times> receipts" where
  "prepare_guest_result sha256 vm_id vm deadline now generation token t =
     (case vm of
        None \<Rightarrow> (Inl (Rejected 409), t)
      | Some v \<Rightarrow>
        if gv_status v \<noteq> PROVISIONING \<or> gv_uuid v \<noteq> None then (Inl (Rejected 409), t)
        else if utc deadline \<le> now then (Inl (Rejected 410), t)
        else (Inr (generation, token),
              t(vm_id \<mapsto> \<lparr>rc_generation = generation, rc_token_hash = sha256 token,
                rc_deadline = Aware (utc deadline) 0, rc_result = None, rc_received_at = None\<rparr>)))"

definition accept_guest_result ::
    "(string \<Rightarrow> string) \<Rightarrow> string \<Rightarrow> string \<Rightarrow> string \<Rightarrow> guest_result \<Rightarrow> int \<Rightarrow> receipts
     \<Rightarrow> (guest_rejected + unit) \<times> receipts" where
  "accept_guest_result sha256 vm_id generation token result now t =
     (if 128 < length token \<or> length generation \<noteq> 32 then (Inl (Rejected 404), t)
      else case t vm_id of
        None \<Rightarrow> (Inl (Rejected 404), t)
      | Some row \<Rightarrow>
        if rc_generation row \<noteq> generation \<or> rc_token_hash row \<noteq> sha256 token then (Inl (Rejected 404), t)
        else if rc_received_at row \<noteq> None then
          (if rc_result row \<noteq> Some result then (Inl (Rejected 409), t) else (Inr (), t))
        else if utc (rc_deadline row) < now then (Inl (Rejected 410), t)
        else (Inr (), t(vm_id \<mapsto> row\<lparr>rc_result := Some result, rc_received_at := Some now\<rparr>)))"

datatype poll_result =
  Poll_Done                     \<comment> \<open>the guest reported success\<close>
| Poll_Wait int                 \<comment> \<open>remaining time\<close>
| Poll_Report_Missing | Poll_Setup_Failed | Poll_Init_Failed
| Poll_Generation_Changed

text \<open>\<open>t\<close> is the first read, \<open>t'\<close> the locked one, taken only when the deadline has passed unreported.\<close>

definition poll_guest_result :: "string \<Rightarrow> string \<Rightarrow> int \<Rightarrow> int \<Rightarrow> receipts \<Rightarrow> receipts \<Rightarrow> poll_result" where
  "poll_guest_result vm_id generation now now' t t' =
     (let late = (case t vm_id of None \<Rightarrow> False
                  | Some r \<Rightarrow> rc_received_at r = None \<and> utc (rc_deadline r) \<le> now)
      in case (if late then t' vm_id else t vm_id) of
           None \<Rightarrow> Poll_Report_Missing
         | Some r \<Rightarrow>
           if rc_generation r \<noteq> generation then Poll_Generation_Changed
           else if rc_received_at r \<noteq> None then
             (case rc_result r of
                None \<Rightarrow> Poll_Init_Failed
              | Some res \<Rightarrow>
                if gr_outcome res = Succeeded then Poll_Done
                else if gr_stage res = Setup_Script then Poll_Setup_Failed else Poll_Init_Failed)
           else let remaining = utc (rc_deadline r) - now' in
             if remaining \<le> 0 then Poll_Report_Missing else Poll_Wait remaining)"

subsection \<open>Runs\<close>

text \<open>Everything that happens to one VM's receipt: new credentials, reports, and the VM row changing
  between them (\<open>uuid\<close> is the guest the row points to, if any).\<close>

record guest_sys =
  gs_vm :: guest_vm
  gs_receipts :: receipts

inductive guest_step :: "(string \<Rightarrow> string) \<Rightarrow> string \<Rightarrow> guest_sys \<Rightarrow> guest_sys \<Rightarrow> bool" for sha256 vm_id where
  prepare: "prepare_guest_result sha256 vm_id (Some (gs_vm s)) deadline now g tok (gs_receipts s) = (r, t') \<Longrightarrow>
     guest_step sha256 vm_id s (s\<lparr>gs_receipts := t'\<rparr>)"
| report: "accept_guest_result sha256 vm_id g tok res now (gs_receipts s) = (r, t') \<Longrightarrow>
     guest_step sha256 vm_id s (s\<lparr>gs_receipts := t'\<rparr>)"
| attach: "gv_uuid (gs_vm s) = None \<Longrightarrow>
     guest_step sha256 vm_id s (s\<lparr>gs_vm := (gs_vm s)\<lparr>gv_uuid := Some u\<rparr>\<rparr>)"
| status: "guest_step sha256 vm_id s (s\<lparr>gs_vm := (gs_vm s)\<lparr>gv_status := st\<rparr>\<rparr>)"

inductive_cases guest_step_cases: "guest_step sha256 vm_id s s'"

abbreviation guest_reach :: "(string \<Rightarrow> string) \<Rightarrow> string \<Rightarrow> guest_sys \<Rightarrow> guest_sys \<Rightarrow> bool" where
  "guest_reach sha256 vm_id \<equiv> (guest_step sha256 vm_id)\<^sup>*\<^sup>*"

text \<open>A reported receipt of a VM that has its guest.\<close>

definition sealed :: "string \<Rightarrow> guest_sys \<Rightarrow> receipt \<Rightarrow> bool" where
  "sealed vm_id s r \<longleftrightarrow> gs_receipts s vm_id = Some r \<and> rc_received_at r \<noteq> None \<and> gv_uuid (gs_vm s) \<noteq> None"

lemma accept_reported_same:
  "t vm_id = Some r \<Longrightarrow> rc_received_at r \<noteq> None \<Longrightarrow> snd (accept_guest_result sha256 vm_id g tok res now t) = t"
  by (simp add: accept_guest_result_def)

text \<open>On an unreported receipt the answer decides the update.\<close>

lemma accept_unreported:
  assumes "t vm_id = Some r" "rc_received_at r = None"
  shows "accept_guest_result sha256 vm_id g tok res now t =
    (let ans = (if 128 < length tok \<or> length g \<noteq> 32 then Inl (Rejected 404)
        else if rc_generation r \<noteq> g \<or> rc_token_hash r \<noteq> sha256 tok then Inl (Rejected 404)
        else if utc (rc_deadline r) < now then Inl (Rejected 410) else Inr ())
     in (ans, if ans = Inr () then t(vm_id \<mapsto> r\<lparr>rc_result := Some res, rc_received_at := Some now\<rparr>) else t))"
  using assms by (simp add: accept_guest_result_def Let_def)

lemma guest_step_sealed: "guest_step sha256 vm_id s s' \<Longrightarrow> sealed vm_id s r \<Longrightarrow> sealed vm_id s' r"
proof (induction rule: guest_step.induct)
  case (report g tok res now s rr t')
  then have "t' = gs_receipts s"
    using accept_reported_same [of "gs_receipts s" vm_id r sha256 g tok res now] by (simp add: sealed_def)
  with report show ?case by (simp add: sealed_def)
qed (auto simp: sealed_def prepare_guest_result_def)

lemma guest_reach_sealed: "guest_reach sha256 vm_id s s' \<Longrightarrow> sealed vm_id s r \<Longrightarrow> sealed vm_id s' r"
  by (induction rule: rtranclp_induct) (auto intro: guest_step_sealed)

subsection \<open>Properties\<close>


definition demo_receipt :: receipt where
  "demo_receipt = \<lparr>rc_generation = ''0123456789abcdef0123456789abcdef'', rc_token_hash = ''kot'', rc_deadline = Naive 9,
     rc_result = Some \<lparr>gr_outcome = Succeeded, gr_stage = Cloud_Init, gr_exit_code = 0\<rparr>, rc_received_at = Some 5\<rparr>"

definition demo_guest_sys :: guest_sys where
  "demo_guest_sys = \<lparr>gs_vm = \<lparr>gv_status = PROVISIONING, gv_uuid = Some ''u''\<rparr>, gs_receipts = [''vm1'' \<mapsto> demo_receipt]\<rparr>"


text \<open>A report is believed only from the current credential, before its deadline: the poller sees success
  for a generation only if some report with that generation and a token hashing to the stored digest
  was accepted, no later than the deadline.\<close>

theorem guest_report_authentic:
  assumes "t vm_id = Some r" and "rc_received_at r = None"
    and "accept_guest_result sha256 vm_id g tok res now t = (ans, t')"
  shows "(ans = Inr () \<longleftrightarrow> g = rc_generation r \<and> sha256 tok = rc_token_hash r \<and> now \<le> utc (rc_deadline r) \<and>
      length tok \<le> 128 \<and> length g = 32) \<and>
    (ans \<noteq> Inr () \<longrightarrow> t' = t) \<and>
    (poll_guest_result vm_id g later later t' t' = Poll_Done \<longrightarrow> ans = Inr () \<and> gr_outcome res = Succeeded)"
proof -
  have acc: "ans = (if 128 < length tok \<or> length g \<noteq> 32 then Inl (Rejected 404)
        else if rc_generation r \<noteq> g \<or> rc_token_hash r \<noteq> sha256 tok then Inl (Rejected 404)
        else if utc (rc_deadline r) < now then Inl (Rejected 410) else Inr ())"
    and t': "t' = (if ans = Inr () then t(vm_id \<mapsto> r\<lparr>rc_result := Some res, rc_received_at := Some now\<rparr>) else t)"
    using assms(3) unfolding accept_unreported [of t vm_id r, OF assms(1,2)] Let_def prod.inject by blast+
  have poll: "ans = Inr () \<and> gr_outcome res = Succeeded"
    if p: "poll_guest_result vm_id g later later t' t' = Poll_Done"
  proof (cases "ans = Inr ()")
    case True
    with p t' show ?thesis by (simp add: poll_guest_result_def split: if_splits)
  next
    case False
    with p t' assms(1,2) show ?thesis by (simp add: poll_guest_result_def Let_def split: if_splits)
  qed
  from acc have "ans = Inr () \<longleftrightarrow> g = rc_generation r \<and> sha256 tok = rc_token_hash r \<and> now \<le> utc (rc_deadline r) \<and>
      length tok \<le> 128 \<and> length g = 32" by (auto split: if_splits)
  moreover have "ans \<noteq> Inr () \<longrightarrow> t' = t" using t' by simp
  ultimately show ?thesis using poll by blast
qed

theorem guest_report_authentic_witness:
  "fst (accept_guest_result rev ''vm1'' (rc_generation demo_receipt) ''wrong''
     \<lparr>gr_outcome = Succeeded, gr_stage = Cloud_Init, gr_exit_code = 0\<rparr> 5
     [''vm1'' \<mapsto> demo_receipt\<lparr>rc_received_at := None, rc_result := None\<rparr>]) \<noteq> Inr ()"
proof -
  let ?r = "demo_receipt\<lparr>rc_received_at := None, rc_result := None\<rparr>"
  let ?t = "[''vm1'' \<mapsto> ?r]"
  obtain ans t' where a: "accept_guest_result rev ''vm1'' (rc_generation demo_receipt) ''wrong''
     \<lparr>gr_outcome = Succeeded, gr_stage = Cloud_Init, gr_exit_code = 0\<rparr> 5 ?t = (ans, t')" by fastforce
  have u: "?t ''vm1'' = Some ?r" "rc_received_at ?r = None" by simp_all
  have "ans \<noteq> Inr ()"
    using guest_report_authentic [where t = ?t and vm_id = "''vm1''" and r = ?r, OF u a, THEN conjunct1]
    by (simp add: demo_receipt_def)
  with a show ?thesis by simp
qed

end
