(* ===== verification/Vm_Network.thy ===== *)
theory Vm_Network
  imports Prelude
begin

text \<open>
  \<^verbatim>\<open>providers/network_config.py\<close> and \<^verbatim>\<open>Orchestrator._allocate_customer_prefix\<close>: customer /64 prefixes inside
  the operator's supernet. An \<^verbatim>\<open>IPv6Network\<close> is its address as an unbounded integer with its length;
  \<open>digest\<close> is the parameter for the first eight bytes of \<^verbatim>\<open>sha256(vm_id)\<close> read as a big-endian number.
\<close>

record ipv6_net =
  n_addr :: int
  n_plen :: nat

definition strict_net :: "ipv6_net \<Rightarrow> bool" where
  "strict_net s \<longleftrightarrow> n_plen s \<le> 128 \<and> 0 \<le> n_addr s \<and> n_addr s < 2 ^ 128 \<and> n_addr s mod 2 ^ (128 - n_plen s) = 0"

definition in_net :: "int \<Rightarrow> ipv6_net \<Rightarrow> bool" where
  "in_net a s \<longleftrightarrow> n_addr s \<le> a \<and> a < n_addr s + 2 ^ (128 - n_plen s)"

datatype net_error =
  Supernet_Too_Long | No_Usable_Prefix | Index_Outside | Not_A_64 | Supernet_Too_Large
| Gateway_Outside | No_Dns | Bad_Address | Exhausted

definition RESERVED_PREFIX_INDEXES :: "int set" where
  "RESERVED_PREFIX_INDEXES = {0}"

definition CUSTOMER_VM_ADDRESS_HOST_ID :: int where
  "CUSTOMER_VM_ADDRESS_HOST_ID = 2"

definition supports_static_network_config :: "string \<Rightarrow> bool" where
  "supports_static_network_config os_name = startswith (lower os_name) ''debian''"

definition customer_prefix_count :: "ipv6_net \<Rightarrow> net_error + int" where
  "customer_prefix_count s = (if 64 < n_plen s then Inl Supernet_Too_Long else Inr (2 ^ (64 - n_plen s)))"

definition prefix_index_candidate :: "(string \<Rightarrow> int) \<Rightarrow> string \<Rightarrow> ipv6_net \<Rightarrow> net_error + int" where
  "prefix_index_candidate digest vm_id s =
     (case customer_prefix_count s of
        Inl e \<Rightarrow> Inl e
      | Inr n \<Rightarrow> let usable = n - 1 in
          if usable \<le> 0 then Inl No_Usable_Prefix else Inr (digest vm_id mod usable + 1))"

definition prefix_for_index :: "ipv6_net \<Rightarrow> int \<Rightarrow> net_error + ipv6_net" where
  "prefix_for_index s i =
     (case customer_prefix_count s of
        Inl e \<Rightarrow> Inl e
      | Inr n \<Rightarrow> if i < 0 \<or> n \<le> i then Inl Index_Outside
          else Inr \<lparr>n_addr = n_addr s + i * 2 ^ 64, n_plen = 64\<rparr>)"

definition vm_address_for_prefix :: "ipv6_net \<Rightarrow> net_error + int" where
  "vm_address_for_prefix p =
     (if n_plen p \<noteq> 64 then Inl Not_A_64 else Inr (n_addr p + CUSTOMER_VM_ADDRESS_HOST_ID))"

definition parse_dns_servers :: "string \<Rightarrow> string list" where
  "parse_dns_servers raw = filter (\<lambda>p. p \<noteq> []) (map strip (split_all CHR '','' [] raw))"

text \<open>\<open>parse_net\<close> and \<open>parse_addr\<close> stand for the \<^verbatim>\<open>ipaddress\<close> constructors, \<open>None\<close> being their \<^verbatim>\<open>ValueError\<close>.\<close>

definition validate_customer_network_settings ::
    "(string \<Rightarrow> ipv6_net option) \<Rightarrow> (string \<Rightarrow> int option) \<Rightarrow> string \<Rightarrow> string \<Rightarrow> string \<Rightarrow> net_error + unit" where
  "validate_customer_network_settings parse_net parse_addr supernet gateway dns =
     (case parse_net supernet of
        None \<Rightarrow> Inl Bad_Address
      | Some net \<Rightarrow>
        if n_plen net < 33 then Inl Supernet_Too_Large
        else case customer_prefix_count net of
          Inl e \<Rightarrow> Inl e
        | Inr n \<Rightarrow>
          if n - 1 \<le> 0 then Inl No_Usable_Prefix
          else case parse_addr gateway of
            None \<Rightarrow> Inl Bad_Address
          | Some gw \<Rightarrow>
            if \<not> in_net gw net then Inl Gateway_Outside
            else let servers = parse_dns_servers dns in
              if servers = [] then Inl No_Dns
              else if \<exists>s \<in> set servers. parse_addr s = None then Inl Bad_Address
              else Inr ())"

text \<open>The scan starts at the VM's own candidate and wraps around; index 0 is reserved.\<close>

definition scan_order :: "int \<Rightarrow> int \<Rightarrow> int list" where
  "scan_order nets start = map (\<lambda>offset. (start - 1 + offset) mod (nets - 1) + 1) [0..nets - 2]"

definition allocate_customer_prefix ::
    "(string \<Rightarrow> int) \<Rightarrow> ipv6_net \<Rightarrow> int set \<Rightarrow> string \<Rightarrow> net_error + int \<times> ipv6_net" where
  "allocate_customer_prefix digest s used vm_id =
     (case customer_prefix_count s of
        Inl e \<Rightarrow> Inl e
      | Inr nets \<Rightarrow>
        (case prefix_index_candidate digest vm_id s of
           Inl e \<Rightarrow> Inl e
         | Inr start \<Rightarrow>
           (case find (\<lambda>i. i \<notin> used \<union> RESERVED_PREFIX_INDEXES) (scan_order nets start) of
              None \<Rightarrow> Inl Exhausted
            | Some i \<Rightarrow> (case prefix_for_index s i of Inl e \<Rightarrow> Inl e | Inr p \<Rightarrow> Inr (i, p)))))"

subsection \<open>The scan visits every index\<close>

lemma set_scan_order:
  assumes "1 < nets"
  shows "set (scan_order nets start) = {1..nets - 1}"
proof
  show "set (scan_order nets start) \<subseteq> {1..nets - 1}"
  proof
    fix i assume "i \<in> set (scan_order nets start)"
    then obtain offset where "i = (start - 1 + offset) mod (nets - 1) + 1" by (auto simp: scan_order_def)
    moreover have "0 \<le> (start - 1 + offset) mod (nets - 1)" "(start - 1 + offset) mod (nets - 1) < nets - 1"
      using assms by (simp_all only: pos_mod_sign pos_mod_bound diff_gt_0_iff_gt)
    ultimately show "i \<in> {1..nets - 1}" unfolding atLeastAtMost_iff by linarith
  qed
next
  show "{1..nets - 1} \<subseteq> set (scan_order nets start)"
  proof
    fix i assume i: "i \<in> {1..nets - 1}"
    define offset where "offset = (i - start) mod (nets - 1)"
    have o: "0 \<le> offset" "offset \<le> nets - 2"
      using assms pos_mod_sign [of "nets - 1" "i - start"] pos_mod_bound [of "nets - 1" "i - start"]
      unfolding offset_def by linarith+
    have "(start - 1 + offset) mod (nets - 1) = (i - 1) mod (nets - 1)"
      unfolding offset_def by (simp add: mod_simps)
    also have "\<dots> = i - 1" using i by (intro mod_pos_pos_trivial) auto
    finally have "(start - 1 + offset) mod (nets - 1) + 1 = i" by simp
    with o show "i \<in> set (scan_order nets start)"
      by (auto simp: scan_order_def intro!: image_eqI [of _ _ offset])
  qed
qed

lemma find_Some_in: "find p xs = Some x \<Longrightarrow> x \<in> set xs \<and> p x"
  by (induction xs) (auto split: if_splits)

lemma find_None_all: "find p xs = None \<longleftrightarrow> (\<forall>x \<in> set xs. \<not> p x)"
  by (induction xs) auto

lemma count_bounds:
  assumes "33 \<le> n_plen s" "n_plen s \<le> 63"
  shows "customer_prefix_count s = Inr (2 ^ (64 - n_plen s))" "2 \<le> (2::int) ^ (64 - n_plen s)"
    "(2::int) ^ (64 - n_plen s) \<le> 2 ^ 31"
proof -
  show "customer_prefix_count s = Inr (2 ^ (64 - n_plen s))" using assms by (simp add: customer_prefix_count_def)
  have "(2::int) ^ 1 \<le> 2 ^ (64 - n_plen s)" using assms by (intro power_increasing) auto
  then show "2 \<le> (2::int) ^ (64 - n_plen s)" by simp
  show "(2::int) ^ (64 - n_plen s) \<le> 2 ^ 31" using assms by (intro power_increasing) auto
qed

subsection \<open>Properties\<close>



text \<open>Different indexes give disjoint networks.\<close>

lemma prefixes_disjoint:
  assumes "prefix_for_index s i = Inr p" "prefix_for_index s j = Inr q" "i < j"
  shows "\<not> (in_net a p \<and> in_net a q)"
proof -
  have "(i + 1) * 2 ^ 64 \<le> j * 2 ^ 64" using assms(3) by (intro mult_right_mono) auto
  with assms(1,2) show ?thesis
    by (auto simp: prefix_for_index_def in_net_def algebra_simps split: sum.splits if_splits)
qed

end
