(* ===== verification/Vm_Store.thy ===== *)
theory Vm_Store
  imports Vm_Pricing Ledger Access Guest_Result Vm_Network
begin

text \<open>
  The VM table and the orchestrator operations on it that need no hypervisor: pricing an insert,
  reserving a /64 with capacity, activating and releasing a reservation, failing a VM, and the
  refund obligations of paid VMs (\<^verbatim>\<open>orchestrator.py\<close>). A table is the list of its rows; the unique indexes are
  the insert's conflict test.
\<close>

subsection \<open>Rows\<close>

text \<open>\<^verbatim>\<open>metadata["provisioning_handoff_state"]\<close>.\<close>

datatype handoff_state = No_Handoff | Pending | Ready

record vm_row =
  vm_id :: string
  vm_wallet :: string
  vm_owner :: "string option"
  vm_status_of_row :: vm_status
  vm_anon_hash :: "string option"
  vm_sz :: vm_size
  vm_vcpu :: int
  vm_memory_mb :: int
  vm_disk_gb :: int
  vm_addons :: "int \<times> int \<times> int"
  vm_os :: string
  vm_prefix :: "(int \<times> ipv6_net) option"
  vm_hostname :: string
  vm_ssh_pubkey :: string
  vm_open_ports :: "int list"
  vm_setup_script :: "string option"
  vm_domain_mode :: domain_mode
  vm_domain :: "string option"
  vm_expires_at :: int
  vm_cost_total :: decimal
  vm_retail_cost_total :: decimal
  vm_billing_mode :: "string option"
  vm_payment_tx :: "string option"
  vm_uuid :: "string option"
  vm_handoff :: handoff_state
  vm_error :: "string option"

record domain_link =
  dl_domain :: string
  dl_vm :: "string option"
  dl_ipv6 :: "string option"

record vm_db =
  vd_rows :: "vm_row list"
  vd_accounts :: "string \<rightharpoonup> account"
  vd_receipts :: receipts
  vd_domains :: "domain_link list"

datatype vm_error_kind =
  Pricing pricing_error
| Unknown_Os | Unsupported_Os | Snapshot_Mismatch | Addon_Mismatch | Bad_Total
| Account_Disabled | Already_Bound | Prefix_Error net_error | No_Unique_Prefix
| Dispatch_Not_Owned | Guest_Rejected int | Owner_Changed | Guard_Failed
| Insufficient_Cpu | Insufficient_Ram | Insufficient_Disk | Capacity_Unknown

definition find_vm :: "vm_db \<Rightarrow> string \<Rightarrow> vm_row option" where
  "find_vm db i = find (\<lambda>r. vm_id r = i) (vd_rows db)"

definition update_vm :: "string \<Rightarrow> (vm_row \<Rightarrow> vm_row) \<Rightarrow> vm_db \<Rightarrow> vm_db" where
  "update_vm i f db = db\<lparr>vd_rows := map (\<lambda>r. if vm_id r = i then f r else r) (vd_rows db)\<rparr>"

definition used_indexes :: "vm_db \<Rightarrow> int set" where
  "used_indexes db = set (collect_some (\<lambda>r. map_option fst (vm_prefix r)) (vd_rows db))"

subsection \<open>Pricing an insert\<close>

record store_cfg =
  sc_payment :: payment_cfg
  sc_templates :: "string \<rightharpoonup> string"
  sc_real :: bool                      \<comment> \<open>\<^verbatim>\<open>use_real_provisioning()\<close>\<close>
  sc_supernet :: ipv6_net
  sc_deploy_domain :: string
  sc_report_timeout :: int
  sc_sha256 :: "string \<Rightarrow> string"
  sc_digest :: "string \<Rightarrow> int"
  sc_overcommit :: decimal
  sc_memory_headroom_mb :: int
  sc_storage_headroom_gb :: int

definition check_os :: "store_cfg \<Rightarrow> string \<Rightarrow> vm_error_kind + unit" where
  "check_os cfg os =
     (if \<not> sc_real cfg then Inr ()
      else if \<not> truthy (sc_templates cfg os) then Inl Unknown_Os
      else if \<not> supports_static_network_config os then Inl Unsupported_Os
      else Inr ())"

record billed =
  bl_request :: vm_create_request
  bl_resources :: resources
  bl_snapshot :: "price_breakdown option"
  bl_total :: decimal

definition resolve_billing ::
    "store_cfg \<Rightarrow> vm_create_request \<Rightarrow> price_breakdown option \<Rightarrow> bool \<Rightarrow> vm_error_kind + billed" where
  "resolve_billing cfg rq snapshot legacy_billing =
     (let res = requested_resources rq; canonical = rq\<lparr>o_resources := Some res\<rparr> in
      if legacy_billing then
        Inr \<lparr>bl_request = canonical, bl_resources = res, bl_snapshot = snapshot,
          bl_total = dec_mul (getattr (price_vm (sc_payment cfg) (o_size rq)) (dec_of_int 0)) (dec_of_int (duration_days rq))\<rparr>
      else case snapshot of
        Some b \<Rightarrow>
          if base_profile b \<noteq> o_size rq \<or> b_duration_days b \<noteq> duration_days rq then Inl Snapshot_Mismatch
          else
            let base = resources_for_profile (base_profile b);
                dv = r_vcpu res - r_vcpu base; dr = r_ram_mb res - r_ram_mb base; dd = r_disk_gb res - r_disk_gb base
            in if min dv (min dr dd) < 0 \<or> (dv, dr, dd) \<noteq> (addon_vcpu b, addon_ram_mb b, addon_disk_gb b)
               then Inl Addon_Mismatch
               else (case parse_decimal (total_usd b) of
                   None \<Rightarrow> Inl Bad_Total
                 | Some t \<Rightarrow> Inr \<lparr>bl_request = canonical, bl_resources = res, bl_snapshot = snapshot, bl_total = t\<rparr>)
      | None \<Rightarrow>
          (case price_vm_order rq (sc_payment cfg) of
             Inl e \<Rightarrow> Inl (Pricing e)
           | Inr p \<Rightarrow> Inr \<lparr>bl_request = p_order p, bl_resources = p_resources p,
               bl_snapshot = Some (p_breakdown p), bl_total = p_total p\<rparr>))"

record settlement_info =
  si_retail :: "decimal option"
  si_admin_waived :: bool
  si_tx :: "string option"

definition is_dev_tx :: "string option \<Rightarrow> bool" where
  "is_dev_tx tx \<longleftrightarrow> truthy tx \<and> startswith (the tx) ''dev_bypass''"

definition is_admin_tx :: "string option \<Rightarrow> bool" where
  "is_admin_tx tx \<longleftrightarrow> truthy tx \<and> startswith (the tx) ''admin_bypass''"

definition apply_payment_billing :: "settlement_info \<Rightarrow> vm_row \<Rightarrow> vm_row" where
  "apply_payment_billing s row =
     (let row1 = (case si_retail s of
          None \<Rightarrow> row
        | Some amount \<Rightarrow> row\<lparr>vm_retail_cost_total := amount,
            vm_cost_total := (if si_admin_waived s \<or> is_dev_tx (si_tx s) then Dec 0 0 else amount),
            vm_billing_mode := Some (if si_admin_waived s then ''admin_waived''
              else if is_dev_tx (si_tx s) then ''dev_bypass'' else ''charged'')\<rparr>)
      in if truthy (si_tx s) then row1\<lparr>vm_payment_tx := si_tx s\<rparr> else row1)"

definition set_provisioning_handoff_state :: "bool \<Rightarrow> vm_row \<Rightarrow> vm_row" where
  "set_provisioning_handoff_state ready row =
     (if \<not> ready \<and> vm_handoff row = Ready then row
      else row\<lparr>vm_handoff := (if ready then Ready else Pending)\<rparr>)"

text \<open>Restart evidence for a real guest, in the caller's transaction; \<open>gen\<close> and \<open>tok\<close> are drawn there.\<close>

definition prepare_provisioning_dispatch ::
    "store_cfg \<Rightarrow> int \<Rightarrow> string \<Rightarrow> string \<Rightarrow> vm_row \<Rightarrow> receipts \<Rightarrow> vm_error_kind + receipts" where
  "prepare_provisioning_dispatch cfg now gen tok row t =
     (if vm_status_of_row row \<noteq> PROVISIONING \<or> vm_wallet row = [] then Inl Dispatch_Not_Owned
      else if sc_real cfg \<and> t (vm_id row) = None \<and> vm_uuid row = None then
        (case prepare_guest_result (sc_sha256 cfg) (vm_id row)
            (Some \<lparr>gv_status = vm_status_of_row row, gv_uuid = vm_uuid row\<rparr>)
            (Aware (now + seconds (sc_report_timeout cfg)) 0) now gen tok t of
           (Inl (Rejected n), _) \<Rightarrow> Inl (Guest_Rejected n)
         | (Inr _, t') \<Rightarrow> Inr t')
      else Inr t)"

definition validate_replayed_vm :: "vm_row \<Rightarrow> vm_create_request \<Rightarrow> string option \<Rightarrow> bool" where
  "validate_replayed_vm row rq owner \<longleftrightarrow>
     \<not> (vm_owner row \<noteq> owner \<or> vm_sz row \<noteq> o_size rq \<or> vm_os row \<noteq> o_os rq \<or>
        vm_domain_mode row \<noteq> o_domain_mode rq \<or> vm_domain row \<noteq> o_domain rq \<or>
        vm_vcpu row \<noteq> r_vcpu (requested_resources rq) \<or>
        vm_memory_mb row \<noteq> r_ram_mb (requested_resources rq) \<or>
        vm_disk_gb row \<noteq> r_disk_gb (requested_resources rq))"

subsection \<open>Inserting a row\<close>

record insert_args =
  ia_request :: vm_create_request
  ia_wallet :: string
  ia_owner :: "string option"
  ia_vm_id :: "string option"
  ia_snapshot :: "price_breakdown option"
  ia_legacy :: bool
  ia_settlement :: settlement_info
  ia_ready :: bool
  ia_guard_ok :: bool              \<comment> \<open>the dispatch guard, if any, passes\<close>

text \<open>One turn of the retry loop: what it draws, and the database at its reads and at its commit.\<close>

record turn_env =
  it_generated_id :: string
  it_gen :: string
  it_tok :: string
  it_read :: vm_db
  it_commit :: vm_db

datatype 'a turn_result = Turn_Done 'a vm_db | Turn_Again | Turn_Raise vm_error_kind vm_db

definition new_vm_row ::
    "store_cfg \<Rightarrow> insert_args \<Rightarrow> billed \<Rightarrow> string \<Rightarrow> string \<Rightarrow> int \<Rightarrow> int \<times> ipv6_net \<Rightarrow> vm_row" where
  "new_vm_row cfg a b candidate anon_token now prefix_of =
     (let rq = bl_request b;
          row = \<lparr>vm_id = candidate, vm_wallet = ia_wallet a, vm_owner = ia_owner a,
            vm_status_of_row = PROVISIONING, vm_anon_hash = Some (sc_sha256 cfg anon_token), vm_sz = o_size rq,
            vm_vcpu = r_vcpu (bl_resources b), vm_memory_mb = r_ram_mb (bl_resources b),
            vm_disk_gb = r_disk_gb (bl_resources b), vm_addons = billing_addons_from_snapshot (bl_snapshot b),
            vm_os = o_os rq, vm_prefix = Some prefix_of,
            vm_hostname = take 8 (sc_sha256 cfg candidate) @ ''.'' @ sc_deploy_domain cfg,
            vm_ssh_pubkey = o_ssh_pubkey rq, vm_open_ports = 22 # filter (\<lambda>p. p \<noteq> 22) (o_open_ports rq),
            vm_setup_script = o_setup_script rq, vm_domain_mode = o_domain_mode rq, vm_domain = o_domain rq,
            vm_expires_at = now + days (duration_days rq), vm_cost_total = bl_total b,
            vm_retail_cost_total = bl_total b, vm_billing_mode = None, vm_payment_tx = None, vm_uuid = None,
            vm_handoff = No_Handoff, vm_error = None\<rparr>;
          row1 = apply_payment_billing (ia_settlement a) row
      in if vm_wallet row1 \<noteq> [] then set_provisioning_handoff_state (ia_ready a) row1 else row1)"

text \<open>The unique constraints: primary key and, for a non-null index, the /64.\<close>

definition vm_insert_conflicts :: "vm_row \<Rightarrow> vm_db \<Rightarrow> bool" where
  "vm_insert_conflicts row db \<longleftrightarrow> find_vm db (vm_id row) \<noteq> None \<or>
     (case vm_prefix row of None \<Rightarrow> False | Some (i, _) \<Rightarrow> i \<in> used_indexes db)"

definition owner_disabled :: "vm_db \<Rightarrow> string option \<Rightarrow> bool" where
  "owner_disabled db owner =
     (case owner of None \<Rightarrow> False
      | Some o1 \<Rightarrow> (case vd_accounts db o1 of None \<Rightarrow> False | Some acc \<Rightarrow> ac_disabled_at acc \<noteq> None))"

definition replay_existing ::
    "store_cfg \<Rightarrow> insert_args \<Rightarrow> billed \<Rightarrow> int \<Rightarrow> turn_env \<Rightarrow> vm_row \<Rightarrow> (vm_row \<times> string) turn_result" where
  "replay_existing cfg a b now turn existing =
     (if \<not> validate_replayed_vm existing (bl_request b) (ia_owner a) then Turn_Raise Already_Bound (it_read turn)
      else
        let row1 = apply_payment_billing (ia_settlement a) existing in
        if vm_status_of_row row1 = PROVISIONING \<and> vm_wallet row1 \<noteq> [] then
          let row2 = set_provisioning_handoff_state (ia_ready a) row1 in
          (case prepare_provisioning_dispatch cfg now (it_gen turn) (it_tok turn) row2 (vd_receipts (it_read turn)) of
             Inl e \<Rightarrow> Turn_Raise e (it_read turn)
           | Inr recs \<Rightarrow> Turn_Done (row2, [])
               ((update_vm (vm_id existing) (\<lambda>_. row2) (it_read turn))\<lparr>vd_receipts := recs\<rparr>))
        else Turn_Done (row1, []) (update_vm (vm_id existing) (\<lambda>_. row1) (it_read turn)))"

text \<open>With a free index chosen: the insert, or what a violated constraint leads to.\<close>

definition fresh_insert ::
    "store_cfg \<Rightarrow> insert_args \<Rightarrow> billed \<Rightarrow> string \<Rightarrow> int \<Rightarrow> turn_env \<Rightarrow> string \<Rightarrow> int \<times> ipv6_net
     \<Rightarrow> (vm_row \<times> string) turn_result" where
  "fresh_insert cfg a b anon_token now turn candidate pfx =
     (let db2 = it_commit turn; row = new_vm_row cfg a b candidate anon_token now pfx in
      if vm_insert_conflicts row db2 then
        (case (if truthy (ia_vm_id a) then find_vm db2 candidate else None) of
           Some existing \<Rightarrow>
             if validate_replayed_vm existing (bl_request b) (ia_owner a) then Turn_Done (existing, []) db2
             else Turn_Raise Already_Bound db2
         | None \<Rightarrow> Turn_Again)
      else if vm_wallet row \<noteq> [] then
        (case prepare_provisioning_dispatch cfg now (it_gen turn) (it_tok turn) row (vd_receipts db2) of
           Inl e \<Rightarrow> Turn_Raise e db2
         | Inr recs \<Rightarrow> Turn_Done (row, anon_token)
             (db2\<lparr>vd_rows := vd_rows db2 @ [row], vd_receipts := recs\<rparr>))
      else Turn_Done (row, anon_token)
        (db2\<lparr>vd_rows := vd_rows db2 @ [row], vd_receipts := vd_receipts db2\<rparr>))"

definition insert_turn ::
    "store_cfg \<Rightarrow> insert_args \<Rightarrow> billed \<Rightarrow> string \<Rightarrow> int \<Rightarrow> turn_env \<Rightarrow> (vm_row \<times> string) turn_result" where
  "insert_turn cfg a b anon_token now turn =
     (let candidate = or_str (ia_vm_id a) (it_generated_id turn); db = it_read turn in
      if \<not> ia_guard_ok a then Turn_Raise Guard_Failed db
      else if owner_disabled db (ia_owner a) then Turn_Raise Account_Disabled db
      else case (if truthy (ia_vm_id a) then find_vm db candidate else None) of
        Some existing \<Rightarrow> replay_existing cfg a b now turn existing
      | None \<Rightarrow>
        (case allocate_customer_prefix (sc_digest cfg) (sc_supernet cfg) (used_indexes db) candidate of
           Inl e \<Rightarrow> Turn_Raise (Prefix_Error e) db
         | Inr pfx \<Rightarrow> fresh_insert cfg a b anon_token now turn candidate pfx))"

text \<open>At most five turns; \<open>None\<close> as database: nothing was committed.\<close>

fun insert_loop ::
    "store_cfg \<Rightarrow> insert_args \<Rightarrow> billed \<Rightarrow> string \<Rightarrow> int \<Rightarrow> turn_env list
     \<Rightarrow> (vm_error_kind + vm_row \<times> string) \<times> vm_db option" where
  "insert_loop cfg a b anon_token now [] = (Inl No_Unique_Prefix, None)"
| "insert_loop cfg a b anon_token now (turn # turns) =
     (case insert_turn cfg a b anon_token now turn of
        Turn_Done x db \<Rightarrow> (Inr x, Some db)
      | Turn_Raise e db \<Rightarrow> (Inl e, None)
      | Turn_Again \<Rightarrow> insert_loop cfg a b anon_token now turns)"

definition insert_vm_row ::
    "store_cfg \<Rightarrow> insert_args \<Rightarrow> string \<Rightarrow> int \<Rightarrow> turn_env list
     \<Rightarrow> (vm_error_kind + vm_row \<times> string) \<times> vm_db option" where
  "insert_vm_row cfg a anon_token now turns =
     (case check_os cfg (o_os (ia_request a)) of
        Inl e \<Rightarrow> (Inl e, None)
      | Inr _ \<Rightarrow>
        (case resolve_billing cfg (ia_request a) (ia_snapshot a) (ia_legacy a) of
           Inl e \<Rightarrow> (Inl e, None)
         | Inr b \<Rightarrow> insert_loop cfg a b anon_token now (take 5 turns)))"

subsection \<open>Reservations\<close>

record capacity =
  cp_physical_vcpu :: int
  cp_allocated_vcpu :: int
  cp_free_memory :: int
  cp_free_storage :: int

text \<open>Rows that hold capacity which the hypervisor does not count yet.\<close>

definition pending_rows :: "vm_db \<Rightarrow> vm_row list" where
  "pending_rows db = filter (\<lambda>r. vm_status_of_row r = PROVISIONING \<and> vm_uuid r = None) (vd_rows db)"

text \<open>\<^verbatim>\<open>int(Decimal(n) * ratio)\<close> for non-negative operands.\<close>

definition dec_trunc :: "decimal \<Rightarrow> int" where
  "dec_trunc d = (if 0 \<le> expo d then coeff d * 10 ^ nat (expo d)
     else if 0 \<le> coeff d then coeff d div 10 ^ nat (- expo d) else - ((- coeff d) div 10 ^ nat (- expo d)))"

definition ensure_vm_capacity :: "store_cfg \<Rightarrow> vm_create_request \<Rightarrow> capacity option \<Rightarrow> vm_db \<Rightarrow> vm_error_kind + unit" where
  "ensure_vm_capacity cfg rq cap db =
     (case cap of
        None \<Rightarrow> Inl Capacity_Unknown
      | Some c \<Rightarrow>
        let res = requested_resources rq; pend = pending_rows db;
            cpu_limit = dec_trunc (dec_mul (dec_of_int (cp_physical_vcpu c)) (sc_overcommit cfg))
        in if cpu_limit < cp_allocated_vcpu c + sum_list (map vm_vcpu pend) + r_vcpu res then Inl Insufficient_Cpu
           else if cp_free_memory c - sum_list (map vm_memory_mb pend) * 2 ^ 20 - r_ram_mb res * 2 ^ 20
               < sc_memory_headroom_mb cfg * 2 ^ 20 then Inl Insufficient_Ram
           else if cp_free_storage c - sum_list (map vm_disk_gb pend) * 2 ^ 30 - r_disk_gb res * 2 ^ 30
               < sc_storage_headroom_gb cfg * 2 ^ 30 then Inl Insufficient_Disk
           else Inr ())"

definition reserve_args ::
    "vm_create_request \<Rightarrow> string option \<Rightarrow> string option \<Rightarrow> price_breakdown option \<Rightarrow> bool \<Rightarrow> insert_args" where
  "reserve_args rq owner vid snapshot legacy_billing =
     \<lparr>ia_request = rq, ia_wallet = [], ia_owner = owner, ia_vm_id = vid, ia_snapshot = snapshot,
      ia_legacy = legacy_billing, ia_settlement = \<lparr>si_retail = None, si_admin_waived = False, si_tx = None\<rparr>,
      ia_ready = True, ia_guard_ok = True\<rparr>"

text \<open>\<open>db0\<close>: the read before the capacity lock; \<open>db\<close>: the database while it is held, which the turns of the
  insert see too.\<close>

definition reserve_vm_with_capacity ::
    "store_cfg \<Rightarrow> vm_create_request \<Rightarrow> string option \<Rightarrow> string option \<Rightarrow> price_breakdown option \<Rightarrow> bool
     \<Rightarrow> capacity option \<Rightarrow> string \<Rightarrow> int \<Rightarrow> vm_db \<Rightarrow> vm_db \<Rightarrow> turn_env list
     \<Rightarrow> (vm_error_kind + vm_row \<times> string) \<times> vm_db option" where
  "reserve_vm_with_capacity cfg rq owner vid snapshot legacy_billing cap anon_token now db0 db turns =
     (let known = (\<lambda>d. case vid of None \<Rightarrow> None | Some i \<Rightarrow> find_vm d i);
          replay = (\<lambda>row. (if validate_replayed_vm row rq owner then Inr (row, []) else Inl Already_Bound, None))
      in case known db0 of
           Some row \<Rightarrow> replay row
         | None \<Rightarrow>
           (case known db of
              Some row \<Rightarrow> replay row
            | None \<Rightarrow>
              (case (if sc_real cfg then ensure_vm_capacity cfg rq cap db else Inr ()) of
                 Inl e \<Rightarrow> (Inl e, None)
               | Inr _ \<Rightarrow>
                 insert_vm_row cfg (reserve_args rq owner vid snapshot legacy_billing) anon_token now turns)))"

record activate_args =
  aa_vm_id :: string
  aa_wallet :: string
  aa_settlement :: settlement_info
  aa_owner :: "string option"
  aa_start :: bool
  aa_guard_ok :: bool

definition activated_row :: "activate_args \<Rightarrow> vm_row \<Rightarrow> vm_row" where
  "activated_row a row =
     (let row1 = row\<lparr>vm_wallet := aa_wallet a\<rparr>;
          row2 = (if truthy (aa_owner a) \<and> vm_owner row1 = None then row1\<lparr>vm_owner := aa_owner a\<rparr> else row1)
      in apply_payment_billing (aa_settlement a) row2)"

text \<open>The commit of the activation, with the row's locks held.\<close>

definition activate_locked ::
    "store_cfg \<Rightarrow> activate_args \<Rightarrow> int \<Rightarrow> string \<Rightarrow> string \<Rightarrow> vm_row \<Rightarrow> vm_db \<Rightarrow> (vm_error_kind + vm_row option) \<times> vm_db" where
  "activate_locked cfg a now gen tok row db =
     (let row3 = activated_row a row in
      if vm_status_of_row row3 = PROVISIONING then
        let row4 = set_provisioning_handoff_state (aa_start a) row3 in
        (case prepare_provisioning_dispatch cfg now gen tok row4 (vd_receipts db) of
           Inl e \<Rightarrow> (Inl e, db)
         | Inr recs \<Rightarrow> (Inr (Some row4), (update_vm (aa_vm_id a) (\<lambda>_. row4) db)\<lparr>vd_receipts := recs\<rparr>))
      else (Inr (Some row3), update_vm (aa_vm_id a) (\<lambda>_. row3) db))"

text \<open>\<open>db0\<close>: the unlocked read that discovers the owner; \<open>db\<close>: the database once the account rows and the
  VM row are locked. \<open>Inr None\<close>: no such row.\<close>

definition activate_vm_reservation ::
    "store_cfg \<Rightarrow> activate_args \<Rightarrow> int \<Rightarrow> string \<Rightarrow> string \<Rightarrow> vm_db \<Rightarrow> vm_db
     \<Rightarrow> (vm_error_kind + vm_row option) \<times> vm_db" where
  "activate_vm_reservation cfg a now gen tok db0 db =
     (if \<not> aa_guard_ok a then (Inl Guard_Failed, db)
      else case find_vm db0 (aa_vm_id a) of
        None \<Rightarrow> (Inr None, db)
      | Some candidate \<Rightarrow>
        let ids = filter (\<lambda>i. i \<noteq> []) (collect_some id [vm_owner candidate, aa_owner a]);
            refused = (\<lambda>i. case vd_accounts db i of None \<Rightarrow> True | Some acc \<Rightarrow> ac_disabled_at acc \<noteq> None)
        in if \<exists>i \<in> set ids. refused i then (Inl Account_Disabled, db)
           else case find_vm db (aa_vm_id a) of
             None \<Rightarrow> (Inr None, db)
           | Some row \<Rightarrow>
             if vm_owner row \<noteq> vm_owner candidate then (Inl Owner_Changed, db)
             else activate_locked cfg a now gen tok row db)"

text \<open>A link made for a VM that got no address yet is undone with it.\<close>

definition unlink_domain :: "string \<Rightarrow> domain_link list \<Rightarrow> domain_link list" where
  "unlink_domain vid ds =
     map (\<lambda>d. if dl_vm d = Some vid \<and> dl_ipv6 d = None then d\<lparr>dl_vm := None\<rparr> else d) ds"

definition release_vm_reservation :: "string \<Rightarrow> vm_db \<Rightarrow> vm_db" where
  "release_vm_reservation vid db =
     (case find_vm db vid of
        None \<Rightarrow> db
      | Some row \<Rightarrow>
        if vm_wallet row = [] \<and> vm_status_of_row row = PROVISIONING
        then db\<lparr>vd_domains := unlink_domain vid (vd_domains db),
               vd_rows := filter (\<lambda>r. vm_id r \<noteq> vid) (vd_rows db)\<rparr>
        else db)"

text \<open>The second component: whether the row was failed now, so that the event is emitted.\<close>

definition mark_vm_failed :: "string \<Rightarrow> string \<Rightarrow> vm_db \<Rightarrow> vm_db \<times> bool" where
  "mark_vm_failed vid customer_message db =
     (case find_vm db vid of
        None \<Rightarrow> (db, False)
      | Some row \<Rightarrow>
        if vm_status_of_row row \<noteq> DESTROYED \<and> vm_status_of_row row \<noteq> FAILED
        then ((update_vm vid (\<lambda>r. r\<lparr>vm_status_of_row := FAILED, vm_error := Some customer_message, vm_prefix := None\<rparr>) db)
                \<lparr>vd_domains := unlink_domain vid (vd_domains db)\<rparr>, True)
        else (db, False))"

definition persist_charged_amount :: "string \<Rightarrow> decimal \<Rightarrow> vm_db \<Rightarrow> vm_db" where
  "persist_charged_amount vid amount db =
     update_vm vid (\<lambda>r. r\<lparr>vm_cost_total := amount, vm_retail_cost_total := amount, vm_billing_mode := Some ''charged''\<rparr>) db"

definition persist_payment_billing :: "string \<Rightarrow> settlement_info \<Rightarrow> vm_db \<Rightarrow> vm_db" where
  "persist_payment_billing vid info db = update_vm vid (apply_payment_billing info) db"

text \<open>A process keeps the set of VMs it is provisioning; the flag says whether a task was created.\<close>

definition spawn_provisioning ::
    "store_cfg \<Rightarrow> string \<Rightarrow> int \<Rightarrow> string \<Rightarrow> string \<Rightarrow> string set \<Rightarrow> vm_db
     \<Rightarrow> (vm_error_kind + bool) \<times> string set \<times> vm_db" where
  "spawn_provisioning cfg vid now gen tok inflight db =
     (if vid \<in> inflight then (Inr False, inflight, db)
      else case find_vm db vid of
        None \<Rightarrow> (Inr False, inflight, db)
      | Some row \<Rightarrow>
        if vm_status_of_row row \<noteq> PROVISIONING \<or> vm_wallet row = [] then (Inr False, inflight, db)
        else case prepare_provisioning_dispatch cfg now gen tok row (vd_receipts db) of
          Inl e \<Rightarrow> (Inl e, inflight, db)
        | Inr recs \<Rightarrow> (Inr True, insert vid inflight, db\<lparr>vd_receipts := recs\<rparr>))"

definition start_provisioning ::
    "store_cfg \<Rightarrow> string \<Rightarrow> int \<Rightarrow> string \<Rightarrow> string \<Rightarrow> string set \<Rightarrow> vm_db \<Rightarrow> bool \<times> string set \<times> vm_db" where
  "start_provisioning cfg vid now gen tok inflight db =
     (case find_vm db vid of
        None \<Rightarrow> (False, inflight, db)
      | Some row \<Rightarrow>
        if vm_status_of_row row \<noteq> PROVISIONING \<or> vm_wallet row = [] then (False, inflight, db)
        else let db1 = update_vm vid (set_provisioning_handoff_state True) db in
          (case spawn_provisioning cfg vid now gen tok inflight db1 of
             (Inl e, inflight', db2) \<Rightarrow> (False, inflight', db2)
           | (Inr started, inflight', db2) \<Rightarrow> (started, inflight', db2)))"

subsection \<open>Refunds of failed paid requests\<close>

definition settled_event :: "ledger \<Rightarrow> string option \<Rightarrow> payment_event option" where
  "settled_event l tx =
     (if truthy tx then find (\<lambda>e. ev_tx e = tx \<and> ev_type e = ''settled'') l else None)"

definition create_failure_owed ::
    "string \<Rightarrow> string option \<Rightarrow> decimal option \<Rightarrow> string \<Rightarrow> string option \<Rightarrow> payment_event option \<Rightarrow> owed_fields" where
  "create_failure_owed wallet tx charged reason vid settled =
     (case settled of
        Some e \<Rightarrow> \<lparr>w_path = ''/v1/vm/create'', w_payer = Some (or_str (or_opt (ev_payer e) (Some wallet)) ''unknown''),
          w_amount = ev_amount e, w_tx = tx, w_reason = reason, w_network = ev_network e, w_asset = ev_asset e,
          w_vm_id = vid, w_extra = []\<rparr>
      | None \<Rightarrow> \<lparr>w_path = ''/v1/vm/create'', w_payer = Some (or_str (Some wallet) ''unknown''),
          w_amount = charged, w_tx = tx, w_reason = reason, w_network = None, w_asset = None,
          w_vm_id = vid, w_extra = []\<rparr>)"

definition record_create_failure_refund ::
    "bool \<Rightarrow> string \<Rightarrow> string \<Rightarrow> string option \<Rightarrow> decimal option \<Rightarrow> string \<Rightarrow> string option \<Rightarrow> ledger \<Rightarrow> ledger" where
  "record_create_failure_refund write_ok uid wallet tx charged reason vid l =
     (if is_dev_tx tx \<or> is_admin_tx tx then l
      else snd (record_owed True write_ok uid
        (create_failure_owed wallet tx charged reason vid (settled_event l tx)) l))"

text \<open>\<open>None\<close>: the obligation could not be built and the call raises.\<close>

definition record_extension_failure_refund ::
    "string \<Rightarrow> string \<Rightarrow> string \<Rightarrow> string option \<Rightarrow> decimal \<Rightarrow> string \<Rightarrow> ledger \<Rightarrow> ledger option" where
  "record_extension_failure_refund uid vid wallet tx charged reason l =
     (if is_dev_tx tx \<or> is_admin_tx tx then Some l
      else
        let settled = settled_event l tx;
            w = \<lparr>w_path = ''/v1/vm/'' @ vid @ ''/extend'',
              w_payer = Some (or_str (or_opt (case settled of None \<Rightarrow> None | Some e \<Rightarrow> ev_payer e) (Some wallet)) ''unknown''),
              w_amount = (case settled of None \<Rightarrow> Some charged | Some e \<Rightarrow> ev_amount e), w_tx = tx, w_reason = reason,
              w_network = (case settled of None \<Rightarrow> None | Some e \<Rightarrow> ev_network e),
              w_asset = (case settled of None \<Rightarrow> None | Some e \<Rightarrow> ev_asset e), w_vm_id = Some vid, w_extra = []\<rparr>
        in (case build_owed_event True uid w of None \<Rightarrow> None | Some e \<Rightarrow> Some (l @ [e])))"

subsection \<open>What the row helpers leave alone\<close>

named_theorems vm_frame

lemma apply_payment_billing_frame [vm_frame]:
  "vm_id (apply_payment_billing i r) = vm_id r" "vm_prefix (apply_payment_billing i r) = vm_prefix r"
  "vm_wallet (apply_payment_billing i r) = vm_wallet r" "vm_owner (apply_payment_billing i r) = vm_owner r"
  "vm_status_of_row (apply_payment_billing i r) = vm_status_of_row r" "vm_uuid (apply_payment_billing i r) = vm_uuid r"
  "vm_vcpu (apply_payment_billing i r) = vm_vcpu r" "vm_memory_mb (apply_payment_billing i r) = vm_memory_mb r"
  "vm_disk_gb (apply_payment_billing i r) = vm_disk_gb r"
  by (simp_all add: apply_payment_billing_def Let_def split: option.splits)

lemma set_handoff_frame [vm_frame]:
  "vm_id (set_provisioning_handoff_state b r) = vm_id r" "vm_prefix (set_provisioning_handoff_state b r) = vm_prefix r"
  "vm_wallet (set_provisioning_handoff_state b r) = vm_wallet r" "vm_owner (set_provisioning_handoff_state b r) = vm_owner r"
  "vm_status_of_row (set_provisioning_handoff_state b r) = vm_status_of_row r"
  "vm_uuid (set_provisioning_handoff_state b r) = vm_uuid r"
  "vm_vcpu (set_provisioning_handoff_state b r) = vm_vcpu r" "vm_memory_mb (set_provisioning_handoff_state b r) = vm_memory_mb r"
  "vm_disk_gb (set_provisioning_handoff_state b r) = vm_disk_gb r"
  by (simp_all add: set_provisioning_handoff_state_def)

lemma new_vm_row_frame [vm_frame]:
  "vm_id (new_vm_row cfg a b c tok now pfx) = c" "vm_prefix (new_vm_row cfg a b c tok now pfx) = Some pfx"
  "vm_wallet (new_vm_row cfg a b c tok now pfx) = ia_wallet a" "vm_owner (new_vm_row cfg a b c tok now pfx) = ia_owner a"
  "vm_status_of_row (new_vm_row cfg a b c tok now pfx) = PROVISIONING" "vm_uuid (new_vm_row cfg a b c tok now pfx) = None"
  "vm_vcpu (new_vm_row cfg a b c tok now pfx) = r_vcpu (bl_resources b)"
  "vm_memory_mb (new_vm_row cfg a b c tok now pfx) = r_ram_mb (bl_resources b)"
  "vm_disk_gb (new_vm_row cfg a b c tok now pfx) = r_disk_gb (bl_resources b)"
  by (simp_all add: new_vm_row_def Let_def vm_frame)

lemma activated_row_frame [vm_frame]:
  "vm_id (activated_row a r) = vm_id r" "vm_prefix (activated_row a r) = vm_prefix r"
  "vm_status_of_row (activated_row a r) = vm_status_of_row r" "vm_uuid (activated_row a r) = vm_uuid r"
  "vm_wallet (activated_row a r) = aa_wallet a"
  by (simp_all add: activated_row_def Let_def vm_frame)

lemma prepare_dispatch_receipts:
  "prepare_provisioning_dispatch cfg now gen tok row t = Inr t' \<Longrightarrow>
   (sc_real cfg \<longrightarrow> vm_uuid row = None \<longrightarrow> t' (vm_id row) \<noteq> None) \<and> (\<forall>i. t i \<noteq> None \<longrightarrow> t' i \<noteq> None)"
  by (auto simp: prepare_provisioning_dispatch_def prepare_guest_result_def
      split: if_splits prod.splits sum.splits guest_rejected.splits)

subsection \<open>Table integrity\<close>

text \<open>No two rows share an id or a /64, and a paid VM that still has to be built has the receipt by which the
  recovery worker finds it.\<close>

definition prefix_index :: "vm_row \<Rightarrow> int option" where
  "prefix_index r = map_option fst (vm_prefix r)"

definition recoverable :: "bool \<Rightarrow> receipts \<Rightarrow> vm_row \<Rightarrow> bool" where
  "recoverable rp t r \<longleftrightarrow>
     (rp \<and> vm_status_of_row r = PROVISIONING \<and> vm_wallet r \<noteq> [] \<and> vm_uuid r = None \<longrightarrow> t (vm_id r) \<noteq> None)"

definition vm_db_ok :: "bool \<Rightarrow> vm_db \<Rightarrow> bool" where
  "vm_db_ok rp db \<longleftrightarrow> unique_by vm_id (vd_rows db) \<and> distinct (collect_some prefix_index (vd_rows db)) \<and>
     (\<forall>r \<in> set (vd_rows db). recoverable rp (vd_receipts db) r)"

lemma collect_some_sub:
  assumes "\<And>x. x \<in> set xs \<Longrightarrow> g' x = g x \<or> g' x = None"
  shows "set (collect_some g' xs) \<subseteq> set (collect_some g xs) \<and>
    (distinct (collect_some g xs) \<longrightarrow> distinct (collect_some g' xs))"
  using assms
proof (induction xs)
  case (Cons x xs)
  then have ih: "set (collect_some g' xs) \<subseteq> set (collect_some g xs)"
    "distinct (collect_some g xs) \<Longrightarrow> distinct (collect_some g' xs)" by auto
  from Cons.prems [of x] have "g' x = g x \<or> g' x = None" by simp
  with ih show ?case by (cases "g x"; cases "g' x") auto
qed simp

lemma collect_some_map: "collect_some g (map f xs) = collect_some (\<lambda>x. g (f x)) xs"
  by (induction xs) (auto split: option.splits)

lemma collect_some_filter: "collect_some g (filter p xs) = collect_some (\<lambda>x. if p x then g x else None) xs"
  by (induction xs) (auto split: option.splits)

lemma collect_some_append: "collect_some g (xs @ ys) = collect_some g xs @ collect_some g ys"
  by (induction xs) (auto split: option.splits)

lemma used_indexes_alt: "used_indexes db = set (collect_some prefix_index (vd_rows db))"
  by (simp add: used_indexes_def prefix_index_def [abs_def])

lemma find_vm_in: "find_vm db i = Some r \<Longrightarrow> r \<in> set (vd_rows db) \<and> vm_id r = i"
  by (auto simp: find_vm_def dest: find_hit)

lemma update_vm_ok:
  assumes "vm_db_ok rp db"
    and f: "\<And>r. r \<in> set (vd_rows db) \<Longrightarrow> vm_id r = i \<Longrightarrow>
      vm_id (f r) = i \<and> (vm_prefix (f r) = vm_prefix r \<or> vm_prefix (f r) = None) \<and> recoverable rp t (f r)"
    and t: "\<And>j. vd_receipts db j \<noteq> None \<Longrightarrow> t j \<noteq> None"
  shows "vm_db_ok rp ((update_vm i f db)\<lparr>vd_receipts := t\<rparr>)"
proof -
  let ?f = "\<lambda>r. if vm_id r = i then f r else r"
  have "map vm_id (map ?f (vd_rows db)) = map vm_id (vd_rows db)" using f by auto
  then have u: "unique_by vm_id (map ?f (vd_rows db))"
    using assms(1) by (simp only: vm_db_ok_def unique_by_def)
  have "prefix_index (?f x) = prefix_index x \<or> prefix_index (?f x) = None" if "x \<in> set (vd_rows db)" for x
    using f [OF that] by (auto simp: prefix_index_def)
  then have "distinct (collect_some prefix_index (map ?f (vd_rows db)))"
    using collect_some_sub [of "vd_rows db" "\<lambda>x. prefix_index (?f x)" prefix_index] assms(1)
    unfolding collect_some_map vm_db_ok_def by blast
  moreover have "recoverable rp t (?f r)" if "r \<in> set (vd_rows db)" for r
  proof (cases "vm_id r = i")
    case True
    with that f show ?thesis by simp
  next
    case False
    with that assms(1) t show ?thesis by (auto simp: vm_db_ok_def recoverable_def)
  qed
  then have "\<forall>r \<in> set (map ?f (vd_rows db)). recoverable rp t r"
    unfolding set_map by blast
  ultimately show ?thesis
    using u by (simp add: vm_db_ok_def update_vm_def)
qed

lemma insert_ok:
  assumes "vm_db_ok rp db" and "\<not> vm_insert_conflicts row db" and "recoverable rp t row"
    and t: "\<And>j. vd_receipts db j \<noteq> None \<Longrightarrow> t j \<noteq> None"
  shows "vm_db_ok rp (db\<lparr>vd_rows := vd_rows db @ [row], vd_receipts := t\<rparr>)"
proof -
  have u: "unique_by vm_id (vd_rows db @ [row])"
    using assms(1,2) by (auto simp: vm_db_ok_def unique_by_append vm_insert_conflicts_def find_vm_def find_key_None)
  have "distinct (collect_some prefix_index (vd_rows db @ [row]))"
    using assms(1,2)
    by (auto simp: vm_db_ok_def collect_some_append vm_insert_conflicts_def used_indexes_alt prefix_index_def
        split: option.splits)
  moreover have "recoverable rp t r" if "r \<in> set (vd_rows db)" for r
    using that assms(1) t by (auto simp: vm_db_ok_def recoverable_def)
  ultimately show ?thesis using u assms(3) by (auto simp: vm_db_ok_def)
qed

lemma insert_turn_ok:
  assumes "insert_turn cfg a b tok now turn = Turn_Done x db'"
    and rd: "truthy (ia_vm_id a) \<Longrightarrow> vm_db_ok (sc_real cfg) (it_read turn)" and "vm_db_ok (sc_real cfg) (it_commit turn)"
  shows "vm_db_ok (sc_real cfg) db'"
proof -
  define candidate where "candidate = or_str (ia_vm_id a) (it_generated_id turn)"
  show ?thesis
  proof (cases "if truthy (ia_vm_id a) then find_vm (it_read turn) candidate else None")
    case (Some existing)
    with assms(1) have r: "replay_existing cfg a b now turn existing = Turn_Done x db'"
      by (auto simp: insert_turn_def candidate_def Let_def split: if_splits)
    have ok: "vm_db_ok (sc_real cfg) (it_read turn)" using Some rd by (simp split: if_splits)
    have e: "existing \<in> set (vd_rows (it_read turn))"
      using Some by (auto dest: find_vm_in split: if_splits)
    let ?r1 = "apply_payment_billing (ia_settlement a) existing"
    let ?r2 = "set_provisioning_handoff_state (ia_ready a) ?r1"
    from r consider
        (paid) recs where "prepare_provisioning_dispatch cfg now (it_gen turn) (it_tok turn) ?r2 (vd_receipts (it_read turn)) = Inr recs"
          "db' = (update_vm (vm_id existing) (\<lambda>_. ?r2) (it_read turn))\<lparr>vd_receipts := recs\<rparr>"
      | (other) "db' = (update_vm (vm_id existing) (\<lambda>_. ?r1) (it_read turn))\<lparr>vd_receipts := vd_receipts (it_read turn)\<rparr>"
          "\<not> (vm_status_of_row ?r1 = PROVISIONING \<and> vm_wallet ?r1 \<noteq> [])"
      by (auto simp: replay_existing_def Let_def update_vm_def split: if_splits sum.splits)
    then show ?thesis
    proof cases
      case paid
      have "vm_prefix r = vm_prefix existing" if "r \<in> set (vd_rows (it_read turn))" "vm_id r = vm_id existing" for r
        using that e ok find_unique [of vm_id "vd_rows (it_read turn)"]
        by (metis option.inject vm_db_ok_def)
      with paid prepare_dispatch_receipts [OF paid(1)] ok show ?thesis
        by (auto intro!: update_vm_ok simp: vm_frame recoverable_def)
    next
      case other
      have "vm_prefix r = vm_prefix existing" if "r \<in> set (vd_rows (it_read turn))" "vm_id r = vm_id existing" for r
        using that e ok find_unique [of vm_id "vd_rows (it_read turn)"]
        by (metis option.inject vm_db_ok_def)
      with other ok show ?thesis
        by (auto intro!: update_vm_ok simp: vm_frame recoverable_def)
    qed
  next
    case None
    with assms(1) obtain pfx where
      p: "fresh_insert cfg a b tok now turn candidate pfx = Turn_Done x db'"
      by (cases "allocate_customer_prefix (sc_digest cfg) (sc_supernet cfg) (used_indexes (it_read turn)) candidate")
        (simp_all add: insert_turn_def candidate_def [symmetric] Let_def split: if_splits)
    let ?row = "new_vm_row cfg a b candidate tok now pfx"
    from p consider (same) "db' = it_commit turn"
      | (paid) recs where "\<not> vm_insert_conflicts ?row (it_commit turn)"
          "prepare_provisioning_dispatch cfg now (it_gen turn) (it_tok turn) ?row (vd_receipts (it_commit turn)) = Inr recs"
          "db' = (it_commit turn)\<lparr>vd_rows := vd_rows (it_commit turn) @ [?row], vd_receipts := recs\<rparr>"
      | (unpaid) "\<not> vm_insert_conflicts ?row (it_commit turn)" "vm_wallet ?row = []"
          "db' = (it_commit turn)\<lparr>vd_rows := vd_rows (it_commit turn) @ [?row], vd_receipts := vd_receipts (it_commit turn)\<rparr>"
      by (auto simp: fresh_insert_def Let_def split: if_splits option.splits sum.splits)
    then show ?thesis
    proof cases
      case paid
      with prepare_dispatch_receipts [OF paid(2)] assms(3) show ?thesis
        by (auto intro!: insert_ok simp: recoverable_def)
    next
      case unpaid
      then show ?thesis using insert_ok [OF assms(3) unpaid(1), of "vd_receipts (it_commit turn)"]
        by (simp add: recoverable_def)
    qed (use assms in simp)
  qed
qed

lemma find_vm_prefix:
  assumes "vm_db_ok rp db" "find_vm db i = Some row" "r \<in> set (vd_rows db)" "vm_id r = i"
  shows "r = row"
  using assms find_unique [of vm_id "vd_rows db" r i] by (simp add: vm_db_ok_def find_vm_def)

lemma receipts_same: "(update_vm i f db)\<lparr>vd_receipts := vd_receipts db\<rparr> = update_vm i f db"
  by (simp add: update_vm_def)

lemma update_vm_ok_same:
  assumes "vm_db_ok rp db"
    and "\<And>r. r \<in> set (vd_rows db) \<Longrightarrow> vm_id r = i \<Longrightarrow>
      vm_id (f r) = i \<and> (vm_prefix (f r) = vm_prefix r \<or> vm_prefix (f r) = None) \<and>
      (recoverable rp (vd_receipts db) r \<longrightarrow> recoverable rp (vd_receipts db) (f r))"
  shows "vm_db_ok rp (update_vm i f db)"
  using update_vm_ok [OF assms(1), of i f "vd_receipts db"] assms
  by (simp add: receipts_same vm_db_ok_def)

lemma activate_locked_ok:
  assumes "activate_locked cfg a now gen tok row db = (res, db')" and ok: "vm_db_ok (sc_real cfg) db"
    and row: "find_vm db (aa_vm_id a) = Some row"
  shows "vm_db_ok (sc_real cfg) db'"
proof -
  have i: "vm_id row = aa_vm_id a" using find_vm_in [OF row] by simp
  have p: "vm_prefix r = vm_prefix row" if "r \<in> set (vd_rows db)" "vm_id r = aa_vm_id a" for r
    using find_vm_prefix [OF ok row that] by simp
  show ?thesis
  proof (cases "vm_status_of_row row = PROVISIONING")
    case True
    let ?row4 = "set_provisioning_handoff_state (aa_start a) (activated_row a row)"
    from assms(1) True consider "db' = db" | recs where
        "prepare_provisioning_dispatch cfg now gen tok ?row4 (vd_receipts db) = Inr recs"
        "db' = (update_vm (aa_vm_id a) (\<lambda>_. ?row4) db)\<lparr>vd_receipts := recs\<rparr>"
      by (auto simp: activate_locked_def Let_def vm_frame split: sum.splits)
    then show ?thesis
    proof cases
      case (2 recs)
      have "vm_db_ok (sc_real cfg) ((update_vm (aa_vm_id a) (\<lambda>_. ?row4) db)\<lparr>vd_receipts := recs\<rparr>)"
        using prepare_dispatch_receipts [OF 2(1)] i p
        by (intro update_vm_ok [OF ok]) (simp_all add: vm_frame recoverable_def)
      with 2 show ?thesis by simp
    qed (use ok in simp)
  next
    case False
    then have "db' = update_vm (aa_vm_id a) (\<lambda>_. activated_row a row) db"
      using assms(1) by (simp add: activate_locked_def Let_def vm_frame)
    moreover have "vm_db_ok (sc_real cfg) (update_vm (aa_vm_id a) (\<lambda>_. activated_row a row) db)"
      using i p False by (intro update_vm_ok_same [OF ok]) (simp add: vm_frame recoverable_def)
    ultimately show ?thesis by simp
  qed
qed

lemma activate_ok:
  assumes "activate_vm_reservation cfg a now gen tok db0 db = (res, db')" and ok: "vm_db_ok (sc_real cfg) db"
  shows "vm_db_ok (sc_real cfg) db'"
proof (cases "db' = db")
  case False
  with assms(1) obtain row where "find_vm db (aa_vm_id a) = Some row" "activate_locked cfg a now gen tok row db = (res, db')"
    by (auto simp: activate_vm_reservation_def Let_def split: if_splits option.splits)
  with activate_locked_ok ok show ?thesis by blast
qed (use ok in simp)

lemma release_ok: "vm_db_ok rp db \<Longrightarrow> vm_db_ok rp (release_vm_reservation vid db)"
  using collect_some_sub [of "vd_rows db" "\<lambda>x. if vm_id x \<noteq> vid then prefix_index x else None" prefix_index]
  by (auto simp: release_vm_reservation_def vm_db_ok_def unique_by_filter collect_some_filter split: option.splits)

lemma domains_ok: "vm_db_ok rp (db\<lparr>vd_domains := ds\<rparr>) = vm_db_ok rp db"
  by (simp add: vm_db_ok_def)

lemma mark_failed_ok: "vm_db_ok rp db \<Longrightarrow> vm_db_ok rp (fst (mark_vm_failed vid msg db))"
  by (auto simp: mark_vm_failed_def domains_ok recoverable_def intro!: update_vm_ok_same split: option.splits)

lemma persist_ok:
  "vm_db_ok rp db \<Longrightarrow> vm_db_ok rp (persist_charged_amount vid amount db)"
  "vm_db_ok rp db \<Longrightarrow> vm_db_ok rp (persist_payment_billing vid info db)"
  by (auto simp: persist_charged_amount_def persist_payment_billing_def recoverable_def vm_frame
      intro!: update_vm_ok_same)

lemma spawn_ok:
  "spawn_provisioning cfg vid now gen tok inflight db = (r, inflight', db') \<Longrightarrow> vm_db_ok (sc_real cfg) db \<Longrightarrow>
   vm_db_ok (sc_real cfg) db'"
  by (auto simp: spawn_provisioning_def vm_db_ok_def recoverable_def dest!: prepare_dispatch_receipts
      split: if_splits option.splits sum.splits)

lemma start_ok:
  assumes "start_provisioning cfg vid now gen tok inflight db = (r, inflight', db')" "vm_db_ok (sc_real cfg) db"
  shows "vm_db_ok (sc_real cfg) db'"
proof -
  have "vm_db_ok (sc_real cfg) (update_vm vid (set_provisioning_handoff_state True) db)"
    using assms(2) by (auto intro!: update_vm_ok_same simp: vm_frame recoverable_def)
  with assms show ?thesis
    by (auto simp: start_provisioning_def Let_def dest: spawn_ok split: if_splits option.splits prod.splits sum.splits)
qed

subsection \<open>Every history of the table\<close>

text \<open>One step is one committed transaction. An insert may have read an older table than the one it commits
  to, unless it replays a known id under its lock. \<open>progress\<close>: the provisioner attaches the guest or moves the
  status on.\<close>

inductive vm_step :: "store_cfg \<Rightarrow> vm_db \<Rightarrow> vm_db \<Rightarrow> bool" for cfg where
  insert_race: "insert_turn cfg a b tok now turn = Turn_Done x db' \<Longrightarrow> it_commit turn = db \<Longrightarrow>
     \<not> truthy (ia_vm_id a) \<Longrightarrow> vm_step cfg db db'"
| insert_known: "insert_turn cfg a b tok now turn = Turn_Done x db' \<Longrightarrow> it_commit turn = db \<Longrightarrow> it_read turn = db \<Longrightarrow>
     vm_step cfg db db'"
| activate: "activate_vm_reservation cfg aa now gen tok db0 db = (res, db') \<Longrightarrow> vm_step cfg db db'"
| release: "vm_step cfg db (release_vm_reservation vid db)"
| fail: "vm_step cfg db (fst (mark_vm_failed vid msg db))"
| charge: "vm_step cfg db (persist_charged_amount vid amount db)"
| bill: "vm_step cfg db (persist_payment_billing vid info db)"
| start: "start_provisioning cfg vid now gen tok inflight db = (r, inflight', db') \<Longrightarrow> vm_step cfg db db'"
| attach: "vm_step cfg db (update_vm vid (\<lambda>r. r\<lparr>vm_uuid := Some u\<rparr>) db)"
| progress: "st \<noteq> PROVISIONING \<Longrightarrow> vm_step cfg db (update_vm vid (\<lambda>r. r\<lparr>vm_status_of_row := st\<rparr>) db)"

lemma vm_step_ok: "vm_step cfg db db' \<Longrightarrow> vm_db_ok (sc_real cfg) db \<Longrightarrow> vm_db_ok (sc_real cfg) db'"
proof (induction rule: vm_step.induct)
  case (insert_race a b tok now turn x db' db)
  then show ?case using insert_turn_ok [OF insert_race(1)] by blast
next
  case (insert_known a b tok now turn x db' db)
  then show ?case using insert_turn_ok [OF insert_known(1)] by simp
next
  case (attach db vid u)
  then show ?case by (auto intro!: update_vm_ok_same simp: recoverable_def)
next
  case (progress st db vid)
  then show ?case by (auto intro!: update_vm_ok_same simp: recoverable_def)
qed (auto dest: activate_ok start_ok intro: release_ok mark_failed_ok persist_ok)

lemma vm_reach_ok: "(vm_step cfg)\<^sup>*\<^sup>* db db' \<Longrightarrow> vm_db_ok (sc_real cfg) db \<Longrightarrow> vm_db_ok (sc_real cfg) db'"
  by (induction rule: rtranclp_induct) (auto intro: vm_step_ok)

subsection \<open>Lemmas for the properties\<close>

lemma resolve_billing_resources:
  "resolve_billing cfg rq snapshot legacy = Inr b \<Longrightarrow> bl_resources b = requested_resources rq"
  by (auto simp: resolve_billing_def Let_def split: if_splits option.splits sum.splits elim!: price_vm_order_chosen)

lemma snapshot_accepted:
  assumes p: "price_vm_order rq pay = Inr p" and c: "0 \<le> coeff (p_total p)"
  shows "\<exists>b. resolve_billing cfg (p_order p) (Some (p_breakdown p)) False = Inr b \<and> bl_request b = p_order p \<and>
    bl_resources b = p_resources p \<and> dec_eq (bl_total b) (p_total p)"
  using p
proof (rule price_vm_order_chosen)
  fix key sz av ar ad
  assume m: "py_min key_less fst (price_candidates pay (requested_resources rq)) = Some (key, sz, av, ar, ad)"
    and eqs: "p_resources p = requested_resources rq"
      "p_order p = rq\<lparr>o_size := sz, o_resources := Some (requested_resources rq)\<rparr>"
      "base_profile (p_breakdown p) = sz" "addon_vcpu (p_breakdown p) = av" "addon_ram_mb (p_breakdown p) = ar"
      "addon_disk_gb (p_breakdown p) = ad" "total_usd (p_breakdown p) = money (p_total p)"
      "b_duration_days (p_breakdown p) = duration_days rq"
  obtain q where q: "parse_decimal (money (p_total p)) = Some q" "dec_val q = dec_val (p_total p)"
    using money_parses [OF c] by blast
  have rr: "requested_resources (p_order p) = requested_resources rq"
    using eqs(2) by (simp add: requested_resources_def)
  have sh: "fits (VM_SPECS sz) (requested_resources rq)" "av = r_vcpu (requested_resources rq) - r_vcpu (VM_SPECS sz)"
    "ar = r_ram_mb (requested_resources rq) - r_ram_mb (VM_SPECS sz)"
    "ad = r_disk_gb (requested_resources rq) - r_disk_gb (VM_SPECS sz)"
    using price_candidate_shape [OF price_order.py_min_in [OF m]] by blast+
  then have n: "\<not> min av (min ar ad) < 0" by (auto simp: fits_def)
  show ?thesis
    using q n sh(2-4) eqs rr
    by (simp add: resolve_billing_def Let_def resources_for_profile_def dec_eq_val)
qed

lemma fresh_insert_here:
  assumes "fresh_insert cfg a b tok now turn candidate pfx = Turn_Done (row, tk) db'"
    and "it_commit turn = db" "truthy (ia_vm_id a) \<longrightarrow> find_vm db candidate = None"
  shows "row = new_vm_row cfg a b candidate tok now pfx \<and> vd_rows db' = vd_rows db @ [row]"
  using assms
  by (auto simp: fresh_insert_def Let_def split: if_splits option.splits sum.splits)

lemma pending_append:
  "vd_rows db' = vd_rows db @ [row] \<Longrightarrow> vm_status_of_row row = PROVISIONING \<Longrightarrow> vm_uuid row = None \<Longrightarrow>
   pending_rows db' = pending_rows db @ [row]"
  by (simp add: pending_rows_def)

subsection \<open>Properties\<close>

text \<open>C20: in every history of the VM table no two rows share a VM id or a customer /64, and a paid VM that
  still has to be built always has the durable receipt by which the recovery worker finds it.\<close>

theorem vm_table_integrity:
  assumes "(vm_step cfg)\<^sup>*\<^sup>* db db'" and "vm_db_ok (sc_real cfg) db"
    and "r1 \<in> set (vd_rows db')" and "r2 \<in> set (vd_rows db')"
  shows "(vm_id r1 = vm_id r2 \<longrightarrow> r1 = r2) \<and>
    (prefix_index r1 = prefix_index r2 \<and> prefix_index r1 \<noteq> None \<longrightarrow> r1 = r2) \<and>
    (sc_real cfg \<and> vm_status_of_row r1 = PROVISIONING \<and> vm_wallet r1 \<noteq> [] \<and> vm_uuid r1 = None \<longrightarrow>
       vd_receipts db' (vm_id r1) \<noteq> None)"
proof -
  have ok: "vm_db_ok (sc_real cfg) db'" using vm_reach_ok [OF assms(1,2)] .
  have "r1 = r2" if "vm_id r1 = vm_id r2"
    using ok that assms(3,4) by (auto simp: vm_db_ok_def unique_by_def distinct_map dest: inj_onD)
  moreover have "r1 = r2" if "prefix_index r1 = Some i" "prefix_index r2 = Some i" for i
  proof -
    have "distinct (collect_some prefix_index rs) \<Longrightarrow> r1 \<in> set rs \<Longrightarrow> r2 \<in> set rs \<Longrightarrow> r1 = r2" for rs
      using that by (induction rs) (auto simp: set_collect_some split: option.splits)
    with ok assms(3,4) show ?thesis unfolding vm_db_ok_def by blast
  qed
  then have "prefix_index r1 = prefix_index r2 \<and> prefix_index r1 \<noteq> None \<longrightarrow> r1 = r2" by (cases "prefix_index r1") auto
  ultimately show ?thesis
    using ok assms(3) by (simp add: vm_db_ok_def recoverable_def)
qed

definition demo_store_cfg :: store_cfg where
  "demo_store_cfg = \<lparr>sc_payment = demo_cfg, sc_templates = [''debian-13'' \<mapsto> ''tpl''], sc_real = True,
     sc_supernet = \<lparr>n_addr = 0, n_plen = 60\<rparr>, sc_deploy_domain = ''hyrule.host'', sc_report_timeout = 900,
     sc_sha256 = rev, sc_digest = (\<lambda>_. 3), sc_overcommit = Dec 2 0, sc_memory_headroom_mb = 1024,
     sc_storage_headroom_gb = 10\<rparr>"

definition demo_vm_order :: vm_create_request where
  "demo_vm_order = \<lparr>duration_days = 30, o_size = XS, o_resources = None, o_os = ''debian-13'', o_ssh_pubkey = ''ssh'',
     o_domain_mode = AUTO, o_domain = None, o_open_ports = [80], o_setup_script = None, o_quote_id = None\<rparr>"

definition empty_vm_db :: vm_db where
  "empty_vm_db = \<lparr>vd_rows = [], vd_accounts = (\<lambda>_. None), vd_receipts = (\<lambda>_. None), vd_domains = []\<rparr>"

definition demo_turn :: turn_env where
  "demo_turn = \<lparr>it_generated_id = ''vm1'', it_gen = ''g'', it_tok = ''t'', it_read = empty_vm_db, it_commit = empty_vm_db\<rparr>"

definition demo_billed :: billed where
  "demo_billed = \<lparr>bl_request = demo_vm_order\<lparr>o_resources := Some (VM_SPECS XS)\<rparr>, bl_resources = VM_SPECS XS,
     bl_snapshot = None, bl_total = Dec 0 0\<rparr>"

definition demo_reserve :: insert_args where
  "demo_reserve = reserve_args demo_vm_order None None None True"

lemma demo_prefix:
  "allocate_customer_prefix (\<lambda>_. 3) \<lparr>n_addr = 0, n_plen = 60\<rparr> {} c = Inr (4, \<lparr>n_addr = 4 * 2 ^ 64, n_plen = 64\<rparr>)"
  by (simp add: allocate_customer_prefix_def customer_prefix_count_def prefix_index_candidate_def
      prefix_for_index_def RESERVED_PREFIX_INDEXES_def scan_order_def upto.simps)

lemma demo_insert:
  "\<exists>row db'. insert_turn demo_store_cfg demo_reserve b ''tok'' 5 demo_turn = Turn_Done (row, ''tok'') db' \<and>
     vd_rows db' = [row] \<and> row = new_vm_row demo_store_cfg demo_reserve b ''vm1'' ''tok'' 5 (4, \<lparr>n_addr = 4 * 2 ^ 64, n_plen = 64\<rparr>)"
proof -
  have "used_indexes empty_vm_db = {}" by (simp add: used_indexes_def empty_vm_db_def)
  moreover have "ia_vm_id demo_reserve = None" "ia_guard_ok demo_reserve" "ia_owner demo_reserve = None" "ia_wallet demo_reserve = []"
    by (simp_all add: demo_reserve_def reserve_args_def)
  ultimately show ?thesis
    by (simp add: insert_turn_def demo_turn_def owner_disabled_def demo_store_cfg_def demo_prefix or_str_def
        fresh_insert_def vm_insert_conflicts_def vm_frame find_vm_def Let_def) (simp add: empty_vm_db_def)
qed

theorem vm_table_integrity_witness:
  "\<exists>row db'. (vm_step demo_store_cfg)\<^sup>*\<^sup>* empty_vm_db db' \<and> row \<in> set (vd_rows db') \<and> vm_id row = ''vm1'' \<and>
     (\<forall>r \<in> set (vd_rows db'). vm_id r = ''vm1'' \<longrightarrow> r = row)"
proof -
  obtain row db' where i: "insert_turn demo_store_cfg demo_reserve demo_billed ''tok'' 5 demo_turn = Turn_Done (row, ''tok'') db'"
    and r: "vd_rows db' = [row]"
    and n: "row = new_vm_row demo_store_cfg demo_reserve demo_billed ''vm1'' ''tok'' 5 (4, \<lparr>n_addr = 4 * 2 ^ 64, n_plen = 64\<rparr>)"
    using demo_insert by blast
  have st: "(vm_step demo_store_cfg)\<^sup>*\<^sup>* empty_vm_db db'"
    by (rule r_into_rtranclp, rule insert_race [OF i]) (simp_all add: demo_turn_def demo_reserve_def reserve_args_def)
  have ok: "vm_db_ok (sc_real demo_store_cfg) empty_vm_db"
    by (simp add: vm_db_ok_def empty_vm_db_def unique_by_def)
  have u: "r2 = row" if "r2 \<in> set (vd_rows db')" "vm_id r2 = ''vm1''" for r2
    using vm_table_integrity [OF st ok that(1), of row] r n that by (simp add: vm_frame)
  have "row \<in> set (vd_rows db')" "vm_id row = ''vm1''" using r n by (simp_all add: vm_frame)
  with st u show ?thesis by blast
qed

text \<open>C27: admission is not oversold: when a reservation under the capacity lock adds a row, the hypervisor's
  allocations together with every VM still to be built, the new one included, stay within the
  overcommitted CPU count and leave the memory and storage margins untouched.\<close>

theorem reservation_within_capacity:
  assumes "reserve_vm_with_capacity cfg rq owner vid snapshot legacy_billing (Some c) tok now db0 db [turn]
      = (Inr (row, tk), Some db')"
    and "sc_real cfg" and "it_read turn = db" and "it_commit turn = db"
  shows "cp_allocated_vcpu c + sum_list (map vm_vcpu (pending_rows db'))
      \<le> dec_trunc (dec_mul (dec_of_int (cp_physical_vcpu c)) (sc_overcommit cfg)) \<and>
    sc_memory_headroom_mb cfg * 2 ^ 20 \<le> cp_free_memory c - sum_list (map vm_memory_mb (pending_rows db')) * 2 ^ 20 \<and>
    sc_storage_headroom_gb cfg * 2 ^ 30 \<le> cp_free_storage c - sum_list (map vm_disk_gb (pending_rows db')) * 2 ^ 30"
proof -
  let ?a = "reserve_args rq owner vid snapshot legacy_billing"
  have none: "truthy vid \<Longrightarrow> find_vm db (the vid) = None"
    using assms(1) by (auto simp: reserve_vm_with_capacity_def Let_def elim!: truthyE split: if_splits option.splits)
  from assms(1,2) have cap: "ensure_vm_capacity cfg rq (Some c) db = Inr ()"
    and ins: "insert_vm_row cfg ?a tok now [turn] = (Inr (row, tk), Some db')"
    by (auto simp: reserve_vm_with_capacity_def Let_def unit_sum_no_error split: if_splits option.splits sum.splits)
  from ins obtain b where b: "resolve_billing cfg rq snapshot legacy_billing = Inr b"
    and t: "insert_turn cfg ?a b tok now turn = Turn_Done (row, tk) db'"
    by (auto simp: insert_vm_row_def reserve_args_def split: sum.splits turn_result.splits)
  define candidate where "candidate = or_str vid (it_generated_id turn)"
  have cand: "truthy vid \<Longrightarrow> candidate = the vid"
    by (auto simp: candidate_def or_str_def elim!: truthyE)
  from t none cand obtain pfx where f: "fresh_insert cfg ?a b tok now turn candidate pfx = Turn_Done (row, tk) db'"
    using assms(3)
    by (cases "allocate_customer_prefix (sc_digest cfg) (sc_supernet cfg) (used_indexes db) candidate")
      (auto simp: insert_turn_def reserve_args_def candidate_def [symmetric] Let_def split: if_splits)
  have row: "row = new_vm_row cfg ?a b candidate tok now pfx" "vd_rows db' = vd_rows db @ [row]"
    using fresh_insert_here [OF f assms(4)] none cand by (simp_all add: reserve_args_def)
  have pend: "pending_rows db' = pending_rows db @ [row]"
    by (rule pending_append [OF row(2)]) (simp_all add: row(1) vm_frame)
  show ?thesis
    using cap unfolding pend
    by (simp add: ensure_vm_capacity_def Let_def row(1) vm_frame resolve_billing_resources [OF b] algebra_simps
        split: if_splits)
qed

definition demo_capacity :: capacity where
  "demo_capacity = \<lparr>cp_physical_vcpu = 2, cp_allocated_vcpu = 3, cp_free_memory = 2147483648, cp_free_storage = 21474836480\<rparr>"

theorem reservation_within_capacity_witness:
  "\<exists>row tk db'. reserve_vm_with_capacity demo_store_cfg demo_vm_order None None None True (Some demo_capacity) ''tok'' 5
      empty_vm_db empty_vm_db [demo_turn] = (Inr (row, tk), Some db') \<and>
     cp_allocated_vcpu demo_capacity + sum_list (map vm_vcpu (pending_rows db')) \<le> 4"
proof -
  have k: "dec_trunc (dec_mul (dec_of_int 2) (Dec 2 0)) = 4"
    by (simp add: dec_trunc_def dec_mul_def dec_of_int_def dec_fix_def ndigits_eval)
  have cap: "ensure_vm_capacity demo_store_cfg demo_vm_order (Some demo_capacity) empty_vm_db = Inr ()"
    using k by (simp add: ensure_vm_capacity_def demo_capacity_def demo_vm_order_def demo_store_cfg_def empty_vm_db_def
        pending_rows_def requested_resources_def resources_for_profile_def)
  obtain b where b: "resolve_billing demo_store_cfg demo_vm_order None True = Inr b"
    by (simp add: resolve_billing_def Let_def)
  obtain row db' where i: "insert_turn demo_store_cfg demo_reserve b ''tok'' 5 demo_turn = Turn_Done (row, ''tok'') db'"
    using demo_insert by blast
  have os: "check_os demo_store_cfg (o_os demo_vm_order) = Inr ()"
    by (simp add: check_os_def demo_store_cfg_def demo_vm_order_def supports_static_network_config_def lower_def
        lower_char_def char_of_def)
  have r: "reserve_vm_with_capacity demo_store_cfg demo_vm_order None None None True (Some demo_capacity) ''tok'' 5
      empty_vm_db empty_vm_db [demo_turn] = (Inr (row, ''tok''), Some db')"
    using cap b i os
    by (simp add: reserve_vm_with_capacity_def insert_vm_row_def demo_reserve_def) (simp add: reserve_args_def)
  have "cp_allocated_vcpu demo_capacity + sum_list (map vm_vcpu (pending_rows db')) \<le> 4"
    using reservation_within_capacity [OF r] k by (simp add: demo_turn_def demo_store_cfg_def demo_capacity_def)
  with r show ?thesis by blast
qed

text \<open>What was quoted can be bought: the canonical order and the snapshot that pricing produced are always
  accepted by the insert, under any later price list, with the same resources and the quoted total.\<close>

lemma quoted_order_insertable:
  assumes "price_vm_order rq pay = Inr p" and "0 \<le> coeff (p_total p)"
  shows "\<exists>b. resolve_billing cfg (p_order p) (Some (p_breakdown p)) False = Inr b \<and> bl_request b = p_order p \<and>
    bl_resources b = p_resources p \<and> dec_eq (bl_total b) (p_total p)"
  using assms by (rule snapshot_accepted)

lemma demo_total_nonneg: "0 \<le> coeff (p_total (projr (price_vm_order demo_order demo_cfg)))"
  using demo_priced
proof (rule price_vm_order_chosen)
  fix key sz av ar ad
  assume m: "py_min key_less fst (price_candidates demo_cfg (requested_resources demo_order)) = Some (key, sz, av, ar, ad)"
    and t: "p_total (projr (price_vm_order demo_order demo_cfg)) = dec_mul (fst key) (dec_of_int (duration_days demo_order))"
  note sh = price_candidate_shape [OF price_order.py_min_in [OF m]]
  have nonneg: "0 \<le> coeff (dec_fix d)" if "0 \<le> coeff d" for d
    using that by (auto simp: dec_fix_def Let_def sgn_if)
  have add: "0 \<le> coeff (dec_add c d)" if "0 \<le> coeff c" "0 \<le> coeff d" for c d
    unfolding dec_add_def Let_def using that by (intro nonneg) (simp add: coeff_at_def pow10_def)
  have mul: "0 \<le> coeff (dec_mul c d)" if "0 \<le> coeff c" "0 \<le> coeff d" for c d
    unfolding dec_mul_def using that by (intro nonneg) simp
  have of_int: "0 \<le> coeff (dec_of_int n)" if "0 \<le> n" for n using that by (simp add: dec_of_int_def)
  have base: "0 \<le> coeff (base_prices demo_cfg s)" for s
    by (cases s) (simp_all add: base_prices_def demo_cfg_def)
  have "0 \<le> av" "0 \<le> ar" "0 \<le> ad" using sh by (auto simp: fits_def)
  then have "0 \<le> coeff (fst key)"
    using sh base
    by (auto simp: daily_price_def addon_prices_def demo_cfg_def DEFAULT_ADDON_VCPU_def DEFAULT_ADDON_RAM_GB_def
        DEFAULT_ADDON_DISK_10GB_def intro!: add mul of_int)
  then show ?thesis unfolding t by (intro mul of_int) (simp_all add: demo_order_def)
qed

lemma quoted_order_insertable_witness:
  "\<exists>b. resolve_billing demo_store_cfg (p_order (projr (price_vm_order demo_order demo_cfg)))
     (Some (p_breakdown (projr (price_vm_order demo_order demo_cfg)))) False = Inr b"
  using quoted_order_insertable [OF demo_priced demo_total_nonneg, of demo_store_cfg] by blast

text \<open>Attaching a settled payment refuses a missing or disabled owner without touching the database, never
  overwrites an owner the reservation already has, and changes no other row.\<close>

theorem activation_respects_owner:
  assumes "activate_vm_reservation cfg a now gen tok db0 db = (res, db')"
  shows "(case res of
      Inl e \<Rightarrow> db' = db
    | Inr None \<Rightarrow> db' = db
    | Inr (Some row') \<Rightarrow> \<exists>row. find_vm db (aa_vm_id a) = Some row \<and> vm_wallet row' = aa_wallet a \<and>
        vm_owner row' = (case vm_owner row of Some o1 \<Rightarrow> Some o1 | None \<Rightarrow> if truthy (aa_owner a) then aa_owner a else None) \<and>
        (\<forall>o1. (vm_owner row = Some o1 \<or> aa_owner a = Some o1) \<longrightarrow> o1 \<noteq> [] \<longrightarrow>
           (\<exists>acc. vd_accounts db o1 = Some acc \<and> ac_disabled_at acc = None)) \<and>
        filter (\<lambda>r. vm_id r \<noteq> aa_vm_id a) (vd_rows db') = filter (\<lambda>r. vm_id r \<noteq> aa_vm_id a) (vd_rows db))"
proof -
  have same: "filter (\<lambda>r. vm_id r \<noteq> i) (map (\<lambda>r. if vm_id r = i then r' else r) rs) = filter (\<lambda>r. vm_id r \<noteq> i) rs"
    if "vm_id r' = i" for r' i rs
    using that by (induction rs) auto
  have others: "filter (\<lambda>r. vm_id r \<noteq> aa_vm_id a) (vd_rows (update_vm (aa_vm_id a) (\<lambda>_. r') db))
      = filter (\<lambda>r. vm_id r \<noteq> aa_vm_id a) (vd_rows db)" if "vm_id r' = aa_vm_id a" for r'
    using same [OF that] by (simp add: update_vm_def)
  have own: "vm_owner (activated_row a row) = (case vm_owner row of Some o1 \<Rightarrow> Some o1
      | None \<Rightarrow> if truthy (aa_owner a) then aa_owner a else None)" for row
    by (simp add: activated_row_def vm_frame Let_def split: option.splits)
  show ?thesis
  proof (cases "\<exists>row'. res = Inr (Some row')")
    case True
    then obtain row' where r': "res = Inr (Some row')" by blast
    with assms obtain cand row where f: "find_vm db0 (aa_vm_id a) = Some cand" "find_vm db (aa_vm_id a) = Some row"
        "vm_owner row = vm_owner cand" and l: "activate_locked cfg a now gen tok row db = (res, db')"
      and acc: "\<not> (\<exists>i \<in> set (filter (\<lambda>i. i \<noteq> []) (collect_some id [vm_owner cand, aa_owner a])).
          case vd_accounts db i of None \<Rightarrow> True | Some acc \<Rightarrow> ac_disabled_at acc \<noteq> None)"
      by (auto simp: activate_vm_reservation_def Let_def split: if_splits option.splits)
    have i: "vm_id row = aa_vm_id a" using find_vm_in [OF f(2)] by simp
    have enabled: "\<exists>acc. vd_accounts db o1 = Some acc \<and> ac_disabled_at acc = None"
      if "vm_owner row = Some o1 \<or> aa_owner a = Some o1" "o1 \<noteq> []" for o1
      using acc that f(3) by (auto simp: set_collect_some split: option.splits)
    from l r' have "vm_wallet row' = aa_wallet a" "vm_owner row' = vm_owner (activated_row a row)"
        "filter (\<lambda>r. vm_id r \<noteq> aa_vm_id a) (vd_rows db') = filter (\<lambda>r. vm_id r \<noteq> aa_vm_id a) (vd_rows db)"
      using others i by (auto simp: activate_locked_def Let_def vm_frame split: if_splits sum.splits)
    with r' f own enabled show ?thesis by auto
  next
    case False
    with assms have "db' = db"
      by (auto simp: activate_vm_reservation_def activate_locked_def Let_def split: if_splits option.splits sum.splits)
    with False show ?thesis by (auto split: sum.splits option.splits)
  qed
qed

definition demo_activate :: activate_args where
  "demo_activate = \<lparr>aa_vm_id = ''vm1'', aa_wallet = ''0xabc'', aa_settlement = \<lparr>si_retail = Some (Dec 5 0),
     si_admin_waived = False, si_tx = Some ''0x1''\<rparr>, aa_owner = Some ''acct1'', aa_start = False, aa_guard_ok = True\<rparr>"

theorem activation_respects_owner_witness:
  "activate_vm_reservation demo_store_cfg demo_activate 5 ''g'' ''t'' empty_vm_db empty_vm_db = (Inr None, empty_vm_db)"
proof -
  obtain res db' where a: "activate_vm_reservation demo_store_cfg demo_activate 5 ''g'' ''t'' empty_vm_db empty_vm_db = (res, db')"
    by fastforce
  then have "res = Inr None"
    by (simp add: activate_vm_reservation_def demo_activate_def find_vm_def empty_vm_db_def)
  with activation_respects_owner [OF a] a show ?thesis by simp
qed


end
