(* ===== verification/Intents.thy ===== *)
theory Intents
  imports Quotes Vm_Store
begin

text \<open>
  \<^verbatim>\<open>services/intents.py\<close>, first half: payment intents for BTC and XMR, from the deposit address to the
  settlement decision. Rates and the wallet provider are parameters; \<open>None\<close> is their exception.
\<close>

subsection \<open>Rows\<close>

datatype asset = BTC | XMR

text \<open>The stored order: absent, not a valid VM order any more, or a VM order.\<close>

datatype order_json = No_Order | Bad_Order | Vm_Order vm_create_request

record intent =
  in_id :: string
  in_asset :: asset
  in_amount_usd :: "decimal option"
  in_amount_crypto :: decimal
  in_rate :: decimal
  in_rate_valid_until :: "py_datetime option"
  in_address :: string
  in_bip32 :: "int option"
  in_xmr_subaddr :: "int option"
  in_expires_at :: py_datetime
  in_status :: crypto_intent_status
  in_client_order_id :: "string option"
  in_order :: order_json
  in_snapshot :: "price_breakdown option"
  in_owner :: "string option"
  in_resource_type :: string
  in_resource_id :: "string option"
  in_refund_address :: "string option"
  in_vm_id :: "string option"
  in_triggered_at :: "int option"
  in_paid_at :: "int option"
  in_tx_hash :: "string option"
  in_confirmations :: int
  in_received :: "decimal option"
  in_last_scanned_at :: "int option"
  in_anon_token :: "string option"

type_synonym intents = "intent list"

definition INTENT_TTL :: int where "INTENT_TTL = minutes 60"
definition RATE_VALID_TTL :: int where "RATE_VALID_TTL = minutes 15"
definition LATE_PAID_SLIPPAGE :: decimal where "LATE_PAID_SLIPPAGE = Dec 1 (-2)"
definition BTC_MIN_CONFIRMATIONS :: int where "BTC_MIN_CONFIRMATIONS = 1"
definition XMR_MIN_CONFIRMATIONS :: int where "XMR_MIN_CONFIRMATIONS = 10"
definition EXACT_AMOUNT_TOLERANCE :: decimal where "EXACT_AMOUNT_TOLERANCE = Dec 1 (-3)"
definition VM_PROVISIONING_RECOVERY_DELAY :: int where "VM_PROVISIONING_RECOVERY_DELAY = minutes 5"

subsection \<open>Creation\<close>

datatype intent_error =
  Bad_Asset | Intent_Exists intent | Rate_Failed | Amount_Failed | Address_Failed | Intent_Integrity
| Intent_Account_Disabled

record intent_args =
  na_asset :: string
  na_order :: order_json
  na_amount_usd :: decimal
  na_client_order_id :: "string option"
  na_owner :: "string option"
  na_expires_at :: "py_datetime option"
  na_resource_type :: string
  na_resource_id :: "string option"
  na_refund_address :: "string option"
  na_planned_vm_id :: "string option"
  na_snapshot :: "price_breakdown option"

text \<open>The wallet provider and the rate source.\<close>

record wallet =
  wl_derive_btc :: "int \<Rightarrow> string option"
  wl_xmr_subaddress :: "string \<Rightarrow> (string \<times> int) option"
  wl_usd_per :: "asset \<Rightarrow> decimal option"

definition asset_of :: "string \<Rightarrow> asset option" where
  "asset_of s = (if lower s = ''btc'' then Some BTC else if lower s = ''xmr'' then Some XMR else None)"

definition get_intent_by_client_order_id :: "intents \<Rightarrow> string \<Rightarrow> intent option" where
  "get_intent_by_client_order_id t k = find (\<lambda>i. in_client_order_id i = Some k) t"

definition max_bip32 :: "intents \<Rightarrow> int" where
  "max_bip32 t = (case collect_some in_bip32 (filter (\<lambda>i. in_asset i = BTC) t) of
     [] \<Rightarrow> 0 | i # is \<Rightarrow> fold max is i)"

text \<open>\<^verbatim>\<open>res.scalar() or 0\<close>: only a null or zero maximum becomes 0, which is the same number.\<close>

definition allocate_address ::
    "wallet \<Rightarrow> asset \<Rightarrow> string \<Rightarrow> intents \<Rightarrow> (string \<times> int option \<times> int option) option" where
  "allocate_address w a iid t =
     (case a of
        BTC \<Rightarrow> let idx = max_bip32 t + 1 in map_option (\<lambda>addr. (addr, Some idx, None)) (wl_derive_btc w idx)
      | XMR \<Rightarrow> map_option (\<lambda>(addr, i). (addr, None, Some i)) (wl_xmr_subaddress w (''hyr-intent-'' @ take 8 iid)))"

definition crypto_amount :: "decimal \<Rightarrow> decimal \<Rightarrow> decimal option" where
  "crypto_amount usd rate = (case dec_div usd rate of None \<Rightarrow> None | Some q \<Rightarrow> dec_quantize (- 12) q)"

definition intent_expiry :: "int \<Rightarrow> py_datetime option \<Rightarrow> int" where
  "intent_expiry now expires =
     (case expires of None \<Rightarrow> now + INTENT_TTL | Some e \<Rightarrow> min (now + INTENT_TTL) (utc e))"

definition intent_conflicts :: "intent \<Rightarrow> intents \<Rightarrow> bool" where
  "intent_conflicts row t \<longleftrightarrow> (\<exists>i \<in> set t. in_id i = in_id row \<or>
     (in_client_order_id row \<noteq> None \<and> in_client_order_id i = in_client_order_id row) \<or>
     (in_xmr_subaddr row \<noteq> None \<and> in_xmr_subaddr i = in_xmr_subaddr row))"

definition new_intent ::
    "intent_args \<Rightarrow> asset \<Rightarrow> decimal \<Rightarrow> decimal \<Rightarrow> string \<Rightarrow> int \<Rightarrow> string \<times> int option \<times> int option \<Rightarrow> intent" where
  "new_intent a coin rate amount iid now addr =
     (let expiry = intent_expiry now (na_expires_at a) in
      \<lparr>in_id = iid, in_asset = coin, in_amount_usd = Some (na_amount_usd a), in_amount_crypto = amount, in_rate = rate,
       in_rate_valid_until = Some (Aware (min (now + RATE_VALID_TTL) expiry) 0), in_address = fst addr,
       in_bip32 = fst (snd addr), in_xmr_subaddr = snd (snd addr), in_expires_at = Aware expiry 0,
       in_status = I_CREATED, in_client_order_id = na_client_order_id a, in_order = na_order a,
       in_snapshot = na_snapshot a, in_owner = na_owner a, in_resource_type = na_resource_type a,
       in_resource_id = na_resource_id a, in_refund_address = na_refund_address a, in_vm_id = na_planned_vm_id a,
       in_triggered_at = None, in_paid_at = None, in_tx_hash = None, in_confirmations = 0, in_received = None,
       in_last_scanned_at = None, in_anon_token = None\<rparr>)"

text \<open>Three transactions: \<open>t1\<close> at the idempotency check, \<open>t2\<close> at the index selection, \<open>t3\<close> at the commit.\<close>

definition create_intent_unfenced ::
    "wallet \<Rightarrow> intent_args \<Rightarrow> string \<Rightarrow> int \<Rightarrow> intents \<Rightarrow> intents \<Rightarrow> intents \<Rightarrow> (intent_error + intent) \<times> intents" where
  "create_intent_unfenced w a iid now t1 t2 t3 =
     (case asset_of (na_asset a) of
        None \<Rightarrow> (Inl Bad_Asset, t3)
      | Some coin \<Rightarrow>
        (case (if truthy (na_client_order_id a) then get_intent_by_client_order_id t1 (the (na_client_order_id a)) else None) of
           Some row \<Rightarrow> (Inl (Intent_Exists row), t3)
         | None \<Rightarrow>
           (case wl_usd_per w coin of
              None \<Rightarrow> (Inl Rate_Failed, t3)
            | Some rate \<Rightarrow>
              (case crypto_amount (na_amount_usd a) rate of
                 None \<Rightarrow> (Inl Amount_Failed, t3)
               | Some amount \<Rightarrow>
                 (case allocate_address w coin iid t2 of
                    None \<Rightarrow> (Inl Address_Failed, t3)
                  | Some addr \<Rightarrow>
                    let row = new_intent a coin rate amount iid now addr in
                    if \<not> intent_conflicts row t3 then (Inr row, t3 @ [row])
                    else (case (if truthy (na_client_order_id a)
                                then get_intent_by_client_order_id t3 (the (na_client_order_id a)) else None) of
                        Some won \<Rightarrow> (Inl (Intent_Exists won), t3)
                      | None \<Rightarrow> (Inl Intent_Integrity, t3)))))))"

text \<open>The account is locked for the whole creation; \<open>guarded\<close>: an enclosing call already holds the lock.\<close>

definition create_intent ::
    "wallet \<Rightarrow> (string \<rightharpoonup> account) \<Rightarrow> bool \<Rightarrow> intent_args \<Rightarrow> string \<Rightarrow> int \<Rightarrow> intents \<Rightarrow> intents \<Rightarrow> intents
     \<Rightarrow> (intent_error + intent) \<times> intents" where
  "create_intent w accounts guarded a iid now t1 t2 t3 =
     (if (case na_owner a of None \<Rightarrow> False
          | Some o1 \<Rightarrow> \<not> guarded \<and> (case accounts o1 of None \<Rightarrow> True | Some acc \<Rightarrow> ac_disabled_at acc \<noteq> None))
      then (Inl Intent_Account_Disabled, t3)
      else create_intent_unfenced w a iid now t1 t2 t3)"

subsection \<open>The settlement decision\<close>

record scan_result =
  sr_received :: decimal
  sr_confirmations :: int
  sr_tx_hash :: "string option"

text \<open>\<open>None\<close>: an arithmetic exception.\<close>

definition within_tolerance :: "decimal \<Rightarrow> decimal \<Rightarrow> decimal \<Rightarrow> bool option" where
  "within_tolerance actual target tolerance =
     (if dec_eq target (Dec 0 0) then Some (dec_eq actual (Dec 0 0))
      else map_option (\<lambda>q. dec_le q tolerance) (dec_div (dec_abs (dec_sub actual target)) target))"

definition maybe_requote :: "wallet \<Rightarrow> intent \<Rightarrow> int \<Rightarrow> decimal option" where
  "maybe_requote w row now =
     (case in_rate_valid_until row of
        None \<Rightarrow> None
      | Some v \<Rightarrow> if now \<le> utc v then None else wl_usd_per w (in_asset row))"

definition decide_status :: "intent \<Rightarrow> scan_result \<Rightarrow> int \<Rightarrow> decimal option \<Rightarrow> crypto_intent_status option" where
  "decide_status row scan min_confs current_rate =
     (let received = sr_received scan in
      if dec_eq received (Dec 0 0) then Some I_WAITING_PAYMENT
      else if sr_confirmations scan < min_confs then Some I_WAITING_PAYMENT
      else case (current_rate, in_amount_usd row) of
        (Some rate, Some usd) \<Rightarrow>
          (case crypto_amount usd rate of
             None \<Rightarrow> None
           | Some fresh \<Rightarrow>
             (case within_tolerance received fresh LATE_PAID_SLIPPAGE of
                None \<Rightarrow> None
              | Some ok \<Rightarrow> Some (if ok then I_SETTLED else I_REFUND_MANUAL)))
      | _ \<Rightarrow>
          Some (if dec_le (dec_mul (in_amount_crypto row) (dec_sub (Dec 1 0) EXACT_AMOUNT_TOLERANCE)) received
                then I_SETTLED else I_REFUND_MANUAL))"

text \<open>The statuses a poll never touches.\<close>

definition poll_terminal :: "crypto_intent_status \<Rightarrow> bool" where
  "poll_terminal s \<longleftrightarrow> s \<in> {I_PROVISIONED, I_PROVISIONING, I_REFUND_MANUAL, I_FAILED, I_EXPIRED}"

definition scanned_row :: "intent \<Rightarrow> scan_result \<Rightarrow> int \<Rightarrow> intent" where
  "scanned_row row scan now =
     row\<lparr>in_last_scanned_at := Some now, in_confirmations := sr_confirmations scan,
         in_received := Some (sr_received scan),
         in_tx_hash := (if truthy (sr_tx_hash scan) \<and> \<not> truthy (in_tx_hash row) then sr_tx_hash scan else in_tx_hash row)\<rparr>"

definition update_intent :: "string \<Rightarrow> (intent \<Rightarrow> intent) \<Rightarrow> intents \<Rightarrow> intents" where
  "update_intent iid f t = map (\<lambda>i. if in_id i = iid then f i else i) t"

definition find_intent :: "intents \<Rightarrow> string \<Rightarrow> intent option" where
  "find_intent t iid = find (\<lambda>i. in_id i = iid) t"

text \<open>The locked part of \<^verbatim>\<open>_apply_intent_scan\<close>. The result says whether provisioning is triggered next;
  \<open>None\<close>: an exception, nothing committed.\<close>

definition apply_intent_scan :: "wallet \<Rightarrow> string \<Rightarrow> scan_result \<Rightarrow> int \<Rightarrow> int \<Rightarrow> intents \<Rightarrow> (bool \<times> intents) option" where
  "apply_intent_scan w iid scan min_confs now t =
     (case find_intent t iid of
        None \<Rightarrow> Some (False, t)
      | Some row \<Rightarrow>
        if poll_terminal (in_status row) then Some (False, t)
        else
          let row1 = scanned_row row scan now in
          if utc (in_expires_at row1) < now \<and> dec_eq (sr_received scan) (Dec 0 0)
          then Some (False, update_intent iid (\<lambda>_. row1\<lparr>in_status := I_EXPIRED\<rparr>) t)
          else (case decide_status row1 scan min_confs (maybe_requote w row1 now) of
              None \<Rightarrow> None
            | Some st \<Rightarrow>
              let row2 = row1\<lparr>in_status := st,
                    in_paid_at := (if st = I_SETTLED \<and> in_paid_at row1 = None then Some now else in_paid_at row1)\<rparr>
              in Some (st = I_SETTLED, update_intent iid (\<lambda>_. row2) t)))"

definition min_confirmations :: "asset \<Rightarrow> int" where
  "min_confirmations a = (case a of BTC \<Rightarrow> BTC_MIN_CONFIRMATIONS | XMR \<Rightarrow> XMR_MIN_CONFIRMATIONS)"

text \<open>\<open>scan\<close>: what the chain scan returned, \<open>None\<close> if it raised; \<open>t0\<close>: the table at the first read.\<close>

definition poll_one_intent ::
    "wallet \<Rightarrow> string \<Rightarrow> scan_result option \<Rightarrow> int \<Rightarrow> intents \<Rightarrow> intents \<Rightarrow> (bool \<times> intents) option" where
  "poll_one_intent w iid scan now t0 t =
     (case find_intent t0 iid of
        None \<Rightarrow> Some (False, t)
      | Some row \<Rightarrow>
        if poll_terminal (in_status row) then Some (False, t)
        else case scan of
          None \<Rightarrow> Some (False, t)
        | Some s \<Rightarrow> apply_intent_scan w iid s (min_confirmations (in_asset row)) now t)"

text \<open>What one polling pass selects: ids to poll, domain handoffs to resume, VM handoffs to recover.\<close>

definition scan_selection :: "int \<Rightarrow> intents \<Rightarrow> string list \<times> string list \<times> string list" where
  "scan_selection now t =
     (map in_id (filter (\<lambda>i. in_status i \<in> {I_CREATED, I_WAITING_PAYMENT}) t),
      map in_id (filter (\<lambda>i. in_status i = I_PROVISIONING \<and> in_resource_type i = ''domain_order'') t),
      map in_id (filter (\<lambda>i. in_status i = I_PROVISIONING \<and> in_resource_type i = ''vm'' \<and>
        (case in_triggered_at i of None \<Rightarrow> False | Some ts \<Rightarrow> ts \<le> now - VM_PROVISIONING_RECOVERY_DELAY)) t))"

subsection \<open>Creation lemmas\<close>

text \<open>The constraints of the table: one row per id and per order key.\<close>

definition intents_ok :: "intents \<Rightarrow> bool" where
  "intents_ok t \<longleftrightarrow> unique_by in_id t \<and> distinct (collect_some in_client_order_id t)"

lemma create_unfenced_cases:
  assumes "create_intent_unfenced w a iid now t1 t2 t3 = (res, t')"
  shows "(case res of
      Inr row \<Rightarrow> t' = t3 @ [row] \<and> \<not> intent_conflicts row t3 \<and>
        (\<exists>coin rate amount addr. asset_of (na_asset a) = Some coin \<and> wl_usd_per w coin = Some rate \<and>
           crypto_amount (na_amount_usd a) rate = Some amount \<and> allocate_address w coin iid t2 = Some addr \<and>
           row = new_intent a coin rate amount iid now addr)
    | Inl (Intent_Exists i) \<Rightarrow> t' = t3 \<and> i \<in> set t1 \<union> set t3 \<and>
        na_client_order_id a \<noteq> None \<and> in_client_order_id i = na_client_order_id a
    | Inl _ \<Rightarrow> t' = t3)"
  using assms
  by (auto simp: create_intent_unfenced_def get_intent_by_client_order_id_def Let_def
      dest!: find_hit elim!: truthyE split: option.splits if_splits)

lemma insert_intents_ok:
  assumes "intents_ok t" and "\<not> intent_conflicts row t"
  shows "intents_ok (t @ [row])"
proof -
  have "distinct (collect_some in_client_order_id (t @ [row]))"
    using assms
    by (auto simp: intents_ok_def intent_conflicts_def collect_some_append set_collect_some split: option.splits)
  moreover have "unique_by in_id (t @ [row])"
    using assms by (auto simp: intents_ok_def intent_conflicts_def unique_by_append)
  ultimately show ?thesis by (simp add: intents_ok_def)
qed

lemma fold_max_ge: "m \<le> fold max xs m \<and> (\<forall>x \<in> set xs. x \<le> fold max xs m)" for m :: int
proof (induction xs arbitrary: m)
  case (Cons x xs)
  from Cons [of "max x m"] show ?case by (auto simp: max_def split: if_splits)
qed simp

lemma max_bip32_ge: "i \<in> set t \<Longrightarrow> in_asset i = BTC \<Longrightarrow> in_bip32 i = Some n \<Longrightarrow> n \<le> max_bip32 t"
proof -
  assume "i \<in> set t" "in_asset i = BTC" "in_bip32 i = Some n"
  then have "n \<in> set (collect_some in_bip32 (filter (\<lambda>i. in_asset i = BTC) t))"
    by (auto simp: set_collect_some)
  then show ?thesis
    using fold_max_ge by (cases "collect_some in_bip32 (filter (\<lambda>i. in_asset i = BTC) t)") (auto simp: max_bip32_def)
qed

subsection \<open>Decision lemmas\<close>

lemma decide_in_window:
  "decide_status row scan confs None = Some I_SETTLED \<longleftrightarrow>
     \<not> dec_eq (sr_received scan) (Dec 0 0) \<and> confs \<le> sr_confirmations scan \<and>
     dec_le (dec_mul (in_amount_crypto row) (dec_sub (Dec 1 0) EXACT_AMOUNT_TOLERANCE)) (sr_received scan)"
  by (auto simp: decide_status_def Let_def)

lemma tolerance_factor: "dec_sub (Dec 1 0) EXACT_AMOUNT_TOLERANCE = Dec 999 (-3)"
  by (simp add: dec_sub_def EXACT_AMOUNT_TOLERANCE_def dec_add_def dec_neg_def coeff_at_def pow10_def dec_fix_def
      ndigits_eval Let_def)

lemma decide_status_range:
  "decide_status row scan confs rate = Some st \<Longrightarrow> st \<in> {I_WAITING_PAYMENT, I_SETTLED, I_REFUND_MANUAL}"
  by (auto simp: decide_status_def Let_def split: option.splits if_splits)

subsection \<open>Scan lemmas\<close>

lemma update_intent_frame: "i \<in> set t \<Longrightarrow> in_id i \<noteq> iid \<Longrightarrow> i \<in> set (update_intent iid f t)"
  by (force simp: update_intent_def)

lemma update_intent_find:
  "find_intent t iid = Some row \<Longrightarrow> in_id row' = iid \<Longrightarrow> find_intent (update_intent iid (\<lambda>_. row') t) iid = Some row'"
  by (induction t) (auto simp: find_intent_def update_intent_def split: if_splits)

lemma find_intent_other:
  "(\<And>i. in_id i = iid \<Longrightarrow> in_id (f i) = iid) \<Longrightarrow> j \<noteq> iid \<Longrightarrow> find_intent (update_intent iid f t) j = find_intent t j"
  by (induction t) (auto simp: find_intent_def update_intent_def)

lemma find_intent_id: "find_intent t iid = Some row \<Longrightarrow> in_id row = iid \<and> row \<in> set t"
  by (auto simp: find_intent_def dest: find_hit)

lemma scanned_row_frame [simp]:
  "in_id (scanned_row row scan now) = in_id row" "in_status (scanned_row row scan now) = in_status row"
  "in_expires_at (scanned_row row scan now) = in_expires_at row" "in_paid_at (scanned_row row scan now) = in_paid_at row"
  "in_amount_crypto (scanned_row row scan now) = in_amount_crypto row"
  "in_amount_usd (scanned_row row scan now) = in_amount_usd row"
  "in_received (scanned_row row scan now) = Some (sr_received scan)"
  "in_triggered_at (scanned_row row scan now) = in_triggered_at row"
  "in_client_order_id (scanned_row row scan now) = in_client_order_id row"
  "in_owner (scanned_row row scan now) = in_owner row"
  "in_vm_id (scanned_row row scan now) = in_vm_id row"
  by (simp_all add: scanned_row_def)

lemma apply_intent_scan_cases:
  assumes "apply_intent_scan w iid scan confs now t = Some (go, t')"
  shows "(t' = t \<and> \<not> go \<and> (case find_intent t iid of None \<Rightarrow> True | Some row \<Rightarrow> poll_terminal (in_status row))) \<or>
    (\<exists>row row' st. find_intent t iid = Some row \<and> \<not> poll_terminal (in_status row) \<and>
       t' = update_intent iid (\<lambda>_. row') t \<and> in_id row' = iid \<and> in_status row' = st \<and> go = (st = I_SETTLED) \<and>
       in_received row' = Some (sr_received scan) \<and> in_triggered_at row' = in_triggered_at row \<and>
       in_client_order_id row' = in_client_order_id row \<and>
       (st = I_EXPIRED \<longrightarrow> dec_eq (sr_received scan) (Dec 0 0) \<and> utc (in_expires_at row) < now) \<and>
       (st \<noteq> I_EXPIRED \<longrightarrow> decide_status (scanned_row row scan now) scan confs (maybe_requote w (scanned_row row scan now) now) = Some st) \<and>
       (st = I_SETTLED \<longrightarrow> in_paid_at row' \<noteq> None))"
proof (cases "find_intent t iid")
  case None
  with assms show ?thesis by (simp add: apply_intent_scan_def)
next
  case (Some row)
  have i: "in_id row = iid" using find_intent_id [OF Some] by simp
  show ?thesis
  proof (cases "poll_terminal (in_status row)")
    case True
    with Some assms show ?thesis by (simp add: apply_intent_scan_def)
  next
    case nt: False
    let ?row1 = "scanned_row row scan now"
    show ?thesis
    proof (cases "utc (in_expires_at row) < now \<and> dec_eq (sr_received scan) (Dec 0 0)")
      case True
      with Some nt assms have "t' = update_intent iid (\<lambda>_. ?row1\<lparr>in_status := I_EXPIRED\<rparr>) t" "\<not> go"
        by (simp_all add: apply_intent_scan_def)
      with Some nt True i show ?thesis
        by (intro disjI2 exI [of _ row] exI [of _ "?row1\<lparr>in_status := I_EXPIRED\<rparr>"] exI [of _ I_EXPIRED]) simp
    next
      case False
      with Some nt assms obtain st where st: "decide_status ?row1 scan confs (maybe_requote w ?row1 now) = Some st"
        by (auto simp: apply_intent_scan_def Let_def split: option.splits)
      define row2 where "row2 = ?row1\<lparr>in_status := st,
          in_paid_at := (if st = I_SETTLED \<and> in_paid_at ?row1 = None then Some now else in_paid_at ?row1)\<rparr>"
      have "apply_intent_scan w iid scan confs now t = Some (st = I_SETTLED, update_intent iid (\<lambda>_. row2) t)"
        unfolding apply_intent_scan_def Let_def row2_def Some option.case if_not_P [OF nt] scanned_row_frame
          if_not_P [OF False] st by simp
      with assms have "t' = update_intent iid (\<lambda>_. row2) t" "go = (st = I_SETTLED)" by simp_all
      moreover have "st \<noteq> I_EXPIRED" using decide_status_range [OF st] by auto
      ultimately show ?thesis
        using Some nt i st
        by (intro disjI2 exI [of _ row] exI [of _ row2] exI [of _ st]) (simp add: row2_def)
    qed
  qed
qed

lemma update_intent_ok:
  "intents_ok t \<Longrightarrow> find_intent t iid = Some row \<Longrightarrow> in_id row' = iid \<Longrightarrow>
     in_client_order_id row' = in_client_order_id row \<Longrightarrow> intents_ok (update_intent iid (\<lambda>_. row') t)"
proof -
  assume ok: "intents_ok t" and f: "find_intent t iid = Some row" and i: "in_id row' = iid"
    and k: "in_client_order_id row' = in_client_order_id row"
  have row: "in_id row = iid" "row \<in> set t" using find_intent_id [OF f] by auto
  have same: "in_client_order_id (if in_id j = iid then row' else j) = in_client_order_id j" if "j \<in> set t" for j
    using ok row k that inj_onD [of in_id "set t" j row] by (auto simp: intents_ok_def unique_by_def distinct_map)
  have ids: "map in_id (update_intent iid (\<lambda>_. row') t) = map in_id t"
    using i by (auto simp: update_intent_def)
  have "collect_some in_client_order_id (map (\<lambda>j. if in_id j = iid then row' else j) xs) =
      collect_some in_client_order_id xs" if "set xs \<subseteq> set t" for xs
    using that same by (induction xs) (auto split: option.splits)
  then have "distinct (collect_some in_client_order_id (update_intent iid (\<lambda>_. row') t))"
    using ok by (simp add: update_intent_def intents_ok_def)
  moreover have "unique_by in_id (update_intent iid (\<lambda>_. row') t)"
    using ok ids by (simp add: intents_ok_def unique_by_def)
  ultimately show ?thesis by (simp add: intents_ok_def)
qed

subsection \<open>Properties\<close>

text \<open>C35: creating an intent is idempotent per client key and bounded in time: it adds exactly one unpaid row
  or none, keeps the constraints of the table, refuses an order key that is already taken by naming the row
  that has it, creates nothing for a disabled or missing owner, and the row it adds prices the order at the
  quoted rate, expires within an hour and never after the quote it was made from.\<close>

theorem intent_creation_sound:
  assumes "intents_ok t3" and "create_intent w accounts guarded a iid now t1 t2 t3 = (res, t')"
  shows "intents_ok t' \<and> (
    case res of
      Inl (Intent_Exists i) \<Rightarrow> t' = t3 \<and> i \<in> set t1 \<union> set t3 \<and> in_client_order_id i = na_client_order_id a
    | Inl e \<Rightarrow> t' = t3
    | Inr row \<Rightarrow> t' = t3 @ [row] \<and> in_status row = I_CREATED \<and> in_id row = iid \<and>
        (truthy (na_client_order_id a) \<longrightarrow>
           (\<forall>i \<in> set t1 \<union> set t3. in_client_order_id i \<noteq> na_client_order_id a)) \<and>
        (\<forall>o1. na_owner a = Some o1 \<longrightarrow> guarded \<or> (\<exists>acc. accounts o1 = Some acc \<and> ac_disabled_at acc = None)) \<and>
        (\<exists>rate. wl_usd_per w (in_asset row) = Some rate \<and> in_rate row = rate \<and>
           crypto_amount (na_amount_usd a) rate = Some (in_amount_crypto row)) \<and>
        utc (in_expires_at row) \<le> now + INTENT_TTL \<and>
        (\<forall>e. na_expires_at a = Some e \<longrightarrow> utc (in_expires_at row) \<le> utc e) \<and>
        (\<exists>v. in_rate_valid_until row = Some v \<and> utc v \<le> utc (in_expires_at row) \<and> utc v \<le> now + RATE_VALID_TTL))"
proof -
  have un: "create_intent_unfenced w a iid now t1 t2 t3 = (res, t')" if "\<nexists>e. (res, t') = (Inl e, t3)"
    using assms(2) that by (auto simp: create_intent_def split: if_splits)
  have own: "\<forall>o1. na_owner a = Some o1 \<longrightarrow> guarded \<or> (\<exists>acc. accounts o1 = Some acc \<and> ac_disabled_at acc = None)"
    if "res = Inr row" for row
    using assms(2) that by (auto simp: create_intent_def split: if_splits option.splits)
  have nokey: "\<forall>i \<in> set t1 \<union> set t3. in_client_order_id i \<noteq> na_client_order_id a"
    if u: "create_intent_unfenced w a iid now t1 t2 t3 = (Inr row, t')" and k: "truthy (na_client_order_id a)" for row
  proof -
    from k have "na_client_order_id a = Some (the (na_client_order_id a))" by (auto elim: truthyE)
    moreover have "get_intent_by_client_order_id t1 (the (na_client_order_id a)) = None" "\<not> intent_conflicts row t3"
      using u k by (auto simp: create_intent_unfenced_def Let_def split: option.splits if_splits)
    moreover have "in_client_order_id row = na_client_order_id a"
      using create_unfenced_cases [OF u] by (auto simp: new_intent_def Let_def)
    ultimately show ?thesis
      by (auto simp: get_intent_by_client_order_id_def intent_conflicts_def find_None_iff)
  qed
  have ok: "intents_ok t'"
  proof (cases "\<exists>e. (res, t') = (Inl e, t3)")
    case False
    from create_unfenced_cases [OF un [OF False]] assms(1) False show ?thesis
      by (auto intro: insert_intents_ok split: sum.splits intent_error.splits)
  qed (use assms(1) in auto)
  have "case res of
      Inl (Intent_Exists i) \<Rightarrow> t' = t3 \<and> i \<in> set t1 \<union> set t3 \<and> in_client_order_id i = na_client_order_id a
    | Inl e \<Rightarrow> t' = t3
    | Inr row \<Rightarrow> t' = t3 @ [row] \<and> in_status row = I_CREATED \<and> in_id row = iid \<and>
        (truthy (na_client_order_id a) \<longrightarrow>
           (\<forall>i \<in> set t1 \<union> set t3. in_client_order_id i \<noteq> na_client_order_id a)) \<and>
        (\<forall>o1. na_owner a = Some o1 \<longrightarrow> guarded \<or> (\<exists>acc. accounts o1 = Some acc \<and> ac_disabled_at acc = None)) \<and>
        (\<exists>rate. wl_usd_per w (in_asset row) = Some rate \<and> in_rate row = rate \<and>
           crypto_amount (na_amount_usd a) rate = Some (in_amount_crypto row)) \<and>
        utc (in_expires_at row) \<le> now + INTENT_TTL \<and>
        (\<forall>e. na_expires_at a = Some e \<longrightarrow> utc (in_expires_at row) \<le> utc e) \<and>
        (\<exists>v. in_rate_valid_until row = Some v \<and> utc v \<le> utc (in_expires_at row) \<and> utc v \<le> now + RATE_VALID_TTL)"
  proof (cases res)
    case (Inr row)
    with un have u: "create_intent_unfenced w a iid now t1 t2 t3 = (Inr row, t')" by auto
    from create_unfenced_cases [OF u] obtain coin rate amount addr where
      t': "t' = t3 @ [row]" "wl_usd_per w coin = Some rate" "crypto_amount (na_amount_usd a) rate = Some amount"
      "row = new_intent a coin rate amount iid now addr" by auto
    with Inr own [OF Inr] nokey [OF u] show ?thesis
      by (simp add: new_intent_def Let_def intent_expiry_def split: option.splits)
  next
    case (Inl e)
    then show ?thesis
      using assms(2) create_unfenced_cases [of w a iid now t1 t2 t3 res t']
      by (auto simp: create_intent_def split: intent_error.splits if_splits)
  qed
  with ok show ?thesis by blast
qed

text \<open>A Bitcoin deposit address belongs to one intent only when index selection and commit see the same
  table: then the new derivation index is larger than every index in use. Two creations that read the table
  before either commits are both accepted and share the index and the address.\<close>

theorem btc_index_serial_fresh_race_shared:
  assumes "create_intent_unfenced w a iid now t1 t t3 = (Inr row, t3')" and "in_asset row = BTC"
  shows "(t3 = t \<longrightarrow> (\<forall>i \<in> set t. in_asset i = BTC \<longrightarrow> (case in_bip32 i of None \<Rightarrow> True | Some n \<Rightarrow> in_bip32 row \<noteq> Some n)))
    \<and> (asset_of (na_asset b) = Some BTC \<longrightarrow> jid \<noteq> iid \<longrightarrow> jid \<notin> in_id ` set t3 \<longrightarrow>
        na_client_order_id b = None \<longrightarrow> crypto_amount (na_amount_usd b) (in_rate row) \<noteq> None \<longrightarrow>
        (\<exists>row2. create_intent_unfenced w b jid now2 t t t3' = (Inr row2, t3' @ [row2]) \<and>
           in_bip32 row2 = in_bip32 row \<and> in_address row2 = in_address row))"
proof -
  from create_unfenced_cases [OF assms(1)] obtain coin rate amount addr where
    r: "asset_of (na_asset a) = Some coin" "wl_usd_per w coin = Some rate" "allocate_address w coin iid t = Some addr"
      "row = new_intent a coin rate amount iid now addr" "t3' = t3 @ [row]" by auto
  from r(4) assms(2) have coin: "coin = BTC" by (simp add: new_intent_def Let_def)
  from r(3) coin obtain ad where ad: "wl_derive_btc w (max_bip32 t + 1) = Some ad" "addr = (ad, Some (max_bip32 t + 1), None)"
    by (auto simp: allocate_address_def Let_def)
  have idx: "in_bip32 row = Some (max_bip32 t + 1)" "in_address row = ad" "in_rate row = rate" "in_id row = iid"
    using r(4) ad(2) by (simp_all add: new_intent_def Let_def)
  have fresh: "in_bip32 row \<noteq> Some n" if "i \<in> set t" "in_asset i = BTC" "in_bip32 i = Some n" for i n
    using max_bip32_ge [OF that] idx by auto
  have "\<exists>row2. create_intent_unfenced w b jid now2 t t t3' = (Inr row2, t3' @ [row2]) \<and>
           in_bip32 row2 = in_bip32 row \<and> in_address row2 = in_address row"
    if b: "asset_of (na_asset b) = Some BTC" "jid \<noteq> iid" "jid \<notin> in_id ` set t3" "na_client_order_id b = None"
      and amt: "crypto_amount (na_amount_usd b) rate = Some amount2" for amount2
  proof -
    let ?row2 = "new_intent b BTC rate amount2 jid now2 addr"
    have al: "allocate_address w BTC jid t = Some addr" using ad by (simp add: allocate_address_def Let_def)
    have "\<not> intent_conflicts ?row2 t3'"
      using b r(5) idx ad(2) by (auto simp: intent_conflicts_def new_intent_def Let_def)
    then have "create_intent_unfenced w b jid now2 t t t3' = (Inr ?row2, t3' @ [?row2])"
      using b amt al r(2) coin by (simp add: create_intent_unfenced_def Let_def)
    then show ?thesis using idx ad(2) by (simp add: new_intent_def Let_def)
  qed
  with fresh idx show ?thesis by (auto split: option.splits)
qed


text \<open>C32: applying a scan is safe: no other intent changes, the keys of the table stay unique, an intent that is
  already provisioning, provisioned, refunded, failed or expired is never rewritten, an intent expires only
  when its window has closed and the fresh scan saw nothing, provisioning is triggered exactly when SETTLED is
  committed by this call, and a settled intent has its receipt time.\<close>

theorem scan_application_safe:
  assumes "intents_ok t" and "apply_intent_scan w iid scan confs now t = Some (go, t')"
  shows "intents_ok t' \<and> (\<forall>j. j \<noteq> iid \<longrightarrow> find_intent t' j = find_intent t j) \<and>
    (case find_intent t iid of
       None \<Rightarrow> t' = t \<and> \<not> go
     | Some row \<Rightarrow>
        (poll_terminal (in_status row) \<longrightarrow> t' = t \<and> \<not> go) \<and>
        (\<not> poll_terminal (in_status row) \<longrightarrow>
          (\<exists>row'. find_intent t' iid = Some row' \<and> in_received row' = Some (sr_received scan) \<and>
             go = (in_status row' = I_SETTLED) \<and> (go \<longrightarrow> in_paid_at row' \<noteq> None) \<and>
             in_status row' \<in> {I_WAITING_PAYMENT, I_SETTLED, I_REFUND_MANUAL, I_EXPIRED} \<and>
             (in_status row' = I_EXPIRED \<longrightarrow> dec_val (sr_received scan) = 0 \<and> utc (in_expires_at row) < now) \<and>
             (in_status row' \<in> {I_SETTLED, I_REFUND_MANUAL} \<longrightarrow>
                dec_val (sr_received scan) \<noteq> 0 \<and> confs \<le> sr_confirmations scan))))"
proof -
  have z: "dec_val (Dec 0 0) = 0" by (simp add: dec_val_def)
  from apply_intent_scan_cases [OF assms(2)] show ?thesis
  proof (elim disjE exE conjE)
    assume "t' = t" "\<not> go" "case find_intent t iid of None \<Rightarrow> True | Some row \<Rightarrow> poll_terminal (in_status row)"
    with assms(1) show ?thesis by (auto split: option.splits)
  next
    fix row row' st
    assume f: "find_intent t iid = Some row" and nt: "\<not> poll_terminal (in_status row)"
      and t': "t' = update_intent iid (\<lambda>_. row') t" and i: "in_id row' = iid" and s: "in_status row' = st"
      and go: "go = (st = I_SETTLED)" and rc: "in_received row' = Some (sr_received scan)"
      and k: "in_client_order_id row' = in_client_order_id row"
      and ex: "st = I_EXPIRED \<longrightarrow> dec_eq (sr_received scan) (Dec 0 0) \<and> utc (in_expires_at row) < now"
      and dc: "st \<noteq> I_EXPIRED \<longrightarrow> decide_status (scanned_row row scan now) scan confs
                 (maybe_requote w (scanned_row row scan now) now) = Some st"
      and pd: "st = I_SETTLED \<longrightarrow> in_paid_at row' \<noteq> None"
    have rng: "st \<in> {I_WAITING_PAYMENT, I_SETTLED, I_REFUND_MANUAL, I_EXPIRED}"
      using dc decide_status_range by (cases "st = I_EXPIRED") auto
    have paid: "dec_val (sr_received scan) \<noteq> 0 \<and> confs \<le> sr_confirmations scan" if "st \<in> {I_SETTLED, I_REFUND_MANUAL}"
      using dc that by (auto simp: decide_status_def Let_def dec_eq_val z split: if_splits)
    have "find_intent t' iid = Some row'" "\<forall>j. j \<noteq> iid \<longrightarrow> find_intent t' j = find_intent t j" "intents_ok t'"
      using t' update_intent_find [OF f i] find_intent_other [of iid "\<lambda>_. row'"] update_intent_ok [OF assms(1) f i k] i
      by auto
    with f nt s go rc ex rng paid pd show ?thesis by (auto simp: dec_eq_val z)
  qed
qed

text \<open>A settled intent is in no work list of a polling pass, whatever the time.\<close>

lemma settled_intent_unselected:
  assumes "intents_ok t" and "find_intent t iid = Some row" and "in_status row = I_SETTLED"
  shows "case scan_selection now t of (poll, resume, recover) \<Rightarrow> iid \<notin> set poll \<union> set resume \<union> set recover"
proof -
  have "i = row" if "i \<in> set t" "in_id i = iid" for i
    using assms(1) find_intent_id [OF assms(2)] that by (auto simp: intents_ok_def unique_by_def distinct_map inj_on_def)
  then show ?thesis using assms(3) by (auto simp: scan_selection_def)
qed

subsection \<open>Witnesses\<close>

text \<open>A wallet whose derivation, subaddress and rate functions are constants, and an order with a client key.\<close>

definition demo_wallet :: wallet where
  "demo_wallet = \<lparr>wl_derive_btc = (\<lambda>i. Some ''bc1q''), wl_xmr_subaddress = (\<lambda>l. Some (''8xmr'', 7)),
     wl_usd_per = (\<lambda>a. Some (Dec 50000 0))\<rparr>"

definition demo_intent_args :: intent_args where
  "demo_intent_args = \<lparr>na_asset = ''BTC'', na_order = No_Order, na_amount_usd = Dec 5 0,
     na_client_order_id = Some ''order-1'', na_owner = None, na_expires_at = Some (Aware 900 0),
     na_resource_type = ''vm'', na_resource_id = None, na_refund_address = None, na_planned_vm_id = None,
     na_snapshot = None\<rparr>"

lemma demo_asset: "asset_of ''BTC'' = Some BTC"
  by code_simp

lemma demo_amount: "crypto_amount (Dec 5 0) (Dec 50000 0) = Some (Dec 100000000 (-12))"
  by (simp add: crypto_amount_def dec_div_def dec_fix_def ndigits_eval strip_zeros_eval dec_quantize_def coeff_at_def
      pow10_def Let_def)

lemma demo_drift: "within_tolerance (Dec 110000000 (-12)) (Dec 100000000 (-12)) LATE_PAID_SLIPPAGE = Some False"
  by (simp add: within_tolerance_def dec_div_def dec_fix_def ndigits_eval strip_zeros_eval dec_eq_def dec_le_def
      dec_less_def dec_sub_def dec_abs_def dec_add_def dec_neg_def coeff_at_def pow10_def LATE_PAID_SLIPPAGE_def Let_def)

abbreviation demo_intent :: intent where
  "demo_intent \<equiv> new_intent demo_intent_args BTC (Dec 50000 0) (Dec 100000000 (-12)) ''i1'' 5 (''bc1q'', Some 1, None)"

lemma demo_create:
  "create_intent_unfenced demo_wallet demo_intent_args ''i1'' 5 [] [] [] = (Inr demo_intent, [demo_intent])"
  by (simp add: create_intent_unfenced_def demo_asset demo_amount demo_wallet_def demo_intent_args_def allocate_address_def
      max_bip32_def get_intent_by_client_order_id_def intent_conflicts_def Let_def)

theorem intent_creation_sound_witness:
  "utc (in_expires_at demo_intent) \<le> 900"
proof -
  have "create_intent demo_wallet (\<lambda>_. None) False demo_intent_args ''i1'' 5 [] [] [] = (Inr demo_intent, [demo_intent])"
    using demo_create by (simp add: create_intent_def demo_intent_args_def)
  moreover have "intents_ok []" by (simp add: intents_ok_def unique_by_def)
  ultimately show ?thesis using intent_creation_sound by (fastforce simp: demo_intent_args_def)
qed

theorem btc_index_serial_fresh_race_shared_witness:
  "\<exists>row2. create_intent_unfenced demo_wallet (demo_intent_args\<lparr>na_client_order_id := None\<rparr>) ''i2'' 6 [] [] [demo_intent]
     = (Inr row2, [demo_intent, row2]) \<and> in_address row2 = in_address demo_intent"
proof -
  have "in_asset demo_intent = BTC" "crypto_amount (Dec 5 0) (in_rate demo_intent) \<noteq> None"
    using demo_amount by (simp_all add: new_intent_def Let_def)
  with btc_index_serial_fresh_race_shared [OF demo_create, of "demo_intent_args\<lparr>na_client_order_id := None\<rparr>" "''i2''" 6]
  show ?thesis using demo_asset by (auto simp: demo_intent_args_def)
qed


theorem scan_application_safe_witness:
  "\<exists>t'. apply_intent_scan demo_wallet ''i1'' \<lparr>sr_received = Dec 0 0, sr_confirmations = 0, sr_tx_hash = None\<rparr> 1 901 [demo_intent]
      = Some (False, t') \<and> intents_ok t' \<and> find_intent t' ''i1'' \<noteq> None"
proof -
  have f: "find_intent [demo_intent] ''i1'' = Some demo_intent" "in_status demo_intent = I_CREATED"
    "utc (in_expires_at demo_intent) = 900"
    by (simp_all add: find_intent_def new_intent_def Let_def intent_expiry_def demo_intent_args_def INTENT_TTL_def minutes_def)
  have z: "dec_eq (Dec 0 0) (Dec 0 0)" by (simp add: dec_eq_val)
  obtain t' where a: "apply_intent_scan demo_wallet ''i1'' \<lparr>sr_received = Dec 0 0, sr_confirmations = 0, sr_tx_hash = None\<rparr>
      1 901 [demo_intent] = Some (False, t')"
    using f z by (simp add: apply_intent_scan_def poll_terminal_def Let_def)
  have "intents_ok [demo_intent]" by (simp add: intents_ok_def unique_by_def split: option.splits)
  from scan_application_safe [OF this a] f a show ?thesis by (auto simp: poll_terminal_def)
qed

text \<open>The document of \<^verbatim>\<open>_decide_status\<close> promises that an overpayment settles; after the quoted rate lapsed
  a ten percent overpayment is refunded instead.\<close>

lemma late_overpayment_refunded:
  "decide_status demo_intent \<lparr>sr_received = Dec 110000000 (-12), sr_confirmations = 6, sr_tx_hash = None\<rparr> 1
     (Some (Dec 50000 0)) = Some I_REFUND_MANUAL"
  by (simp add: decide_status_def Let_def dec_eq_def dec_less_def coeff_at_def pow10_def demo_amount demo_drift new_intent_def
      demo_intent_args_def)

end
