(* ===== verification/Domain_Orders.thy ===== *)
theory Domain_Orders
  imports Intents "HOL-Library.Char_ord" "HOL-Library.List_Lexorder" "HOL-Library.Product_Lexorder"
begin

text \<open>
  \<^verbatim>\<open>domains/service.py\<close>, the money side of domain orders: expiry of
  unpaid orders, the acceptance of a payment (\<^verbatim>\<open>_mark_paid\<close>), refund obligations and the replay of lost
  handoffs from the ledger. Every operation that runs under the order's row lock is one step on \<open>order_db\<close>.
\<close>

subsection \<open>Rows\<close>

datatype order_status =
  O_AWAITING_PAYMENT | O_PAID | O_QUEUED | O_CHECKING | O_SUBMITTING | O_PROVIDER_PENDING | O_ACTIVE
| O_FAILED | O_REFUND_DUE | O_REFUNDED | O_CANCELLED | O_EXPIRED

datatype domain_action = REGISTER | RENEW
datatype pay_method = M_USDC | M_BTC | M_XMR
datatype dquote_status = DQ_ACTIVE | DQ_RESERVED | DQ_CONSUMED | DQ_EXPIRED
datatype op_status = OP_QUEUED | OP_RUNNING | OP_WAITING_PROVIDER | OP_SUCCEEDED | OP_FAILED

record domain_order =
  do_id :: string
  do_quote :: string
  do_fqdn :: string
  do_action :: domain_action
  do_owner :: "string option"
  do_key :: string
  do_status :: order_status
  do_amount :: decimal
  do_domain_amount :: decimal
  do_vm_amount :: decimal
  do_method :: pay_method
  do_network :: "string option"
  do_asset :: "string option"
  do_payer :: "string option"
  do_tx :: "string option"
  do_mode :: string
  do_refund_address :: "string option"
  do_native_intent :: "string option"
  do_operation :: "string option"
  do_vm_quote :: "string option"
  do_vm :: "string option"
  do_keep_vm :: bool
  do_terms :: string
  do_error :: "string option"
  do_detail :: "string option"
  do_paid_at :: "int option"
  do_provider_id :: "int option"
  do_provider_status :: "string option"
  do_baseline :: "int option"             \<comment> \<open>\<^verbatim>\<open>_hyrule_renewal_baseline\<close> of \<^verbatim>\<open>provider_response\<close>\<close>

record domain_quote =
  dq_id :: string
  dq_fqdn :: string
  dq_action :: domain_action
  dq_owner :: "string option"
  dq_status :: dquote_status
  dq_total :: decimal
  dq_terms :: string
  dq_expires_at :: py_datetime
  dq_consumed_at :: "int option"

record operation =
  op_id :: string
  op_order :: "string option"
  op_fqdn :: string
  op_kind :: string
  op_state :: op_status
  op_error :: "string option"

datatype job_status = J_QUEUED | J_RUNNING | J_COMPLETED | J_FAILED

record domain_job =
  dj_id :: string
  dj_kind :: string
  dj_resource :: string
  dj_dedupe :: string
  dj_status :: job_status
  dj_attempts :: nat
  dj_available_at :: int
  dj_locked_at :: "int option"
  dj_locked_by :: "string option"

text \<open>The public checkout state of an x402 registration.\<close>

record registration =
  rg_id :: string
  rg_order :: "string option"
  rg_state :: string
  rg_settled_at :: "int option"

text \<open>The tables an order transaction touches.\<close>

record order_db =
  od_orders :: "domain_order list"
  od_quotes :: "domain_quote list"
  od_vm_quotes :: quote_table
  od_operations :: "operation list"
  od_jobs :: "domain_job list"
  od_ledger :: ledger
  od_accounts :: "string \<rightharpoonup> account"
  od_intents :: intents
  od_regs :: "registration list"

abbreviation order_at :: "order_db \<Rightarrow> string \<Rightarrow> domain_order option" where
  "order_at db i \<equiv> row_at do_id i (od_orders db)"

abbreviation put_order :: "domain_order \<Rightarrow> order_db \<Rightarrow> order_db" where
  "put_order o1 db \<equiv> db\<lparr>od_orders := put_row do_id o1 (od_orders db)\<rparr>"

abbreviation put_quote :: "domain_quote \<Rightarrow> order_db \<Rightarrow> order_db" where
  "put_quote q db \<equiv> db\<lparr>od_quotes := put_row dq_id q (od_quotes db)\<rparr>"

datatype order_exn =
  Problem int string                 \<comment> \<open>\<^verbatim>\<open>DomainProblem(status, code)\<close>\<close>
| No_Refund_Target | Order_Integrity

definition is_waived_billing :: "string \<Rightarrow> bool" where
  "is_waived_billing mode \<longleftrightarrow> mode \<in> {''admin_waived'', ''dev_bypass''}"

subsection \<open>Expiry of unpaid orders\<close>

definition expire_unpaid_order :: "int \<Rightarrow> domain_order \<Rightarrow> order_db \<Rightarrow> order_db" where
  "expire_unpaid_order now o1 db =
     (if do_status o1 \<noteq> O_AWAITING_PAYMENT then db
      else
        let db1 = put_order (o1\<lparr>do_status := O_EXPIRED, do_error := Some ''quote_expired''\<rparr>) db in
        if \<not> truthy (do_vm_quote o1) then db1
        else case od_vm_quotes db1 (the (do_vm_quote o1)) of
          None \<Rightarrow> db1
        | Some vq \<Rightarrow>
          if q_status vq = Q_CONSUMED \<and> q_vm_id vq = None
          then db1\<lparr>od_vm_quotes := (od_vm_quotes db1)(the (do_vm_quote o1) \<mapsto>
                 vq\<lparr>q_status := (if utc (q_expires_at vq) \<le> now then Q_EXPIRED else Q_CREATED)\<rparr>)\<rparr>
          else db1)"

definition quote_open_status :: "domain_quote \<Rightarrow> bool" where
  "quote_open_status q \<longleftrightarrow> dq_status q \<in> {DQ_ACTIVE, DQ_RESERVED}"

definition order_overdue :: "int \<Rightarrow> order_db \<Rightarrow> domain_order \<Rightarrow> bool" where
  "order_overdue now db o1 \<longleftrightarrow> do_status o1 = O_AWAITING_PAYMENT \<and>
     (case row_at dq_id (do_quote o1) (od_quotes db) of
        None \<Rightarrow> False | Some q \<Rightarrow> quote_open_status q \<and> utc (dq_expires_at q) < now)"

definition expire_quotes :: "int \<Rightarrow> order_db \<Rightarrow> nat \<times> order_db" where
  "expire_quotes now db =
     (let due = filter (order_overdue now db) (od_orders db);
          db1 = fold (expire_unpaid_order now) due db;
          hit = (\<lambda>q. quote_open_status q \<and> utc (dq_expires_at q) < now)
      in (length (filter hit (od_quotes db1)),
          db1\<lparr>od_quotes := map (\<lambda>q. if hit q then q\<lparr>dq_status := DQ_EXPIRED\<rparr> else q) (od_quotes db1)\<rparr>))"

text \<open>The quote of an order can no longer be paid.\<close>

definition quote_unpayable :: "int \<Rightarrow> domain_quote option \<Rightarrow> bool" where
  "quote_unpayable now q =
     (case q of None \<Rightarrow> True | Some r \<Rightarrow> \<not> quote_open_status r \<or> utc (dq_expires_at r) \<le> now)"

text \<open>A quote found past its expiry is marked so.\<close>

definition mark_quote_expired :: "int \<Rightarrow> domain_quote option \<Rightarrow> order_db \<Rightarrow> order_db" where
  "mark_quote_expired now q db =
     (case q of None \<Rightarrow> db
      | Some r \<Rightarrow> if utc (dq_expires_at r) \<le> now then put_quote (r\<lparr>dq_status := DQ_EXPIRED\<rparr>) db else db)"

definition assert_x402_payable :: "int \<Rightarrow> string \<Rightarrow> order_db \<Rightarrow> (order_exn + unit) \<times> order_db" where
  "assert_x402_payable now oid db =
     (case order_at db oid of
        None \<Rightarrow> (Inl (Problem 404 ''order_not_found''), db)
      | Some o1 \<Rightarrow>
        let q = row_at dq_id (do_quote o1) (od_quotes db) in
        if quote_unpayable now q
        then (Inl (Problem 409 ''quote_expired''), mark_quote_expired now q (expire_unpaid_order now o1 db))
        else (Inr (), db))"

definition account_enabled :: "(string \<rightharpoonup> account) \<Rightarrow> string \<Rightarrow> bool" where
  "account_enabled accounts a = (case accounts a of None \<Rightarrow> False | Some acc \<Rightarrow> ac_disabled_at acc = None)"

text \<open>\<open>snap\<close>: the database at the unlocked read.\<close>

definition x402_payment_guard ::
    "int \<Rightarrow> string \<Rightarrow> string \<Rightarrow> order_db \<Rightarrow> order_db \<Rightarrow> (order_exn + domain_order) \<times> order_db" where
  "x402_payment_guard now oid owner snap db =
     (case order_at snap oid of
        None \<Rightarrow> (Inl (Problem 404 ''order_not_found''), db)
      | Some s \<Rightarrow>
        if do_owner s \<noteq> Some owner then (Inl (Problem 404 ''order_not_found''), db)
        else case order_at db oid of
          None \<Rightarrow> (Inl (Problem 409 ''order_owner_changed''), db)
        | Some o1 \<Rightarrow>
          if do_owner o1 \<noteq> Some owner then (Inl (Problem 409 ''order_owner_changed''), db)
          else if \<not> account_enabled (od_accounts db) owner then (Inl (Problem 403 ''account_disabled''), db)
          else if do_status o1 \<noteq> O_AWAITING_PAYMENT then (Inl (Problem 409 ''order_not_payable''), db)
          else
            let q = row_at dq_id (do_quote o1) (od_quotes db) in
            if quote_unpayable now q
            then (Inl (Problem 409 ''quote_expired''), mark_quote_expired now q (expire_unpaid_order now o1 db))
            else (Inr o1, db))"

subsection \<open>Refund obligations\<close>

definition native_method :: "pay_method \<Rightarrow> bool" where
  "native_method m \<longleftrightarrow> m \<in> {M_BTC, M_XMR}"

definition method_asset :: "pay_method \<Rightarrow> string" where
  "method_asset m = (case m of M_USDC \<Rightarrow> ''USDC'' | M_BTC \<Rightarrow> ''BTC'' | M_XMR \<Rightarrow> ''XMR'')"

definition order_refund_fields :: "intents \<Rightarrow> domain_order \<Rightarrow> string \<Rightarrow> decimal option \<Rightarrow> owed_fields" where
  "order_refund_fields ints o1 reason amount =
     (let native = native_method (do_method o1);
          intent = (if native \<and> truthy (do_native_intent o1) then find_intent ints (the (do_native_intent o1)) else None)
      in \<lparr>w_path = ''/v1/domains/orders'',
          w_payer = (if native then Some (do_id o1) else do_payer o1),
          w_amount = Some (case amount of None \<Rightarrow> do_amount o1 | Some a \<Rightarrow> a),
          w_tx = do_tx o1, w_reason = reason,
          w_network = (if native then Some ''native'' else do_network o1),
          w_asset = (if native then Some (method_asset (do_method o1)) else do_asset o1),
          w_vm_id = None,
          w_extra = [(''order_id'', Some (do_id o1)), (''domain'', Some (do_fqdn o1)),
              (''refund_address'', do_refund_address o1)] @
            (case intent of None \<Rightarrow> []
             | Some i \<Rightarrow> [(''intent_id'', Some (in_id i)),
                 (''amount_received_crypto'', map_option dec_str (in_received i))])\<rparr>)"

text \<open>\<open>None\<close>: the exception for an obligation that cannot be recorded.\<close>

definition build_refund_event ::
    "bool \<Rightarrow> string \<Rightarrow> intents \<Rightarrow> domain_order \<Rightarrow> string \<Rightarrow> decimal option \<Rightarrow> payment_event option" where
  "build_refund_event wired uid ints o1 reason amount =
     build_owed_event wired uid (order_refund_fields ints o1 reason amount)"

text \<open>How a payment that cannot be accepted ends: the order is closed, and a charged one is owed back in the
  same transaction. \<open>None\<close>: the exception above, and nothing is committed.\<close>

definition refuse_paid_order ::
    "bool \<Rightarrow> string \<Rightarrow> string \<Rightarrow> string option \<Rightarrow> decimal option \<Rightarrow> domain_order \<Rightarrow> order_db
     \<Rightarrow> (domain_order \<times> order_db) option" where
  "refuse_paid_order wired uid code detail amount o1 db =
     (let waived = is_waived_billing (do_mode o1);
          o2 = o1\<lparr>do_status := (if waived then O_FAILED else O_REFUND_DUE), do_error := Some code,
                 do_detail := (if detail = None then do_detail o1 else detail)\<rparr>
      in if waived then Some (o2, put_order o2 db)
         else case build_refund_event wired uid (od_intents db) o2 code amount of
           None \<Rightarrow> None
         | Some e \<Rightarrow> Some (o2, (put_order o2 db)\<lparr>od_ledger := od_ledger db @ [e]\<rparr>))"

definition or_undo :: "order_db \<Rightarrow> (domain_order \<times> order_db) option \<Rightarrow> (order_exn + domain_order) \<times> order_db" where
  "or_undo db r = (case r of None \<Rightarrow> (Inl No_Refund_Target, db) | Some (o1, db') \<Rightarrow> (Inr o1, db'))"

subsection \<open>Acceptance of a payment\<close>

record pay_info =
  pi_payer :: string
  pi_tx :: "string option"
  pi_network :: "string option"
  pi_asset :: "string option"
  pi_mode :: string

text \<open>Generated ids and the clock of one call.\<close>

record order_env =
  oe_now :: int
  oe_event_id :: string
  oe_operation_id :: string
  oe_job_id :: string

definition attribute_payment :: "int \<Rightarrow> pay_info \<Rightarrow> domain_order \<Rightarrow> domain_order" where
  "attribute_payment now pay o1 =
     o1\<lparr>do_paid_at := Some now, do_payer := Some (take 128 (pi_payer pay)), do_tx := pi_tx pay,
        do_network := pi_network pay, do_asset := pi_asset pay, do_mode := pi_mode pay\<rparr>"

definition auth_view :: "(string \<rightharpoonup> account) \<Rightarrow> auth_db" where
  "auth_view accounts = \<lparr>db_sessions = [], db_keys = [], db_accounts = accounts\<rparr>"

text \<open>The waiver's actor is part of its payer, \<^verbatim>\<open>admin:<account>\<close>.\<close>

definition waiver_revoked :: "(string \<rightharpoonup> account) \<Rightarrow> pay_info \<Rightarrow> domain_order \<Rightarrow> bool" where
  "waiver_revoked accounts pay snap \<longleftrightarrow>
     pi_mode pay = ''admin_waived'' \<and> do_status snap = O_AWAITING_PAYMENT \<and>
     (\<not> startswith (pi_payer pay) ''admin:'' \<or> drop 6 (pi_payer pay) = [] \<or>
      (case validate_admin_dispatch (auth_view accounts) (drop 6 (pi_payer pay)) of Inl _ \<Rightarrow> True | Inr _ \<Rightarrow> False))"

definition job_conflicts :: "string \<Rightarrow> string \<Rightarrow> domain_job list \<Rightarrow> bool" where
  "job_conflicts jid dedupe jobs \<longleftrightarrow> (\<exists>j \<in> set jobs. dj_id j = jid \<or> dj_dedupe j = take 160 dedupe)"

definition add_job :: "string \<Rightarrow> string \<Rightarrow> string \<Rightarrow> string \<Rightarrow> int \<Rightarrow> domain_job list \<Rightarrow> domain_job list" where
  "add_job jid kind resource dedupe available jobs =
     jobs @ [\<lparr>dj_id = jid, dj_kind = kind, dj_resource = resource, dj_dedupe = take 160 dedupe,
       dj_status = J_QUEUED, dj_attempts = 0, dj_available_at = available, dj_locked_at = None, dj_locked_by = None\<rparr>]"

lemma add_job_unique:
  "\<not> job_conflicts jid dedupe jobs \<Longrightarrow> unique_by dj_id (add_job jid kind res dedupe t jobs) = unique_by dj_id jobs"
  by (auto simp: add_job_def job_conflicts_def unique_by_def)

definition action_value :: "domain_action \<Rightarrow> string" where
  "action_value a = (case a of REGISTER \<Rightarrow> ''register'' | RENEW \<Rightarrow> ''renew'')"

text \<open>The order is handed to the fulfilment outbox: operation and job in one commit.\<close>

definition queue_order :: "order_env \<Rightarrow> domain_order \<Rightarrow> order_db \<Rightarrow> (domain_order \<times> order_db) option" where
  "queue_order env o1 db =
     (let o2 = o1\<lparr>do_status := O_QUEUED, do_operation := Some (oe_operation_id env)\<rparr>;
          dedupe = ''order:'' @ do_id o1
      in if job_conflicts (oe_job_id env) dedupe (od_jobs db) \<or> row_at op_id (oe_operation_id env) (od_operations db) \<noteq> None
         then None
         else Some (o2, (put_order o2 db)
           \<lparr>od_operations := od_operations db @ [\<lparr>op_id = oe_operation_id env, op_order = Some (do_id o1),
              op_fqdn = do_fqdn o1, op_kind = action_value (do_action o1), op_state = OP_QUEUED, op_error = None\<rparr>],
            od_jobs := add_job (oe_job_id env) ''fulfill_order'' (do_id o1) dedupe (oe_now env) (od_jobs db)\<rparr>))"

text \<open>An order that was waiting for this payment; \<open>db0\<close> is the database when its lock was taken.\<close>

definition accept_payment ::
    "bool \<Rightarrow> order_env \<Rightarrow> pay_info \<Rightarrow> domain_order \<Rightarrow> order_db \<Rightarrow> (order_exn + domain_order) \<times> order_db" where
  "accept_payment wired env pay o0 db0 =
     (let now = oe_now env; o1 = attribute_payment now pay o0; uid = oe_event_id env in
      if (case do_owner o1 of None \<Rightarrow> False | Some a \<Rightarrow> \<not> account_enabled (od_accounts db0) a)
      then or_undo db0 (refuse_paid_order wired uid ''account_disabled''
             (Some ''The owning account was disabled before payment settled.'') None o1 db0)
      else
        let quote = row_at dq_id (do_quote o1) (od_quotes db0) in
        if quote_unpayable now quote
        then or_undo db0 (refuse_paid_order wired uid ''quote_already_consumed'' None None o1
               (mark_quote_expired now quote db0))
        else
          let q = the quote; db1 = put_quote (q\<lparr>dq_status := DQ_CONSUMED, dq_consumed_at := Some now\<rparr>) db0 in
          if truthy (do_vm_quote o1) \<and>
             (case od_vm_quotes db1 (the (do_vm_quote o1)) of None \<Rightarrow> True | Some vq \<Rightarrow> q_status vq \<noteq> Q_CONSUMED)
          then or_undo db0 (refuse_paid_order wired uid ''vm_quote_already_consumed'' None None o1 db1)
          else (case queue_order env o1 db1 of None \<Rightarrow> (Inl Order_Integrity, db0) | Some (o2, db2) \<Rightarrow> (Inr o2, db2)))"

text \<open>\<open>snap\<close>: the database at the unlocked read.\<close>

definition mark_paid ::
    "bool \<Rightarrow> order_env \<Rightarrow> string \<Rightarrow> pay_info \<Rightarrow> order_db \<Rightarrow> order_db \<Rightarrow> (order_exn + domain_order) \<times> order_db" where
  "mark_paid wired env oid pay snap db =
     (case order_at snap oid of
        None \<Rightarrow> (Inl (Problem 404 ''order_not_found''), db)
      | Some s \<Rightarrow>
        let revoked = waiver_revoked (od_accounts db) pay s in
        (case order_at db oid of
           None \<Rightarrow> (Inl (Problem 404 ''order_not_found''), db)
         | Some o0 \<Rightarrow>
           if do_owner o0 \<noteq> do_owner s then (Inl (Problem 409 ''order_owner_changed''), db)
           else if revoked \<and> do_status o0 = O_AWAITING_PAYMENT then
             let o1 = o0\<lparr>do_status := O_FAILED, do_mode := pi_mode pay, do_payer := Some (take 128 (pi_payer pay)),
                   do_tx := pi_tx pay, do_network := pi_network pay, do_asset := pi_asset pay,
                   do_error := Some ''admin_waiver_revoked'',
                   do_detail := Some ''Administrator waiver was revoked before acceptance; no payment was collected.''\<rparr>
             in (Inr o1, put_order o1 db)
           else if do_status o0 = O_EXPIRED then
             or_undo db (refuse_paid_order wired (oe_event_id env) ''payment_after_expiry'' None None
               (attribute_payment (oe_now env) pay o0) db)
           else if do_status o0 = O_AWAITING_PAYMENT then accept_payment wired env pay o0 db
           else (Inr o0, db)))"

definition native_payment :: "intent \<Rightarrow> pay_info" where
  "native_payment i = \<lparr>pi_payer = in_id i, pi_tx = in_tx_hash i, pi_network = Some ''native'',
     pi_asset = Some (case in_asset i of BTC \<Rightarrow> ''BTC'' | XMR \<Rightarrow> ''XMR''), pi_mode = ''charged''\<rparr>"

definition native_order_settled ::
    "bool \<Rightarrow> order_env \<Rightarrow> string \<Rightarrow> intent \<Rightarrow> order_db \<Rightarrow> order_db \<Rightarrow> (order_exn + domain_order) \<times> order_db" where
  "native_order_settled wired env oid i snap db = mark_paid wired env oid (native_payment i) snap db"

subsection \<open>Replay of lost handoffs\<close>

text \<open>A row of the ledger with the server's creation time. Rows are visited newest first, in pages that
  continue below the key of the last row seen.\<close>

type_synonym stamped = "int \<times> payment_event"

definition row_key :: "stamped \<Rightarrow> int \<times> string" where
  "row_key r = (fst r, ev_id (snd r))"

definition recoverable_event :: "payment_event \<Rightarrow> bool" where
  "recoverable_event e \<longleftrightarrow> ev_type e \<in> {''settled'', ''dev_bypass'', ''admin_bypass''} \<and>
     ev_path e \<in> {''/v1/domains/orders'', ''/v1/domains/registrations''}"

definition event_page :: "nat \<Rightarrow> (int \<times> string) option \<Rightarrow> stamped list \<Rightarrow> stamped list" where
  "event_page limit cursor rows =
     take limit (rev (sort_key row_key (filter (\<lambda>r. recoverable_event (snd r) \<and>
       (case cursor of None \<Rightarrow> True | Some c \<Rightarrow> row_key r < c)) rows)))"

definition event_order_id :: "payment_event \<Rightarrow> string" where
  "event_order_id e = (case ev_extra e of None \<Rightarrow> []
     | Some d \<Rightarrow> (case map_of d ''order_id'' of Some (Some i) \<Rightarrow> i | _ \<Rightarrow> []))"

definition event_payment :: "payment_event \<Rightarrow> pay_info" where
  "event_payment e = \<lparr>pi_payer = or_str (ev_payer e) ''unknown'', pi_tx = ev_tx e, pi_network = ev_network e,
     pi_asset = ev_asset e, pi_mode = (if ev_type e = ''admin_bypass'' then ''admin_waived''
       else if ev_type e = ''dev_bypass'' then ''dev_bypass'' else ''charged'')\<rparr>"

definition settle_registration :: "int \<Rightarrow> string \<Rightarrow> order_db \<Rightarrow> order_db" where
  "settle_registration now oid db =
     (case find (\<lambda>g. rg_order g = Some oid) (od_regs db) of
        None \<Rightarrow> db
      | Some g \<Rightarrow> db\<lparr>od_regs := map (\<lambda>h. if rg_id h = rg_id g \<and> rg_state h \<noteq> ''settled''
            then h\<lparr>rg_state := ''settled'', rg_settled_at := Some (case rg_settled_at h of None \<Rightarrow> now | Some t \<Rightarrow> t)\<rparr>
            else h) (od_regs db)\<rparr>)"

definition actionable :: "domain_order \<Rightarrow> bool" where
  "actionable o1 \<longleftrightarrow> do_status o1 \<in> {O_AWAITING_PAYMENT, O_EXPIRED}"

text \<open>One event; \<open>None\<close>: the exception ends the sweep. The state is the set of orders seen, the number
  recovered and the database. \<open>envs\<close> gives the ids and the clock of each call.\<close>

type_synonym recovery = "string set \<times> nat \<times> order_db"

definition recover_event ::
    "bool \<Rightarrow> (payment_event \<Rightarrow> order_env) \<Rightarrow> payment_event \<Rightarrow> recovery \<Rightarrow> recovery option" where
  "recover_event wired envs e st =
     (case st of (seen, n, db) \<Rightarrow>
       let oid = event_order_id e in
       if oid = [] \<or> oid \<in> seen then Some st
       else case order_at db oid of
         None \<Rightarrow> Some (insert oid seen, n, db)
       | Some o1 \<Rightarrow>
         if actionable o1 then
           (case mark_paid wired (envs e) oid (event_payment e) db db of
              (Inl _, _) \<Rightarrow> None
            | (Inr _, db1) \<Rightarrow> Some (insert oid seen, Suc n, settle_registration (oe_now (envs e)) oid db1))
         else Some (insert oid seen, n, settle_registration (oe_now (envs e)) oid db))"

fun recover_events ::
    "bool \<Rightarrow> (payment_event \<Rightarrow> order_env) \<Rightarrow> stamped list \<Rightarrow> recovery \<Rightarrow> recovery option" where
  "recover_events wired envs [] st = Some st"
| "recover_events wired envs (r # rs) st =
     (case recover_event wired envs (snd r) st of None \<Rightarrow> None | Some st' \<Rightarrow> recover_events wired envs rs st')"

definition below :: "(int \<times> string) option \<Rightarrow> stamped list \<Rightarrow> nat" where
  "below cursor rows = length (filter (\<lambda>r. recoverable_event (snd r) \<and>
     (case cursor of None \<Rightarrow> True | Some c \<Rightarrow> row_key r < c)) rows)"

lemma event_page_subset:
  "r \<in> set (event_page limit cursor rows) \<Longrightarrow> r \<in> set rows \<and> recoverable_event (snd r) \<and>
     (case cursor of None \<Rightarrow> True | Some c \<Rightarrow> row_key r < c)"
proof -
  assume "r \<in> set (event_page limit cursor rows)"
  then have "r \<in> set (filter (\<lambda>r. recoverable_event (snd r) \<and> (case cursor of None \<Rightarrow> True | Some c \<Rightarrow> row_key r < c)) rows)"
    unfolding event_page_def by (auto dest!: in_set_takeD)
  then show ?thesis by simp
qed

lemma event_page_below:
  assumes "event_page limit cursor rows \<noteq> []"
  shows "below (Some (row_key (last (event_page limit cursor rows)))) rows < below cursor rows"
proof -
  let ?p = "\<lambda>r. recoverable_event (snd r) \<and> (case cursor of None \<Rightarrow> True | Some c \<Rightarrow> row_key r < c)"
  let ?l = "last (event_page limit cursor rows)"
  have "?l \<in> set (event_page limit cursor rows)" using assms by simp
  from event_page_subset [OF this] have l: "?l \<in> set rows" "?p ?l" by simp_all
  have sub: "recoverable_event (snd r) \<and> row_key r < row_key ?l \<Longrightarrow> ?p r" for r
    using l(2) by (auto split: option.splits dest: less_trans)
  have "filter (\<lambda>r. recoverable_event (snd r) \<and> row_key r < row_key ?l) rows
      = filter (\<lambda>r. row_key r < row_key ?l) (filter ?p rows)"
    unfolding filter_filter by (rule filter_cong [OF refl]) (use sub in blast)
  moreover have "length (filter (\<lambda>r. row_key r < row_key ?l) (filter ?p rows)) < length (filter ?p rows)"
    using l by (intro length_filter_less [of ?l]) auto
  ultimately show ?thesis by (simp add: below_def)
qed

function recover_pages ::
    "bool \<Rightarrow> (payment_event \<Rightarrow> order_env) \<Rightarrow> nat \<Rightarrow> (int \<times> string) option \<Rightarrow> stamped list \<Rightarrow> recovery \<Rightarrow> recovery option" where
  "recover_pages wired envs limit cursor rows st =
     (let page = event_page limit cursor rows in
      if page = [] then Some st
      else case recover_events wired envs page st of
        None \<Rightarrow> None
      | Some st' \<Rightarrow>
        if length page < limit then Some st'
        else recover_pages wired envs limit (Some (row_key (last page))) rows st')"
  by auto
termination
  by (relation "measure (\<lambda>(wired, envs, limit, cursor, rows, st). below cursor rows)")
    (auto simp: event_page_below)

declare recover_pages.simps [simp del]

definition recover_x402_handoffs ::
    "bool \<Rightarrow> (payment_event \<Rightarrow> order_env) \<Rightarrow> nat \<Rightarrow> stamped list \<Rightarrow> order_db \<Rightarrow> (nat \<times> order_db) option" where
  "recover_x402_handoffs wired envs limit rows db =
     (if limit < 1 then Some (0, db)
      else map_option snd (recover_pages wired envs limit None rows ({}, 0, db)))"

subsection \<open>Refusal lemmas\<close>

lemma order_refund_event:
  assumes "build_refund_event wired uid ints o1 reason amount = Some e"
  shows "ev_type e = REFUND_OWED_EVENT \<and> event_order_id e = do_id o1 \<and>
     ev_amount e = Some (case amount of None \<Rightarrow> do_amount o1 | Some a \<Rightarrow> a)"
proof -
  from assms have "e = build_event uid (owed_event_fields (order_refund_fields ints o1 reason amount))"
    by (simp add: build_refund_event_def build_owed_event_Some)
  then show ?thesis
    by (simp add: order_refund_fields_def Let_def event_order_id_def build_event_def owed_event_fields_def blank_fields_def
        split: option.splits)
qed

text \<open>The refund obligations of one order.\<close>

definition owed_for :: "ledger \<Rightarrow> string \<Rightarrow> payment_event list" where
  "owed_for l oid = filter (\<lambda>e. ev_type e = REFUND_OWED_EVENT \<and> event_order_id e = oid) l"

lemma owed_for_append [simp]: "owed_for (l @ m) oid = owed_for l oid @ owed_for m oid"
  by (simp add: owed_for_def)

text \<open>What one closing transaction leaves behind: the row, and an obligation exactly for a charged order.\<close>

definition closed_as :: "domain_order \<Rightarrow> domain_order \<Rightarrow> decimal \<Rightarrow> order_db \<Rightarrow> order_db \<Rightarrow> bool" where
  "closed_as o1 o2 amount db db' \<longleftrightarrow>
     do_id o2 = do_id o1 \<and> do_owner o2 = do_owner o1 \<and> do_mode o2 = do_mode o1 \<and>
     do_status o2 = (if is_waived_billing (do_mode o1) then O_FAILED else O_REFUND_DUE) \<and>
     od_orders db' = put_row do_id o2 (od_orders db) \<and> od_jobs db' = od_jobs db \<and>
     (if is_waived_billing (do_mode o1) then od_ledger db' = od_ledger db
      else \<exists>e. od_ledger db' = od_ledger db @ [e] \<and> ev_type e = REFUND_OWED_EVENT \<and>
         event_order_id e = do_id o1 \<and> ev_amount e = Some amount)"

lemma refuse_paid_closed:
  assumes "refuse_paid_order wired uid code detail amount o1 db = Some (o2, db')"
  shows "closed_as o1 o2 (case amount of None \<Rightarrow> do_amount o1 | Some a \<Rightarrow> a) db db'"
proof (cases "is_waived_billing (do_mode o1)")
  case True
  with assms show ?thesis by (auto simp: refuse_paid_order_def Let_def closed_as_def)
next
  case False
  let ?o2 = "o1\<lparr>do_status := O_REFUND_DUE, do_error := Some code, do_detail := (if detail = None then do_detail o1 else detail)\<rparr>"
  from False assms obtain e where e: "build_refund_event wired uid (od_intents db) ?o2 code amount = Some e"
    and r: "o2 = ?o2" "db' = (put_order ?o2 db)\<lparr>od_ledger := od_ledger db @ [e]\<rparr>"
    by (auto simp: refuse_paid_order_def Let_def split: option.splits)
  from order_refund_event [OF e] False r show ?thesis by (auto simp: closed_as_def split: option.splits)
qed

lemma mark_quote_expired_frame [simp]:
  "od_orders (mark_quote_expired now q db) = od_orders db" "od_jobs (mark_quote_expired now q db) = od_jobs db"
  "od_ledger (mark_quote_expired now q db) = od_ledger db" "od_accounts (mark_quote_expired now q db) = od_accounts db"
  "od_intents (mark_quote_expired now q db) = od_intents db"
  by (auto simp: mark_quote_expired_def split: option.splits)

lemma attribute_payment_frame [simp]:
  "do_id (attribute_payment now pay o1) = do_id o1" "do_owner (attribute_payment now pay o1) = do_owner o1"
  "do_mode (attribute_payment now pay o1) = pi_mode pay" "do_amount (attribute_payment now pay o1) = do_amount o1"
  "do_quote (attribute_payment now pay o1) = do_quote o1" "do_vm_quote (attribute_payment now pay o1) = do_vm_quote o1"
  by (simp_all add: attribute_payment_def)

lemma or_undo_Inr: "or_undo db r = (Inr o1, db') \<longleftrightarrow> r = Some (o1, db')"
  by (auto simp: or_undo_def split: option.splits)

text \<open>What an accepted order leaves behind.\<close>

definition queued_as :: "domain_order \<Rightarrow> domain_order \<Rightarrow> order_db \<Rightarrow> order_db \<Rightarrow> bool" where
  "queued_as o1 o2 db db' \<longleftrightarrow>
     do_id o2 = do_id o1 \<and> do_owner o2 = do_owner o1 \<and> do_status o2 = O_QUEUED \<and>
     od_orders db' = put_row do_id o2 (od_orders db) \<and> od_ledger db' = od_ledger db \<and>
     (\<exists>j. od_jobs db' = od_jobs db @ [j] \<and> dj_kind j = ''fulfill_order'' \<and> dj_resource j = do_id o1 \<and> dj_status j = J_QUEUED) \<and>
     unique_by dj_id (od_jobs db') = unique_by dj_id (od_jobs db) \<and>
     (\<exists>q. row_at dq_id (do_quote o1) (od_quotes db) = Some q \<and> quote_open_status q)"

lemma queue_order_queued:
  assumes "queue_order env o1 db1 = Some (o2, db')" and "db1 = put_quote q' db"
    and "row_at dq_id (do_quote o1) (od_quotes db) = Some q" "quote_open_status q"
  shows "queued_as o1 o2 db db'"
  using assms add_job_unique [of "oe_job_id env" "''order:'' @ do_id o1" "od_jobs db"]
  by (auto simp: queue_order_def queued_as_def add_job_def Let_def split: if_splits)

lemma accept_payment_cases:
  assumes "accept_payment wired env pay o0 db = (Inr o2, db')"
  shows "closed_as (attribute_payment (oe_now env) pay o0) o2 (do_amount o0) db db' \<or>
     queued_as (attribute_payment (oe_now env) pay o0) o2 db db'"
proof -
  let ?now = "oe_now env" let ?o1 = "attribute_payment ?now pay o0"
  let ?quote = "row_at dq_id (do_quote o0) (od_quotes db)"
  have cl: "closed_as ?o1 o2 (do_amount o0) db0 db' \<Longrightarrow> od_orders db0 = od_orders db \<Longrightarrow> od_jobs db0 = od_jobs db \<Longrightarrow>
      od_ledger db0 = od_ledger db \<Longrightarrow> closed_as ?o1 o2 (do_amount o0) db db'" for db0
    by (auto simp: closed_as_def)
  consider (disabled) "case do_owner o0 of None \<Rightarrow> False | Some a \<Rightarrow> \<not> account_enabled (od_accounts db) a"
    | (bad) "\<not> (case do_owner o0 of None \<Rightarrow> False | Some a \<Rightarrow> \<not> account_enabled (od_accounts db) a)" "quote_unpayable ?now ?quote"
    | (good) q where "\<not> (case do_owner o0 of None \<Rightarrow> False | Some a \<Rightarrow> \<not> account_enabled (od_accounts db) a)"
        "\<not> quote_unpayable ?now ?quote" "?quote = Some q"
    by (cases ?quote) (auto simp: quote_unpayable_def)
  then show ?thesis
  proof cases
    case disabled
    with assms show ?thesis
      by (auto simp: accept_payment_def Let_def or_undo_Inr dest!: refuse_paid_closed)
  next
    case bad
    from assms bad(2) have "refuse_paid_order wired (oe_event_id env) ''quote_already_consumed'' None None ?o1
        (mark_quote_expired ?now ?quote db) = Some (o2, db')"
      unfolding accept_payment_def Let_def attribute_payment_frame if_not_P [OF bad(1)] by (simp add: or_undo_Inr)
    from refuse_paid_closed [OF this] show ?thesis by (simp add: cl)
  next
    case good
    let ?db1 = "put_quote (q\<lparr>dq_status := DQ_CONSUMED, dq_consumed_at := Some ?now\<rparr>) db"
    have q: "quote_open_status q" using good(2,3) by (simp add: quote_unpayable_def)
    from assms have "(if truthy (do_vm_quote o0) \<and>
        (case od_vm_quotes ?db1 (the (do_vm_quote o0)) of None \<Rightarrow> True | Some vq \<Rightarrow> q_status vq \<noteq> Q_CONSUMED)
      then or_undo db (refuse_paid_order wired (oe_event_id env) ''vm_quote_already_consumed'' None None ?o1 ?db1)
      else (case queue_order env ?o1 ?db1 of None \<Rightarrow> (Inl Order_Integrity, db) | Some (o2, db2) \<Rightarrow> (Inr o2, db2)))
      = (Inr o2, db')"
      unfolding accept_payment_def Let_def attribute_payment_frame if_not_P [OF good(1)] if_not_P [OF good(2)]
      unfolding good(3) option.sel .
    then consider "refuse_paid_order wired (oe_event_id env) ''vm_quote_already_consumed'' None None ?o1 ?db1 = Some (o2, db')"
      | "queue_order env ?o1 ?db1 = Some (o2, db')"
      by (auto simp: or_undo_Inr split: if_splits option.splits)
    then show ?thesis
    proof cases
      case 1
      from refuse_paid_closed [OF this] show ?thesis by (simp add: cl)
    next
      case 2
      from queue_order_queued [OF 2 refl] good(3) q show ?thesis by simp
    qed
  qed
qed

lemma accept_payment_error: "accept_payment wired env pay o0 db = (Inl x, db') \<Longrightarrow> db' = db"
  by (auto simp: accept_payment_def or_undo_def Let_def split: if_splits option.splits)

lemma mark_paid_error: "mark_paid wired env oid pay snap db = (Inl x, db') \<Longrightarrow> db' = db"
  by (auto simp: mark_paid_def or_undo_def Let_def split: if_splits option.splits dest: accept_payment_error)

lemma mark_paid_cases:
  assumes "mark_paid wired env oid pay snap db = (Inr o2, db')"
  obtains o0 where "order_at db oid = Some o0" "do_id o0 = oid" "\<not> actionable o0" "o2 = o0" "db' = db"
  | o0 where "order_at db oid = Some o0" "do_id o0 = oid" "actionable o0"
      "closed_as (attribute_payment (oe_now env) pay o0) o2 (do_amount o0) db db'"
  | o0 where "order_at db oid = Some o0" "do_id o0 = oid" "do_status o0 = O_AWAITING_PAYMENT"
      "queued_as (attribute_payment (oe_now env) pay o0) o2 db db'"
proof -
  from assms obtain s o0 where s: "order_at snap oid = Some s" and o0: "order_at db oid = Some o0"
    and ow: "do_owner o0 = do_owner s"
    by (auto simp: mark_paid_def Let_def split: option.splits if_splits)
  have i: "do_id o0 = oid" using row_at_Some [OF o0] by simp
  let ?rev = "waiver_revoked (od_accounts db) pay s \<and> do_status o0 = O_AWAITING_PAYMENT"
  have m: "(if ?rev then
             let o1 = o0\<lparr>do_status := O_FAILED, do_mode := pi_mode pay, do_payer := Some (take 128 (pi_payer pay)),
                   do_tx := pi_tx pay, do_network := pi_network pay, do_asset := pi_asset pay,
                   do_error := Some ''admin_waiver_revoked'',
                   do_detail := Some ''Administrator waiver was revoked before acceptance; no payment was collected.''\<rparr>
             in (Inr o1, put_order o1 db)
           else if do_status o0 = O_EXPIRED then
             or_undo db (refuse_paid_order wired (oe_event_id env) ''payment_after_expiry'' None None
               (attribute_payment (oe_now env) pay o0) db)
           else if do_status o0 = O_AWAITING_PAYMENT then accept_payment wired env pay o0 db
           else (Inr o0, db)) = (Inr o2, db')"
    using assms s o0 ow unfolding mark_paid_def Let_def by simp
  consider (revoked) "?rev" | (expired) "\<not> ?rev" "do_status o0 = O_EXPIRED"
    | (waiting) "\<not> ?rev" "do_status o0 = O_AWAITING_PAYMENT"
    | (other) "do_status o0 \<noteq> O_EXPIRED" "do_status o0 \<noteq> O_AWAITING_PAYMENT" by blast
  then show thesis
  proof cases
    case revoked
    then have w: "is_waived_billing (pi_mode pay)" by (simp add: waiver_revoked_def is_waived_billing_def)
    with m revoked have "closed_as (attribute_payment (oe_now env) pay o0) o2 (do_amount o0) db db'"
      by (auto simp: closed_as_def Let_def)
    with that(2) o0 i revoked show thesis by (simp add: actionable_def)
  next
    case expired
    with m have "refuse_paid_order wired (oe_event_id env) ''payment_after_expiry'' None None
        (attribute_payment (oe_now env) pay o0) db = Some (o2, db')" by (simp add: or_undo_Inr)
    from refuse_paid_closed [OF this] that(2) o0 i expired show thesis by (simp add: actionable_def)
  next
    case waiting
    with m have "accept_payment wired env pay o0 db = (Inr o2, db')" by simp
    from accept_payment_cases [OF this] that(2,3) o0 i waiting show thesis by (auto simp: actionable_def)
  next
    case other
    with m have "o2 = o0" "db' = db" by simp_all
    with that(1) o0 i other show thesis by (simp add: actionable_def)
  qed
qed

lemma put_order_lookup:
  "order_at db oid = Some o0 \<Longrightarrow> do_id o2 = oid \<Longrightarrow> od_orders db' = put_row do_id o2 (od_orders db) \<Longrightarrow>
   order_at db' j = (if j = oid then Some o2 else order_at db j)"
  by (simp add: row_at_put)

subsection \<open>Payment properties\<close>


subsection \<open>What an order owes, abstractly\<close>

text \<open>The contract of the order table, without quotes, jobs or the ledger: an order waits for money, lapses,
  is accepted, owes its price back, or is closed with nothing owed.\<close>

datatype money_state = Unpaid | Lapsed | Accepted | Owed | Closed

inductive money_step :: "money_state \<Rightarrow> money_state \<Rightarrow> bool" where
  lapse: "money_step Unpaid Lapsed"
| accept: "money_step Unpaid Accepted"
| owe: "m \<in> {Unpaid, Lapsed} \<Longrightarrow> money_step m Owed"
| close_waived: "m \<in> {Unpaid, Lapsed} \<Longrightarrow> money_step m Closed"

inductive_simps money_step_simps: "money_step m m'"

definition money_of :: "domain_order \<Rightarrow> money_state" where
  "money_of o1 = (case do_status o1 of
     O_AWAITING_PAYMENT \<Rightarrow> Unpaid | O_EXPIRED \<Rightarrow> Lapsed | O_REFUND_DUE \<Rightarrow> Owed | O_REFUNDED \<Rightarrow> Owed
   | O_FAILED \<Rightarrow> Closed | O_CANCELLED \<Rightarrow> Closed | _ \<Rightarrow> Accepted)"

text \<open>The operations of this theory, in any order and with any payment information; \<open>snap\<close> may be stale.\<close>

inductive order_step :: "bool \<Rightarrow> order_db \<Rightarrow> order_db \<Rightarrow> bool" for wired where
  pay: "mark_paid wired env oid pay snap db = (res, db') \<Longrightarrow> order_step wired db db'"
| sweep: "expire_quotes now db = (n, db') \<Longrightarrow> order_step wired db db'"
| check: "assert_x402_payable now oid db = (res, db') \<Longrightarrow> order_step wired db db'"
| guard: "x402_payment_guard now oid owner snap db = (res, db') \<Longrightarrow> order_step wired db db'"

text \<open>The ledger agrees with the table: one obligation for an order that owes, none for any other.\<close>

definition money_inv :: "order_db \<Rightarrow> bool" where
  "money_inv db \<longleftrightarrow> unique_by do_id (od_orders db) \<and>
     (\<forall>j o1. order_at db j = Some o1 \<longrightarrow> length (owed_for (od_ledger db) j) = (if money_of o1 = Owed then 1 else 0))"

definition lapse_at :: "domain_order option \<Rightarrow> domain_order option \<Rightarrow> bool" where
  "lapse_at x y \<longleftrightarrow> y = x \<or> (\<exists>o1. x = Some o1 \<and> do_status o1 = O_AWAITING_PAYMENT \<and>
     y = Some (o1\<lparr>do_status := O_EXPIRED, do_error := Some ''quote_expired''\<rparr>))"

lemma lapse_at_trans: "lapse_at x y \<Longrightarrow> lapse_at y z \<Longrightarrow> lapse_at x z"
  by (cases x) (auto simp: lapse_at_def)

definition lapsed_from :: "order_db \<Rightarrow> order_db \<Rightarrow> bool" where
  "lapsed_from db db' \<longleftrightarrow> od_ledger db' = od_ledger db \<and> od_jobs db' = od_jobs db \<and>
     (unique_by do_id (od_orders db') = unique_by do_id (od_orders db)) \<and>
     (\<forall>j. lapse_at (order_at db j) (order_at db' j))"

lemma lapsed_refl [simp]: "lapsed_from db db"
  by (simp add: lapsed_from_def lapse_at_def)

lemma lapsed_trans: "lapsed_from a b \<Longrightarrow> lapsed_from b c \<Longrightarrow> lapsed_from a c"
  by (auto simp: lapsed_from_def intro: lapse_at_trans)

lemma expire_unpaid_orders:
  "od_orders (expire_unpaid_order now o1 db) = (if do_status o1 = O_AWAITING_PAYMENT
     then put_row do_id (o1\<lparr>do_status := O_EXPIRED, do_error := Some ''quote_expired''\<rparr>) (od_orders db) else od_orders db)"
  "od_ledger (expire_unpaid_order now o1 db) = od_ledger db" "od_jobs (expire_unpaid_order now o1 db) = od_jobs db"
  by (auto simp: expire_unpaid_order_def Let_def split: option.splits)

lemma expire_other: "j \<noteq> do_id o1 \<Longrightarrow> order_at (expire_unpaid_order now o1 db) j = order_at db j"
  by (simp add: expire_unpaid_orders row_at_put)

lemma expire_lapses:
  assumes "order_at db oid = Some o1"
  shows "lapsed_from db (expire_unpaid_order now o1 db)"
  using assms row_at_Some [OF assms] by (auto simp: lapsed_from_def lapse_at_def expire_unpaid_orders row_at_put)

lemma expire_fold_lapses:
  assumes "distinct (map do_id os)" and "\<forall>o1 \<in> set os. order_at db (do_id o1) = Some o1"
  shows "lapsed_from db (fold (expire_unpaid_order now) os db)"
  using assms
proof (induction os arbitrary: db)
  case (Cons o1 os)
  let ?db1 = "expire_unpaid_order now o1 db"
  have "lapsed_from db ?db1" using Cons.prems by (auto intro: expire_lapses)
  moreover have "\<forall>o2 \<in> set os. order_at ?db1 (do_id o2) = Some o2"
    using Cons.prems by (auto simp: expire_other image_iff)
  with Cons have "lapsed_from ?db1 (fold (expire_unpaid_order now) os ?db1)" by simp
  ultimately show ?case by (simp add: lapsed_trans)
qed simp

lemma lapsed_quotes_irrelevant: "lapsed_from db (db'\<lparr>od_quotes := qs\<rparr>) = lapsed_from db db'"
  by (simp add: lapsed_from_def)

lemma lapsed_mark_quote: "lapsed_from db (mark_quote_expired now q db') = lapsed_from db db'"
  by (simp add: lapsed_from_def)

lemma expire_quotes_lapses:
  assumes "unique_by do_id (od_orders db)" and "expire_quotes now db = (n, db')"
  shows "lapsed_from db db'"
proof -
  let ?due = "filter (order_overdue now db) (od_orders db)"
  have "distinct (map do_id ?due)" using assms(1) by (simp add: unique_by_def distinct_map_filter)
  moreover have "\<forall>o1 \<in> set ?due. order_at db (do_id o1) = Some o1"
    using assms(1) by (auto intro: row_at_member)
  ultimately have "lapsed_from db (fold (expire_unpaid_order now) ?due db)" by (rule expire_fold_lapses)
  with assms(2) show ?thesis by (auto simp: expire_quotes_def Let_def lapsed_quotes_irrelevant)
qed

lemma check_lapses: "assert_x402_payable now oid db = (res, db') \<Longrightarrow> lapsed_from db db'"
  by (auto simp: assert_x402_payable_def Let_def lapsed_mark_quote intro: expire_lapses
      split: option.splits if_splits)

lemma guard_lapses: "x402_payment_guard now oid owner snap db = (res, db') \<Longrightarrow> lapsed_from db db'"
  by (auto simp: x402_payment_guard_def Let_def lapsed_mark_quote intro: expire_lapses
      split: option.splits if_splits)

lemma lapsed_refines:
  assumes "lapsed_from db db'" and "money_inv db"
  shows "money_inv db' \<and> (\<forall>j o1. order_at db j = Some o1 \<longrightarrow>
     (\<exists>o2. order_at db' j = Some o2 \<and> money_step\<^sup>*\<^sup>* (money_of o1) (money_of o2)))"
proof -
  have step: "\<exists>o2. order_at db' j = Some o2 \<and> money_step\<^sup>*\<^sup>* (money_of o1) (money_of o2)"
    if "order_at db j = Some o1" for j o1
  proof -
    from assms(1) have "lapse_at (order_at db j) (order_at db' j)" by (simp add: lapsed_from_def)
    with that consider "order_at db' j = Some o1"
      | "do_status o1 = O_AWAITING_PAYMENT" "order_at db' j = Some (o1\<lparr>do_status := O_EXPIRED, do_error := Some ''quote_expired''\<rparr>)"
      by (auto simp: lapse_at_def)
    then show ?thesis
    proof cases
      case 2
      then have "money_step (money_of o1) (money_of (o1\<lparr>do_status := O_EXPIRED, do_error := Some ''quote_expired''\<rparr>))"
        by (simp add: money_of_def money_step.lapse)
      with 2(2) show ?thesis by blast
    qed simp
  qed
  have "length (owed_for (od_ledger db') j) = (if money_of o2 = Owed then 1 else 0)"
    if o2: "order_at db' j = Some o2" for j o2
  proof -
    from assms(1) have l: "lapse_at (order_at db j) (order_at db' j)" "od_ledger db' = od_ledger db"
      by (simp_all add: lapsed_from_def)
    from l(1) o2 consider "order_at db j = Some o2"
      | o1 where "order_at db j = Some o1" "money_of o1 = Unpaid" "money_of o2 = Lapsed"
      by (cases "order_at db j") (auto simp: lapse_at_def money_of_def)
    then show ?thesis
    proof cases
      case 1
      with assms(2) l(2) show ?thesis unfolding money_inv_def by simp
    next
      case (2 o1)
      then have "length (owed_for (od_ledger db) j) = 0" using assms(2) unfolding money_inv_def by fastforce
      with 2 l(2) show ?thesis by simp
    qed
  qed
  with assms step show ?thesis by (simp add: money_inv_def lapsed_from_def)
qed

lemma pay_refines:
  assumes "mark_paid wired env oid pay snap db = (Inr o2, db')" and "money_inv db"
  shows "money_inv db' \<and> (\<forall>j o1. order_at db j = Some o1 \<longrightarrow>
     (\<exists>o2. order_at db' j = Some o2 \<and> money_step\<^sup>*\<^sup>* (money_of o1) (money_of o2)))"
proof -
  have build: ?thesis if o0: "order_at db oid = Some o0" and i: "do_id o2 = oid"
    and p: "od_orders db' = put_row do_id o2 (od_orders db)"
    and m: "money_step (money_of o0) (money_of o2)"
    and l: "\<And>j. j \<noteq> oid \<Longrightarrow> owed_for (od_ledger db') j = owed_for (od_ledger db) j"
    and n: "length (owed_for (od_ledger db') oid) = (if money_of o2 = Owed then 1 else 0)" for o0
  proof -
    note look = put_order_lookup [OF o0 i p]
    from look l n assms(2) p have "money_inv db'" by (auto simp: money_inv_def)
    moreover from look o0 m have "\<forall>j o1. order_at db j = Some o1 \<longrightarrow>
       (\<exists>o2. order_at db' j = Some o2 \<and> money_step\<^sup>*\<^sup>* (money_of o1) (money_of o2))" by auto
    ultimately show ?thesis by blast
  qed
  from assms(1) show ?thesis
  proof (cases rule: mark_paid_cases)
    case (1 o0)
    with assms(2) show ?thesis by simp
  next
    case (2 o0)
    have u: "money_of o0 \<in> {Unpaid, Lapsed}" using 2(3) by (auto simp: actionable_def money_of_def)
    then have z: "owed_for (od_ledger db) oid = []"
      using assms(2) 2(1) by (fastforce simp: money_inv_def)
    from 2(4) u have "money_step (money_of o0) (money_of o2)"
      by (auto simp: closed_as_def money_of_def [of o2] intro: money_step.intros)
    moreover from 2(2,4) z have "length (owed_for (od_ledger db') oid) = (if money_of o2 = Owed then 1 else 0)"
      by (auto simp: closed_as_def money_of_def owed_for_def split: if_splits)
    moreover from 2(2,4) have "j \<noteq> oid \<Longrightarrow> owed_for (od_ledger db') j = owed_for (od_ledger db) j" for j
      by (auto simp: closed_as_def owed_for_def split: if_splits)
    ultimately show ?thesis using 2 by (intro build [OF 2(1)]) (auto simp: closed_as_def)
  next
    case (3 o0)
    then have m: "money_of o0 = Unpaid" "money_of o2 = Accepted" by (simp_all add: money_of_def queued_as_def)
    moreover have "owed_for (od_ledger db) oid = []" using assms(2) 3(1) m by (fastforce simp: money_inv_def)
    ultimately show ?thesis using 3 by (intro build [OF 3(1)]) (auto simp: queued_as_def money_step.accept)
  qed
qed


subsection \<open>Paging\<close>

definition events_below :: "(int \<times> string) option \<Rightarrow> stamped list \<Rightarrow> stamped list" where
  "events_below cursor rows = rev (sort_key row_key (filter (\<lambda>r. recoverable_event (snd r) \<and>
       (case cursor of None \<Rightarrow> True | Some c \<Rightarrow> row_key r < c)) rows))"

lemma event_page_take: "event_page limit cursor rows = take limit (events_below cursor rows)"
  by (simp add: event_page_def events_below_def)

lemma events_below_descending:
  assumes "distinct (map row_key rows)"
  shows "sorted_wrt (\<lambda>x y. row_key y < row_key x) (events_below cursor rows)"
proof -
  let ?fs = "filter (\<lambda>r. recoverable_event (snd r) \<and> (case cursor of None \<Rightarrow> True | Some c \<Rightarrow> row_key r < c)) rows"
  have "distinct (map row_key (sort_key row_key ?fs))"
    using assms by (simp add: distinct_map inj_on_def)
  then have "sorted_wrt (<) (map row_key (sort_key row_key ?fs))"
    by (simp add: strict_sorted_iff)
  then show ?thesis by (simp add: events_below_def sorted_wrt_rev sorted_wrt_map)
qed

lemma events_below_next:
  assumes "distinct (map row_key rows)" and "event_page limit cursor rows \<noteq> []"
  shows "events_below (Some (row_key (last (event_page limit cursor rows)))) rows = drop limit (events_below cursor rows)"
proof -
  let ?E = "events_below cursor rows" let ?l = "last (take limit ?E)" let ?c = "row_key ?l"
  have l: "?l \<in> set (event_page limit cursor rows)" using assms(2) by (simp add: event_page_take)
  define c where "c = ?c"
  have sub: "(recoverable_event (snd r) \<and> row_key r < c) =
      ((recoverable_event (snd r) \<and> (case cursor of None \<Rightarrow> True | Some c \<Rightarrow> row_key r < c)) \<and> row_key r < c)" for r
    using event_page_subset [OF l] unfolding c_def event_page_take by (auto split: option.splits dest: less_trans)
  have "filter (\<lambda>r. row_key r < c) ?E = rev (sort_key row_key (filter (\<lambda>r. row_key r < c)
      (filter (\<lambda>r. recoverable_event (snd r) \<and> (case cursor of None \<Rightarrow> True | Some c \<Rightarrow> row_key r < c)) rows)))"
    unfolding events_below_def by (simp only: rev_filter [symmetric] filter_sort)
  then have "events_below (Some c) rows = filter (\<lambda>r. row_key r < c) ?E"
    unfolding filter_filter events_below_def [of "Some c"] option.case sub by simp
  moreover have "filter (\<lambda>r. row_key r < c) ?E = drop limit ?E"
  proof -
    have s: "sorted_wrt (\<lambda>x y. row_key y < row_key x) (take limit ?E @ drop limit ?E)"
      using events_below_descending [OF assms(1), of cursor] by simp
    have ne: "take limit ?E \<noteq> []" using assms(2) by (simp add: event_page_take)
    then have "take limit ?E = butlast (take limit ?E) @ [?l]" by simp
    then have "sorted_wrt (\<lambda>x y. row_key y < row_key x) (butlast (take limit ?E) @ [?l])"
      using s by (metis sorted_wrt_append)
    then have "\<forall>x \<in> set (butlast (take limit ?E)). ?c < row_key x" by (simp add: sorted_wrt_append)
    then have "\<forall>x \<in> set (butlast (take limit ?E) @ [?l]). \<not> row_key x < c" unfolding c_def by auto
    then have "\<forall>x \<in> set (take limit ?E). \<not> row_key x < c"
      using \<open>take limit ?E = _\<close> by metis
    moreover have "\<forall>x \<in> set (drop limit ?E). row_key x < c"
      using s [unfolded sorted_wrt_append] last_in_set [OF ne] unfolding c_def by blast
    ultimately have "filter (\<lambda>r. row_key r < c) (take limit ?E) @ filter (\<lambda>r. row_key r < c) (drop limit ?E) = drop limit ?E"
      by (simp add: filter_empty_conv)
    then show ?thesis by (metis append_take_drop_id filter_append)
  qed
  ultimately show ?thesis unfolding c_def event_page_take by simp
qed

lemma recover_events_append:
  "recover_events wired envs (rs @ ss) st =
     (case recover_events wired envs rs st of None \<Rightarrow> None | Some st' \<Rightarrow> recover_events wired envs ss st')"
  by (induction rs arbitrary: st) (auto split: option.splits)

lemma recover_pages_one_pass:
  assumes "distinct (map row_key rows)" and "1 \<le> limit"
  shows "recover_pages wired envs limit cursor rows st = recover_events wired envs (events_below cursor rows) st"
  using assms
proof (induction wired envs limit cursor rows st rule: recover_pages.induct)
  case (1 wired envs limit cursor rows st)
  let ?E = "events_below cursor rows" let ?page = "event_page limit cursor rows"
  have split: "recover_events wired envs ?E st = (case recover_events wired envs ?page st of None \<Rightarrow> None
      | Some st' \<Rightarrow> recover_events wired envs (drop limit ?E) st')"
    using recover_events_append [of wired envs "take limit ?E" "drop limit ?E" st] by (simp add: event_page_take)
  show ?case
  proof (cases "?page = []")
    case True
    with "1.prems"(2) have "?E = []" by (simp add: event_page_take)
    with True show ?thesis by (simp add: recover_pages.simps [of _ _ _ _ _ st])
  next
    case False
    show ?thesis
    proof (cases "recover_events wired envs ?page st")
      case None
      with False split show ?thesis by (simp add: recover_pages.simps [of _ _ _ _ _ st])
    next
      case (Some st')
      show ?thesis
      proof (cases "length ?page < limit")
        case True
        then have "drop limit ?E = []" by (simp add: event_page_take)
        with True False Some split show ?thesis by (simp add: recover_pages.simps [of _ _ _ _ _ st])
      next
        case l: False
        have "recover_pages wired envs limit (Some (row_key (last ?page))) rows st'
            = recover_events wired envs (events_below (Some (row_key (last ?page))) rows) st'"
          using "1.IH" [OF refl False Some l] "1.prems" by blast
        with events_below_next [OF "1.prems"(1) False] l False Some split show ?thesis
          by (simp add: recover_pages.simps [of _ _ _ _ _ st])
      qed
    qed
  qed
qed

subsection \<open>What a sweep achieves\<close>

text \<open>Marking one order paid, or settling its registration, never makes another order actionable again.\<close>

lemma settle_registration_orders [simp]: "od_orders (settle_registration now oid db) = od_orders db"
  by (auto simp: settle_registration_def split: option.splits)

definition undecided :: "order_db \<Rightarrow> string \<Rightarrow> bool" where
  "undecided db oid \<longleftrightarrow> (case order_at db oid of None \<Rightarrow> False | Some o1 \<Rightarrow> actionable o1)"

lemma mark_paid_decides:
  assumes "mark_paid wired env oid pay snap db = (Inr o2, db')"
  shows "\<not> undecided db' oid \<and> (\<forall>j. undecided db' j \<longrightarrow> undecided db j)"
proof -
  have b: "\<not> undecided db' oid \<and> (\<forall>j. undecided db' j \<longrightarrow> undecided db j)"
    if "order_at db oid = Some o0" "do_id o2 = oid" "od_orders db' = put_row do_id o2 (od_orders db)" "\<not> actionable o2" for o0
    using put_order_lookup [OF that(1-3)] that(4) by (auto simp: undecided_def split: if_splits)
  from assms show ?thesis
  proof (cases rule: mark_paid_cases)
    case (1 o0)
    then show ?thesis by (simp add: undecided_def)
  next
    case (2 o0)
    then show ?thesis by (intro b [OF 2(1)]) (auto simp: closed_as_def actionable_def split: if_splits)
  next
    case (3 o0)
    then show ?thesis by (intro b [OF 3(1)]) (auto simp: queued_as_def actionable_def)
  qed
qed

lemma recover_event_decides:
  assumes "recover_event wired envs e (seen, n, db) = Some (seen', n', db')"
    and "\<forall>j \<in> seen. \<not> undecided db j"
  shows "(\<forall>j \<in> seen'. \<not> undecided db' j) \<and> seen \<subseteq> seen' \<and> (event_order_id e \<noteq> [] \<longrightarrow> event_order_id e \<in> seen')"
proof -
  let ?oid = "event_order_id e"
  have settle: "undecided (settle_registration t i d) j = undecided d j" for t i d j by (simp add: undecided_def)
  show ?thesis
  proof (cases "?oid = [] \<or> ?oid \<in> seen")
    case True
    with assms show ?thesis by (auto simp: recover_event_def Let_def)
  next
    case f: False
    show ?thesis
    proof (cases "order_at db ?oid")
      case None
      with f assms show ?thesis by (auto simp: recover_event_def Let_def undecided_def)
    next
      case (Some o1)
      show ?thesis
      proof (cases "actionable o1")
        case False
        with f Some assms show ?thesis by (auto simp: recover_event_def Let_def settle) (simp add: undecided_def)
      next
        case True
        with f Some assms(1) obtain o2 db1 where m: "mark_paid wired (envs e) ?oid (event_payment e) db db = (Inr o2, db1)"
          and r: "seen' = insert ?oid seen" "db' = settle_registration (oe_now (envs e)) ?oid db1"
          by (auto simp: recover_event_def Let_def split: prod.splits sum.splits)
        from mark_paid_decides [OF m] assms(2) r show ?thesis by (auto simp: settle)
      qed
    qed
  qed
qed

lemma recover_events_decide:
  assumes "recover_events wired envs rs (seen, n, db) = Some (seen', n', db')" and "\<forall>j \<in> seen. \<not> undecided db j"
  shows "(\<forall>j \<in> seen'. \<not> undecided db' j) \<and> seen \<subseteq> seen' \<and>
     (\<forall>r \<in> set rs. event_order_id (snd r) \<noteq> [] \<longrightarrow> event_order_id (snd r) \<in> seen')"
  using assms
proof (induction rs arbitrary: seen n db)
  case (Cons r rs)
  from Cons.prems(1) obtain s1 n1 db1 where e: "recover_event wired envs (snd r) (seen, n, db) = Some (s1, n1, db1)"
    and rest: "recover_events wired envs rs (s1, n1, db1) = Some (seen', n', db')"
    by (auto split: option.splits)
  from recover_event_decides [OF e Cons.prems(2)] Cons.IH [OF rest] show ?case by auto
qed simp

text \<open>C30: the replay of lost handoffs ends whatever the page size, visits exactly what one pass over all
  settled events would, newest first, and when it returns no order that a settled event names is left
  waiting or expired: it was accepted, owed or closed.\<close>

theorem handoff_replay_complete:
  assumes "distinct (map row_key rows)" and "1 \<le> limit"
  shows "recover_x402_handoffs wired envs limit rows db =
      map_option snd (recover_events wired envs (events_below None rows) ({}, 0, db)) \<and>
    (\<forall>n db'. recover_x402_handoffs wired envs limit rows db = Some (n, db') \<longrightarrow>
      (\<forall>r \<in> set rows. recoverable_event (snd r) \<longrightarrow> event_order_id (snd r) \<noteq> [] \<longrightarrow>
         \<not> undecided db' (event_order_id (snd r))))"
proof -
  have eq: "recover_x402_handoffs wired envs limit rows db =
      map_option snd (recover_events wired envs (events_below None rows) ({}, 0, db))"
    using assms by (simp add: recover_x402_handoffs_def recover_pages_one_pass)
  have "\<not> undecided db' (event_order_id (snd r))"
    if "recover_x402_handoffs wired envs limit rows db = Some (n, db')" "r \<in> set rows" "recoverable_event (snd r)"
      "event_order_id (snd r) \<noteq> []" for n db' r
  proof -
    from that(1) eq obtain seen' where "recover_events wired envs (events_below None rows) ({}, 0, db) = Some (seen', n, db')"
      by auto
    from recover_events_decide [OF this] have "\<forall>j \<in> seen'. \<not> undecided db' j"
      "\<forall>r \<in> set (events_below None rows). event_order_id (snd r) \<noteq> [] \<longrightarrow> event_order_id (snd r) \<in> seen'" by auto
    moreover have "r \<in> set (events_below None rows)" using that by (simp add: events_below_def)
    ultimately show ?thesis using that(4) by blast
  qed
  with eq show ?thesis by blast
qed

subsection \<open>Witnesses\<close>

text \<open>One order for 12 dollars against an open quote.\<close>

definition demo_domain_order :: domain_order where
  "demo_domain_order = \<lparr>do_id = ''do_1'', do_quote = ''dq_1'', do_fqdn = ''example.com'', do_action = REGISTER,
     do_owner = None, do_key = ''k'', do_status = O_AWAITING_PAYMENT, do_amount = Dec 12 0,
     do_domain_amount = Dec 12 0, do_vm_amount = Dec 0 0, do_method = M_USDC, do_network = None, do_asset = None,
     do_payer = None, do_tx = None, do_mode = ''charged'', do_refund_address = None, do_native_intent = None,
     do_operation = None, do_vm_quote = None, do_vm = None, do_keep_vm = True, do_terms = ''t1'', do_error = None,
     do_detail = None, do_paid_at = None,
     do_provider_id = None, do_provider_status = None, do_baseline = None\<rparr>"

definition demo_domain_quote :: domain_quote where
  "demo_domain_quote = \<lparr>dq_id = ''dq_1'', dq_fqdn = ''example.com'', dq_action = REGISTER, dq_owner = None,
     dq_status = DQ_RESERVED, dq_total = Dec 12 0, dq_terms = ''t1'', dq_expires_at = Naive 100, dq_consumed_at = None\<rparr>"

definition demo_order_db :: order_db where
  "demo_order_db = \<lparr>od_orders = [demo_domain_order], od_quotes = [demo_domain_quote], od_vm_quotes = Map.empty,
     od_operations = [], od_jobs = [], od_ledger = [], od_accounts = Map.empty, od_intents = [], od_regs = []\<rparr>"

definition demo_order_env :: "int \<Rightarrow> order_env" where
  "demo_order_env now = \<lparr>oe_now = now, oe_event_id = ''e1'', oe_operation_id = ''dop_1'', oe_job_id = ''djob_1''\<rparr>"

definition demo_pay :: pay_info where
  "demo_pay = \<lparr>pi_payer = ''0xabc'', pi_tx = Some ''0xt'', pi_network = Some ''base'', pi_asset = Some ''USDC'',
     pi_mode = ''charged''\<rparr>"

lemmas demo_order_defs = demo_domain_order_def demo_domain_quote_def demo_order_db_def demo_order_env_def demo_pay_def

lemma demo_late:
  "\<exists>o2 db'. mark_paid True (demo_order_env 100) ''do_1'' demo_pay demo_order_db demo_order_db = (Inr o2, db') \<and>
     do_status o2 = O_REFUND_DUE"
  by (simp add: mark_paid_def accept_payment_def refuse_paid_order_def or_undo_def build_refund_event_def
      build_owed_event_def is_owed_def order_refund_fields_def native_method_def is_waived_billing_def attribute_payment_def
      quote_unpayable_def quote_open_status_def mark_quote_expired_def waiver_revoked_def dec_le_def dec_less_def
      coeff_at_def pow10_def demo_order_defs Let_def)



definition demo_settled :: payment_event where
  "demo_settled = build_event ''e0'' (blank_fields\<lparr>f_type := ''settled'', f_path := ''/v1/domains/orders'',
     f_payer := Some ''0xabc'', f_extra := Some [(''order_id'', Some ''do_1'')]\<rparr>)"

theorem handoff_replay_complete_witness:
  "\<exists>n db'. recover_x402_handoffs True (\<lambda>_. demo_order_env 50) 1 [(7, demo_settled)] demo_order_db = Some (n, db') \<and>
     \<not> undecided db' ''do_1''"
proof -
  have d: "distinct (map row_key [(7, demo_settled)])" "1 \<le> (1 :: nat)" by simp_all
  have e: "recoverable_event demo_settled" "event_order_id demo_settled = ''do_1''"
    by (simp_all add: demo_settled_def recoverable_event_def event_order_id_def build_event_def blank_fields_def)
  have m: "\<exists>o2 db'. mark_paid True (demo_order_env 50) ''do_1'' (event_payment demo_settled) demo_order_db demo_order_db
      = (Inr o2, db')"
    by (simp add: mark_paid_def accept_payment_def queue_order_def job_conflicts_def attribute_payment_def
      quote_unpayable_def quote_open_status_def waiver_revoked_def event_payment_def demo_settled_def demo_order_defs
      blank_fields_def Let_def)
  have a: "actionable demo_domain_order" "order_at demo_order_db ''do_1'' = Some demo_domain_order"
    by (simp_all add: demo_order_defs actionable_def)
  have "\<exists>n db'. recover_x402_handoffs True (\<lambda>_. demo_order_env 50) 1 [(7, demo_settled)] demo_order_db = Some (n, db')"
    unfolding handoff_replay_complete [OF d, THEN conjunct1] using m a e
    by (auto simp: events_below_def recover_event_def Let_def)
  with handoff_replay_complete [OF d, of True "\<lambda>_. demo_order_env 50" demo_order_db] e show ?thesis by auto
qed

end
