(* ===== verification/Domain_Names.thy ===== *)
theory Domain_Names
  imports Py_Decimal
begin

text \<open>
  Names and prices of managed domains: the normalisation of registrable names, nameservers and record names
  (\<^verbatim>\<open>domains/validation.py\<close>) and the price of a name in USD (\<^verbatim>\<open>domains/pricing.py\<close>). A refused value is \<open>Inl\<close>
  with the status and the code of the problem document.
\<close>

type_synonym problem = "int \<times> string"

subsection \<open>Labels\<close>

definition is_ascii :: "char \<Rightarrow> bool" where
  "is_ascii c \<longleftrightarrow> (of_char c :: nat) < 128"

definition alnum_char :: "char \<Rightarrow> bool" where
  "alnum_char c \<longleftrightarrow> (let n = (of_char c :: nat) in 97 \<le> n \<and> n \<le> 122 \<or> 48 \<le> n \<and> n \<le> 57)"

text \<open>\<open>edge [edge-]{0,61} edge\<close>, or one \<open>edge\<close> character.\<close>

definition label_over :: "(char \<Rightarrow> bool) \<Rightarrow> string \<Rightarrow> bool" where
  "label_over edge s \<longleftrightarrow> s \<noteq> [] \<and> length s \<le> 63 \<and> edge (hd s) \<and> edge (last s) \<and>
     list_all (\<lambda>c. edge c \<or> c = CHR ''-'') s"

definition is_label :: "string \<Rightarrow> bool" where
  "is_label = label_over alnum_char"

definition is_dns_label :: "string \<Rightarrow> bool" where
  "is_dns_label s \<longleftrightarrow> s = ''*'' \<or> label_over (\<lambda>c. alnum_char c \<or> c = CHR ''_'') s"

abbreviation dot :: char where
  "dot \<equiv> CHR ''.''"

definition canon :: "string \<Rightarrow> string" where
  "canon v = rstrip_char dot (lower (strip v))"

subsection \<open>Registrable names\<close>

definition normalize_registrable_domain :: "string \<Rightarrow> problem + string \<times> string \<times> string" where
  "normalize_registrable_domain value =
     (if \<not> list_all is_ascii value then Inl (422, ''idn_not_supported'')
      else
        let fqdn = canon value in
        if 253 < length fqdn \<or> length (filter (\<lambda>c. c = dot) fqdn) \<noteq> 1 then Inl (422, ''invalid_domain'')
        else case split_once dot fqdn of
          (label, None) \<Rightarrow> Inl (422, ''invalid_domain'')
        | (label, Some tld) \<Rightarrow>
          if \<not> is_label label \<or> \<not> is_label tld then Inl (422, ''invalid_domain'')
          else if startswith label ''xn--'' \<or> startswith tld ''xn--'' then Inl (422, ''idn_not_supported'')
          else Inr (label, tld, fqdn))"

subsection \<open>Host names\<close>

definition is_fqdn :: "string \<Rightarrow> bool" where
  "is_fqdn s \<longleftrightarrow> length s \<le> 253 \<and> 2 \<le> length (split_all dot [] s) \<and> list_all is_label (split_all dot [] s)"

definition normalize_fqdn :: "string \<Rightarrow> problem + string" where
  "normalize_fqdn value =
     (if \<not> list_all is_ascii value then Inl (422, ''invalid_nameserver'')
      else let fqdn = canon value in
        if \<not> is_fqdn fqdn then Inl (422, ''invalid_nameserver'') else Inr fqdn)"

fun normalize_all :: "string list \<Rightarrow> problem + string list" where
  "normalize_all [] = Inr []"
| "normalize_all (v # vs) =
     (case normalize_fqdn v of
        Inl e \<Rightarrow> Inl e
      | Inr n \<Rightarrow> (case normalize_all vs of Inl e \<Rightarrow> Inl e | Inr ns \<Rightarrow> Inr (n # ns)))"

definition validate_nameservers :: "string list \<Rightarrow> problem + string list" where
  "validate_nameservers values =
     (case normalize_all values of
        Inl e \<Rightarrow> Inl e
      | Inr normalized \<Rightarrow> if \<not> distinct normalized then Inl (422, ''duplicate_nameserver'') else Inr normalized)"

subsection \<open>Record names\<close>

definition endswith :: "string \<Rightarrow> string \<Rightarrow> bool" where
  "endswith s suffix \<longleftrightarrow> startswith (rev s) (rev suffix)"

definition apex_if_empty :: "string \<Rightarrow> string" where
  "apex_if_empty s = (if s = [] then ''@'' else s)"

definition check_record_name :: "string \<Rightarrow> problem + string" where
  "check_record_name name =
     (if name = ''@'' then Inr name
      else
        let labels = split_all dot [] name in
        if \<exists>l \<in> set labels. \<not> is_dns_label l then Inl (422, ''invalid_dns_name'')
        else if \<exists>l \<in> set (tl labels). l = ''*'' then Inl (422, ''invalid_dns_name'')
        else Inr name)"

definition normalize_record_name :: "string \<Rightarrow> string \<Rightarrow> problem + string" where
  "normalize_record_name name zone =
     (let n = apex_if_empty (canon name) in
      if n = zone then Inr ''@''
      else let suffix = dot # zone in
        check_record_name
          (if endswith n suffix then apex_if_empty (take (length n - length suffix) n) else n))"

subsection \<open>Prices\<close>

text \<open>\<^verbatim>\<open>d.quantize(Decimal("0.01"), rounding=ROUND_CEILING)\<close>.\<close>

definition ceil_cent :: "decimal \<Rightarrow> decimal option" where
  "ceil_cent d =
     (let c = (if - 2 \<le> expo d then coeff_at (- 2) d else - (- coeff d div 10 ^ nat (- 2 - expo d)))
      in if ndigits (nat \<bar>c\<bar>) \<le> context_prec then Some (Dec c (- 2)) else None)"

definition dec_max :: "decimal \<Rightarrow> decimal \<Rightarrow> decimal" where
  "dec_max a b = (if dec_less a b then b else a)"

record domain_markup =
  mk_percent :: decimal
  mk_min_usd :: decimal

text \<open>Provider cost, fee, tax and total; \<open>None\<close>: an amount too large for the decimal context raises.\<close>

definition price_domain :: "decimal \<Rightarrow> decimal \<Rightarrow> domain_markup \<Rightarrow> (decimal \<times> decimal \<times> decimal \<times> decimal) option" where
  "price_domain provider_cost fx_rate cfg =
     (case ceil_cent (dec_mul provider_cost fx_rate) of
        None \<Rightarrow> None
      | Some provider_usd \<Rightarrow>
        (case ceil_cent (dec_max (dec_mul provider_usd (mk_percent cfg)) (mk_min_usd cfg)) of
           None \<Rightarrow> None
         | Some fee \<Rightarrow>
           (case ceil_cent (dec_add (dec_add provider_usd fee) (Dec 0 (- 2))) of
              None \<Rightarrow> None
            | Some payable \<Rightarrow> Some (provider_usd, fee, Dec 0 (- 2), payable))))"

subsection \<open>Canonical names\<close>

lemma alnum_char_facts:
  assumes "alnum_char c" shows "lower_char c = c" "\<not> is_space c" "c \<noteq> dot" "is_ascii c" "c \<noteq> CHR ''*''" "c \<noteq> CHR ''@''"
  using assms by (auto simp: alnum_char_def lower_char_def is_space_def is_ascii_def Let_def)

lemma dash_char_facts:
  "lower_char (CHR ''-'') = CHR ''-''" "\<not> is_space (CHR ''-'')" "is_ascii (CHR ''-'')" "\<not> alnum_char (CHR ''-'')"
  "lower_char dot = dot" "\<not> is_space dot" "is_ascii dot" "\<not> alnum_char dot"
  by (simp_all add: lower_char_def is_space_def is_ascii_def alnum_char_def)

text \<open>A string of lower-case, visible characters that does not end in a dot is its own canonical form.\<close>

lemma canon_id:
  assumes "\<forall>c \<in> set s. lower_char c = c \<and> \<not> is_space c" and "s = [] \<or> last s \<noteq> dot"
  shows "canon s = s"
proof -
  have l: "lstrip u = u" if "\<forall>c \<in> set u. \<not> is_space c" for u
    using that by (cases u) (auto simp: lstrip_def)
  have "strip s = s" using assms(1) by (simp add: strip_def l)
  moreover have "lower s = s" using assms(1) by (simp add: lower_def map_idI)
  moreover have "rstrip_char dot s = s"
    using assms(2) by (cases s rule: rev_cases) (auto simp: rstrip_char_def)
  ultimately show ?thesis by (simp add: canon_def)
qed

lemma label_chars: "is_label l \<Longrightarrow> c \<in> set l \<Longrightarrow> lower_char c = c \<and> \<not> is_space c \<and> c \<noteq> dot \<and> is_ascii c"
  by (auto simp: is_label_def label_over_def list_all_iff alnum_char_facts dash_char_facts)

lemma label_nonempty: "is_label l \<Longrightarrow> l \<noteq> []" and label_last: "is_label l \<Longrightarrow> last l \<noteq> dot"
  using label_chars [OF _ last_in_set] by (auto simp: is_label_def label_over_def)

lemma count_none: "\<forall>c \<in> set l. c \<noteq> dot \<Longrightarrow> filter (\<lambda>c. c = dot) l = []"
  by (simp add: filter_empty_conv)

lemma two_labels:
  assumes "is_label l" "is_label t"
  shows "canon (l @ dot # t) = l @ dot # t" "split_once dot (l @ dot # t) = (l, Some t)"
    "length (filter (\<lambda>c. c = dot) (l @ dot # t)) = 1" "list_all is_ascii (l @ dot # t)"
proof -
  have n: "\<forall>c \<in> set l. c \<noteq> dot" "\<forall>c \<in> set t. c \<noteq> dot" using assms label_chars by blast+
  show "canon (l @ dot # t) = l @ dot # t"
    using assms by (intro canon_id) (auto simp: label_chars dash_char_facts label_nonempty label_last)
  show "split_once dot (l @ dot # t) = (l, Some t)"
    using n(1) by (simp add: split_once_def takeWhile_append2 dropWhile_append2 takeWhile_eq_all_conv [THEN iffD2])
  show "length (filter (\<lambda>c. c = dot) (l @ dot # t)) = 1" using n by (simp add: count_none)
  show "list_all is_ascii (l @ dot # t)" using assms label_chars by (auto simp: list_all_iff dash_char_facts)
qed

lemma normalize_registrable_iff:
  "normalize_registrable_domain v = Inr (l, t, f) \<longleftrightarrow>
     list_all is_ascii v \<and> f = canon v \<and> f = l @ dot # t \<and> is_label l \<and> is_label t \<and>
     \<not> startswith l ''xn--'' \<and> \<not> startswith t ''xn--'' \<and> length f \<le> 253"
proof
  assume "normalize_registrable_domain v = Inr (l, t, f)"
  then show "list_all is_ascii v \<and> f = canon v \<and> f = l @ dot # t \<and> is_label l \<and> is_label t \<and>
     \<not> startswith l ''xn--'' \<and> \<not> startswith t ''xn--'' \<and> length f \<le> 253"
    by (auto simp: normalize_registrable_domain_def Let_def split: if_splits option.splits prod.splits
        dest: split_once_join)
next
  assume r: "list_all is_ascii v \<and> f = canon v \<and> f = l @ dot # t \<and> is_label l \<and> is_label t \<and>
     \<not> startswith l ''xn--'' \<and> \<not> startswith t ''xn--'' \<and> length f \<le> 253"
  then have c: "canon v = l @ dot # t" by metis
  from r have d: "is_label l" "is_label t" "list_all is_ascii v" "length (l @ dot # t) \<le> 253" "f = l @ dot # t"
    "\<not> startswith l ''xn--''" "\<not> startswith t ''xn--''" by metis+
  then show "normalize_registrable_domain v = Inr (l, t, f)"
    by (simp add: normalize_registrable_domain_def Let_def c two_labels(2) two_labels(3) [simplified])
qed

text \<open>C39: a name is accepted exactly when it is ASCII and its trimmed lower-case form is two valid labels, neither
  punycode, of at most 253 characters; the accepted form is that one, and normalising it again, as every
  service call does with a stored name, changes nothing.\<close>

theorem registrable_name_canonical:
  "(normalize_registrable_domain v = Inr (l, t, f) \<longleftrightarrow>
     list_all is_ascii v \<and> f = canon v \<and> f = l @ dot # t \<and> is_label l \<and> is_label t \<and>
     \<not> startswith l ''xn--'' \<and> \<not> startswith t ''xn--'' \<and> length f \<le> 253) \<and>
   (normalize_registrable_domain v = Inr (l, t, f) \<longrightarrow> normalize_registrable_domain f = Inr (l, t, f))"
  using normalize_registrable_iff [of v l t f] normalize_registrable_iff [of f l t f] two_labels [of l t] by auto

theorem registrable_name_canonical_witness:
  "normalize_registrable_domain ''  Example.COM. '' = Inr (''example'', ''com'', ''example.com'') \<and>
   normalize_registrable_domain ''example.com'' = Inr (''example'', ''com'', ''example.com'')"
proof -
  have "normalize_registrable_domain ''  Example.COM. '' = Inr (''example'', ''com'', ''example.com'')"
    by code_simp
  with registrable_name_canonical show ?thesis by blast
qed

subsection \<open>Prices\<close>

lemma ceil_cent_bounds:
  assumes "ceil_cent d = Some q"
  shows "expo q = - 2 \<and> dec_val d \<le> dec_val q \<and> dec_val q < dec_val d + 1 / 100"
proof (cases "- 2 \<le> expo d")
  case True
  with assms have "q = Dec (coeff_at (- 2) d) (- 2)" by (simp add: ceil_cent_def Let_def split: if_splits)
  with coeff_at_val [OF True] show ?thesis by (simp add: dec_val_def)
next
  case False
  define k where "k = nat (- 2 - expo d)"
  define c where "c = - (- coeff d div 10 ^ k)"
  from False assms have q: "q = Dec c (- 2)"
    by (simp add: ceil_cent_def Let_def k_def c_def split: if_splits)
  have e: "expo d = - 2 - int k" using False by (simp add: k_def)
  have p: "(0 :: int) < 10 ^ k" by simp
  define m where "m = - coeff d"
  have "m = m div 10 ^ k * 10 ^ k + m mod 10 ^ k" by (rule div_mult_mod_eq [symmetric])
  then have "coeff d \<le> c * 10 ^ k" "c * 10 ^ k < coeff d + 10 ^ k"
    using pos_mod_sign [OF p, of m] pos_mod_bound [OF p, of m] unfolding c_def m_def by linarith+
  then have "(of_int (coeff d) :: rat) \<le> of_int (c * 10 ^ k)" "(of_int (c * 10 ^ k) :: rat) < of_int (coeff d + 10 ^ k)"
    by (simp_all only: of_int_le_iff of_int_less_iff)
  then have r: "(of_int (coeff d) :: rat) \<le> of_int c * 10 ^ k" "(of_int c :: rat) * 10 ^ k < of_int (coeff d) + 10 ^ k"
    by simp_all
  have v: "dec_val d * 100 * 10 ^ k = of_int (coeff d)"
    by (simp add: dec_val_def e power_int_diff power_int_minus)
  have w: "dec_val q = of_int c / 100" by (simp add: q dec_val_def power_int_minus)
  have t: "(0 :: rat) < 10 ^ k" by simp
  have "dec_val d * 100 * 10 ^ k \<le> of_int c * 10 ^ k" "of_int c * 10 ^ k < (dec_val d * 100 + 1) * 10 ^ k"
    using r by (simp_all add: v distrib_right)
  then have "dec_val d * 100 \<le> of_int c" "of_int c < dec_val d * 100 + 1"
    using t by (simp_all only: mult_le_cancel_right_pos mult_less_cancel_right_pos)
  with w q show ?thesis by simp
qed

lemma dec_val_max: "dec_val (dec_max a b) = max (dec_val a) (dec_val b)"
  by (simp add: dec_max_def dec_less_val max_def)

text \<open>The price of a name never loses money to rounding: the provider's part covers the cost at the exchange
  rate and exceeds it by less than a cent, the fee covers both the percentage and the minimum, and the total is
  their exact sum (while the amounts fit the 28 digits of the decimal context).\<close>

theorem domain_price_covers_cost:
  assumes "price_domain provider_cost fx_rate cfg = Some (provider_usd, fee, tax, payable)"
    and "\<bar>coeff provider_cost * coeff fx_rate\<bar> < 10 ^ 28" "\<bar>coeff provider_usd * coeff (mk_percent cfg)\<bar> < 10 ^ 28"
    and "\<bar>coeff provider_usd + coeff fee\<bar> < 10 ^ 28"
  shows "dec_val provider_cost * dec_val fx_rate \<le> dec_val provider_usd \<and>
     dec_val provider_usd < dec_val provider_cost * dec_val fx_rate + 1 / 100 \<and>
     dec_val provider_usd * dec_val (mk_percent cfg) \<le> dec_val fee \<and> dec_val (mk_min_usd cfg) \<le> dec_val fee \<and>
     dec_val payable = dec_val provider_usd + dec_val fee \<and> dec_val tax = 0"
proof -
  from assms(1) have p: "ceil_cent (dec_mul provider_cost fx_rate) = Some provider_usd"
    and f: "ceil_cent (dec_max (dec_mul provider_usd (mk_percent cfg)) (mk_min_usd cfg)) = Some fee"
    and t: "ceil_cent (dec_add (dec_add provider_usd fee) (Dec 0 (- 2))) = Some payable" and x: "tax = Dec 0 (- 2)"
    by (auto simp: price_domain_def split: option.splits)
  have e: "expo provider_usd = - 2" "expo fee = - 2" using ceil_cent_bounds p f by blast+
  have a: "dec_add provider_usd fee = Dec (coeff provider_usd + coeff fee) (- 2)"
    using assms(4) e by (simp add: dec_add_def coeff_at_def pow10_def dec_fix_exact)
  then have b: "dec_add (dec_add provider_usd fee) (Dec 0 (- 2)) = Dec (coeff provider_usd + coeff fee) (- 2)"
    using assms(4) by (simp add: dec_add_def coeff_at_def pow10_def dec_fix_exact)
  have "dec_val payable = dec_val provider_usd + dec_val fee"
    using t e unfolding b by (auto simp: ceil_cent_def coeff_at_def pow10_def dec_val_def distrib_right add_divide_distrib Let_def power_int_minus split: if_splits)
  moreover have "dec_val provider_usd * dec_val (mk_percent cfg) \<le> dec_val fee" "dec_val (mk_min_usd cfg) \<le> dec_val fee"
    using ceil_cent_bounds [OF f] assms(3) by (simp_all add: dec_val_max dec_val_mul)
  ultimately show ?thesis using ceil_cent_bounds [OF p] assms(2) x by (simp add: dec_val_mul) (simp add: dec_val_def)
qed

theorem domain_price_covers_cost_witness:
  "price_domain (Dec 8997 (- 3)) (Dec 1083 (- 3)) \<lparr>mk_percent = Dec 25 (- 2), mk_min_usd = Dec 300 (- 2)\<rparr> =
     Some (Dec 975 (- 2), Dec 300 (- 2), Dec 0 (- 2), Dec 1275 (- 2)) \<and>
   dec_val (Dec 8997 (- 3)) * dec_val (Dec 1083 (- 3)) \<le> dec_val (Dec 975 (- 2))"
proof -
  have p: "price_domain (Dec 8997 (- 3)) (Dec 1083 (- 3)) \<lparr>mk_percent = Dec 25 (- 2), mk_min_usd = Dec 300 (- 2)\<rparr> =
     Some (Dec 975 (- 2), Dec 300 (- 2), Dec 0 (- 2), Dec 1275 (- 2))"
    by (simp add: price_domain_def ceil_cent_def dec_mul_def dec_add_def dec_fix_def dec_max_def dec_less_def coeff_at_def
        pow10_def ndigits_eval Let_def)
  with domain_price_covers_cost [OF p] show ?thesis by simp
qed

end
