(* ===== verification/Domain_Zone.thy ===== *)
theory Domain_Zone
  imports Domain_Names Domain_Orders "HOL-Library.AList" "HOL-Library.Multiset"
begin

text \<open>
  The domain table and the managed DNS zone of a domain (\<^verbatim>\<open>domains/service.py\<close>): changesets with their
  idempotency keys and revisions, the attachment of a domain to a VM and its release, the hand-over of legacy
  domains and the renewal windows. Each operation holds the lock of the domain's row, so it is one step on
  \<open>zone_db\<close>. The zones handed to the DNS servers are kept in the order they were published.
\<close>

subsection \<open>Rows\<close>

datatype domain_status =
  D_REGISTERING | D_PROVIDER_PENDING | D_ACTIVE | D_RENEWAL_DUE | D_TRANSFER_PENDING | D_TRANSFERRED | D_FAILED | D_EXPIRED

datatype ns_mode = NS_MANAGED | NS_EXTERNAL
datatype dnssec_mode = SEC_MANAGED | SEC_EXTERNAL | SEC_OFF
datatype record_type = RT_A | RT_AAAA | RT_CNAME | RT_MX | RT_TXT | RT_CAA | RT_SRV | RT_NS | RT_TLSA | RT_SVCB | RT_HTTPS

fun type_value :: "record_type \<Rightarrow> string" where
  "type_value RT_A = ''A''" | "type_value RT_AAAA = ''AAAA''" | "type_value RT_CNAME = ''CNAME''"
| "type_value RT_MX = ''MX''" | "type_value RT_TXT = ''TXT''" | "type_value RT_CAA = ''CAA''"
| "type_value RT_SRV = ''SRV''" | "type_value RT_NS = ''NS''" | "type_value RT_TLSA = ''TLSA''"
| "type_value RT_SVCB = ''SVCB''" | "type_value RT_HTTPS = ''HTTPS''"

record domain_row =
  dr_fqdn :: string
  dr_name :: string
  dr_extension :: string
  dr_owner :: "string option"
  dr_wallet :: string
  dr_anon_hash :: "string option"
  dr_status :: domain_status
  dr_client_order :: "string option"
  dr_provider_id :: "int option"
  dr_provider_status :: "string option"
  dr_marker :: "string option"            \<comment> \<open>\<^verbatim>\<open>provider_operation_id\<close>\<close>
  dr_vm :: "string option"
  dr_vm_ipv6 :: "string option"
  dr_mode :: ns_mode
  dr_nameservers :: "string list"
  dr_dnssec_mode :: dnssec_mode
  dr_dnssec_status :: string
  dr_revision :: int
  dr_can_renew :: bool
  dr_expires_at :: "int option"
  dr_error :: "string option"

record zone_record =
  zr_name :: string
  zr_type :: record_type
  zr_ttl :: int
  zr_values :: "string list"

type_synonym zone_key = "string \<times> record_type"

abbreviation zkey :: "zone_record \<Rightarrow> zone_key" where
  "zkey r \<equiv> (zr_name r, zr_type r)"

record zone_response =
  zp_domain :: string
  zp_revision :: int
  zp_records :: "zone_record list"
  zp_dnssec_mode :: dnssec_mode
  zp_dnssec_status :: string

text \<open>A stored response; the kind is the operation with its domain.\<close>

record idem_row =
  id_owner :: string
  id_kind :: string
  id_key :: string
  id_hash :: string
  id_response :: zone_response

record zone_db =
  zb_domains :: "domain_row list"
  zb_records :: "string \<Rightarrow> zone_record list"
  zb_idem :: "idem_row list"
  zb_accounts :: "string \<rightharpoonup> account"
  zb_published :: "(string \<times> int \<times> zone_record list) list"

datatype zone_exn =
  Zone_Problem int string      \<comment> \<open>\<^verbatim>\<open>DomainProblem\<close>\<close>
| Zone_Runtime string          \<comment> \<open>\<^verbatim>\<open>RuntimeError\<close>\<close>
| Not_Persisted                \<comment> \<open>the ORM refuses to delete an object it has not inserted\<close>

abbreviation domain_at :: "zone_db \<Rightarrow> string \<Rightarrow> domain_row option" where
  "domain_at db fq \<equiv> row_at dr_fqdn fq (zb_domains db)"

abbreviation put_domain :: "domain_row \<Rightarrow> zone_db \<Rightarrow> zone_db" where
  "put_domain d db \<equiv> db\<lparr>zb_domains := put_row dr_fqdn d (zb_domains db)\<rparr>"

definition owned_domain :: "zone_db \<Rightarrow> string \<Rightarrow> string \<Rightarrow> domain_row option" where
  "owned_domain db owner fq =
     (case domain_at db fq of None \<Rightarrow> None | Some d \<Rightarrow> if dr_owner d = Some owner then Some d else None)"

definition lock_customer_owner :: "(string \<rightharpoonup> account) \<Rightarrow> string \<Rightarrow> zone_exn + unit" where
  "lock_customer_owner accounts owner =
     (if account_enabled accounts owner then Inr () else Inl (Zone_Problem 403 ''account_disabled''))"

subsection \<open>Validation of a record set\<close>

text \<open>\<open>tidy\<close> stands for \<^verbatim>\<open>ip_address\<close> and dnspython on one value of a type in a zone; \<open>None\<close> is their exception.\<close>

type_synonym normaliser = "record_type \<Rightarrow> string \<Rightarrow> string \<Rightarrow> string option"

definition bad_value :: "string \<Rightarrow> bool" where
  "bad_value v \<longleftrightarrow> v = [] \<or> (\<exists>c \<in> set v. (of_char c :: nat) < 32 \<and> c \<noteq> CHR 0x09) \<or> 4096 < length v"

fun normalize_values :: "normaliser \<Rightarrow> record_type \<Rightarrow> string \<Rightarrow> string list \<Rightarrow> string list \<Rightarrow> problem + string list" where
  "normalize_values tidy ty zone acc [] = Inr acc"
| "normalize_values tidy ty zone acc (raw # rest) =
     (let v = strip raw in
      if bad_value v then Inl (422, ''invalid_dns_value'')
      else case tidy ty zone v of
        None \<Rightarrow> Inl (422, ''invalid_dns_value'')
      | Some n \<Rightarrow> normalize_values tidy ty zone (if n \<in> set acc then acc else acc @ [n]) rest)"

definition validate_rrset :: "normaliser \<Rightarrow> zone_record \<Rightarrow> string \<Rightarrow> problem + zone_record" where
  "validate_rrset tidy r zone =
     (case normalize_record_name (zr_name r) zone of
        Inl e \<Rightarrow> Inl e
      | Inr name \<Rightarrow>
        if name = ''@'' \<and> (zr_type r = RT_CNAME \<or> zr_type r = RT_NS) then Inl (422, ''protected_apex_record'')
        else (case normalize_values tidy (zr_type r) zone [] (zr_values r) of
                Inl e \<Rightarrow> Inl e
              | Inr vs \<Rightarrow> Inr (r\<lparr>zr_name := name, zr_values := vs\<rparr>)))"

subsection \<open>Changesets\<close>

datatype change_action = UPSERT | DELETE
type_synonym change = "change_action \<times> zone_record"

text \<open>The record sets as the session holds them: with the mark whether a row is already in the table, and the
  keys of the rows deleted so far.\<close>

type_synonym desired = "(zone_key \<times> zone_record \<times> bool) list \<times> zone_key list"

definition apply_change :: "normaliser \<Rightarrow> domain_row \<Rightarrow> change \<Rightarrow> desired \<Rightarrow> zone_exn + desired" where
  "apply_change tidy d ch st =
     (case st of (rows, gone) \<Rightarrow>
       (case validate_rrset tidy (snd ch) (dr_fqdn d) of
          Inl (s, c) \<Rightarrow> Inl (Zone_Problem s c)
        | Inr r \<Rightarrow>
          if dr_vm_ipv6 d \<noteq> None \<and> zkey r = (''@'', RT_AAAA) then Inl (Zone_Problem 409 ''vm_apex_record_managed'')
          else case (fst ch, map_of rows (zkey r)) of
            (DELETE, None) \<Rightarrow> Inr (rows, gone)
          | (DELETE, Some (_, stored)) \<Rightarrow>
              if stored then Inr (AList.delete (zkey r) rows, zkey r # gone) else Inl Not_Persisted
          | (UPSERT, None) \<Rightarrow> Inr (rows @ [(zkey r, r, False)], gone)
          | (UPSERT, Some (old, stored)) \<Rightarrow>
              Inr (AList.update (zkey r) (old\<lparr>zr_ttl := zr_ttl r, zr_values := zr_values r\<rparr>, stored) rows, gone)))"

fun apply_changes :: "normaliser \<Rightarrow> domain_row \<Rightarrow> change list \<Rightarrow> desired \<Rightarrow> zone_exn + desired" where
  "apply_changes tidy d [] st = Inr st"
| "apply_changes tidy d (ch # chs) st =
     (case apply_change tidy d ch st of Inl e \<Rightarrow> Inl e | Inr st' \<Rightarrow> apply_changes tidy d chs st')"

definition cname_conflict :: "zone_record list \<Rightarrow> bool" where
  "cname_conflict rs \<longleftrightarrow>
     (\<exists>r \<in> set rs. zr_type r = RT_CNAME \<and> (\<exists>s \<in> set rs. zr_name s = zr_name r \<and> zr_type s \<noteq> RT_CNAME))"

record zone_cfg =
  zc_max_changes :: nat
  zc_max_rrsets :: nat

record changeset =
  cs_owner :: string
  cs_domain :: string
  cs_expected :: int
  cs_changes :: "change list"
  cs_key :: string

definition idem_kind :: "string \<Rightarrow> string" where
  "idem_kind fq = ''dns_changeset:'' @ fq"

definition find_idem :: "zone_db \<Rightarrow> string \<Rightarrow> string \<Rightarrow> string \<Rightarrow> idem_row option" where
  "find_idem db owner kind key = find (\<lambda>i. id_owner i = owner \<and> id_kind i = kind \<and> id_key i = key) (zb_idem db)"

definition replay :: "string \<Rightarrow> idem_row \<Rightarrow> zone_exn + zone_response" where
  "replay h i = (if id_hash i \<noteq> h then Inl (Zone_Problem 409 ''idempotency_conflict'') else Inr (id_response i))"

definition zone_order :: "zone_record \<Rightarrow> string \<times> string" where
  "zone_order r = (zr_name r, type_value (zr_type r))"

definition zone_response_of :: "domain_row \<Rightarrow> int \<Rightarrow> zone_record list \<Rightarrow> zone_response" where
  "zone_response_of d revision rs =
     \<lparr>zp_domain = dr_fqdn d, zp_revision = revision, zp_records = sort_key zone_order rs,
      zp_dnssec_mode = dr_dnssec_mode d, zp_dnssec_status = dr_dnssec_status d\<rparr>"

text \<open>A new revision of the zone: published, and stored in the same transaction.\<close>

definition commit_zone :: "domain_row \<Rightarrow> zone_record list \<Rightarrow> zone_db \<Rightarrow> zone_db" where
  "commit_zone d rows db =
     (let d1 = d\<lparr>dr_revision := dr_revision d + 1\<rparr> in
      (put_domain d1 db)\<lparr>zb_records := (zb_records db)(dr_fqdn d := rows),
         zb_published := zb_published db @ [(dr_fqdn d, dr_revision d1, rows)]\<rparr>)"

text \<open>The part under the domain's lock. The ORM inserts new rows before it deletes old ones, so a record set that
  was deleted and added again in one changeset violates the unique key at the commit, after the zone was
  published.\<close>

definition changeset_locked ::
    "normaliser \<Rightarrow> zone_cfg \<Rightarrow> string \<Rightarrow> changeset \<Rightarrow> bool \<Rightarrow> domain_row \<Rightarrow> zone_db \<Rightarrow> (zone_exn + zone_response) \<times> zone_db" where
  "changeset_locked tidy cfg h c dns_ok d db =
     (let fq = dr_fqdn d; rows = zb_records db fq in
      if dr_mode d \<noteq> NS_MANAGED then (Inl (Zone_Problem 409 ''external_nameservers''), db)
      else if dr_revision d \<noteq> cs_expected c then (Inl (Zone_Problem 412 ''zone_revision_mismatch''), db)
      else case apply_changes tidy d (cs_changes c) (map (\<lambda>r. (zkey r, r, True)) rows, []) of
        Inl e \<Rightarrow> (Inl e, db)
      | Inr (desired, gone) \<Rightarrow>
        let rs = map (fst \<circ> snd) desired; revision = dr_revision d + 1 in
        if cname_conflict rs then (Inl (Zone_Problem 422 ''cname_conflict''), db)
        else if zc_max_rrsets cfg < length desired then (Inl (Zone_Problem 422 ''zone_limit_exceeded''), db)
        else if \<not> dns_ok then (Inl (Zone_Problem 503 ''managed_dns_unavailable''), db)
        else
          let pub = db\<lparr>zb_published := zb_published db @ [(fq, revision, rs)]\<rparr>;
              resp = zone_response_of d revision rs
          in if \<exists>(k, r, stored) \<in> set desired. \<not> stored \<and> k \<in> set gone
             then (Inl (Zone_Problem 409 ''idempotency_conflict''), pub)
             else (Inr resp,
               (commit_zone d rs db)\<lparr>zb_idem := zb_idem db @ [\<lparr>id_owner = cs_owner c, id_kind = idem_kind fq, id_key = cs_key c,
                  id_hash = h, id_response = resp\<rparr>]\<rparr>))"

definition changeset_fence :: "(zone_exn + unit) option \<Rightarrow> (string \<rightharpoonup> account) \<Rightarrow> string \<Rightarrow> zone_exn + unit" where
  "changeset_fence guard accounts owner = (case guard of Some g \<Rightarrow> g | None \<Rightarrow> lock_customer_owner accounts owner)"

text \<open>\<open>digest\<close>: the hash of the canonical request. \<open>guard\<close>: the outcome of the caller's dispatch guard, when it
  passes one. \<open>db1\<close>: the database at the first look for the key; \<open>db\<close>: once the domain's row is locked.\<close>

definition apply_changeset ::
    "normaliser \<Rightarrow> zone_cfg \<Rightarrow> (string \<times> int \<times> change list \<Rightarrow> string) \<Rightarrow> (zone_exn + unit) option
     \<Rightarrow> changeset \<Rightarrow> bool \<Rightarrow> zone_db \<Rightarrow> zone_db \<Rightarrow> (zone_exn + zone_response) \<times> zone_db" where
  "apply_changeset tidy cfg digest guard c dns_ok db1 db =
     (case normalize_registrable_domain (cs_domain c) of
        Inl (s, code) \<Rightarrow> (Inl (Zone_Problem s code), db)
      | Inr (_, _, fq) \<Rightarrow>
        if zc_max_changes cfg < length (cs_changes c) then (Inl (Zone_Problem 422 ''too_many_dns_changes''), db)
        else
          let h = digest (fq, cs_expected c, cs_changes c); kind = idem_kind fq in
          case changeset_fence guard (zb_accounts db1) (cs_owner c) of
            Inl e \<Rightarrow> (Inl e, db)
          | Inr _ \<Rightarrow>
            (case find_idem db1 (cs_owner c) kind (cs_key c) of
               Some i \<Rightarrow> (replay h i, db)
             | None \<Rightarrow>
               (case owned_domain db (cs_owner c) fq of
                  None \<Rightarrow> (Inl (Zone_Problem 404 ''domain_not_found''), db)
                | Some d \<Rightarrow>
                  (case find_idem db (cs_owner c) kind (cs_key c) of
                     Some i \<Rightarrow> (replay h i, db)
                   | None \<Rightarrow> changeset_locked tidy cfg h c dns_ok d db))))"

subsection \<open>Attachment to a VM\<close>

definition apex_aaaa :: "zone_record list \<Rightarrow> zone_record option" where
  "apex_aaaa rs = find (\<lambda>r. zkey r = (''@'', RT_AAAA)) rs"

definition live_status :: "domain_status \<Rightarrow> bool" where
  "live_status s \<longleftrightarrow> s \<in> {D_ACTIVE, D_RENEWAL_DUE}"

definition claim_vm_attachment :: "string \<Rightarrow> string \<Rightarrow> string \<Rightarrow> zone_db \<Rightarrow> (zone_exn + unit) \<times> zone_db" where
  "claim_vm_attachment owner value vid db =
     (case normalize_registrable_domain value of
        Inl (s, c) \<Rightarrow> (Inl (Zone_Problem s c), db)
      | Inr (_, _, fq) \<Rightarrow>
        (case owned_domain db owner fq of
           None \<Rightarrow> (Inl (Zone_Problem 404 ''domain_not_found''), db)
         | Some d \<Rightarrow>
           if \<not> live_status (dr_status d) then (Inl (Zone_Problem 409 ''domain_not_active''), db)
           else if dr_mode d \<noteq> NS_MANAGED then (Inl (Zone_Problem 409 ''external_nameservers''), db)
           else if truthy (dr_vm d) \<and> dr_vm d \<noteq> Some vid then (Inl (Zone_Problem 409 ''domain_already_attached''), db)
           else if dr_vm d = None then
             (if apex_aaaa (zb_records db fq) \<noteq> None then (Inl (Zone_Problem 409 ''apex_aaaa_in_use''), db)
              else (Inr (), put_domain (d\<lparr>dr_vm := Some vid, dr_vm_ipv6 := None\<rparr>) db))
           else (Inr (), db)))"

text \<open>Several domains for one VM make the lookup raise.\<close>

definition release_vm_attachment_claim :: "string \<Rightarrow> zone_db \<Rightarrow> (zone_exn + unit) \<times> zone_db" where
  "release_vm_attachment_claim vid db =
     (case filter (\<lambda>d. dr_vm d = Some vid) (zb_domains db) of
        [] \<Rightarrow> (Inr (), db)
      | [_] \<Rightarrow> (Inr (), db\<lparr>zb_domains := map (\<lambda>d. if dr_vm d = Some vid \<and> dr_vm_ipv6 d = None then d\<lparr>dr_vm := None\<rparr> else d)
            (zb_domains db)\<rparr>)
      | _ \<Rightarrow> (Inl (Zone_Runtime ''multiple rows''), db))"

definition vm_apex :: "string \<Rightarrow> zone_record" where
  "vm_apex ipv6 = \<lparr>zr_name = ''@'', zr_type = RT_AAAA, zr_ttl = 300, zr_values = [ipv6]\<rparr>"

definition attached_records :: "domain_row \<Rightarrow> string \<Rightarrow> zone_record list \<Rightarrow> zone_exn + zone_record list" where
  "attached_records d ipv6 rows =
     (case apex_aaaa rows of
        None \<Rightarrow> Inr (rows @ [vm_apex ipv6])
      | Some r \<Rightarrow>
        (case dr_vm_ipv6 d of
           None \<Rightarrow> Inl (Zone_Runtime ''the apex AAAA RRset is already customer-managed'')
         | Some prev \<Rightarrow>
           if zr_ttl r \<noteq> 300 \<or> zr_values r \<notin> {[prev], [ipv6]}
           then Inl (Zone_Runtime ''the apex AAAA RRset was changed by the customer'')
           else Inr (map (\<lambda>x. if zkey x = (''@'', RT_AAAA) then x\<lparr>zr_ttl := 300, zr_values := [ipv6]\<rparr> else x) rows)))"

text \<open>\<open>snap\<close>: the unlocked read. \<open>dns_ok\<close>: whether the control plane takes the zone; its failure rolls back.\<close>

definition attach_vm ::
    "string \<Rightarrow> string \<Rightarrow> string \<Rightarrow> string \<Rightarrow> bool \<Rightarrow> zone_db \<Rightarrow> zone_db \<Rightarrow> (zone_exn + unit) \<times> zone_db" where
  "attach_vm owner fq vid ipv6 dns_ok snap db =
     (case owned_domain snap owner fq of
        None \<Rightarrow> (Inl (Zone_Problem 404 ''domain_not_found''), db)
      | Some s \<Rightarrow>
        if \<not> live_status (dr_status s) then (Inl (Zone_Runtime ''managed domain is not active''), db)
        else case domain_at db fq of
          None \<Rightarrow> (Inl (Zone_Runtime ''managed domain disappeared''), db)
        | Some d \<Rightarrow>
          if truthy (dr_vm d) \<and> dr_vm d \<noteq> Some vid
          then (Inl (Zone_Runtime ''managed domain is already attached to another VM''), db)
          else if dr_mode d \<noteq> NS_MANAGED
          then (Inl (Zone_Runtime ''managed domain is using external nameservers''), db)
          else (case attached_records d ipv6 (zb_records db fq) of
             Inl e \<Rightarrow> (Inl e, db)
           | Inr rows \<Rightarrow>
             if \<not> dns_ok then (Inl (Zone_Runtime ''dns control''), db)
             else (Inr (), commit_zone (d\<lparr>dr_vm := Some vid, dr_vm_ipv6 := Some ipv6\<rparr>) rows db)))"

definition managed_apex :: "domain_row \<Rightarrow> zone_record list \<Rightarrow> bool" where
  "managed_apex d rows \<longleftrightarrow>
     (case (apex_aaaa rows, dr_vm_ipv6 d) of
        (Some r, Some a) \<Rightarrow> zr_ttl r = 300 \<and> zr_values r = [a]
      | _ \<Rightarrow> False)"

definition detach_vm ::
    "string \<Rightarrow> string \<Rightarrow> string \<Rightarrow> bool \<Rightarrow> zone_db \<Rightarrow> zone_db \<Rightarrow> (zone_exn + unit) \<times> zone_db" where
  "detach_vm owner fq vid dns_ok snap db =
     (case owned_domain snap owner fq of
        None \<Rightarrow> (Inl (Zone_Problem 404 ''domain_not_found''), db)
      | Some s \<Rightarrow>
        (case domain_at db fq of
           None \<Rightarrow> (Inr (), db)
         | Some d \<Rightarrow>
           if dr_vm d \<noteq> Some vid then (Inr (), db)
           else
             let rows = zb_records db fq; d1 = d\<lparr>dr_vm := None, dr_vm_ipv6 := None\<rparr> in
             if managed_apex d rows \<and> dr_mode d = NS_MANAGED then
               (if \<not> dns_ok then (Inl (Zone_Runtime ''dns control''), db)
                else (Inr (), commit_zone d1 (filter (\<lambda>r. zkey r \<noteq> (''@'', RT_AAAA)) rows) db))
             else (Inr (), put_domain d1 db)))"

subsection \<open>Hand-over and renewal windows\<close>

definition claim_legacy_domain ::
    "hash \<Rightarrow> string \<Rightarrow> string \<Rightarrow> string \<Rightarrow> zone_db \<Rightarrow> (zone_exn + domain_row) \<times> zone_db" where
  "claim_legacy_domain sha256 owner value token db =
     (case normalize_registrable_domain value of
        Inl (s, c) \<Rightarrow> (Inl (Zone_Problem s c), db)
      | Inr (_, _, fq) \<Rightarrow>
        (case lock_customer_owner (zb_accounts db) owner of
           Inl e \<Rightarrow> (Inl e, db)
         | Inr _ \<Rightarrow>
           (case domain_at db fq of
              None \<Rightarrow> (Inl (Zone_Problem 404 ''domain_not_found''), db)
            | Some d \<Rightarrow>
              if dr_owner d \<noteq> None \<or> \<not> truthy (dr_anon_hash d) \<or> dr_anon_hash d \<noteq> Some (hash_anon_token sha256 token)
              then (Inl (Zone_Problem 404 ''domain_not_found''), db)
              else let d1 = d\<lparr>dr_owner := Some owner, dr_anon_hash := None\<rparr> in (Inr d1, put_domain d1 db))))"

definition refreshed :: "int \<Rightarrow> int \<Rightarrow> int \<Rightarrow> domain_row \<Rightarrow> domain_row" where
  "refreshed now window due d =
     (case dr_expires_at d of
        None \<Rightarrow> d
      | Some e \<Rightarrow>
        if \<not> live_status (dr_status d) then d
        else if e \<le> now then d\<lparr>dr_can_renew := False, dr_status := D_EXPIRED\<rparr>
        else d\<lparr>dr_can_renew := e \<le> now + days window,
               dr_status := (if e \<le> now + days due then D_RENEWAL_DUE else D_ACTIVE)\<rparr>)"

definition refresh_renewal_states :: "int \<Rightarrow> int \<Rightarrow> int \<Rightarrow> zone_db \<Rightarrow> nat \<times> zone_db" where
  "refresh_renewal_states now window due db =
     (length (filter (\<lambda>d. (dr_can_renew (refreshed now window due d), dr_status (refreshed now window due d))
         \<noteq> (dr_can_renew d, dr_status d)) (zb_domains db)),
      db\<lparr>zb_domains := map (refreshed now window due) (zb_domains db)\<rparr>)"

subsection \<open>What a changeset does to the record sets\<close>

definition apex_allowed :: "zone_record \<Rightarrow> bool" where
  "apex_allowed r \<longleftrightarrow> (zr_name r = ''@'' \<longrightarrow> zr_type r \<noteq> RT_CNAME \<and> zr_type r \<noteq> RT_NS)"

definition entries_ok :: "(zone_key \<times> zone_record \<times> bool) list \<Rightarrow> bool" where
  "entries_ok rows \<longleftrightarrow> distinct (map fst rows) \<and> (\<forall>(k, r, s) \<in> set rows. k = zkey r \<and> apex_allowed r)"

abbreviation apex_key :: zone_key where
  "apex_key \<equiv> (''@'', RT_AAAA)"

lemma validate_rrset_ok:
  "validate_rrset tidy r z = Inr r' \<Longrightarrow> apex_allowed r'"
  by (auto simp: validate_rrset_def apex_allowed_def split: sum.splits if_splits)

lemma update_entries: "x \<in> set (AList.update k v al) \<Longrightarrow> x = (k, v) \<or> x \<in> set al"
  by (induction al) (auto split: if_splits)

lemma delete_entries: "x \<in> set (AList.delete k al) \<Longrightarrow> x \<in> set al"
  by (induction al) (auto split: if_splits)

lemma entries_ok_update:
  assumes "entries_ok rows" "k = zkey r" "apex_allowed r"
  shows "entries_ok (AList.update k (r, s) rows)"
  using assms by (auto simp: entries_ok_def AList.distinct_update dest!: update_entries)

lemma entries_ok_delete: "entries_ok rows \<Longrightarrow> entries_ok (AList.delete k rows)"
  by (auto simp: entries_ok_def AList.distinct_delete dest!: delete_entries)

lemma entries_ok_append:
  "entries_ok rows \<Longrightarrow> map_of rows (zkey r) = None \<Longrightarrow> apex_allowed r \<Longrightarrow> entries_ok (rows @ [(zkey r, r, s)])"
  by (auto simp: entries_ok_def map_of_eq_None_iff)

lemma apply_change_ok:
  assumes "entries_ok rows" and "apply_change tidy d ch (rows, gone) = Inr (rows', gone')"
  shows "entries_ok rows' \<and> (dr_vm_ipv6 d \<noteq> None \<longrightarrow> map_of rows' apex_key = map_of rows apex_key)"
proof -
  from assms(2) obtain r where v: "validate_rrset tidy (snd ch) (dr_fqdn d) = Inr r"
    and g: "\<not> (dr_vm_ipv6 d \<noteq> None \<and> zkey r = apex_key)"
    by (auto simp: apply_change_def split: sum.splits if_splits)
  note a = validate_rrset_ok [OF v]
  show ?thesis
  proof (cases "map_of rows (zkey r)")
    case None
    show ?thesis
    proof (cases "fst ch")
      case UPSERT
      with assms(2) v g None have "rows' = rows @ [(zkey r, r, False)]" by (auto simp: apply_change_def split: if_splits)
      with entries_ok_append [OF assms(1) None a] g show ?thesis
        by (cases "map_of rows apex_key") (auto simp: map_add_def)
    next
      case DELETE
      with assms v g None show ?thesis by (auto simp: apply_change_def split: if_splits)
    qed
  next
    case (Some p)
    obtain old stored where p: "p = (old, stored)" by fastforce
    have "(zkey r, old, stored) \<in> set rows" using Some p by (auto dest: map_of_SomeD)
    then have o: "zkey r = zkey old" "apex_allowed old" using assms(1) by (auto simp: entries_ok_def)
    then have u: "zkey (old\<lparr>zr_ttl := zr_ttl r, zr_values := zr_values r\<rparr>) = zkey r"
      "apex_allowed (old\<lparr>zr_ttl := zr_ttl r, zr_values := zr_values r\<rparr>)" by (simp_all add: apex_allowed_def)
    show ?thesis
    proof (cases "fst ch")
      case UPSERT
      with assms(2) v g Some p have "rows' = AList.update (zkey r)
          (old\<lparr>zr_ttl := zr_ttl r, zr_values := zr_values r\<rparr>, stored) rows"
        by (auto simp: apply_change_def split: if_splits)
      with entries_ok_update [OF assms(1) u(1) [symmetric] u(2)] g show ?thesis by (auto simp: AList.update_conv)
    next
      case DELETE
      with assms(2) v g Some p have "rows' = AList.delete (zkey r) rows"
        by (auto simp: apply_change_def split: if_splits)
      with entries_ok_delete [OF assms(1)] g show ?thesis by (auto simp: AList.delete_conv)
    qed
  qed
qed

lemma apply_changes_ok:
  assumes "entries_ok rows" and "apply_changes tidy d chs (rows, gone) = Inr (rows', gone')"
  shows "entries_ok rows' \<and> (dr_vm_ipv6 d \<noteq> None \<longrightarrow> map_of rows' apex_key = map_of rows apex_key)"
  using assms
proof (induction chs arbitrary: rows gone)
  case (Cons ch chs)
  from Cons.prems(2) obtain r1 g1 where s: "apply_change tidy d ch (rows, gone) = Inr (r1, g1)"
    and t: "apply_changes tidy d chs (r1, g1) = Inr (rows', gone')" by (auto split: sum.splits)
  from apply_change_ok [OF Cons.prems(1) s] Cons.IH [OF _ t] show ?case by auto
qed simp

subsection \<open>The invariant of the zones\<close>

definition rows_ok :: "zone_record list \<Rightarrow> bool" where
  "rows_ok rs \<longleftrightarrow> distinct (map zkey rs) \<and> \<not> cname_conflict rs \<and> (\<forall>r \<in> set rs. apex_allowed r)"

definition apex_managed :: "string \<Rightarrow> zone_record list \<Rightarrow> bool" where
  "apex_managed a rs \<longleftrightarrow> (\<exists>r. apex_aaaa rs = Some r \<and> zr_ttl r = 300 \<and> zr_values r = [a])"

lemma apex_entry:
  "\<forall>x \<in> set rows. fst x = zkey (fst (snd x)) \<Longrightarrow>
     apex_aaaa (map (fst \<circ> snd) rows) = map_option fst (map_of rows apex_key)"
  by (induction rows) (auto simp: apex_aaaa_def)

lemma entries_rows:
  assumes "entries_ok rows"
  shows "map zkey (map (fst \<circ> snd) rows) = map fst rows" "\<forall>r \<in> set (map (fst \<circ> snd) rows). apex_allowed r"
    "apex_aaaa (map (fst \<circ> snd) rows) = map_option fst (map_of rows apex_key)"
proof -
  have k: "\<forall>x \<in> set rows. fst x = zkey (fst (snd x))" using assms by (auto simp: entries_ok_def)
  then show "map zkey (map (fst \<circ> snd) rows) = map fst rows" by (simp add: case_prod_beta)
  show "\<forall>r \<in> set (map (fst \<circ> snd) rows). apex_allowed r" using assms by (auto simp: entries_ok_def)
  from k show "apex_aaaa (map (fst \<circ> snd) rows) = map_option fst (map_of rows apex_key)" by (rule apex_entry)
qed

lemma stored_entries:
  assumes "rows_ok rs"
  shows "entries_ok (map (\<lambda>r. (zkey r, r, True)) rs)"
    "map_option fst (map_of (map (\<lambda>r. (zkey r, r, True)) rs) apex_key) = apex_aaaa rs"
proof -
  show e: "entries_ok (map (\<lambda>r. (zkey r, r, True)) rs)" using assms by (auto simp: entries_ok_def rows_ok_def o_def)
  show "map_option fst (map_of (map (\<lambda>r. (zkey r, r, True)) rs) apex_key) = apex_aaaa rs"
    using entries_rows(3) [OF e] by (simp add: o_def)
qed

text \<open>The zone the DNS servers were given last.\<close>

definition latest :: "string \<Rightarrow> zone_db \<Rightarrow> (int \<times> zone_record list) option" where
  "latest fq db = map_option snd (find (\<lambda>p. fst p = fq) (rev (zb_published db)))"

definition attachment_ok :: "domain_row \<Rightarrow> zone_record list \<Rightarrow> bool" where
  "attachment_ok d rs \<longleftrightarrow> (\<forall>a. dr_vm_ipv6 d = Some a \<longrightarrow> apex_managed a rs \<and> dr_vm d \<noteq> None)"

definition served_ok :: "domain_row \<Rightarrow> zone_record list \<Rightarrow> (int \<times> zone_record list) option \<Rightarrow> bool" where
  "served_ok d rs pub \<longleftrightarrow>
     (case pub of None \<Rightarrow> True | Some (v, zs) \<Rightarrow> v = dr_revision d \<and> zs = rs \<or> v = dr_revision d + 1)"

definition zone_inv :: "zone_db \<Rightarrow> bool" where
  "zone_inv db \<longleftrightarrow> unique_by dr_fqdn (zb_domains db) \<and> (\<forall>fq. rows_ok (zb_records db fq)) \<and>
     (\<forall>d \<in> set (zb_domains db). attachment_ok d (zb_records db (dr_fqdn d)) \<and>
        served_ok d (zb_records db (dr_fqdn d)) (latest (dr_fqdn d) db))"

lemma latest_publish: "latest fq (db\<lparr>zb_published := zb_published db @ [(fq', v, rs)]\<rparr>) = (if fq = fq' then Some (v, rs) else latest fq db)"
  by (simp add: latest_def)

lemma latest_frame [simp]:
  "latest fq (zb_domains_update f db) = latest fq db" "latest fq (zb_records_update g db) = latest fq db"
  "latest fq (zb_idem_update h db) = latest fq db"
  by (simp_all add: latest_def)

lemma zone_inv_idem [simp]: "zone_inv (zb_idem_update h db) = zone_inv db"
  by (simp add: zone_inv_def)

lemma zone_inv_put:
  assumes "zone_inv db" "domain_at db (dr_fqdn d) = Some d0" "dr_revision d = dr_revision d0"
    and "attachment_ok d (zb_records db (dr_fqdn d))"
  shows "zone_inv (put_domain d db)"
proof -
  have "served_ok d (zb_records db (dr_fqdn d)) (latest (dr_fqdn d) db)"
  proof -
    have "d0 \<in> set (zb_domains db)" "dr_fqdn d0 = dr_fqdn d" using row_at_Some [OF assms(2)] by simp_all
    with assms(1) have "served_ok d0 (zb_records db (dr_fqdn d)) (latest (dr_fqdn d) db)" by (force simp: zone_inv_def)
    with assms(3) show ?thesis by (auto simp: served_ok_def split: option.splits)
  qed
  with assms show ?thesis by (auto simp: zone_inv_def dest!: put_row_cases)
qed

lemma commit_zone_latest:
  "latest fq (commit_zone d rows db) = (if fq = dr_fqdn d then Some (dr_revision d + 1, rows) else latest fq db)"
  by (simp add: commit_zone_def latest_def)

lemma zone_inv_commit:
  assumes "zone_inv db" "domain_at db (dr_fqdn d) = Some d0" "rows_ok rows" "attachment_ok d rows"
  shows "zone_inv (commit_zone d rows db)"
proof -
  let ?d = "d\<lparr>dr_revision := dr_revision d + 1\<rparr>"
  have f: "zb_domains (commit_zone d rows db) = put_row dr_fqdn ?d (zb_domains db)"
    "zb_records (commit_zone d rows db) = (zb_records db)(dr_fqdn d := rows)"
    by (simp_all add: commit_zone_def)
  have "attachment_ok ?d rows" using assms(4) by (simp add: attachment_ok_def)
  moreover have "served_ok ?d rows (Some (dr_revision d + 1, rows))" by (simp add: served_ok_def)
  ultimately show ?thesis using assms(1,3) unfolding zone_inv_def f commit_zone_latest
    by (auto dest!: put_row_cases)
qed

lemma zone_inv_published:
  assumes "zone_inv db" "domain_at db fq = Some d"
  shows "zone_inv (db\<lparr>zb_published := zb_published db @ [(fq, dr_revision d + 1, rs)]\<rparr>)"
proof -
  have "e = d" if "e \<in> set (zb_domains db)" "dr_fqdn e = fq" for e
    using row_at_member [of dr_fqdn, OF _ that(1)] that(2) assms by (simp add: zone_inv_def)
  with assms(1) show ?thesis by (auto simp: zone_inv_def latest_publish served_ok_def)
qed

subsection \<open>Outcomes of a changeset\<close>

lemma changeset_locked_cases:
  assumes "changeset_locked tidy cfg h c dns_ok d db = (x, db')"
  obtains e where "x = Inl e" "db' = db"
  | e rs where "x = Inl e" "db' = db\<lparr>zb_published := zb_published db @ [(dr_fqdn d, dr_revision d + 1, rs)]\<rparr>"
  | rows gone where "dr_mode d = NS_MANAGED" "dr_revision d = cs_expected c"
      "apply_changes tidy d (cs_changes c) (map (\<lambda>r. (zkey r, r, True)) (zb_records db (dr_fqdn d)), []) = Inr (rows, gone)"
      "\<not> cname_conflict (map (fst \<circ> snd) rows)" "length rows \<le> zc_max_rrsets cfg"
      "x = Inr (zone_response_of d (dr_revision d + 1) (map (fst \<circ> snd) rows))"
      "db' = (commit_zone d (map (fst \<circ> snd) rows) db)\<lparr>zb_idem := zb_idem db @ [\<lparr>id_owner = cs_owner c,
          id_kind = idem_kind (dr_fqdn d), id_key = cs_key c, id_hash = h,
          id_response = zone_response_of d (dr_revision d + 1) (map (fst \<circ> snd) rows)\<rparr>]\<rparr>"
proof (cases "dr_mode d \<noteq> NS_MANAGED \<or> dr_revision d \<noteq> cs_expected c")
  case True
  with assms have "\<exists>e. x = Inl e \<and> db' = db" by (auto simp: changeset_locked_def Let_def split: if_splits)
  with that(1) show ?thesis by blast
next
  case False
  let ?r = "apply_changes tidy d (cs_changes c) (map (\<lambda>r. (zkey r, r, True)) (zb_records db (dr_fqdn d)), [])"
  show ?thesis
  proof (cases ?r)
    case (Inl e)
    with False assms have "x = Inl e \<and> db' = db" by (simp add: changeset_locked_def Let_def)
    with that(1) show ?thesis by blast
  next
    case (Inr st)
    obtain rows gone where st: "st = (rows, gone)" by fastforce
    let ?rs = "map (fst \<circ> snd) rows"
    consider "cname_conflict ?rs \<or> zc_max_rrsets cfg < length rows \<or> \<not> dns_ok"
      | "\<not> cname_conflict ?rs" "length rows \<le> zc_max_rrsets cfg" "dns_ok" "\<exists>(k, r, s) \<in> set rows. \<not> s \<and> k \<in> set gone"
      | "\<not> cname_conflict ?rs" "length rows \<le> zc_max_rrsets cfg" "dns_ok" "\<not> (\<exists>(k, r, s) \<in> set rows. \<not> s \<and> k \<in> set gone)"
      by fastforce
    then show ?thesis
    proof cases
      case 1
      with False Inr st assms have "\<exists>e. x = Inl e \<and> db' = db"
        by (auto simp: changeset_locked_def Let_def split: if_splits)
      with that(1) show ?thesis by blast
    next
      case 2
      with False Inr st assms show ?thesis
        by (intro that(2) [of "Zone_Problem 409 ''idempotency_conflict''" ?rs]) (simp_all add: changeset_locked_def Let_def)
    next
      case 3
      with False Inr st assms show ?thesis
        by (intro that(3) [of rows gone]) (auto simp: changeset_locked_def Let_def)
    qed
  qed
qed

lemma changeset_rows:
  assumes "rows_ok rs" "attachment_ok d rs"
    and "apply_changes tidy d chs (map (\<lambda>r. (zkey r, r, True)) rs, []) = Inr (rows, gone)" "\<not> cname_conflict (map (fst \<circ> snd) rows)"
  shows "rows_ok (map (fst \<circ> snd) rows) \<and> attachment_ok d (map (fst \<circ> snd) rows)"
proof -
  note e = stored_entries [OF assms(1)]
  from apply_changes_ok [OF e(1) assms(3)] have r: "entries_ok rows"
    and a: "dr_vm_ipv6 d \<noteq> None \<longrightarrow> map_option fst (map_of rows apex_key) = apex_aaaa rs"
    using e(2) by auto
  note f = entries_rows [OF r]
  have "distinct (map zkey (map (fst \<circ> snd) rows))" unfolding f(1) using r by (simp add: entries_ok_def)
  with f(2) assms(4) have "rows_ok (map (fst \<circ> snd) rows)" by (simp add: rows_ok_def)
  moreover have "attachment_ok d (map (fst \<circ> snd) rows)"
    using assms(2) a unfolding attachment_ok_def apex_managed_def f(3) by auto
  ultimately show ?thesis ..
qed

lemma changeset_locked_inv:
  assumes "zone_inv db" "domain_at db (dr_fqdn d) = Some d" and "changeset_locked tidy cfg h c dns_ok d db = (x, db')"
  shows "zone_inv db'"
  using assms(3)
proof (cases rule: changeset_locked_cases)
  case (1 e)
  with assms(1) show ?thesis by simp
next
  case (2 e rs)
  with zone_inv_published [OF assms(1,2)] show ?thesis by simp
next
  case (3 rows gone)
  have "rows_ok (zb_records db (dr_fqdn d))" "attachment_ok d (zb_records db (dr_fqdn d))"
    using assms(1,2) by (auto simp: zone_inv_def dest!: row_at_Some)
  from changeset_rows [OF this 3(3,4)] zone_inv_commit [OF assms(1,2)] 3(7) show ?thesis by simp
qed

lemma owned_domain_at: "owned_domain db owner fq = Some d \<Longrightarrow> domain_at db fq = Some d \<and> dr_fqdn d = fq \<and> dr_owner d = Some owner"
  by (auto simp: owned_domain_def split: option.splits if_splits dest: row_at_Some)

lemma apply_changeset_cases:
  assumes "apply_changeset tidy cfg digest guard c dns_ok db1 db = (x, db')"
  obtains e where "x = Inl e" "db' = db"
  | i h where "i \<in> set (zb_idem db1) \<union> set (zb_idem db)" "id_owner i = cs_owner c" "id_key i = cs_key c"
      "x = replay h i" "db' = db"
  | l t d where "normalize_registrable_domain (cs_domain c) = Inr (l, t, dr_fqdn d)"
      "owned_domain db (cs_owner c) (dr_fqdn d) = Some d" "domain_at db (dr_fqdn d) = Some d"
      "find_idem db (cs_owner c) (idem_kind (dr_fqdn d)) (cs_key c) = None" "length (cs_changes c) \<le> zc_max_changes cfg"
      "changeset_locked tidy cfg (digest (dr_fqdn d, cs_expected c, cs_changes c)) c dns_ok d db = (x, db')"
proof -
  note alt = that
  show ?thesis
  proof (cases "normalize_registrable_domain (cs_domain c)")
  case (Inl p)
  with assms alt(1) show ?thesis by (auto simp: apply_changeset_def split: prod.splits)
next
  case (Inr n)
  obtain l t fq where n: "n = (l, t, fq)" by (cases n) auto
  let ?g = "changeset_fence guard (zb_accounts db1) (cs_owner c)"
  consider (stop) "zc_max_changes cfg < length (cs_changes c) \<or> (\<exists>e. ?g = Inl e)"
    | (go) "\<not> zc_max_changes cfg < length (cs_changes c)" "?g = Inr ()" by (cases ?g) auto
  then show ?thesis
  proof cases
    case stop
    with assms Inr n alt(1) show ?thesis by (auto simp: apply_changeset_def Let_def split: if_splits)
  next
    case go
    let ?h = "digest (fq, cs_expected c, cs_changes c)"
    have eq: "(case find_idem db1 (cs_owner c) (idem_kind fq) (cs_key c) of Some i \<Rightarrow> (replay ?h i, db)
       | None \<Rightarrow> (case owned_domain db (cs_owner c) fq of None \<Rightarrow> (Inl (Zone_Problem 404 ''domain_not_found''), db)
         | Some d \<Rightarrow> (case find_idem db (cs_owner c) (idem_kind fq) (cs_key c) of Some i \<Rightarrow> (replay ?h i, db)
           | None \<Rightarrow> changeset_locked tidy cfg ?h c dns_ok d db))) = (x, db')"
      using assms Inr n go by (simp add: apply_changeset_def Let_def)
    have rep: thesis if "find_idem db0 (cs_owner c) (idem_kind fq) (cs_key c) = Some i" "db0 \<in> {db1, db}" "(replay ?h i, db) = (x, db')" for db0 i
      by (rule alt(2) [of i ?h]) (use that in \<open>auto simp: find_idem_def dest: find_hit\<close>)
    show ?thesis
    proof (cases "find_idem db1 (cs_owner c) (idem_kind fq) (cs_key c)")
      case (Some i)
      with eq rep show ?thesis by simp
    next
      case k: None
      show ?thesis
      proof (cases "owned_domain db (cs_owner c) fq")
        case None
        with eq k alt(1) show ?thesis by auto
      next
        case (Some d)
        with owned_domain_at [OF Some] eq k rep alt(3) [of l t d] Inr n go(1) show ?thesis
          by (cases "find_idem db (cs_owner c) (idem_kind fq) (cs_key c)") auto
      qed
    qed
  qed
qed
qed

text \<open>Any interleaving of the operations on the domain table; the reads before a lock are arbitrary.\<close>

inductive zone_step :: "normaliser \<Rightarrow> zone_db \<Rightarrow> zone_db \<Rightarrow> bool" for tidy :: normaliser where
  changeset: "apply_changeset tidy cfg digest guard c dns_ok db1 db = (x, db') \<Longrightarrow> zone_step tidy db db'"
| attach: "attach_vm owner fq vid ipv6 dns_ok snap db = (y, db') \<Longrightarrow> zone_step tidy db db'"
| detach: "detach_vm owner fq vid dns_ok snap db = (y, db') \<Longrightarrow> zone_step tidy db db'"
| claim: "claim_vm_attachment owner value vid db = (y, db') \<Longrightarrow> zone_step tidy db db'"
| release: "release_vm_attachment_claim vid db = (y, db') \<Longrightarrow> zone_step tidy db db'"
| handover: "claim_legacy_domain sha256 owner value token db = (z, db') \<Longrightarrow> zone_step tidy db db'"
| renewals: "refresh_renewal_states now window due db = (n, db') \<Longrightarrow> zone_step tidy db db'"

lemma apex_of_none: "apex_aaaa rs = None \<longleftrightarrow> (\<forall>r \<in> set rs. zkey r \<noteq> apex_key)"
  by (auto simp: apex_aaaa_def find_None_iff)

lemma apex_of_filter: "apex_aaaa (filter (\<lambda>r. zkey r \<noteq> apex_key) rs) = None"
  by (auto simp: apex_of_none)

lemma cname_conflict_mono: "cname_conflict rs \<Longrightarrow> (\<And>r. r \<in> set rs \<Longrightarrow> \<exists>s \<in> set ss. zkey s = zkey r) \<Longrightarrow> cname_conflict ss"
  unfolding cname_conflict_def by (metis prod.inject)

lemma rows_ok_filter: "rows_ok rs \<Longrightarrow> rows_ok (filter p rs)"
  using cname_conflict_mono [of "filter p rs" rs] by (auto simp: rows_ok_def distinct_map_filter)

lemma rows_ok_same_keys:
  assumes "rows_ok rs" "\<And>r. zkey (f r) = zkey r" shows "rows_ok (map f rs)"
proof -
  have "distinct (map zkey (map f rs))" using assms by (simp add: rows_ok_def comp_def)
  moreover have "cname_conflict (map f rs) \<Longrightarrow> cname_conflict rs"
    by (erule cname_conflict_mono) (use assms(2) in auto)
  moreover have "apex_allowed (f r) = apex_allowed r" for r using assms(2) [of r] by (simp add: apex_allowed_def)
  ultimately show ?thesis using assms(1) by (auto simp: rows_ok_def)
qed

text \<open>Names at the apex carry no CNAME, so a new AAAA record there conflicts with none.\<close>

lemma rows_ok_apex:
  assumes "rows_ok rs" "apex_aaaa rs = None" shows "rows_ok (rs @ [vm_apex a])"
proof -
  have "zr_type r \<noteq> RT_CNAME" if "r \<in> set rs" "zr_name r = ''@''" for r
    using assms(1) that by (auto simp: rows_ok_def apex_allowed_def)
  then have "\<not> cname_conflict (rs @ [vm_apex a])"
    using assms(1) unfolding rows_ok_def cname_conflict_def vm_apex_def by fastforce
  moreover have "distinct (map zkey (rs @ [vm_apex a]))"
    using assms by (auto simp: rows_ok_def apex_of_none vm_apex_def)
  moreover have "apex_allowed (vm_apex a)" by (simp add: apex_allowed_def vm_apex_def)
  ultimately show ?thesis using assms(1) by (auto simp: rows_ok_def)
qed

lemma attached_records_ok:
  assumes "rows_ok rs" "attached_records d a rs = Inr rs'"
  shows "rows_ok rs' \<and> apex_managed a rs'"
proof (cases "apex_aaaa rs")
  case None
  with assms have r: "rs' = rs @ [vm_apex a]" by (simp add: attached_records_def)
  have "apex_aaaa rs' = Some (vm_apex a)"
    using None unfolding r by (auto simp: apex_aaaa_def find_append vm_apex_def)
  then have "apex_managed a rs'" by (simp add: apex_managed_def vm_apex_def)
  with rows_ok_apex [OF assms(1) None] r show ?thesis by simp
next
  case (Some r)
  let ?f = "\<lambda>x. if zkey x = apex_key then x\<lparr>zr_ttl := 300, zr_values := [a]\<rparr> else x"
  from Some assms(2) have r: "rs' = map ?f rs" by (auto simp: attached_records_def split: option.splits if_splits)
  have "apex_aaaa (map ?f rs) = map_option ?f (apex_aaaa rs)" by (induction rs) (auto simp: apex_aaaa_def)
  moreover have "zkey r = apex_key" using Some by (auto simp: apex_aaaa_def dest: find_hit)
  ultimately have "apex_managed a rs'" using Some r by (simp add: apex_managed_def)
  moreover have "rows_ok rs'" unfolding r by (rule rows_ok_same_keys [OF assms(1)]) simp
  ultimately show ?thesis by simp
qed

lemma zone_inv_at:
  "zone_inv db \<Longrightarrow> domain_at db fq = Some d \<Longrightarrow> dr_fqdn d = fq \<and> attachment_ok d (zb_records db fq) \<and> rows_ok (zb_records db fq)"
  by (auto simp: zone_inv_def dest!: row_at_Some)

lemma attach_vm_cases:
  assumes "attach_vm owner fq vid ipv6 dns_ok snap db = (y, db')" and "domain_at db fq = Some d"
  obtains "db' = db"
  | rows where "attached_records d ipv6 (zb_records db fq) = Inr rows"
      "db' = commit_zone (d\<lparr>dr_vm := Some vid, dr_vm_ipv6 := Some ipv6\<rparr>) rows db"
proof (cases "owned_domain snap owner fq")
  case None
  with assms that(1) show ?thesis by (simp add: attach_vm_def)
next
  case (Some s)
  show ?thesis
  proof (cases "attached_records d ipv6 (zb_records db fq)")
    case (Inl e)
    with assms Some that(1) show ?thesis by (simp add: attach_vm_def split: if_split_asm)
  next
    case (Inr rows)
    with assms Some have "db' = db \<or> db' = commit_zone (d\<lparr>dr_vm := Some vid, dr_vm_ipv6 := Some ipv6\<rparr>) rows db"
      by (simp add: attach_vm_def split: if_split_asm)
    with that Inr show ?thesis by blast
  qed
qed

lemma detach_vm_cases:
  assumes "detach_vm owner fq vid dns_ok snap db = (y, db')" and "domain_at db fq = Some d"
  obtains "db' = db"
  | "db' = commit_zone (d\<lparr>dr_vm := None, dr_vm_ipv6 := None\<rparr>) (filter (\<lambda>r. zkey r \<noteq> apex_key) (zb_records db fq)) db"
  | "db' = put_domain (d\<lparr>dr_vm := None, dr_vm_ipv6 := None\<rparr>) db"
  using assms by (auto simp: detach_vm_def Let_def split: option.splits if_splits)

lemma claim_vm_attachment_cases:
  assumes "claim_vm_attachment owner nm vid db = (y, db')"
  obtains "db' = db"
  | d where "domain_at db (dr_fqdn d) = Some d" "dr_vm d = None" "db' = put_domain (d\<lparr>dr_vm := Some vid, dr_vm_ipv6 := None\<rparr>) db"
proof (cases "normalize_registrable_domain nm")
  case (Inl p)
  with assms that(1) show ?thesis by (cases p) (simp add: claim_vm_attachment_def)
next
  case (Inr n)
  obtain l t fq where n: "n = (l, t, fq)" by (cases n) auto
  show ?thesis
  proof (cases "owned_domain db owner fq")
    case None
    with assms Inr n that(1) show ?thesis by (simp add: claim_vm_attachment_def)
  next
    case (Some d)
    with assms Inr n have "db' = db \<or> dr_vm d = None \<and> db' = put_domain (d\<lparr>dr_vm := Some vid, dr_vm_ipv6 := None\<rparr>) db"
      by (simp add: claim_vm_attachment_def split: if_split_asm)
    moreover have "domain_at db (dr_fqdn d) = Some d" using owned_domain_at [OF Some] by simp
    ultimately show ?thesis using that by blast
  qed
qed

lemma claim_legacy_domain_cases:
  assumes "claim_legacy_domain sha256 owner nm token db = (z, db')"
  obtains "db' = db"
  | d where "domain_at db (dr_fqdn d) = Some d" "db' = put_domain (d\<lparr>dr_owner := Some owner, dr_anon_hash := None\<rparr>) db"
proof (cases "normalize_registrable_domain nm")
  case (Inl p)
  with assms that(1) show ?thesis by (cases p) (simp add: claim_legacy_domain_def)
next
  case (Inr n)
  obtain l t fq where n: "n = (l, t, fq)" by (cases n) auto
  show ?thesis
  proof (cases "domain_at db fq")
    case None
    with assms Inr n that(1) show ?thesis
      by (cases "lock_customer_owner (zb_accounts db) owner") (simp_all add: claim_legacy_domain_def)
  next
    case (Some d)
    with assms Inr n have "db' = db \<or> db' = put_domain (d\<lparr>dr_owner := Some owner, dr_anon_hash := None\<rparr>) db"
      by (cases "lock_customer_owner (zb_accounts db) owner") (simp_all add: claim_legacy_domain_def Let_def split: if_split_asm)
    moreover have "domain_at db (dr_fqdn d) = Some d" using row_at_Some [OF Some] Some by simp
    ultimately show ?thesis using that by blast
  qed
qed

definition unclaimed :: "string \<Rightarrow> domain_row \<Rightarrow> domain_row" where
  "unclaimed vid d = (if dr_vm d = Some vid \<and> dr_vm_ipv6 d = None then d\<lparr>dr_vm := None\<rparr> else d)"

lemma release_claim_cases:
  assumes "release_vm_attachment_claim vid db = (y, db')"
  obtains "db' = db" | "db' = db\<lparr>zb_domains := map (unclaimed vid) (zb_domains db)\<rparr>"
  using assms unfolding release_vm_attachment_claim_def unclaimed_def by (auto split: list.splits)

text \<open>Updates of the domain rows that leave names, revisions and attachments alone.\<close>

lemma zone_inv_map_domains:
  assumes "zone_inv db" "\<And>d. dr_fqdn (f d) = dr_fqdn d \<and> dr_revision (f d) = dr_revision d"
    and "\<And>d rs. attachment_ok d rs \<Longrightarrow> attachment_ok (f d) rs"
  shows "zone_inv (db\<lparr>zb_domains := map f (zb_domains db)\<rparr>)"
proof -
  have "served_ok (f d) rs pub = served_ok d rs pub" for d rs pub
    using assms(2) [of d] by (cases pub) (simp_all add: served_ok_def)
  with assms show ?thesis by (auto simp: zone_inv_def unique_by_map)
qed

lemma zone_step_inv: "zone_step tidy db db' \<Longrightarrow> zone_inv db \<Longrightarrow> zone_inv db'"
proof (induction rule: zone_step.induct)
  case (changeset cfg digest guard c dns_ok db1 db x db')
  from changeset(1) show ?case
  proof (cases rule: apply_changeset_cases)
    case (3 l t d)
    from changeset_locked_inv [OF changeset(2) 3(3,6)] show ?thesis .
  qed (use changeset in auto)
next
  case (attach owner fq vid ipv6 dns_ok snap db y db')
  show ?case
  proof (cases "domain_at db fq")
    case None
    with attach show ?thesis by (auto simp: attach_vm_def split: option.splits if_splits)
  next
    case (Some d)
    let ?d = "d\<lparr>dr_vm := Some vid, dr_vm_ipv6 := Some ipv6\<rparr>"
    note a = zone_inv_at [OF attach(2) Some]
    from attach(1) Some consider "db' = db"
      | rows where "attached_records d ipv6 (zb_records db fq) = Inr rows" "db' = commit_zone ?d rows db"
      by (rule attach_vm_cases)
    then show ?thesis
    proof cases
      case 1
      with attach(2) show ?thesis by simp
    next
      case (2 rows)
      from attached_records_ok [OF _ 2(1)] a have r: "rows_ok rows" "attachment_ok ?d rows" by (auto simp: attachment_ok_def)
      have "domain_at db (dr_fqdn ?d) = Some d" using Some a by simp
      from zone_inv_commit [OF attach(2) this r] 2(2) show ?thesis by simp
    qed
  qed
next
  case (detach owner fq vid dns_ok snap db y db')
  show ?case
  proof (cases "domain_at db fq")
    case None
    with detach show ?thesis by (auto simp: detach_vm_def split: option.splits)
  next
    case (Some d)
    let ?d = "d\<lparr>dr_vm := None, dr_vm_ipv6 := None\<rparr>" let ?rows = "filter (\<lambda>r. zkey r \<noteq> apex_key) (zb_records db fq)"
    note a = zone_inv_at [OF detach(2) Some]
    from detach(1) Some consider "db' = db" | "db' = commit_zone ?d ?rows db" | "db' = put_domain ?d db"
      by (rule detach_vm_cases)
    then show ?thesis
    proof cases
      case 1
      with detach(2) show ?thesis by simp
    next
      case 2
      have "domain_at db (dr_fqdn ?d) = Some d" "rows_ok ?rows" "attachment_ok ?d ?rows"
        using Some a rows_ok_filter by (simp_all add: attachment_ok_def)
      from zone_inv_commit [OF detach(2) this] 2 show ?thesis by simp
    next
      case 3
      have "domain_at db (dr_fqdn ?d) = Some d" "attachment_ok ?d (zb_records db (dr_fqdn ?d))"
        using Some a by (simp_all add: attachment_ok_def)
      from zone_inv_put [OF detach(2) this(1) _ this(2)] 3 show ?thesis by simp
    qed
  qed
next
  case (claim owner nm vid db y db')
  from claim(1) consider "db' = db"
    | d where "domain_at db (dr_fqdn d) = Some d" "dr_vm d = None" "db' = put_domain (d\<lparr>dr_vm := Some vid, dr_vm_ipv6 := None\<rparr>) db"
    by (rule claim_vm_attachment_cases)
  then show ?case
  proof cases
    case (2 d)
    with zone_inv_put [of db "d\<lparr>dr_vm := Some vid, dr_vm_ipv6 := None\<rparr>" d] claim(2) show ?thesis
      by (simp add: attachment_ok_def)
  qed (use claim in simp)
next
  case (release vid db y db')
  from release(1) show ?case
  proof (cases rule: release_claim_cases)
    case 2
    show ?thesis unfolding 2
      by (rule zone_inv_map_domains [OF release(2)]) (auto simp: unclaimed_def attachment_ok_def)
  qed (use release in simp)
next
  case (handover sha256 owner nm token db z db')
  from handover(1) consider "db' = db"
    | d where "domain_at db (dr_fqdn d) = Some d" "db' = put_domain (d\<lparr>dr_owner := Some owner, dr_anon_hash := None\<rparr>) db"
    by (rule claim_legacy_domain_cases)
  then show ?case
  proof cases
    case (2 d)
    with zone_inv_put [of db "d\<lparr>dr_owner := Some owner, dr_anon_hash := None\<rparr>" d] zone_inv_at [OF handover(2) 2(1)] handover(2)
    show ?thesis by (simp add: attachment_ok_def)
  qed (use handover in simp)
next
  case (renewals now window due db n db')
  have f: "dr_fqdn (refreshed now window due d) = dr_fqdn d" "dr_revision (refreshed now window due d) = dr_revision d"
    "dr_vm (refreshed now window due d) = dr_vm d" "dr_vm_ipv6 (refreshed now window due d) = dr_vm_ipv6 d" for d
    by (simp_all add: refreshed_def split: option.splits)
  from renewals zone_inv_map_domains [of db "refreshed now window due"] show ?case
    by (auto simp: refresh_renewal_states_def f attachment_ok_def)
qed


subsection \<open>One winner per revision\<close>

lemma find_idem_new:
  assumes "find_idem db owner kind key = None" "id_owner i = owner" "id_kind i = kind" "id_key i = key"
    and "zb_idem db' = zb_idem db @ [i]"
  shows "find_idem db' owner kind key = Some i"
proof -
  have "find (\<lambda>i. id_owner i = owner \<and> id_kind i = kind \<and> id_key i = key) (zb_idem db) = None"
    using assms(1) by (simp add: find_idem_def)
  with assms(2-5) show ?thesis by (simp add: find_idem_def find_append)
qed

text \<open>C23: a changeset that commits moves the zone from the revision it named to the next one and publishes and
  returns the rows it stored; sent again with its key it returns the same response and changes nothing; any other changeset prepared for the same revision fails without a change.\<close>

theorem changeset_exactly_once:
  assumes "apply_changeset tidy cfg digest guard c dns_ok db1 db = (Inr resp, db')"
    and "\<forall>i \<in> set (zb_idem db1) \<union> set (zb_idem db). id_owner i \<noteq> cs_owner c \<or> id_key i \<noteq> cs_key c"
    and "changeset_fence guard (zb_accounts db) (cs_owner c) = Inr ()"
  shows "\<exists>d. owned_domain db (cs_owner c) (zp_domain resp) = Some d \<and> dr_revision d = cs_expected c \<and>
     zp_revision resp = cs_expected c + 1 \<and> mset (zp_records resp) = mset (zb_records db' (zp_domain resp)) \<and>
     zb_published db' = zb_published db @ [(zp_domain resp, zp_revision resp, zb_records db' (zp_domain resp))] \<and>
     domain_at db' (zp_domain resp) = Some (d\<lparr>dr_revision := zp_revision resp\<rparr>) \<and>
     (\<forall>ok. apply_changeset tidy cfg digest guard c ok db' db' = (Inr resp, db')) \<and>
     (\<forall>c' ok. normalize_registrable_domain (cs_domain c') = normalize_registrable_domain (cs_domain c) \<longrightarrow>
        cs_expected c' = cs_expected c \<longrightarrow> cs_owner c' = cs_owner c \<longrightarrow>
        find_idem db' (cs_owner c') (idem_kind (zp_domain resp)) (cs_key c') = None \<longrightarrow>
        (\<exists>e. apply_changeset tidy cfg digest guard c' ok db' db' = (Inl e, db')))"
  using assms(1)
proof (cases rule: apply_changeset_cases)
  case (2 i h)
  with assms(2) show ?thesis by auto
next
  case (3 l t d)
  let ?h = "digest (dr_fqdn d, cs_expected c, cs_changes c)"
  from 3(6) show ?thesis
  proof (cases rule: changeset_locked_cases)
    case z: (3 rows gone)
    let ?rs = "map (fst \<circ> snd) rows" let ?d = "d\<lparr>dr_revision := dr_revision d + 1\<rparr>"
    from z have resp: "zp_domain resp = dr_fqdn d" "zp_revision resp = dr_revision d + 1" "zp_records resp = sort_key zone_order ?rs"
      by (simp_all add: zone_response_of_def)
    have db': "zb_records db' (dr_fqdn d) = ?rs" "zb_accounts db' = zb_accounts db"
      "zb_published db' = zb_published db @ [(dr_fqdn d, dr_revision d + 1, ?rs)]" "domain_at db' (dr_fqdn d) = Some ?d"
      using z(7) 3(3) by (simp_all add: commit_zone_def row_at_put)
    obtain i where i: "zb_idem db' = zb_idem db @ [i]" "id_owner i = cs_owner c" "id_kind i = idem_kind (dr_fqdn d)"
      "id_key i = cs_key c" "id_hash i = ?h" "id_response i = resp" using z by (simp add: commit_zone_def)
    have f: "find_idem db' (cs_owner c) (idem_kind (dr_fqdn d)) (cs_key c) = Some i"
      using find_idem_new [OF 3(4) i(2-4,1)] .
    have again: "apply_changeset tidy cfg digest guard c ok db' db' = (Inr resp, db')" for ok
      using 3(1,5) assms(3) f i by (simp add: apply_changeset_def Let_def db' replay_def)
    have o1: "owned_domain db' (cs_owner c) (dr_fqdn d) = Some ?d"
      using owned_domain_at [OF 3(2)] db'(4) by (simp add: owned_domain_def)
    have stale: "\<exists>e. apply_changeset tidy cfg digest guard c' ok db' db' = (Inl e, db')"
      if "normalize_registrable_domain (cs_domain c') = normalize_registrable_domain (cs_domain c)"
        "cs_expected c' = cs_expected c" "cs_owner c' = cs_owner c"
        "find_idem db' (cs_owner c') (idem_kind (zp_domain resp)) (cs_key c') = None" for c' ok
      using that 3(1) z(2) assms(3) o1 resp(1) by (auto simp: apply_changeset_def Let_def db' changeset_locked_def)
    show ?thesis
      using 3(2) z(2) db' again stale resp by (intro exI [of _ d]) (simp add: z(2))
  qed auto
qed simp_all

subsection \<open>Witnesses\<close>

definition demo_zone_domain :: domain_row where
  "demo_zone_domain = \<lparr>dr_fqdn = ''a.io'', dr_name = ''a'', dr_extension = ''io'', dr_owner = Some ''acc'', dr_wallet = ''w'',
     dr_anon_hash = None, dr_status = D_ACTIVE, dr_client_order = None, dr_provider_id = Some 7, dr_provider_status = None,
     dr_marker = None, dr_vm = None, dr_vm_ipv6 = None, dr_mode = NS_MANAGED, dr_nameservers = [],
     dr_dnssec_mode = SEC_OFF, dr_dnssec_status = ''off'', dr_revision = 1, dr_can_renew = False, dr_expires_at = None,
     dr_error = None\<rparr>"

definition demo_zone :: zone_db where
  "demo_zone = \<lparr>zb_domains = [demo_zone_domain], zb_records = (\<lambda>_. []), zb_idem = [], zb_accounts = Map.empty,
     zb_published = []\<rparr>"

definition demo_change :: changeset where
  "demo_change = \<lparr>cs_owner = ''acc'', cs_domain = ''A.io'', cs_expected = 1,
     cs_changes = [(UPSERT, \<lparr>zr_name = ''@'', zr_type = RT_A, zr_ttl = 60, zr_values = [''192.0.2.1'']\<rparr>)], cs_key = ''k1''\<rparr>"

definition demo_zone_cfg :: zone_cfg where
  "demo_zone_cfg = \<lparr>zc_max_changes = 100, zc_max_rrsets = 500\<rparr>"

abbreviation demo_apply :: "changeset \<Rightarrow> (zone_exn + zone_response) \<times> zone_db" where
  "demo_apply c \<equiv> apply_changeset (\<lambda>ty z v. Some v) demo_zone_cfg (\<lambda>_. ''h'') (Some (Inr ())) c True demo_zone demo_zone"

lemma demo_zone_inv: "zone_inv demo_zone"
  by (simp add: zone_inv_def demo_zone_def unique_by_def rows_ok_def cname_conflict_def attachment_ok_def
      demo_zone_domain_def served_ok_def latest_def)

lemma demo_applied: "\<exists>resp db'. demo_apply demo_change = (Inr resp, db') \<and> zp_domain resp = ''a.io''"
proof -
  have n: "normalize_registrable_domain ''A.io'' = Inr (''a'', ''io'', ''a.io'')" by code_simp
  have r: "normalize_record_name ''@'' ''a.io'' = Inr ''@''" by code_simp
  have v: "strip ''192.0.2.1'' = ''192.0.2.1''" "\<not> bad_value ''192.0.2.1''" by code_simp+
  show ?thesis
    by (simp add: apply_changeset_def demo_change_def n changeset_fence_def demo_zone_cfg_def find_idem_def demo_zone_def
      owned_domain_def demo_zone_domain_def changeset_locked_def apply_change_def validate_rrset_def r v cname_conflict_def
      zone_response_of_def Let_def)
qed


theorem changeset_exactly_once_witness:
  "\<exists>resp db'. demo_apply demo_change = (Inr resp, db') \<and> zp_revision resp = 2 \<and>
     apply_changeset (\<lambda>ty z v. Some v) demo_zone_cfg (\<lambda>_. ''h'') (Some (Inr ())) demo_change False db' db' = (Inr resp, db')"
proof -
  obtain resp db' where a: "demo_apply demo_change = (Inr resp, db')" using demo_applied by blast
  have "\<forall>i \<in> set (zb_idem demo_zone) \<union> set (zb_idem demo_zone). id_owner i \<noteq> cs_owner demo_change \<or> id_key i \<noteq> cs_key demo_change"
    "changeset_fence (Some (Inr ())) (zb_accounts demo_zone) (cs_owner demo_change) = Inr ()"
    by (simp_all add: demo_zone_def changeset_fence_def)
  from changeset_exactly_once [OF a this] a show ?thesis by (auto simp: demo_change_def)
qed

text \<open>A record set deleted and added again in one changeset is published, refused with the wrong code, and not stored.\<close>

definition demo_stored :: zone_db where
  "demo_stored = demo_zone\<lparr>zb_records := (\<lambda>_. [])(''a.io'' := [snd (hd (cs_changes demo_change))])\<rparr>"

lemma readded_rrset_published_not_stored:
  "case apply_changeset (\<lambda>ty z v. Some v) demo_zone_cfg (\<lambda>_. ''h'') (Some (Inr ()))
       (demo_change\<lparr>cs_changes := [(DELETE, snd (hd (cs_changes demo_change))), hd (cs_changes demo_change)]\<rparr>) True demo_stored demo_stored of
     (r, db') \<Rightarrow> r = Inl (Zone_Problem 409 ''idempotency_conflict'') \<and> zb_domains db' = zb_domains demo_stored \<and>
       zb_published db' = [(''a.io'', 2, [snd (hd (cs_changes demo_change))])]"
proof -
  have n: "normalize_registrable_domain ''A.io'' = Inr (''a'', ''io'', ''a.io'')" by code_simp
  have r: "normalize_record_name ''@'' ''a.io'' = Inr ''@''" by code_simp
  have v: "strip ''192.0.2.1'' = ''192.0.2.1''" "\<not> bad_value ''192.0.2.1''" by code_simp+
  show ?thesis
    by (simp add: apply_changeset_def demo_stored_def demo_change_def n changeset_fence_def demo_zone_cfg_def find_idem_def demo_zone_def
      owned_domain_def demo_zone_domain_def changeset_locked_def apply_change_def validate_rrset_def r v cname_conflict_def
      zone_response_of_def Let_def)
qed

end
