(* ===== verification/Effects.thy ===== *)
theory Effects
  imports Prelude
begin

text \<open>
  Programs of several transactions and external calls. Such a program may raise, and its process may die between
  any two actions: a state is the number of actions left before that, with the world. Committed transactions
  survive. Triples state what holds when a program returns, raises or dies.
\<close>

datatype ('e, 'a) res = Done 'a | Raised 'e | Died

type_synonym ('w, 'e, 'a) act = "nat \<times> 'w \<Rightarrow> ('e, 'a) res \<times> nat \<times> 'w"

definition give :: "'a \<Rightarrow> ('w, 'e, 'a) act" where
  "give a s = (Done a, s)"

definition throw :: "'e \<Rightarrow> ('w, 'e, 'a) act" where
  "throw e s = (Raised e, s)"

text \<open>A read of the world, and one action: a transaction, or a call with its effect on the world.\<close>

definition look :: "('w \<Rightarrow> ('w, 'e, 'a) act) \<Rightarrow> ('w, 'e, 'a) act" where
  "look f s = f (snd s) s"

definition atomic :: "('w \<Rightarrow> ('e + 'a) \<times> 'w) \<Rightarrow> ('w, 'e, 'a) act" where
  "atomic f s =
     (case s of
        (0, w) \<Rightarrow> (Died, 0, w)
      | (Suc n, w) \<Rightarrow> (case f w of (Inl e, w') \<Rightarrow> (Raised e, n, w') | (Inr a, w') \<Rightarrow> (Done a, n, w')))"

definition next_act :: "('w, 'e, 'a) act \<Rightarrow> ('a \<Rightarrow> ('w, 'e, 'b) act) \<Rightarrow> ('w, 'e, 'b) act" where
  "next_act m k s = (case m s of (Done a, s') \<Rightarrow> k a s' | (Raised e, s') \<Rightarrow> (Raised e, s') | (Died, s') \<Rightarrow> (Died, s'))"

definition after :: "('w, 'e, 'a) act \<Rightarrow> ('w, 'e, 'b) act \<Rightarrow> ('w, 'e, 'b) act" where
  "after m k = next_act m (\<lambda>_. k)"

text \<open>\<^verbatim>\<open>try: m  except Exception as e: h e\<close>; the death of the process is no exception.\<close>

definition attempt :: "('w, 'e, 'a) act \<Rightarrow> ('e \<Rightarrow> ('w, 'e, 'a) act) \<Rightarrow> ('w, 'e, 'a) act" where
  "attempt m h s = (case m s of (Raised e, s') \<Rightarrow> h e s' | r \<Rightarrow> r)"

text \<open>\<^verbatim>\<open>try: m  except Exception as e: h e  else: k a\<close>; an exception of \<open>k\<close> is not caught.\<close>

definition attempt_else ::
    "('w, 'e, 'a) act \<Rightarrow> ('e \<Rightarrow> ('w, 'e, 'b) act) \<Rightarrow> ('a \<Rightarrow> ('w, 'e, 'b) act) \<Rightarrow> ('w, 'e, 'b) act" where
  "attempt_else m h k s = (case m s of (Raised e, s') \<Rightarrow> h e s' | (Done a, s') \<Rightarrow> k a s' | (Died, s') \<Rightarrow> (Died, s'))"

subsection \<open>Triples\<close>

definition triple ::
    "('w \<Rightarrow> bool) \<Rightarrow> ('w, 'e, 'a) act \<Rightarrow> ('a \<Rightarrow> 'w \<Rightarrow> bool) \<Rightarrow> ('w \<Rightarrow> bool) \<Rightarrow> ('w \<Rightarrow> bool) \<Rightarrow> bool" where
  "triple P m Q R D \<longleftrightarrow> (\<forall>n w. P w \<longrightarrow>
     (case m (n, w) of (Done a, _, w') \<Rightarrow> Q a w' | (Raised e, _, w') \<Rightarrow> R w' | (Died, _, w') \<Rightarrow> D w'))"

lemma tripleI:
  assumes "\<And>n w. P w \<Longrightarrow> (case m (n, w) of (Done a, _, w') \<Rightarrow> Q a w' | (Raised e, _, w') \<Rightarrow> R w' | (Died, _, w') \<Rightarrow> D w')"
  shows "triple P m Q R D"
  using assms by (simp add: triple_def)

lemma tripleD:
  assumes "triple P m Q R D" "P w" "m (n, w) = (r, n', w')"
  shows "case r of Done a \<Rightarrow> Q a w' | Raised e \<Rightarrow> R w' | Died \<Rightarrow> D w'"
proof -
  note assms(1) [unfolded triple_def, rule_format, OF assms(2), of n]
  with assms(3) show ?thesis by (cases r) simp_all
qed

lemma triple_conseq:
  assumes "triple P m Q R D" "\<And>w. P' w \<Longrightarrow> P w" "\<And>a w. Q a w \<Longrightarrow> Q' a w" "\<And>w. R w \<Longrightarrow> R' w" "\<And>w. D w \<Longrightarrow> D' w"
  shows "triple P' m Q' R' D'"
proof (rule tripleI)
  fix n w assume "P' w"
  then have "P w" by (rule assms(2))
  obtain r n' w' where m: "m (n, w) = (r, n', w')" by (metis prod_cases3)
  from tripleD [OF assms(1) \<open>P w\<close> m] assms(3-5) m
  show "case m (n, w) of (Done a, _, w') \<Rightarrow> Q' a w' | (Raised e, _, w') \<Rightarrow> R' w' | (Died, _, w') \<Rightarrow> D' w'"
    by (cases r) auto
qed

lemma triple_give: "(\<And>w. P w \<Longrightarrow> Q a w) \<Longrightarrow> triple P (give a) Q R D"
  by (simp add: triple_def give_def)

lemma triple_throw: "(\<And>w. P w \<Longrightarrow> R w) \<Longrightarrow> triple P (throw e) Q R D"
  by (simp add: triple_def throw_def)

lemma triple_look: "(\<And>w0. triple (\<lambda>w. P w \<and> w = w0) (f w0) Q R D) \<Longrightarrow> triple P (look f) Q R D"
  by (simp add: triple_def look_def)

lemma triple_atomic:
  assumes "\<And>w. P w \<Longrightarrow> D w" "\<And>w a w'. P w \<Longrightarrow> f w = (Inr a, w') \<Longrightarrow> Q a w'" "\<And>w e w'. P w \<Longrightarrow> f w = (Inl e, w') \<Longrightarrow> R w'"
  shows "triple P (atomic f) Q R D"
proof (rule tripleI)
  fix n w assume p: "P w"
  obtain x w' where f: "f w = (x, w')" by fastforce
  show "case atomic f (n, w) of (Done a, _, w') \<Rightarrow> Q a w' | (Raised e, _, w') \<Rightarrow> R w' | (Died, _, w') \<Rightarrow> D w'"
    using assms p f by (cases n; cases x) (auto simp: atomic_def)
qed

lemma triple_next:
  assumes "triple P m Q' R D" "\<And>a. triple (Q' a) (k a) Q R D"
  shows "triple P (next_act m k) Q R D"
proof (rule tripleI)
  fix n w assume p: "P w"
  obtain r n' w' where m: "m (n, w) = (r, n', w')" by (metis prod_cases3)
  from tripleD [OF assms(1) p m] assms(2)
  show "case next_act m k (n, w) of (Done a, _, w') \<Rightarrow> Q a w' | (Raised e, _, w') \<Rightarrow> R w' | (Died, _, w') \<Rightarrow> D w'"
    by (cases r) (simp_all add: next_act_def m triple_def)
qed

lemma triple_after:
  "triple P m (\<lambda>_. Q') R D \<Longrightarrow> triple Q' k Q R D \<Longrightarrow> triple P (after m k) Q R D"
  unfolding after_def by (rule triple_next)

lemma triple_attempt_else:
  assumes "triple P m Q' R' D" "\<And>e. triple R' (h e) Q R D" "\<And>a. triple (Q' a) (k a) Q R D"
  shows "triple P (attempt_else m h k) Q R D"
proof (rule tripleI)
  fix n w assume p: "P w"
  obtain r n' w' where m: "m (n, w) = (r, n', w')" by (metis prod_cases3)
  from tripleD [OF assms(1) p m] assms(2,3)
  show "case attempt_else m h k (n, w) of (Done a, _, w') \<Rightarrow> Q a w' | (Raised e, _, w') \<Rightarrow> R w' | (Died, _, w') \<Rightarrow> D w'"
    by (cases r) (simp_all add: attempt_else_def m triple_def)
qed

lemma attempt_via_else: "attempt m h = attempt_else m h give"
  by (rule ext) (simp add: attempt_def attempt_else_def give_def split: prod.splits res.splits)

lemma triple_attempt:
  "triple P m Q R' D \<Longrightarrow> (\<And>e. triple R' (h e) Q R D) \<Longrightarrow> triple P (attempt m h) Q R D"
  unfolding attempt_via_else by (rule triple_attempt_else) (auto intro: triple_give)

lemma triple_if:
  "(b \<Longrightarrow> triple P m Q R D) \<Longrightarrow> (\<not> b \<Longrightarrow> triple P m' Q R D) \<Longrightarrow> triple P (if b then m else m') Q R D"
  by simp

lemma triple_pre: "triple P m Q R D \<Longrightarrow> (\<And>w. P' w \<Longrightarrow> P w) \<Longrightarrow> triple P' m Q R D"
  by (rule triple_conseq)

lemma triple_false: "(\<And>w. \<not> P w) \<Longrightarrow> triple P m Q R D"
  by (simp add: triple_def)

text \<open>A program that keeps a property whatever happens.\<close>

abbreviation keeps :: "('w \<Rightarrow> bool) \<Rightarrow> ('w, 'e, 'a) act \<Rightarrow> bool" where
  "keeps P m \<equiv> triple P m (\<lambda>_. P) P P"

lemma keeps_next: "keeps P m \<Longrightarrow> (\<And>a. keeps P (k a)) \<Longrightarrow> keeps P (next_act m k)"
  by (rule triple_next)

lemma keeps_atomic: "(\<And>w x w'. P w \<Longrightarrow> f w = (x, w') \<Longrightarrow> P w') \<Longrightarrow> keeps P (atomic f)"
  by (rule triple_atomic) auto

lemma keeps_look: "(\<And>w0. keeps P (f w0)) \<Longrightarrow> keeps P (look f)"
  by (auto simp: triple_def look_def)

lemma keeps_give: "keeps P (give a)" and keeps_throw: "keeps P (throw e)"
  by (simp_all add: triple_def give_def throw_def)

lemma keeps_attempt: "keeps P m \<Longrightarrow> (\<And>e. keeps P (h e)) \<Longrightarrow> keeps P (attempt m h)"
  by (rule triple_attempt)

lemma keeps_attempt_else: "keeps P m \<Longrightarrow> (\<And>e. keeps P (h e)) \<Longrightarrow> (\<And>a. keeps P (k a)) \<Longrightarrow> keeps P (attempt_else m h k)"
  by (rule triple_attempt_else)

lemma keeps_after: "keeps P m \<Longrightarrow> keeps P k \<Longrightarrow> keeps P (after m k)"
  by (rule triple_after)

lemma keeps_if: "keeps P m \<Longrightarrow> keeps P m' \<Longrightarrow> keeps P (if b then m else m')"
  by simp

lemma triple_option:
  "(x = None \<Longrightarrow> triple P m Q R D) \<Longrightarrow> (\<And>y. x = Some y \<Longrightarrow> triple P (k y) Q R D) \<Longrightarrow>
     triple P (case x of None \<Rightarrow> m | Some y \<Rightarrow> k y) Q R D"
  by (cases x) simp_all

lemma triple_sum:
  "(\<And>y. x = Inl y \<Longrightarrow> triple P (m y) Q R D) \<Longrightarrow> (\<And>y. x = Inr y \<Longrightarrow> triple P (k y) Q R D) \<Longrightarrow>
     triple P (case x of Inl y \<Rightarrow> m y | Inr y \<Rightarrow> k y) Q R D"
  by (cases x) simp_all

lemma triple_prod: "(\<And>a b. x = (a, b) \<Longrightarrow> triple P (k a b) Q R D) \<Longrightarrow> triple P (case x of (a, b) \<Rightarrow> k a b) Q R D"
  by (cases x) simp

lemma triple_bool:
  "(b \<Longrightarrow> triple P m Q R D) \<Longrightarrow> (\<not> b \<Longrightarrow> triple P m' Q R D) \<Longrightarrow> triple P (case b of True \<Rightarrow> m | False \<Rightarrow> m') Q R D"
  by (cases b) simp_all

lemmas triple_splits = triple_option triple_sum triple_prod triple_bool triple_if

lemmas keeps_rules = keeps_next keeps_atomic keeps_look keeps_give keeps_throw keeps_attempt keeps_attempt_else
  keeps_after keeps_if

end
