(* ===== verification/Domain_Fulfil.thy ===== *)
theory Domain_Fulfil
  imports Domain_Zone Effects
begin

text \<open>
  The fulfilment of paid domain orders (\<^verbatim>\<open>domains/service.py\<close>): registration and renewal at the registrar, the
  bundle's VM, refunds of orders that fail, the reconciliation of pending ones and the job queue that drives
  them. Every transaction and every remote call is one action, and the process may die between two. The replies
  of the registrar and of the DNS control plane are a function \<open>reg\<close> of the calls made so far and the new one;
  the history of calls is part of the world.
\<close>

subsection \<open>The world\<close>

datatype remote_call =
  C_Check string string | C_Search string string | C_Get int
| C_Register string string string      \<comment> \<open>order, name, extension\<close>
| C_Renew string int                   \<comment> \<open>order, registrar id\<close>
| C_Tld string | C_Apply_Zone string int | C_Dnskeys string | C_Nameservers int "string list" | C_Set_Keys int

datatype fexn =
  F_Problem string string              \<comment> \<open>\<^verbatim>\<open>DomainProblem\<close>: code, detail\<close>
| F_Provider bool string string        \<comment> \<open>\<^verbatim>\<open>OpenproviderError\<close>: retryable, code, text\<close>
| F_Dns bool string string             \<comment> \<open>\<^verbatim>\<open>DNSControlError\<close>\<close>
| F_Other string

record reply =
  rp_found :: bool
  rp_premium :: bool
  rp_available :: bool
  rp_price :: "decimal option"
  rp_currency :: string
  rp_id :: "int option"
  rp_status :: string
  rp_expiry :: "int option"

type_synonym registrar = "remote_call list \<Rightarrow> remote_call \<Rightarrow> fexn + reply"

record world =
  fw_od :: order_db
  fw_zone :: zone_db
  fw_vms :: vm_db
  fw_calls :: "remote_call list"
  fw_inflight :: "string set"

type_synonym 'a run = "(world, fexn, 'a) act"

record fulfil_cfg =
  fc_markup :: domain_markup
  fc_fx :: "string \<Rightarrow> decimal option"    \<comment> \<open>rates service; \<open>None\<close>: it raises\<close>
  fc_nameservers :: "string list"
  fc_reconcile_delay :: int
  fc_lock_timeout :: int
  fc_wired :: bool
  fc_store :: store_cfg

text \<open>The clock and the generated values of one run.\<close>

record fulfil_env =
  fe_now :: int
  fe_event_id :: string
  fe_job_id :: string
  fe_vm_id :: string
  fe_gen :: string
  fe_tok :: string
  fe_anon :: string
  fe_capacity :: "capacity option"

abbreviation w_order :: "world \<Rightarrow> string \<Rightarrow> domain_order option" where
  "w_order w oid \<equiv> order_at (fw_od w) oid"

abbreviation w_domain :: "world \<Rightarrow> string \<Rightarrow> domain_row option" where
  "w_domain w fq \<equiv> domain_at (fw_zone w) fq"

abbreviation set_order :: "domain_order \<Rightarrow> world \<Rightarrow> world" where
  "set_order o1 w \<equiv> w\<lparr>fw_od := put_order o1 (fw_od w)\<rparr>"

abbreviation set_domain :: "domain_row \<Rightarrow> world \<Rightarrow> world" where
  "set_domain d w \<equiv> w\<lparr>fw_zone := put_domain d (fw_zone w)\<rparr>"

definition commit :: "(world \<Rightarrow> world) \<Rightarrow> unit run" where
  "commit f = atomic (\<lambda>w. (Inr (), f w))"

definition remote :: "registrar \<Rightarrow> remote_call \<Rightarrow> reply run" where
  "remote reg c = atomic (\<lambda>w. (reg (fw_calls w) c, w\<lparr>fw_calls := fw_calls w @ [c]\<rparr>))"

text \<open>An update of an order, a domain or an operation that may have disappeared.\<close>

definition with_order :: "string \<Rightarrow> (domain_order \<Rightarrow> domain_order) \<Rightarrow> world \<Rightarrow> world" where
  "with_order oid f w = (case w_order w oid of None \<Rightarrow> w | Some o1 \<Rightarrow> set_order (f o1) w)"

definition with_domain :: "string \<Rightarrow> (domain_row \<Rightarrow> domain_row) \<Rightarrow> world \<Rightarrow> world" where
  "with_domain fq f w = (case w_domain w fq of None \<Rightarrow> w | Some d \<Rightarrow> set_domain (f d) w)"

definition with_operation :: "string option \<Rightarrow> (operation \<Rightarrow> operation) \<Rightarrow> world \<Rightarrow> world" where
  "with_operation i f w =
     (case i of None \<Rightarrow> w
      | Some k \<Rightarrow> w\<lparr>fw_od := (fw_od w)\<lparr>od_operations := alter_row op_id k f (od_operations (fw_od w))\<rparr>\<rparr>)"

definition active_status :: "string \<Rightarrow> bool" where
  "active_status s \<longleftrightarrow> s \<in> {''ACT'', ''ACTIVE''}"

definition zone_error :: "zone_exn \<Rightarrow> fexn" where
  "zone_error e = (case e of Zone_Problem s c \<Rightarrow> F_Problem c c | Zone_Runtime t \<Rightarrow> F_Other t | Not_Persisted \<Rightarrow> F_Other [])"

definition exn_code :: "string \<Rightarrow> fexn \<Rightarrow> string" where
  "exn_code d e = (case e of F_Problem c t \<Rightarrow> c | F_Provider r c t \<Rightarrow> c | F_Dns r c t \<Rightarrow> c | F_Other t \<Rightarrow> d)"

definition exn_text :: "fexn \<Rightarrow> string" where
  "exn_text e = (case e of F_Problem c t \<Rightarrow> t | F_Provider r c t \<Rightarrow> t | F_Dns r c t \<Rightarrow> t | F_Other t \<Rightarrow> t)"

subsection \<open>The bundle's VM\<close>

text \<open>The VM operations see the domain rows through the link to a VM; what they unlink is written back.\<close>

definition link_of :: "domain_row \<Rightarrow> domain_link" where
  "link_of d = \<lparr>dl_domain = dr_fqdn d, dl_vm = dr_vm d, dl_ipv6 = dr_vm_ipv6 d\<rparr>"

definition release_reservation :: "string \<Rightarrow> world \<Rightarrow> world" where
  "release_reservation vid w =
     (let vms = release_vm_reservation vid ((fw_vms w)\<lparr>vd_domains := map link_of (zb_domains (fw_zone w))\<rparr>) in
      w\<lparr>fw_vms := vms,
        fw_zone := (fw_zone w)\<lparr>zb_domains :=
          map (\<lambda>(d, l). d\<lparr>dr_vm := dl_vm l\<rparr>) (zip (zb_domains (fw_zone w)) (vd_domains vms))\<rparr>\<rparr>)"

definition plan_bundle :: "fulfil_env \<Rightarrow> string \<Rightarrow> (domain_order \<times> quote_row \<times> string) option run" where
  "plan_bundle env oid =
     atomic (\<lambda>w. case w_order w oid of
        None \<Rightarrow> (Inr None, w)
      | Some o1 \<Rightarrow>
        if \<not> truthy (do_vm_quote o1) then (Inr None, w)
        else case od_vm_quotes (fw_od w) (the (do_vm_quote o1)) of
          None \<Rightarrow> (Inl (F_Other ''the bundle VM quote disappeared''), w)
        | Some q \<Rightarrow>
          let o2 = (if truthy (q_vm_id q) then o1\<lparr>do_vm := q_vm_id q\<rparr>
                    else if \<not> truthy (do_vm o1) then o1\<lparr>do_vm := Some (fe_vm_id env)\<rparr> else o1)
          in (Inr (Some (o2, q, the (do_vm o2))), set_order o2 w))"

definition bundle_spec :: "bool \<Rightarrow> quote_row \<Rightarrow> vm_create_request" where
  "bundle_spec fallback q = (if fallback then (q_payload q)\<lparr>o_domain_mode := AUTO, o_domain := None\<rparr> else q_payload q)"

definition claim_for_bundle :: "domain_order \<Rightarrow> string \<Rightarrow> unit run" where
  "claim_for_bundle o1 planned =
     atomic (\<lambda>w. case do_owner o1 of
        None \<Rightarrow> (Inl (F_Problem ''domain_not_found'' ''domain_not_found''), w)
      | Some a \<Rightarrow> (case claim_vm_attachment a (do_fqdn o1) planned (fw_zone w) of
          (Inl e, z) \<Rightarrow> (Inl (zone_error e), w)
        | (Inr _, z) \<Rightarrow> (Inr (), w\<lparr>fw_zone := z\<rparr>)))"

definition reserve_bundle ::
    "fulfil_cfg \<Rightarrow> fulfil_env \<Rightarrow> vm_create_request \<Rightarrow> domain_order \<Rightarrow> quote_row \<Rightarrow> string \<Rightarrow> string run" where
  "reserve_bundle cfg env spec o1 q planned =
     atomic (\<lambda>w.
       let db = fw_vms w;
           turn = \<lparr>it_generated_id = planned, it_gen = fe_gen env, it_tok = fe_tok env, it_read = db, it_commit = db\<rparr>
       in case reserve_vm_with_capacity (fc_store cfg) spec (do_owner o1) (Some planned) (q_snapshot q)
              (q_snapshot q = None) (fe_capacity env) (fe_anon env) (fe_now env) db db (replicate 5 turn) of
            (Inl e, _) \<Rightarrow> (Inl (F_Other ''reservation''), w)
          | (Inr (row, _), db') \<Rightarrow> (Inr (vm_id row), (case db' of None \<Rightarrow> w | Some d \<Rightarrow> w\<lparr>fw_vms := d\<rparr>)))"

definition activate_bundle :: "fulfil_cfg \<Rightarrow> fulfil_env \<Rightarrow> domain_order \<Rightarrow> string \<Rightarrow> vm_row run" where
  "activate_bundle cfg env o1 vid =
     atomic (\<lambda>w.
       let a = \<lparr>aa_vm_id = vid, aa_wallet = or_str (do_payer o1) (do_id o1),
             aa_settlement = \<lparr>si_retail = Some (do_vm_amount o1), si_admin_waived = (do_mode o1 = ''admin_waived''),
               si_tx = do_tx o1\<rparr>, aa_owner = None, aa_start = False, aa_guard_ok = True\<rparr>
       in case activate_vm_reservation (fc_store cfg) a (fe_now env) (fe_gen env) (fe_tok env) (fw_vms w) (fw_vms w) of
            (Inl e, _) \<Rightarrow> (Inl (F_Other ''activation''), w)
          | (Inr None, _) \<Rightarrow> (Inl (F_Other ''the bundle VM reservation disappeared''), w)
          | (Inr (Some row), db) \<Rightarrow> (Inr row, w\<lparr>fw_vms := db\<rparr>))"

definition release_claim :: "string \<Rightarrow> unit run" where
  "release_claim planned =
     atomic (\<lambda>w. case release_vm_attachment_claim planned (fw_zone w) of
        (Inl e, z) \<Rightarrow> (Inl (zone_error e), w) | (Inr _, z) \<Rightarrow> (Inr (), w\<lparr>fw_zone := z\<rparr>))"

definition start_bundle :: "fulfil_cfg \<Rightarrow> fulfil_env \<Rightarrow> vm_row \<Rightarrow> unit run" where
  "start_bundle cfg env row =
     (if vm_status_of_row row = FAILED then throw (F_Other ''the planned bundle VM is failed'')
      else if vm_status_of_row row = PROVISIONING then
        commit (\<lambda>w. case start_provisioning (fc_store cfg) (vm_id row) (fe_now env) (fe_gen env) (fe_tok env)
            (fw_inflight w) (fw_vms w) of (_, inflight, db) \<Rightarrow> w\<lparr>fw_vms := db, fw_inflight := inflight\<rparr>)
      else give ())"

definition provision_bundle :: "fulfil_cfg \<Rightarrow> fulfil_env \<Rightarrow> string \<Rightarrow> bool \<Rightarrow> unit run" where
  "provision_bundle cfg env oid fallback =
     next_act (plan_bundle env oid) (\<lambda>plan. case plan of
        None \<Rightarrow> give ()
      | Some (o1, q, planned) \<Rightarrow>
        let spec = bundle_spec fallback q in
        after (if fallback then give () else claim_for_bundle o1 planned)
        (next_act
          (attempt (next_act (reserve_bundle cfg env spec o1 q planned) (activate_bundle cfg env o1))
            (\<lambda>e. after (commit (release_reservation planned))
               (after (if fallback then give () else release_claim planned) (throw e))))
          (\<lambda>row.
            after (commit (\<lambda>w. w\<lparr>fw_od := (fw_od w)\<lparr>od_vm_quotes :=
                link_quote_vm (the (do_vm_quote o1)) (vm_id row) (od_vm_quotes (fw_od w))\<rparr>\<rparr>))
            (after (commit (with_order oid (\<lambda>o2. o2\<lparr>do_vm := Some (vm_id row)\<rparr>)))
               (start_bundle cfg env row)))))"

subsection \<open>Refunds\<close>

text \<open>The order's domain row, which no registrar id was recorded for, becomes a stale reservation.\<close>

definition failed_reservation :: "string \<Rightarrow> string \<Rightarrow> domain_row \<Rightarrow> domain_row" where
  "failed_reservation oid detail d =
     (if dr_client_order d = Some oid \<and> dr_provider_id d = None
      then d\<lparr>dr_status := D_FAILED, dr_error := Some (take 1000 detail)\<rparr> else d)"

definition close_paid_order ::
    "fulfil_cfg \<Rightarrow> fulfil_env \<Rightarrow> string \<Rightarrow> string \<Rightarrow> string \<Rightarrow> decimal \<Rightarrow> world \<Rightarrow> (fexn + unit) \<times> world" where
  "close_paid_order cfg env oid code detail amount w =
     (case w_order w oid of
        None \<Rightarrow> (Inr (), w)
      | Some o1 \<Rightarrow>
        let waived = is_waived_billing (do_mode o1);
            o2 = o1\<lparr>do_status := (if waived then O_FAILED else O_REFUND_DUE), do_error := Some code,
                   do_detail := Some (take 1000 detail)\<rparr>;
            w1 = with_operation (do_operation o1) (\<lambda>p. p\<lparr>op_state := OP_FAILED, op_error := Some code\<rparr>) (set_order o2 w);
            w2 = w1\<lparr>fw_zone := (fw_zone w1)\<lparr>zb_domains := map (failed_reservation oid detail) (zb_domains (fw_zone w1))\<rparr>\<rparr>
        in if waived then (Inr (), w2)
           else case build_refund_event (fc_wired cfg) (fe_event_id env) (od_intents (fw_od w)) o2 code (Some amount) of
             None \<Rightarrow> (Inl (F_Other ''refund obligation''), w)
           | Some e \<Rightarrow> (Inr (), w2\<lparr>fw_od := (fw_od w2)\<lparr>od_ledger := od_ledger (fw_od w2) @ [e]\<rparr>\<rparr>))"

definition fail_paid_order :: "fulfil_cfg \<Rightarrow> fulfil_env \<Rightarrow> string \<Rightarrow> string \<Rightarrow> string \<Rightarrow> unit run" where
  "fail_paid_order cfg env oid code detail =
     look (\<lambda>w0. case w_order w0 oid of
        None \<Rightarrow> give ()
      | Some o1 \<Rightarrow>
        next_act
          (if truthy (do_vm_quote o1) \<and> do_keep_vm o1
           then attempt (after (provision_bundle cfg env oid True) (give True)) (\<lambda>_. give False)
           else give False)
          (\<lambda>kept. atomic (close_paid_order cfg env oid code detail (if kept then do_domain_amount o1 else do_amount o1))))"

subsection \<open>The managed zone\<close>

text \<open>A call of the control plane that publishes the zone as it is stored.\<close>

definition apply_zone :: "registrar \<Rightarrow> domain_row \<Rightarrow> reply run" where
  "apply_zone reg d =
     atomic (\<lambda>w. let c = C_Apply_Zone (dr_fqdn d) (dr_revision d); w1 = w\<lparr>fw_calls := fw_calls w @ [c]\<rparr> in
       case reg (fw_calls w) c of
         Inl e \<Rightarrow> (Inl e, w1)
       | Inr r \<Rightarrow> (Inr r, w1\<lparr>fw_zone := (fw_zone w)\<lparr>zb_published := zb_published (fw_zone w) @
             [(dr_fqdn d, dr_revision d, zb_records (fw_zone w) (dr_fqdn d))]\<rparr>\<rparr>))"

definition ensure_managed_zone :: "fulfil_cfg \<Rightarrow> registrar \<Rightarrow> string \<Rightarrow> int \<Rightarrow> dnssec_mode option \<Rightarrow> unit run" where
  "ensure_managed_zone cfg reg fq pid override =
     look (\<lambda>w0. case w_domain w0 fq of
        None \<Rightarrow> throw (F_Other ''managed domain disappeared before zone initialization'')
      | Some d \<Rightarrow>
        let managed = (case override of Some m \<Rightarrow> m = SEC_MANAGED | None \<Rightarrow> dr_dnssec_mode d = SEC_MANAGED) in
        next_act (apply_zone reg d) (\<lambda>_.
        after (if managed then next_act (remote reg (C_Dnskeys fq)) (\<lambda>_. give ()) else give ())
        (next_act (remote reg (C_Nameservers pid (fc_nameservers cfg))) (\<lambda>_.
        after (if managed then next_act (remote reg (C_Set_Keys pid)) (\<lambda>_. give ()) else give ())
        (commit (with_domain fq (\<lambda>d1. d1\<lparr>dr_mode := NS_MANAGED, dr_nameservers := fc_nameservers cfg,
           dr_dnssec_status := (if dr_dnssec_mode d1 = SEC_MANAGED then ''active'' else dr_dnssec_status d1)\<rparr>)))))))"

definition finish_active_order :: "string \<Rightarrow> string \<Rightarrow> string \<Rightarrow> unit run" where
  "finish_active_order oid fq pst =
     (let keep = (\<lambda>old. if pst \<noteq> [] then Some pst else old) in
      commit (\<lambda>w.
        let op = (case w_order w oid of None \<Rightarrow> None | Some o1 \<Rightarrow> do_operation o1) in
        with_operation op (\<lambda>p. p\<lparr>op_state := OP_SUCCEEDED, op_error := None\<rparr>)
          (with_order oid (\<lambda>o1. o1\<lparr>do_status := O_ACTIVE, do_provider_status := keep (do_provider_status o1),
              do_error := None, do_detail := None\<rparr>)
            (with_domain fq (\<lambda>d. d\<lparr>dr_status := D_ACTIVE, dr_provider_status := keep (dr_provider_status d)\<rparr>) w))))"

subsection \<open>Registration\<close>

definition rebound_domain :: "fulfil_cfg \<Rightarrow> domain_order \<Rightarrow> string \<Rightarrow> string \<Rightarrow> domain_row \<Rightarrow> domain_row" where
  "rebound_domain cfg o1 name ext d =
     d\<lparr>dr_name := name, dr_extension := ext, dr_wallet := or_str (do_payer o1) (do_id o1), dr_owner := do_owner o1,
       dr_status := D_REGISTERING, dr_client_order := Some (do_id o1), dr_error := None, dr_provider_status := None,
       dr_marker := None, dr_expires_at := None, dr_vm := None, dr_vm_ipv6 := None, dr_mode := NS_MANAGED,
       dr_nameservers := fc_nameservers cfg, dr_dnssec_mode := SEC_MANAGED, dr_dnssec_status := ''pending'',
       dr_revision := 1, dr_can_renew := False\<rparr>"

definition new_domain :: "fulfil_cfg \<Rightarrow> domain_order \<Rightarrow> string \<Rightarrow> string \<Rightarrow> domain_row" where
  "new_domain cfg o1 name ext =
     \<lparr>dr_fqdn = do_fqdn o1, dr_name = name, dr_extension = ext, dr_owner = do_owner o1,
      dr_wallet = or_str (do_payer o1) (do_id o1), dr_anon_hash = None, dr_status = D_REGISTERING,
      dr_client_order = Some (do_id o1), dr_provider_id = None, dr_provider_status = None, dr_marker = None,
      dr_vm = None, dr_vm_ipv6 = None, dr_mode = NS_MANAGED, dr_nameservers = fc_nameservers cfg,
      dr_dnssec_mode = SEC_MANAGED, dr_dnssec_status = ''pending'', dr_revision = 1, dr_can_renew = False,
      dr_expires_at = None, dr_error = None\<rparr>"

text \<open>The domain columns are unique by name and by order; a violated insert reads the row again.\<close>

definition reserve_registration_domain ::
    "fulfil_cfg \<Rightarrow> domain_order \<Rightarrow> string \<Rightarrow> string \<Rightarrow> domain_row option run" where
  "reserve_registration_domain cfg o1 name ext =
     atomic (\<lambda>w.
       let mine = (\<lambda>d. dr_client_order d = Some (do_id o1) \<and> dr_owner d = do_owner o1) in
       case w_domain w (do_fqdn o1) of
         Some d \<Rightarrow>
           if dr_provider_id d = None \<and> dr_status d = D_FAILED
           then let d1 = rebound_domain cfg o1 name ext d in (Inr (Some d1), set_domain d1 w)
           else (Inr (if mine d then Some d else None), w)
       | None \<Rightarrow>
           if \<exists>d \<in> set (zb_domains (fw_zone w)). dr_client_order d = Some (do_id o1) then (Inr None, w)
           else let d1 = new_domain cfg o1 name ext in
             (Inr (Some d1), w\<lparr>fw_zone := (fw_zone w)\<lparr>zb_domains := zb_domains (fw_zone w) @ [d1]\<rparr>\<rparr>))"

definition register_marker :: "string \<Rightarrow> string" where
  "register_marker oid = ''register:'' @ oid"

text \<open>The point of no return: the marker is committed before the registrar is asked.\<close>

definition submit_registration :: "registrar \<Rightarrow> string \<Rightarrow> string \<Rightarrow> string \<Rightarrow> string \<Rightarrow> reply run" where
  "submit_registration reg oid fq name ext =
     after (commit (\<lambda>w. with_order oid (\<lambda>o1. o1\<lparr>do_status := O_SUBMITTING\<rparr>)
         (with_domain fq (\<lambda>d. d\<lparr>dr_marker := Some (register_marker oid)\<rparr>) w)))
       (remote reg (C_Register oid name ext))"

text \<open>The reply that tells the registration's state; \<open>None\<close>: the order was failed.\<close>

definition failing :: "unit run \<Rightarrow> reply option run" where
  "failing m = after m (give None)"

definition buy_registration ::
    "fulfil_cfg \<Rightarrow> fulfil_env \<Rightarrow> registrar \<Rightarrow> domain_order \<Rightarrow> string \<Rightarrow> string \<Rightarrow> string \<Rightarrow> reply \<Rightarrow> reply option run" where
  "buy_registration cfg env reg o1 fq name ext chk =
     (let fail = (\<lambda>c t. failing (fail_paid_order cfg env (do_id o1) c t)) in
      if \<not> rp_available chk then fail ''domain_no_longer_available'' ''The domain is no longer available.''
      else case (rp_price chk, rp_currency chk \<noteq> []) of
        (Some price, True) \<Rightarrow>
          (case fc_fx cfg (rp_currency chk) of
             None \<Rightarrow> throw (F_Problem ''fx_unavailable'' ''Registrar currency conversion is temporarily unavailable.'')
           | Some fx \<Rightarrow>
             (case price_domain price fx (fc_markup cfg) of
                None \<Rightarrow> throw (F_Other ''decimal'')
              | Some (_, _, _, current_price) \<Rightarrow>
                if dec_less (do_domain_amount o1) current_price
                then fail ''price_increased'' ''The registrar price increased after payment.''
                else next_act (submit_registration reg (do_id o1) fq name ext) (\<lambda>r. give (Some r))))
      | _ \<Rightarrow> throw (F_Problem ''price_unavailable'' ''The registrar returned no firm price.''))"

definition registration_reply ::
    "fulfil_cfg \<Rightarrow> fulfil_env \<Rightarrow> registrar \<Rightarrow> domain_order \<Rightarrow> domain_row \<Rightarrow> string \<Rightarrow> string \<Rightarrow> reply option run" where
  "registration_reply cfg env reg o1 d name ext =
     (let fail = (\<lambda>c t. failing (fail_paid_order cfg env (do_id o1) c t)) in
      case dr_provider_id d of
        Some pid \<Rightarrow> next_act (remote reg (C_Get pid)) (\<lambda>r. give (Some r))
      | None \<Rightarrow>
        let started = truthy (dr_marker d) in
        next_act (remote reg (C_Check name ext)) (\<lambda>chk.
          if rp_premium chk then fail ''became_premium'' ''The registrar marked this name premium.''
          else next_act (remote reg (C_Search name ext)) (\<lambda>found.
            if rp_found found \<and> \<not> started
            then fail ''registrar_domain_conflict'' ''The registrar account already contains this domain.''
            else if rp_found found then give (Some found)
            else if started
            then throw (F_Provider True ''registration_reconciliation_pending''
              ''The registrar has not exposed the submitted registration yet'')
            else buy_registration cfg env reg o1 (dr_fqdn d) name ext chk)))"

text \<open>A registrar reply without a domain id is looked up once more.\<close>

definition resolve_provider_id :: "registrar \<Rightarrow> string \<Rightarrow> string \<Rightarrow> reply \<Rightarrow> (reply \<times> int) run" where
  "resolve_provider_id reg name ext result =
     (case rp_id result of
        Some pid \<Rightarrow> give (result, pid)
      | None \<Rightarrow> next_act (remote reg (C_Search name ext)) (\<lambda>found.
          case (rp_found found, rp_id found) of
            (True, Some pid) \<Rightarrow> give (found, pid)
          | _ \<Rightarrow> throw (F_Other ''registrar accepted registration without a reconcilable domain id'')))"

definition pending_job :: "fulfil_cfg \<Rightarrow> fulfil_env \<Rightarrow> string \<Rightarrow> string \<Rightarrow> world \<Rightarrow> (fexn + unit) \<times> world" where
  "pending_job cfg env oid fq w =
     (let dedupe = ''provider-pending:'' @ oid; jobs = od_jobs (fw_od w) in
      if job_conflicts (fe_job_id env) dedupe jobs then (Inl (F_Other ''integrity''), w)
      else (Inr (), w\<lparr>fw_od := (fw_od w)\<lparr>od_jobs := add_job (fe_job_id env) ''reconcile_domain'' fq dedupe
        (fe_now env + seconds (fc_reconcile_delay cfg)) jobs\<rparr>\<rparr>))"

text \<open>A transaction whose last statement may violate a constraint, so that nothing is committed.\<close>

definition commit_with :: "(world \<Rightarrow> world) \<Rightarrow> bool \<Rightarrow> (world \<Rightarrow> (fexn + unit) \<times> world) \<Rightarrow> unit run" where
  "commit_with f wanted g =
     atomic (\<lambda>w. if \<not> wanted then (Inr (), f w)
       else case g (f w) of (Inl e, _) \<Rightarrow> (Inl e, w) | (Inr _, w') \<Rightarrow> (Inr (), w'))"

definition record_registration ::
    "fulfil_cfg \<Rightarrow> fulfil_env \<Rightarrow> domain_order \<Rightarrow> string \<Rightarrow> reply \<Rightarrow> int \<Rightarrow> unit run" where
  "record_registration cfg env o1 fq result pid =
     look (\<lambda>w0. case w_domain w0 fq of
        None \<Rightarrow> throw (F_Other ''reserved domain disappeared'')
      | Some _ \<Rightarrow>
        let pst = rp_status result; active = active_status pst in
        commit_with (\<lambda>w.
            with_operation (do_operation o1) (\<lambda>p. p\<lparr>op_state := (if active then OP_RUNNING else OP_WAITING_PROVIDER)\<rparr>)
              (with_order (do_id o1) (\<lambda>o2. o2\<lparr>do_provider_id := Some pid, do_provider_status := Some pst,
                  do_baseline := None, do_status := (if active then O_SUBMITTING else O_PROVIDER_PENDING)\<rparr>)
                (with_domain fq (\<lambda>d. d\<lparr>dr_provider_id := Some pid, dr_provider_status := Some pst,
                    dr_status := (if active then D_REGISTERING else D_PROVIDER_PENDING),
                    dr_expires_at := (if rp_expiry result = None then dr_expires_at d else rp_expiry result)\<rparr>) w)))
          (\<not> active) (pending_job cfg env (do_id o1) fq))"

definition complete_registration ::
    "fulfil_cfg \<Rightarrow> fulfil_env \<Rightarrow> registrar \<Rightarrow> string \<Rightarrow> string \<Rightarrow> string \<Rightarrow> int \<Rightarrow> unit run" where
  "complete_registration cfg env reg oid fq pst pid =
     after (attempt (ensure_managed_zone cfg reg fq pid None)
         (\<lambda>e. after (commit (with_domain fq (\<lambda>d. d\<lparr>dr_dnssec_status := ''error''\<rparr>))) (throw e)))
       (after (finish_active_order oid fq pst) (provision_bundle cfg env oid False))"

definition register_reserved ::
    "fulfil_cfg \<Rightarrow> fulfil_env \<Rightarrow> registrar \<Rightarrow> domain_order \<Rightarrow> domain_row \<Rightarrow> string \<Rightarrow> string \<Rightarrow> string \<Rightarrow> unit run" where
  "register_reserved cfg env reg o1 d name ext fq =
     next_act (registration_reply cfg env reg o1 d name ext) (\<lambda>r. case r of
        None \<Rightarrow> give ()
      | Some result \<Rightarrow>
        next_act (resolve_provider_id reg name ext result) (\<lambda>(result, pid).
          after (record_registration cfg env o1 fq result pid)
            (if active_status (rp_status result)
             then complete_registration cfg env reg (do_id o1) fq (rp_status result) pid else give ())))"

definition fulfil_registration :: "fulfil_cfg \<Rightarrow> fulfil_env \<Rightarrow> registrar \<Rightarrow> string \<Rightarrow> unit run" where
  "fulfil_registration cfg env reg oid =
     look (\<lambda>w0. case w_order w0 oid of
        None \<Rightarrow> give ()
      | Some o1 \<Rightarrow>
        (case row_at dq_id (do_quote o1) (od_quotes (fw_od w0)) of
           None \<Rightarrow> fail_paid_order cfg env oid ''quote_missing'' ''The paid quote no longer exists.''
         | Some q \<Rightarrow>
           (case normalize_registrable_domain (do_fqdn o1) of
              Inl (s, c) \<Rightarrow> throw (F_Problem c c)
            | Inr (name, ext, fq) \<Rightarrow>
              next_act (reserve_registration_domain cfg o1 name ext) (\<lambda>domain. case domain of
                 None \<Rightarrow> fail_paid_order cfg env oid ''domain_order_conflict''
                   ''This domain is already assigned to another Hyrule order.''
               | Some d \<Rightarrow> register_reserved cfg env reg o1 d name ext fq))))"

subsection \<open>Renewal\<close>

text \<open>The expiry read before the renewal call is committed with the order; while the registrar does not show a later
  one, no second year is bought.\<close>

definition submit_renewal :: "registrar \<Rightarrow> string \<Rightarrow> string \<Rightarrow> int \<Rightarrow> int \<Rightarrow> reply run" where
  "submit_renewal reg oid fq pid baseline =
     after (commit (\<lambda>w. with_domain fq (\<lambda>d. if dr_expires_at d = None then d\<lparr>dr_expires_at := Some baseline\<rparr> else d)
         (with_order oid (\<lambda>o1. o1\<lparr>do_status := O_SUBMITTING, do_baseline := Some baseline\<rparr>) w)))
       (remote reg (C_Renew oid pid))"

definition renewal_reply ::
    "registrar \<Rightarrow> domain_order \<Rightarrow> domain_row \<Rightarrow> int \<Rightarrow> (reply \<times> int) run" where
  "renewal_reply reg o1 d pid =
     next_act (remote reg (C_Get pid)) (\<lambda>live.
       case do_baseline o1 of
         Some baseline \<Rightarrow>
           if (case rp_expiry live of None \<Rightarrow> True | Some e \<Rightarrow> e \<le> baseline)
           then throw (F_Provider True ''renewal_reconciliation_pending''
             ''The registrar has not exposed the submitted renewal yet'')
           else give (live, baseline)
       | None \<Rightarrow>
         (case (if rp_expiry live \<noteq> None then rp_expiry live else dr_expires_at d) of
            None \<Rightarrow> throw (F_Other ''registrar returned no renewal baseline expiry'')
          | Some baseline \<Rightarrow>
            next_act (submit_renewal reg (do_id o1) (dr_fqdn d) pid baseline) (\<lambda>r. give (r, baseline))))"

definition record_renewal ::
    "fulfil_cfg \<Rightarrow> fulfil_env \<Rightarrow> string \<Rightarrow> string \<Rightarrow> reply \<Rightarrow> int \<Rightarrow> unit run" where
  "record_renewal cfg env oid fq result baseline =
     (let pst = rp_status result; active = active_status pst \<or> pst = [] in
      commit_with (\<lambda>w.
          with_operation (case w_order w oid of None \<Rightarrow> None | Some o1 \<Rightarrow> do_operation o1)
              (\<lambda>p. p\<lparr>op_state := (if active then OP_SUCCEEDED else OP_WAITING_PROVIDER)\<rparr>)
            (with_order oid (\<lambda>o1. o1\<lparr>do_baseline := Some baseline, do_provider_status := Some pst,
                do_status := (if active then O_ACTIVE else O_PROVIDER_PENDING)\<rparr>)
              (with_domain fq (\<lambda>d. d\<lparr>dr_provider_status := (if pst \<noteq> [] then Some pst else dr_provider_status d),
                  dr_status := (if active then D_ACTIVE else D_PROVIDER_PENDING),
                  dr_expires_at := (if rp_expiry result = None then dr_expires_at d else rp_expiry result),
                  dr_can_renew := False\<rparr>) w)))
        (\<not> active) (pending_job cfg env oid fq))"

definition renew_owned :: "fulfil_cfg \<Rightarrow> fulfil_env \<Rightarrow> registrar \<Rightarrow> domain_order \<Rightarrow> domain_row \<Rightarrow> int \<Rightarrow> unit run" where
  "renew_owned cfg env reg o1 d pid =
     (case normalize_registrable_domain (dr_fqdn d) of
        Inl (s, c) \<Rightarrow> throw (F_Problem c c)
      | Inr (_, tld, _) \<Rightarrow>
        next_act (remote reg (C_Tld tld)) (\<lambda>live_tld.
          case (rp_price live_tld, rp_currency live_tld \<noteq> []) of
            (Some renewal_cost, True) \<Rightarrow>
              (case fc_fx cfg (rp_currency live_tld) of
                 None \<Rightarrow> throw (F_Problem ''fx_unavailable'' ''Registrar currency conversion is temporarily unavailable.'')
               | Some fx \<Rightarrow>
                 (case price_domain renewal_cost fx (fc_markup cfg) of
                    None \<Rightarrow> throw (F_Other ''decimal'')
                  | Some (_, _, _, current_total) \<Rightarrow>
                    if dec_less (do_domain_amount o1) current_total
                    then fail_paid_order cfg env (do_id o1) ''price_increased''
                      ''The registrar renewal price increased after payment.''
                    else next_act (renewal_reply reg o1 d pid) (\<lambda>(result, baseline).
                      record_renewal cfg env (do_id o1) (dr_fqdn d) result baseline)))
          | _ \<Rightarrow> throw (F_Other ''registrar returned no live renewal price'')))"

definition fulfil_renewal :: "fulfil_cfg \<Rightarrow> fulfil_env \<Rightarrow> registrar \<Rightarrow> string \<Rightarrow> unit run" where
  "fulfil_renewal cfg env reg oid =
     look (\<lambda>w0. case w_order w0 oid of
        None \<Rightarrow> give ()
      | Some o1 \<Rightarrow>
        (case (if do_owner o1 = None then None else owned_domain (fw_zone w0) (the (do_owner o1)) (do_fqdn o1)) of
           None \<Rightarrow> fail_paid_order cfg env oid ''domain_not_renewable'' ''The domain cannot be renewed.''
         | Some d \<Rightarrow>
           (case dr_provider_id d of
              None \<Rightarrow> fail_paid_order cfg env oid ''domain_not_renewable'' ''The domain cannot be renewed.''
            | Some pid \<Rightarrow> renew_owned cfg env reg o1 d pid)))"

subsection \<open>Reconciliation\<close>

definition waits_for_provider :: "domain_order \<Rightarrow> bool" where
  "waits_for_provider o1 \<longleftrightarrow> do_status o1 \<in> {O_PROVIDER_PENDING, O_SUBMITTING}"

text \<open>The newest order of a domain that waits for the registrar; orders are kept in the order of creation.\<close>

definition pending_order :: "world \<Rightarrow> string \<Rightarrow> domain_order option" where
  "pending_order w fq = find (\<lambda>o1. do_fqdn o1 = fq \<and> waits_for_provider o1) (rev (od_orders (fw_od w)))"

definition departed_status :: "string \<Rightarrow> bool" where
  "departed_status s \<longleftrightarrow> s \<in> {''DEL'', ''DELETED'', ''TRA'', ''TRANSFERRED'', ''TRANSFERRED_AWAY''}"

definition expired_status :: "string \<Rightarrow> bool" where
  "expired_status s \<longleftrightarrow> s \<in> {''EXP'', ''EXPIRED'', ''REDEMPTION'', ''QUARANTINE''}"

text \<open>The registrar's view of a domain; \<open>None\<close>: nothing to reconcile.\<close>

definition reconcile_source :: "registrar \<Rightarrow> domain_row \<Rightarrow> (reply \<times> int) option run" where
  "reconcile_source reg d =
     (case dr_provider_id d of
        Some pid \<Rightarrow> next_act (remote reg (C_Get pid)) (\<lambda>r. give (Some (r, pid)))
      | None \<Rightarrow>
        if \<not> truthy (dr_client_order d) \<or> dr_marker d \<noteq> Some (register_marker (the (dr_client_order d))) then give None
        else (case normalize_registrable_domain (dr_fqdn d) of
            Inl (s, c) \<Rightarrow> throw (F_Problem c c)
          | Inr (name, ext, _) \<Rightarrow>
            next_act (remote reg (C_Search name ext)) (\<lambda>found.
              if \<not> rp_found found then give None
              else case rp_id found of
                None \<Rightarrow> throw (F_Other ''registrar search found the submitted domain without a domain id'')
              | Some pid \<Rightarrow> give (Some (found, pid)))))"

definition reconciled_domain :: "bool \<Rightarrow> bool \<Rightarrow> bool \<Rightarrow> reply \<Rightarrow> int \<Rightarrow> domain_row \<Rightarrow> domain_row" where
  "reconciled_domain transferred expired active r pid d =
     (let d1 = d\<lparr>dr_provider_id := Some pid, dr_provider_status := Some (rp_status r),
            dr_expires_at := (if rp_expiry r = None then dr_expires_at d else rp_expiry r)\<rparr>
      in if transferred then d1\<lparr>dr_status := D_TRANSFERRED\<rparr>
         else if expired then d1\<lparr>dr_status := D_EXPIRED, dr_can_renew := False\<rparr>
         else if active \<and> dr_status d1 \<noteq> D_TRANSFER_PENDING \<and> dr_status d1 \<noteq> D_RENEWAL_DUE
         then d1\<lparr>dr_status := D_REGISTERING\<rparr> else d1)"

definition reconciled_order :: "bool \<Rightarrow> bool \<Rightarrow> reply \<Rightarrow> int \<Rightarrow> domain_order \<Rightarrow> domain_order" where
  "reconciled_order active expired r pid o1 =
     o1\<lparr>do_provider_id := Some pid, do_provider_status := Some (rp_status r),
        do_baseline := (if do_action o1 = RENEW then do_baseline o1 else None),
        do_status := (if \<not> active \<and> \<not> expired then O_PROVIDER_PENDING else do_status o1)\<rparr>"

text \<open>One transaction: the domain, and the order it found; \<open>None\<close>: the domain disappeared.\<close>

definition record_reconciled ::
    "string \<Rightarrow> bool \<Rightarrow> bool \<Rightarrow> bool \<Rightarrow> reply \<Rightarrow> int \<Rightarrow> string option \<Rightarrow> domain_order option option run" where
  "record_reconciled fq transferred expired active r pid terminal =
     atomic (\<lambda>w. case w_domain w fq of
        None \<Rightarrow> (Inr None, w)
      | Some d \<Rightarrow>
        let w1 = set_domain (reconciled_domain transferred expired active r pid d) w;
            found = (case pending_order w fq of
                Some o1 \<Rightarrow> Some o1
              | None \<Rightarrow> (case terminal of None \<Rightarrow> None | Some i \<Rightarrow> w_order w i))
        in (case found of
              None \<Rightarrow> (Inr (Some None), w1)
            | Some o1 \<Rightarrow>
              let o2 = reconciled_order active expired r pid o1;
                  w2 = set_order o2 w1
              in (Inr (Some (Some o2)),
                  if \<not> active \<and> \<not> expired
                  then with_operation (do_operation o1) (\<lambda>p. p\<lparr>op_state := OP_WAITING_PROVIDER\<rparr>) w2 else w2)))"

definition activate_reconciled ::
    "fulfil_cfg \<Rightarrow> fulfil_env \<Rightarrow> registrar \<Rightarrow> domain_row \<Rightarrow> bool \<Rightarrow> reply \<Rightarrow> int \<Rightarrow> domain_order option \<Rightarrow> unit run" where
  "activate_reconciled cfg env reg d retry_pending r pid order =
     (let fq = dr_fqdn d;
          unseen = (case order of None \<Rightarrow> False
            | Some o1 \<Rightarrow> do_action o1 = RENEW \<and> do_baseline o1 \<noteq> None \<and>
                (case rp_expiry r of None \<Rightarrow> True | Some e \<Rightarrow> e \<le> the (do_baseline o1)))
      in if unseen then
           (if retry_pending then throw (F_Provider True ''renewal_reconciliation_pending''
              ''The registrar has not exposed the renewed expiry yet'') else give ())
         else
           after (if dr_mode d = NS_MANAGED then ensure_managed_zone cfg reg fq pid None else give ())
             (case order of
                Some o1 \<Rightarrow> after (finish_active_order (do_id o1) fq (rp_status r))
                  (if do_action o1 = REGISTER then provision_bundle cfg env (do_id o1) False else give ())
              | None \<Rightarrow> commit (with_domain fq (\<lambda>x. if dr_status x \<noteq> D_RENEWAL_DUE then x\<lparr>dr_status := D_ACTIVE\<rparr> else x))))"

definition reconcile_found ::
    "fulfil_cfg \<Rightarrow> fulfil_env \<Rightarrow> registrar \<Rightarrow> domain_row \<Rightarrow> bool \<Rightarrow> reply \<Rightarrow> int \<Rightarrow> unit run" where
  "reconcile_found cfg env reg d retry_pending r pid =
     (let fq = dr_fqdn d; pst = rp_status r; active = active_status pst; departed = departed_status pst;
          transferred = (dr_status d = D_TRANSFER_PENDING \<and> departed);
          expired = (expired_status pst \<or> departed \<and> \<not> transferred)
      in look (\<lambda>w0.
           let terminal = (if expired then map_option do_id (pending_order w0 fq) else None) in
           after (case terminal of None \<Rightarrow> give ()
               | Some oid \<Rightarrow> fail_paid_order cfg env oid ''registrar_terminal_status''
                   (''The registrar reported terminal status '' @ pst @ '' before the paid domain order completed.''))
             (next_act (record_reconciled fq transferred expired active r pid terminal) (\<lambda>res. case res of
                None \<Rightarrow> give ()
              | Some order \<Rightarrow>
                if transferred \<or> expired then give ()
                else if \<not> active then
                  (if retry_pending \<and> order \<noteq> None
                   then throw (F_Provider True ''domain_reconciliation_pending''
                     ''The registrar still reports the domain operation as pending'') else give ())
                else if dr_status d = D_TRANSFER_PENDING then give ()
                else activate_reconciled cfg env reg d retry_pending r pid order))))"

definition reconcile_domain :: "fulfil_cfg \<Rightarrow> fulfil_env \<Rightarrow> registrar \<Rightarrow> string \<Rightarrow> bool \<Rightarrow> unit run" where
  "reconcile_domain cfg env reg fq retry_pending =
     look (\<lambda>w0. case w_domain w0 fq of
        None \<Rightarrow> give ()
      | Some d \<Rightarrow> next_act (reconcile_source reg d) (\<lambda>src. case src of
            None \<Rightarrow> give ()
          | Some (r, pid) \<Rightarrow> reconcile_found cfg env reg d retry_pending r pid))"

subsection \<open>Dispatch\<close>

datatype fulfil_plan = Plan_Stop | Plan_Bundle | Plan_Reconcile string | Plan_Run domain_action

definition start_fulfilment :: "string \<Rightarrow> fulfil_plan run" where
  "start_fulfilment oid =
     atomic (\<lambda>w. case w_order w oid of
        None \<Rightarrow> (Inr Plan_Stop, w)
      | Some o1 \<Rightarrow>
        if do_status o1 = O_REFUND_DUE \<or> do_status o1 = O_REFUNDED then (Inr Plan_Stop, w)
        else if do_status o1 = O_ACTIVE
        then (Inr (if truthy (do_vm_quote o1) \<and> \<not> truthy (do_vm o1) then Plan_Bundle else Plan_Stop), w)
        else if do_status o1 = O_PROVIDER_PENDING then (Inr (Plan_Reconcile (do_fqdn o1)), w)
        else (Inr (Plan_Run (do_action o1)),
              with_operation (do_operation o1) (\<lambda>p. p\<lparr>op_state := OP_RUNNING\<rparr>)
                (set_order (o1\<lparr>do_status := O_CHECKING\<rparr>) w)))"

definition run_fulfilment :: "fulfil_cfg \<Rightarrow> fulfil_env \<Rightarrow> registrar \<Rightarrow> string \<Rightarrow> domain_action \<Rightarrow> unit run" where
  "run_fulfilment cfg env reg oid act =
     attempt (if act = RENEW then fulfil_renewal cfg env reg oid else fulfil_registration cfg env reg oid)
       (\<lambda>e. case e of
          F_Provider retry c t \<Rightarrow> if retry then throw e else fail_paid_order cfg env oid ''registrar_rejected'' t
        | F_Problem c t \<Rightarrow> fail_paid_order cfg env oid c t
        | _ \<Rightarrow> throw e)"

definition fulfil_order :: "fulfil_cfg \<Rightarrow> fulfil_env \<Rightarrow> registrar \<Rightarrow> string \<Rightarrow> unit run" where
  "fulfil_order cfg env reg oid =
     next_act (start_fulfilment oid) (\<lambda>plan. case plan of
        Plan_Stop \<Rightarrow> give ()
      | Plan_Bundle \<Rightarrow> provision_bundle cfg env oid False
      | Plan_Reconcile fq \<Rightarrow> reconcile_domain cfg env reg fq False
      | Plan_Run act \<Rightarrow> run_fulfilment cfg env reg oid act)"

subsection \<open>The job queue\<close>

definition w_job :: "world \<Rightarrow> string \<Rightarrow> domain_job option" where
  "w_job w jid = row_at dj_id jid (od_jobs (fw_od w))"

definition with_job :: "string \<Rightarrow> (domain_job \<Rightarrow> domain_job) \<Rightarrow> world \<Rightarrow> world" where
  "with_job jid f w = w\<lparr>fw_od := (fw_od w)\<lparr>od_jobs := alter_row dj_id jid f (od_jobs (fw_od w))\<rparr>\<rparr>"

definition claimable :: "fulfil_cfg \<Rightarrow> int \<Rightarrow> domain_job \<Rightarrow> bool" where
  "claimable cfg now j \<longleftrightarrow>
     dj_status j = J_QUEUED \<and> dj_available_at j \<le> now \<or>
     dj_status j = J_RUNNING \<and> (case dj_locked_at j of None \<Rightarrow> False | Some t \<Rightarrow> t < now - seconds (fc_lock_timeout cfg))"

text \<open>The first job by availability, then by creation: the list is in the order of creation.\<close>

definition claim_job :: "fulfil_cfg \<Rightarrow> int \<Rightarrow> string \<Rightarrow> domain_job option run" where
  "claim_job cfg now worker =
     atomic (\<lambda>w. case py_min (<) dj_available_at (filter (claimable cfg now) (od_jobs (fw_od w))) of
        None \<Rightarrow> (Inr None, w)
      | Some j \<Rightarrow>
        let j1 = j\<lparr>dj_status := J_RUNNING, dj_locked_at := Some now, dj_locked_by := Some worker,
               dj_attempts := dj_attempts j + 1\<rparr>
        in (Inr (Some j1), with_job (dj_id j) (\<lambda>_. j1) w))"

definition retryable :: "fexn \<Rightarrow> bool" where
  "retryable e = (case e of F_Problem c t \<Rightarrow> False | F_Provider r c t \<Rightarrow> r | F_Dns r c t \<Rightarrow> r | F_Other t \<Rightarrow> True)"

definition backoff :: "nat \<Rightarrow> int" where
  "backoff attempts = min 3600 (2 ^ attempts * 5)"

definition give_up_bundle :: "domain_order \<Rightarrow> domain_row \<Rightarrow> string \<Rightarrow> world \<Rightarrow> world" where
  "give_up_bundle o1 d message w =
     (if truthy (do_vm o1) \<and> dr_vm d = do_vm o1 \<and> dr_vm_ipv6 d = None then
        (let vid = the (do_vm o1); unlink = with_domain (dr_fqdn d) (\<lambda>x. x\<lparr>dr_vm := None\<rparr>) in
         case find_vm (fw_vms w) vid of
           None \<Rightarrow> unlink w
         | Some row \<Rightarrow>
           if vm_status_of_row row = PROVISIONING \<or> vm_status_of_row row = FAILED
           then (unlink w)\<lparr>fw_vms := update_vm vid (\<lambda>r. r\<lparr>vm_status_of_row := FAILED, vm_error := Some message,
               vm_prefix := None\<rparr>) (fw_vms w)\<rparr>
           else w)
      else w)"

text \<open>What giving up a fulfilment does to its order and domain; the flag asks for the full refund.\<close>

definition give_up_fulfilment ::
    "fulfil_cfg \<Rightarrow> fulfil_env \<Rightarrow> string \<Rightarrow> fexn \<Rightarrow> string \<Rightarrow> world \<Rightarrow> (fexn + bool) \<times> world" where
  "give_up_fulfilment cfg env message e oid w =
     (case w_order w oid of
        None \<Rightarrow> (Inr True, w)
      | Some o1 \<Rightarrow>
        let failed_op = with_operation (do_operation o1)
              (\<lambda>p. p\<lparr>op_state := OP_FAILED, op_error := Some (exn_code ''operation_failed'' e)\<rparr>);
            mark = (\<lambda>st c. o1\<lparr>do_status := st, do_error := Some c, do_detail := Some (take 1000 (exn_text e))\<rparr>)
        in case w_domain w (do_fqdn o1) of
          None \<Rightarrow> (Inr True, failed_op w)
        | Some d \<Rightarrow>
          if do_action o1 = REGISTER \<and> dr_provider_id d = None \<and> dr_marker d = Some (register_marker oid) then
            (Inr False, with_operation (do_operation o1)
                (\<lambda>p. p\<lparr>op_state := OP_WAITING_PROVIDER, op_error := Some ''registration_reconciliation_required''\<rparr>)
              (set_order (mark O_PROVIDER_PENDING ''registration_reconciliation_required'')
                (set_domain (d\<lparr>dr_status := D_PROVIDER_PENDING\<rparr>) w)))
          else if dr_provider_id d = None then (Inr True, failed_op w)
          else if do_action o1 = RENEW then
            (Inr False, with_operation (do_operation o1) (\<lambda>p. p\<lparr>op_state := OP_FAILED\<rparr>)
              (set_order (mark O_PROVIDER_PENDING ''renewal_reconciliation_required'') w))
          else if dr_dnssec_status d = ''active'' then
            (let w1 = give_up_bundle o1 d message (set_order (mark O_ACTIVE ''bundle_vm_failed'')
                   (set_domain (d\<lparr>dr_status := D_ACTIVE\<rparr>) w));
                 w2 = with_operation (do_operation o1) (\<lambda>p. p\<lparr>op_state := OP_SUCCEEDED\<rparr>) w1
             in if dec_less (Dec 0 0) (do_vm_amount o1) \<and> \<not> is_waived_billing (do_mode o1)
                then (case build_refund_event (fc_wired cfg) (fe_event_id env) (od_intents (fw_od w))
                          (mark O_ACTIVE ''bundle_vm_failed'') ''bundle_vm_failed'' (Some (do_vm_amount o1)) of
                        None \<Rightarrow> (Inl (F_Other ''refund obligation''), w)
                      | Some ev \<Rightarrow> (Inr False, w2\<lparr>fw_od := (fw_od w2)\<lparr>od_ledger := od_ledger (fw_od w2) @ [ev]\<rparr>\<rparr>))
                else (Inr False, w2))
          else
            (Inr False, with_operation (do_operation o1) (\<lambda>p. p\<lparr>op_state := OP_FAILED\<rparr>)
              (set_order (mark O_PROVIDER_PENDING ''managed_dns_failed'')
                (set_domain (d\<lparr>dr_status := D_PROVIDER_PENDING, dr_dnssec_status := ''error''\<rparr>) w))))"

definition retry_job :: "int \<Rightarrow> domain_job \<Rightarrow> domain_job" where
  "retry_job now j = j\<lparr>dj_status := J_QUEUED, dj_available_at := now + seconds (backoff (dj_attempts j)),
     dj_locked_at := None, dj_locked_by := None\<rparr>"

definition retry_or_fail_job ::
    "fulfil_cfg \<Rightarrow> fulfil_env \<Rightarrow> string \<Rightarrow> domain_job \<Rightarrow> fexn \<Rightarrow> unit run" where
  "retry_or_fail_job cfg env message job e =
     next_act (atomic (\<lambda>w. case w_job w (dj_id job) of
          None \<Rightarrow> (Inr False, w)
        | Some j \<Rightarrow>
          if retryable e \<and> dj_attempts j < 10 then (Inr False, with_job (dj_id j) (retry_job (fe_now env)) w)
          else
            let w1 = with_job (dj_id j) (\<lambda>x. x\<lparr>dj_status := J_FAILED\<rparr>) w in
            if dj_kind j = ''fulfill_order'' then
              (case give_up_fulfilment cfg env message e (dj_resource j) w1 of
                 (Inl x, _) \<Rightarrow> (Inl x, w) | (Inr full, w2) \<Rightarrow> (Inr full, w2))
            else (Inr False, w1)))
       (\<lambda>full. if full then fail_paid_order cfg env (dj_resource job) (exn_code ''fulfillment_failed'' e) (exn_text e)
               else give ())"

text \<open>The kinds of job modelled here.\<close>

definition dispatch_job :: "fulfil_cfg \<Rightarrow> fulfil_env \<Rightarrow> registrar \<Rightarrow> domain_job \<Rightarrow> unit run" where
  "dispatch_job cfg env reg job =
     (if dj_kind job = ''fulfill_order'' then fulfil_order cfg env reg (dj_resource job)
      else if dj_kind job = ''reconcile_domain'' then reconcile_domain cfg env reg (dj_resource job) True
      else throw (F_Other (''unknown domain job: '' @ dj_kind job)))"

text \<open>One turn of the worker's loop; the flag says whether a job was found.\<close>

definition process_job :: "fulfil_cfg \<Rightarrow> fulfil_env \<Rightarrow> registrar \<Rightarrow> string \<Rightarrow> string \<Rightarrow> bool run" where
  "process_job cfg env reg worker message =
     next_act (claim_job cfg (fe_now env) worker) (\<lambda>found. case found of
        None \<Rightarrow> give False
      | Some job \<Rightarrow>
        after (attempt_else (dispatch_job cfg env reg job)
            (\<lambda>e. retry_or_fail_job cfg env message job e)
            (\<lambda>_. commit (with_job (dj_id job) (\<lambda>j. j\<lparr>dj_status := J_COMPLETED\<rparr>))))
          (give True))"

fun process_jobs :: "fulfil_cfg \<Rightarrow> fulfil_env list \<Rightarrow> registrar \<Rightarrow> string \<Rightarrow> string \<Rightarrow> nat run" where
  "process_jobs cfg [] reg worker message = give 0"
| "process_jobs cfg (env # envs) reg worker message =
     next_act (process_job cfg env reg worker message) (\<lambda>found.
       if \<not> found then give 0 else next_act (process_jobs cfg envs reg worker message) (\<lambda>n. give (Suc n)))"

end
