(* ===== verification/Fulfil_Safety.thy ===== *)
theory Fulfil_Safety
  imports Domain_Fulfil
begin

text \<open>
  Safety of domain fulfilment: whatever the registrar answers and wherever the worker's process dies, a charged
  order is submitted to the registrar at most once, and no renewal is bought twice. Most actions are \<open>calm\<close>: they
  buy nothing and forget nothing that keeps an order from being bought again. The others are treated one by one.
\<close>

subsection \<open>Steps that endanger no order\<close>

definition registers :: "string \<Rightarrow> remote_call list \<Rightarrow> nat" where
  "registers oid cs = length (filter (\<lambda>c. case c of C_Register i n x \<Rightarrow> i = oid | _ \<Rightarrow> False) cs)"

definition renews :: "string \<Rightarrow> remote_call list \<Rightarrow> nat" where
  "renews oid cs = length (filter (\<lambda>c. case c of C_Renew i p \<Rightarrow> i = oid | _ \<Rightarrow> False) cs)"

definition closed_order :: "domain_order \<Rightarrow> bool" where
  "closed_order o1 \<longleftrightarrow> do_status o1 \<in> {O_REFUND_DUE, O_REFUNDED}"

definition order_le :: "domain_order \<Rightarrow> domain_order \<Rightarrow> bool" where
  "order_le o1 o2 \<longleftrightarrow> do_id o2 = do_id o1 \<and> do_fqdn o2 = do_fqdn o1 \<and> do_action o2 = do_action o1 \<and> do_mode o2 = do_mode o1 \<and>
     (actionable o2 \<longrightarrow> actionable o1) \<and> closed_order o2 = closed_order o1 \<and>
     (do_action o1 = RENEW \<longrightarrow> do_baseline o1 \<noteq> None \<longrightarrow> do_baseline o2 \<noteq> None)"

definition domain_le :: "domain_row \<Rightarrow> domain_row \<Rightarrow> bool" where
  "domain_le d e \<longleftrightarrow> dr_fqdn e = dr_fqdn d \<and> dr_client_order e = dr_client_order d \<and>
     (dr_provider_id d \<noteq> None \<longrightarrow> dr_provider_id e \<noteq> None) \<and>
     (dr_provider_id e = None \<longrightarrow> dr_marker e = dr_marker d \<and> (dr_status d \<noteq> D_FAILED \<longrightarrow> dr_status e \<noteq> D_FAILED))"

definition same_job :: "domain_job \<Rightarrow> domain_job \<Rightarrow> bool" where
  "same_job j k \<longleftrightarrow> dj_id k = dj_id j \<and> dj_kind k = dj_kind j \<and> dj_resource k = dj_resource j"

definition calm :: "world \<Rightarrow> world \<Rightarrow> bool" where
  "calm w w' \<longleftrightarrow>
     (\<forall>oid. registers oid (fw_calls w') = registers oid (fw_calls w) \<and> renews oid (fw_calls w') = renews oid (fw_calls w)) \<and>
     (\<forall>oid o1. w_order w oid = Some o1 \<longrightarrow> (\<exists>o2. w_order w' oid = Some o2 \<and> order_le o1 o2)) \<and>
     (\<forall>fq d. w_domain w fq = Some d \<longrightarrow> (\<exists>e. w_domain w' fq = Some e \<and> domain_le d e)) \<and>
     (\<forall>jid j. w_job w jid = Some j \<longrightarrow> (\<exists>k. w_job w' jid = Some k \<and> same_job j k)) \<and>
     (unique_by dr_fqdn (zb_domains (fw_zone w)) \<longrightarrow> unique_by dr_fqdn (zb_domains (fw_zone w'))) \<and>
     (unique_by do_id (od_orders (fw_od w)) \<longrightarrow> unique_by do_id (od_orders (fw_od w'))) \<and>
     (unique_by dj_id (od_jobs (fw_od w)) \<longrightarrow> unique_by dj_id (od_jobs (fw_od w')))"

lemma order_le_refl [simp]: "order_le o1 o1" and domain_le_refl [simp]: "domain_le d d"
  by (simp_all add: order_le_def domain_le_def)

lemma same_job_refl [simp]: "same_job j j"
  by (simp add: same_job_def)

lemma order_le_trans: "order_le a b \<Longrightarrow> order_le b c \<Longrightarrow> order_le a c"
  by (auto simp: order_le_def)

lemma domain_le_trans: "domain_le a b \<Longrightarrow> domain_le b c \<Longrightarrow> domain_le a c"
  by (auto simp: domain_le_def)

lemma same_job_trans: "same_job a b \<Longrightarrow> same_job b c \<Longrightarrow> same_job a c"
  by (simp add: same_job_def)

lemma calm_refl [simp]: "calm w w"
  by (simp add: calm_def)

lemma calm_orderE:
  assumes "calm w w'" "w_order w oid = Some o1"
  obtains o2 where "w_order w' oid = Some o2" "order_le o1 o2"
proof -
  from assms(1) have "\<forall>oid o1. w_order w oid = Some o1 \<longrightarrow> (\<exists>o2. w_order w' oid = Some o2 \<and> order_le o1 o2)"
    unfolding calm_def by (elim conjE)
  from this [rule_format, OF assms(2)] that show ?thesis by blast
qed

lemma calm_domainE:
  assumes "calm w w'" "w_domain w fq = Some d"
  obtains e where "w_domain w' fq = Some e" "domain_le d e"
proof -
  from assms(1) have "\<forall>fq d. w_domain w fq = Some d \<longrightarrow> (\<exists>e. w_domain w' fq = Some e \<and> domain_le d e)"
    unfolding calm_def by (elim conjE)
  from this [rule_format, OF assms(2)] that show ?thesis by blast
qed

lemma calm_jobE:
  assumes "calm w w'" "w_job w jid = Some j"
  obtains k where "w_job w' jid = Some k" "same_job j k"
proof -
  from assms(1) have "\<forall>jid j. w_job w jid = Some j \<longrightarrow> (\<exists>k. w_job w' jid = Some k \<and> same_job j k)"
    unfolding calm_def by (elim conjE)
  from this [rule_format, OF assms(2)] that show ?thesis by blast
qed

lemma calm_trans [trans]:
  assumes ab: "calm a b" and bc: "calm b c" shows "calm a c"
proof -
  have o: "\<exists>o2. w_order c oid = Some o2 \<and> order_le o1 o2" if "w_order a oid = Some o1" for oid o1
    by (rule calm_orderE [OF ab that], rule calm_orderE [OF bc], assumption) (blast intro: order_le_trans)
  have d: "\<exists>e. w_domain c fq = Some e \<and> domain_le d e" if "w_domain a fq = Some d" for fq d
    by (rule calm_domainE [OF ab that], rule calm_domainE [OF bc], assumption) (blast intro: domain_le_trans)
  have j: "\<exists>k. w_job c jid = Some k \<and> same_job j k" if "w_job a jid = Some j" for jid j
    by (rule calm_jobE [OF ab that], rule calm_jobE [OF bc], assumption) (blast intro: same_job_trans)
  show ?thesis unfolding calm_def using o d j ab bc by (simp add: calm_def)
qed

lemma calm_same:
  "fw_calls w' = fw_calls w \<Longrightarrow> od_orders (fw_od w') = od_orders (fw_od w) \<Longrightarrow> zb_domains (fw_zone w') = zb_domains (fw_zone w) \<Longrightarrow>
     od_jobs (fw_od w') = od_jobs (fw_od w) \<Longrightarrow> calm w w'"
  by (simp add: calm_def w_job_def)

lemma calm_order:
  assumes "\<And>o1. w_order w (do_id o2) = Some o1 \<Longrightarrow> order_le o1 o2"
  shows "calm w (set_order o2 w)"
  using assms by (simp add: calm_def row_at_put w_job_def)

lemma calm_domain:
  assumes "\<And>d. w_domain w (dr_fqdn e) = Some d \<Longrightarrow> domain_le d e"
  shows "calm w (set_domain e w)"
  using assms by (simp add: calm_def row_at_put w_job_def)

lemma calm_set_order: "w_order w oid = Some o1 \<Longrightarrow> order_le o1 o2 \<Longrightarrow> calm w (set_order o2 w)"
  using row_at_Some [of do_id oid "od_orders (fw_od w)" o1] by (intro calm_order) (simp add: order_le_def)

lemma calm_set_domain: "w_domain w fq = Some d \<Longrightarrow> domain_le d e \<Longrightarrow> calm w (set_domain e w)"
  using row_at_Some [of dr_fqdn fq "zb_domains (fw_zone w)" d] by (intro calm_domain) (simp add: domain_le_def)

lemma calm_with_order:
  assumes "\<And>o1. w_order w oid = Some o1 \<Longrightarrow> order_le o1 (f o1)"
  shows "calm w (with_order oid f w)"
proof (cases "w_order w oid")
  case (Some o1)
  from assms [OF Some] row_at_Some [OF Some] have "do_id (f o1) = oid" "order_le o1 (f o1)" by (simp_all add: order_le_def)
  with Some show ?thesis by (auto simp: with_order_def intro!: calm_order)
qed (simp add: with_order_def)

lemma calm_with_domain:
  assumes "\<And>d. w_domain w fq = Some d \<Longrightarrow> domain_le d (f d)"
  shows "calm w (with_domain fq f w)"
proof (cases "w_domain w fq")
  case (Some d)
  from assms [OF Some] row_at_Some [OF Some] have "dr_fqdn (f d) = fq" "domain_le d (f d)" by (simp_all add: domain_le_def)
  with Some show ?thesis by (auto simp: with_domain_def intro!: calm_domain)
qed (simp add: with_domain_def)

lemma calm_with_operation: "calm w (with_operation i f w)"
  by (auto simp: with_operation_def split: option.splits intro!: calm_same)

lemma calm_with_job: "(\<And>j. dj_id j = i \<Longrightarrow> same_job j (f j)) \<Longrightarrow> calm w (with_job i f w)"
  by (auto simp: with_job_def calm_def w_job_def row_at_alter unique_by_alter same_job_def dest: row_at_Some)

definition harmless_call :: "remote_call \<Rightarrow> bool" where
  "harmless_call c \<longleftrightarrow> (case c of C_Register i n x \<Rightarrow> False | C_Renew i p \<Rightarrow> False | _ \<Rightarrow> True)"

lemma calm_call: "harmless_call c \<Longrightarrow> calm w (w\<lparr>fw_calls := fw_calls w @ [c]\<rparr>)"
  by (auto simp: calm_def harmless_call_def registers_def renews_def w_job_def split: remote_call.splits)

text \<open>A program of calm steps only, from a world \<open>w0\<close>.\<close>

abbreviation gentle :: "world \<Rightarrow> 'a run \<Rightarrow> bool" where
  "gentle w0 m \<equiv> keeps (calm w0) m"

lemma gentle_atomic: "(\<And>w x w'. calm w0 w \<Longrightarrow> f w = (x, w') \<Longrightarrow> calm w w') \<Longrightarrow> gentle w0 (atomic f)"
  by (rule keeps_atomic) (blast intro: calm_trans)

lemma gentle_commit: "(\<And>w. calm w0 w \<Longrightarrow> calm w (f w)) \<Longrightarrow> gentle w0 (commit f)"
  unfolding commit_def by (rule gentle_atomic) auto

lemma gentle_remote: "harmless_call c \<Longrightarrow> gentle w0 (remote reg c)"
  unfolding remote_def by (rule gentle_atomic) (auto intro: calm_call)

lemmas gentle_rules = keeps_next keeps_after keeps_give keeps_throw keeps_attempt keeps_attempt_else keeps_look
  triple_splits gentle_remote

lemma gentle_apply_zone: "gentle w0 (apply_zone reg d)"
proof -
  have a: "calm w (w\<lparr>fw_calls := fw_calls w @ [C_Apply_Zone fq rv], fw_zone := (fw_zone w)\<lparr>zb_published := x\<rparr>\<rparr>)" for w fq rv x
    by (rule calm_trans [OF calm_call [of "C_Apply_Zone fq rv"]]) (simp_all add: harmless_call_def calm_same)
  have b: "calm w (w\<lparr>fw_calls := fw_calls w @ [C_Apply_Zone fq rv]\<rparr>)" for w fq rv
    by (rule calm_call) (simp add: harmless_call_def)
  show ?thesis
    unfolding apply_zone_def Let_def by (rule gentle_atomic) (auto split: sum.splits intro: a b)
qed

lemma gentle_ensure_managed_zone: "gentle w0 (ensure_managed_zone cfg reg fq pid m)"
  unfolding ensure_managed_zone_def Let_def
  by (intro gentle_rules gentle_apply_zone gentle_commit calm_with_domain) (simp_all add: harmless_call_def domain_le_def)

lemma calm_map_domains:
  assumes "\<And>d. domain_le d (f d)"
    and "fw_calls w' = fw_calls w" "od_orders (fw_od w') = od_orders (fw_od w)"
    and "od_jobs (fw_od w') = od_jobs (fw_od w)" and "zb_domains (fw_zone w') = map f (zb_domains (fw_zone w))"
  shows "calm w w'"
proof -
  have "dr_fqdn (f d) = dr_fqdn d" for d using assms(1) [of d] by (simp add: domain_le_def)
  with assms show ?thesis by (auto simp: calm_def row_at_map unique_by_map w_job_def)
qed

lemma released_links:
  "vd_domains (release_vm_reservation vid (db\<lparr>vd_domains := ls\<rparr>)) \<in> {ls, unlink_domain vid ls}"
  by (simp add: release_vm_reservation_def split: option.splits)

lemma zip_map_self: "map (\<lambda>(d, l). h d l) (zip ds (map g ds)) = map (\<lambda>d. h d (g d)) ds"
  by (induction ds) auto

lemma calm_release_reservation: "calm w (release_reservation vid w)"
proof -
  let ?ds = "zb_domains (fw_zone w)"
  let ?ls = "vd_domains (release_vm_reservation vid ((fw_vms w)\<lparr>vd_domains := map link_of ?ds\<rparr>))"
  have "\<exists>g. ?ls = map g ?ds"
    using released_links [where vid = vid and db = "fw_vms w" and ls = "map link_of ?ds"]
    by (auto simp: unlink_domain_def simp del: map_eq_conv intro: exI [of _ link_of])
  then obtain g where g: "?ls = map g ?ds" ..
  show ?thesis
    by (rule calm_map_domains [where f = "\<lambda>d. d\<lparr>dr_vm := dl_vm (g d)\<rparr>"])
      (simp_all add: release_reservation_def Let_def g zip_map_self domain_le_def)
qed

lemma gentle_plan_bundle: "gentle w0 (plan_bundle env oid)"
  unfolding plan_bundle_def
  by (rule gentle_atomic)
    (auto simp: Let_def order_le_def actionable_def closed_order_def split: option.splits if_splits intro!: calm_set_order)

lemma gentle_claim_for_bundle: "gentle w0 (claim_for_bundle o1 planned)"
proof -
  have c: "calm w (w\<lparr>fw_zone := z\<rparr>)" if "claim_vm_attachment a nm planned (fw_zone w) = (y, z)" for w a nm y z
    using that
  proof (cases rule: claim_vm_attachment_cases)
    case 1
    then show ?thesis by simp
  next
    case (2 d)
    then show ?thesis using calm_set_domain [where w = w and fq = "dr_fqdn d" and d = d and e = "d\<lparr>dr_vm := Some planned, dr_vm_ipv6 := None\<rparr>"] by (simp add: domain_le_def)
  qed
  show ?thesis unfolding claim_for_bundle_def
    by (rule gentle_atomic) (auto split: option.splits prod.splits sum.splits intro: c)
qed

lemma gentle_release_claim: "gentle w0 (release_claim planned)"
proof -
  have c: "calm w (w\<lparr>fw_zone := z\<rparr>)" if "release_vm_attachment_claim planned (fw_zone w) = (y, z)" for w y z
    using that
  proof (cases rule: release_claim_cases)
    case 1
    then show ?thesis by simp
  next
    case 2
    show ?thesis
      by (rule calm_map_domains [where f = "unclaimed planned"]) (simp_all add: 2 unclaimed_def domain_le_def)
  qed
  show ?thesis unfolding release_claim_def
    by (rule gentle_atomic) (auto split: option.splits prod.splits sum.splits intro: c)
qed

lemma gentle_reserve_bundle: "gentle w0 (reserve_bundle cfg env spec o1 q planned)"
  unfolding reserve_bundle_def Let_def
  by (rule gentle_atomic) (auto split: option.splits prod.splits sum.splits intro: calm_same)

lemma gentle_activate_bundle: "gentle w0 (activate_bundle cfg env o1 vid)"
  unfolding activate_bundle_def Let_def
  by (rule gentle_atomic) (auto split: option.splits prod.splits sum.splits intro: calm_same)

lemma gentle_start_bundle: "gentle w0 (start_bundle cfg env row)"
  unfolding start_bundle_def
  by (intro gentle_rules gentle_commit) (simp split: prod.splits add: calm_same)

lemma gentle_provision_bundle: "gentle w0 (provision_bundle cfg env oid fallback)"
  unfolding provision_bundle_def Let_def
  by (intro gentle_rules gentle_plan_bundle gentle_claim_for_bundle gentle_reserve_bundle gentle_activate_bundle
      gentle_commit calm_release_reservation gentle_release_claim gentle_start_bundle calm_same calm_with_order)
    (simp_all add: order_le_def actionable_def closed_order_def)


subsection \<open>The invariant\<close>

text \<open>The row of the order's domain remembers the submission, so that no later run submits again.\<close>

definition remembers :: "string \<Rightarrow> domain_row \<Rightarrow> bool" where
  "remembers oid d \<longleftrightarrow> dr_client_order d = Some oid \<and>
     (dr_provider_id d \<noteq> None \<or> dr_marker d = Some (register_marker oid) \<and> dr_status d \<noteq> D_FAILED)"

definition armed :: "world \<Rightarrow> domain_order \<Rightarrow> bool" where
  "armed w o1 \<longleftrightarrow> (\<exists>d. w_domain w (do_fqdn o1) = Some d \<and> remembers (do_id o1) d)"

definition waived :: "domain_order \<Rightarrow> bool" where
  "waived o1 \<longleftrightarrow> is_waived_billing (do_mode o1)"

definition order_safe :: "world \<Rightarrow> domain_order \<Rightarrow> nat \<Rightarrow> nat \<Rightarrow> bool" where
  "order_safe w o1 regs rens \<longleftrightarrow> \<not> actionable o1 \<and>
     (waived o1 \<or> regs = 0 \<or> regs = 1 \<and> (closed_order o1 \<or> armed w o1)) \<and>
     (rens = 0 \<or> rens = 1 \<and> do_action o1 = RENEW \<and> do_baseline o1 \<noteq> None)"

abbreviation regs :: "world \<Rightarrow> string \<Rightarrow> nat" where "regs w oid \<equiv> registers oid (fw_calls w)"
abbreviation rens :: "world \<Rightarrow> string \<Rightarrow> nat" where "rens w oid \<equiv> renews oid (fw_calls w)"

definition order_ok :: "world \<Rightarrow> string \<Rightarrow> bool" where
  "order_ok w oid \<longleftrightarrow> regs w oid = 0 \<and> rens w oid = 0 \<or>
     (\<exists>o1. w_order w oid = Some o1 \<and> order_safe w o1 (regs w oid) (rens w oid))"

definition keyed :: "world \<Rightarrow> bool" where
  "keyed w \<longleftrightarrow> unique_by dr_fqdn (zb_domains (fw_zone w)) \<and> unique_by do_id (od_orders (fw_od w)) \<and>
     unique_by dj_id (od_jobs (fw_od w))"

definition sound :: "world \<Rightarrow> bool" where
  "sound w \<longleftrightarrow> keyed w \<and> (\<forall>oid. order_ok w oid)"

lemma sound_ok: "sound w \<Longrightarrow> order_ok w oid"
  by (simp add: sound_def)

lemma sound_safe: "sound w \<Longrightarrow> w_order w oid = Some o1 \<Longrightarrow> \<not> (regs w oid = 0 \<and> rens w oid = 0) \<Longrightarrow>
    order_safe w o1 (regs w oid) (rens w oid)"
  using sound_ok [of w oid] unfolding order_ok_def by fastforce

lemma calm_counts: "calm w w' \<Longrightarrow> regs w' oid = regs w oid" "calm w w' \<Longrightarrow> rens w' oid = rens w oid"
  unfolding calm_def by (elim conjE, simp)+

lemma calm_keyed: "calm w w' \<Longrightarrow> keyed w \<Longrightarrow> keyed w'"
  unfolding calm_def keyed_def by simp

lemma remembers_le: "domain_le d e \<Longrightarrow> remembers oid d \<Longrightarrow> remembers oid e"
  by (cases "dr_provider_id e") (auto simp: domain_le_def remembers_def)

lemma calm_armed: "calm w w' \<Longrightarrow> order_le o1 o2 \<Longrightarrow> armed w o1 \<Longrightarrow> armed w' o2"
  unfolding armed_def by (auto simp: order_le_def elim!: calm_domainE intro: remembers_le)

lemma calm_order_safe: "calm w w' \<Longrightarrow> order_le o1 o2 \<Longrightarrow> order_safe w o1 r n \<Longrightarrow> order_safe w' o2 r n"
  using calm_armed [of w w' o1 o2] by (auto simp: order_safe_def order_le_def waived_def)

lemma calm_sound:
  assumes c: "calm w w'" and s: "sound w" shows "sound w'"
proof -
  have "order_ok w' oid" for oid
  proof (cases "regs w oid = 0 \<and> rens w oid = 0")
    case True
    with c show ?thesis by (simp add: order_ok_def calm_counts)
  next
    case False
    with sound_ok [OF s, of oid] obtain o1 where o: "w_order w oid = Some o1" "order_safe w o1 (regs w oid) (rens w oid)"
      unfolding order_ok_def by blast
    from c o(1) obtain o2 where "w_order w' oid = Some o2" "order_le o1 o2" by (rule calm_orderE)
    with calm_order_safe [OF c] o(2) show ?thesis by (auto simp: order_ok_def calm_counts [OF c])
  qed
  with s calm_keyed [OF c] show ?thesis by (simp add: sound_def)
qed

text \<open>A step that concerns one order: the others and the rows that remember them are untouched.\<close>

lemma sound_focus:
  assumes s: "sound w" and k: "keyed w'" and ok: "order_ok w' oid"
    and c: "\<And>j. j \<noteq> oid \<Longrightarrow> regs w' j = regs w j \<and> rens w' j = rens w j \<and> w_order w' j = w_order w j"
    and d: "\<And>j fq d. j \<noteq> oid \<Longrightarrow> w_domain w fq = Some d \<Longrightarrow> remembers j d \<Longrightarrow> w_domain w' fq = Some d"
  shows "sound w'"
proof -
  have "order_ok w' j" if j: "j \<noteq> oid" for j
  proof -
    have "armed w' o1" if "w_order w j = Some o1" "armed w o1" for o1
      using that d [OF j] row_at_Some [OF that(1)] by (auto simp: armed_def)
    then have "order_safe w' o1 r n" if "w_order w j = Some o1" "order_safe w o1 r n" for o1 r n
      using that by (auto simp: order_safe_def)
    moreover from s have "order_ok w j" by (simp add: sound_def)
    ultimately show ?thesis using c [OF j] unfolding order_ok_def by fastforce
  qed
  with k ok show ?thesis unfolding sound_def by metis
qed

subsection \<open>Conditions that survive calm steps\<close>

definition lasting :: "(world \<Rightarrow> bool) \<Rightarrow> bool" where
  "lasting P \<longleftrightarrow> (\<forall>w. P w \<longrightarrow> sound w) \<and> (\<forall>w w'. P w \<longrightarrow> calm w w' \<longrightarrow> P w')"

lemma lastingD: "lasting P \<Longrightarrow> P w \<Longrightarrow> sound w" "lasting P \<Longrightarrow> P w \<Longrightarrow> calm w w' \<Longrightarrow> P w'"
  unfolding lasting_def by blast+

lemma lasting_sound [intro, simp]: "lasting sound"
  unfolding lasting_def using calm_sound by blast

lemma lasting_conj:
  "lasting P \<Longrightarrow> (\<And>w w'. calm w w' \<Longrightarrow> Q w \<Longrightarrow> Q w') \<Longrightarrow> lasting (\<lambda>w. P w \<and> Q w)"
  unfolding lasting_def by blast

definition open_order :: "string \<Rightarrow> world \<Rightarrow> bool" where
  "open_order oid w \<longleftrightarrow> (\<exists>o1. w_order w oid = Some o1 \<and> \<not> closed_order o1)"

definition job_of :: "domain_job \<Rightarrow> world \<Rightarrow> bool" where
  "job_of j w \<longleftrightarrow> (\<exists>k. w_job w (dj_id j) = Some k \<and> same_job j k)"

lemma calm_open: "calm w w' \<Longrightarrow> open_order oid w \<Longrightarrow> open_order oid w'"
  unfolding open_order_def by (auto elim!: calm_orderE simp: order_le_def)

lemma calm_job: "calm w w' \<Longrightarrow> job_of j w \<Longrightarrow> job_of j w'"
  unfolding job_of_def by (auto elim!: calm_jobE intro: same_job_trans)

text \<open>The programs of the worker: when they return or die the world is sound, when they raise \<open>P\<close> still holds.\<close>

abbreviation closing :: "(world \<Rightarrow> bool) \<Rightarrow> 'a run \<Rightarrow> bool" where
  "closing P m \<equiv> triple P m (\<lambda>_. sound) P sound"

abbreviation ongoing :: "(world \<Rightarrow> bool) \<Rightarrow> 'a run \<Rightarrow> ('a \<Rightarrow> world \<Rightarrow> bool) \<Rightarrow> bool" where
  "ongoing P m Q \<equiv> triple P m Q P sound"

lemma gentle_lasting:
  assumes P: "lasting P" and g: "\<And>w0. P w0 \<Longrightarrow> gentle w0 m"
  shows "ongoing P m (\<lambda>_. P)"
proof (rule tripleI)
  fix n w assume p: "P w"
  obtain r n' w' where m: "m (n, w) = (r, n', w')" by (metis prod_cases3)
  from tripleD [OF g [OF p] calm_refl m] have "calm w w'" by (cases r) simp_all
  with p P lastingD have "P w'" "sound w'" by blast+
  with m show "case m (n, w) of (Done a, _, w') \<Rightarrow> P w' | (Raised e, _, w') \<Rightarrow> P w' | (Died, _, w') \<Rightarrow> sound w'"
    by (cases r) simp_all
qed

lemma closing_give: "lasting P \<Longrightarrow> closing P (give a)"
  by (rule triple_give) (rule lastingD)

lemma ongoing_throw: "ongoing P (throw e) Q"
  by (rule triple_throw)

lemma closing_gentle: "lasting P \<Longrightarrow> (\<And>w0. P w0 \<Longrightarrow> gentle w0 m) \<Longrightarrow> closing P m"
  by (rule triple_conseq [OF gentle_lasting]) (auto intro: lastingD)

lemma ongoing_next: "ongoing P m Q \<Longrightarrow> (\<And>a. triple (Q a) (k a) R P sound) \<Longrightarrow> ongoing P (next_act m k) R"
  by (rule triple_next)

lemma ongoing_remote: "lasting P \<Longrightarrow> harmless_call c \<Longrightarrow> ongoing P (remote reg c) (\<lambda>_. P)"
  using gentle_remote by (intro gentle_lasting)


lemma look_lasting: "(\<And>w0. P w0 \<Longrightarrow> triple P (f w0) Q R D) \<Longrightarrow> triple P (look f) Q R D"
  by (auto simp: triple_def look_def)

lemma look_fact:
  "(\<And>w0. P w0 \<Longrightarrow> F w0 w0) \<Longrightarrow> (\<And>w0. P w0 \<Longrightarrow> triple (F w0) (f w0) Q R D) \<Longrightarrow> triple P (look f) Q R D"
  by (auto simp: triple_def look_def)

subsection \<open>Closing an order\<close>

lemma with_operation_frame [simp]:
  "fw_calls (with_operation i f w) = fw_calls w" "fw_zone (with_operation i f w) = fw_zone w"
  "fw_vms (with_operation i f w) = fw_vms w"
  "od_orders (fw_od (with_operation i f w)) = od_orders (fw_od w)"
  "od_jobs (fw_od (with_operation i f w)) = od_jobs (fw_od w)"
  "od_ledger (fw_od (with_operation i f w)) = od_ledger (fw_od w)"
  by (auto simp: with_operation_def split: option.splits)

lemma failed_reservation_fqdn [simp]: "dr_fqdn (failed_reservation oid detail d) = dr_fqdn d"
  by (simp add: failed_reservation_def)

lemma failed_reservation_other: "j \<noteq> oid \<Longrightarrow> remembers j d \<Longrightarrow> failed_reservation oid detail d = d"
  by (simp add: failed_reservation_def remembers_def)

text \<open>What the closing transaction leaves.\<close>

lemma close_cases:
  assumes "close_paid_order cfg env oid code detail amount w = (x, w')"
  obtains "w' = w" "w_order w oid = None \<or> (\<exists>e. x = Inl e)"
  | o1 o2 where "x = Inr ()" "w_order w oid = Some o1" "do_id o2 = do_id o1" "do_mode o2 = do_mode o1"
      "do_action o2 = do_action o1" "do_baseline o2 = do_baseline o1"
      "do_status o2 = (if waived o1 then O_FAILED else O_REFUND_DUE)"
      "od_orders (fw_od w') = put_row do_id o2 (od_orders (fw_od w))" "od_jobs (fw_od w') = od_jobs (fw_od w)"
      "fw_calls w' = fw_calls w"
      "zb_domains (fw_zone w') = map (failed_reservation oid detail) (zb_domains (fw_zone w))"
proof (cases "w_order w oid")
  case None
  with assms that(1) show ?thesis by (simp add: close_paid_order_def)
next
  case (Some o1)
  let ?o2 = "o1\<lparr>do_status := (if waived o1 then O_FAILED else O_REFUND_DUE), do_error := Some code,
    do_detail := Some (take 1000 detail)\<rparr>"
  show ?thesis
  proof (cases "waived o1")
    case True
    with Some assms show ?thesis
      by (intro that(2) [of o1 ?o2]) (auto simp: close_paid_order_def Let_def waived_def)
  next
    case w: False
    show ?thesis
    proof (cases "build_refund_event (fc_wired cfg) (fe_event_id env) (od_intents (fw_od w)) ?o2 code (Some amount)")
      case None
      with w Some assms show ?thesis
        by (intro that(1)) (auto simp: close_paid_order_def Let_def waived_def)
    next
      case (Some e)
      with w \<open>w_order w oid = Some o1\<close> assms show ?thesis
        by (intro that(2) [of o1 ?o2]) (auto simp: close_paid_order_def Let_def waived_def)
    qed
  qed
qed

lemma close_sound:
  assumes s: "sound w" and c: "close_paid_order cfg env oid code detail amount w = (x, w')"
  shows "sound w'" "x = Inl e \<Longrightarrow> w' = w"
proof -
  show "sound w'" using c
  proof (cases rule: close_cases)
    case 1
    with s show ?thesis by simp
  next
    case (2 o1 o2)
    have i: "do_id o1 = oid" using row_at_Some [OF 2(2)] by simp
    have ord: "w_order w' j = (if j = oid then Some o2 else w_order w j)" for j
      using 2 i by (simp add: row_at_put)
    have dom: "w_domain w' fq = map_option (failed_reservation oid detail) (w_domain w fq)" for fq
      using 2 by (simp add: row_at_map)
    show ?thesis
    proof (rule sound_focus [OF s, where oid = oid])
      show "keyed w'" using s 2 by (simp add: sound_def keyed_def unique_by_map)
      show "order_ok w' oid"
      proof (cases "regs w oid = 0 \<and> rens w oid = 0")
        case True
        then show ?thesis using 2 by (simp add: order_ok_def)
      next
        case False
        from sound_safe [OF s 2(2) False] have "order_safe w' o2 (regs w oid) (rens w oid)"
          using 2(3-7) by (auto simp: order_safe_def actionable_def closed_order_def waived_def)
        with ord [of oid] 2 show ?thesis by (simp add: order_ok_def)
      qed
      show "w_domain w' fq = Some d" if "j \<noteq> oid" "w_domain w fq = Some d" "remembers j d" for j fq d
        using that dom by (simp add: failed_reservation_other)
    qed (simp_all add: 2(10) ord)
  qed
  show "x = Inl e \<Longrightarrow> w' = w" using c by (cases rule: close_cases) auto
qed

lemma closing_fail:
  assumes P: "lasting P" shows "closing P (fail_paid_order cfg env oid code detail)"
  unfolding fail_paid_order_def
proof (rule look_lasting)
  fix w0
  have close: "closing P (atomic (close_paid_order cfg env oid code detail a))" for a
  proof (rule triple_atomic)
    fix w x w' assume p: "P w" and c: "close_paid_order cfg env oid code detail a w = (Inr x, w')"
    from lastingD(1) [OF P p] c show "sound w'" by (rule close_sound(1))
  next
    fix w e w' assume p: "P w" and c: "close_paid_order cfg env oid code detail a w = (Inl e, w')"
    from close_sound(2) [OF lastingD(1) [OF P p] c] p show "P w'" by simp
  qed (rule lastingD(1) [OF P])
  have keep: "ongoing P (if b then attempt (after (provision_bundle cfg env oid True) (give True)) (\<lambda>_. give False)
      else give False) (\<lambda>_. P)" for b
    using gentle_provision_bundle by (intro gentle_lasting [OF P] gentle_rules)
  show "closing P (case w_order w0 oid of None \<Rightarrow> give () | Some o1 \<Rightarrow> next_act
      (if truthy (do_vm_quote o1) \<and> do_keep_vm o1
       then attempt (after (provision_bundle cfg env oid True) (give True)) (\<lambda>_. give False) else give False)
      (\<lambda>kept. atomic (close_paid_order cfg env oid code detail (if kept then do_domain_amount o1 else do_amount o1))))"
    by (intro triple_option closing_give [OF P] ongoing_next [OF keep] close)
qed


subsection \<open>Registration\<close>

text \<open>A run that fulfils the order read as \<open>o0\<close> for the job \<open>jb\<close>.\<close>

definition running :: "domain_job \<Rightarrow> domain_order \<Rightarrow> world \<Rightarrow> bool" where
  "running jb o0 w \<longleftrightarrow> sound w \<and> job_of jb w \<and> \<not> closed_order o0 \<and> \<not> actionable o0 \<and>
     (\<exists>o1. w_order w (do_id o0) = Some o1 \<and> order_le o0 o1)"

lemma calm_running: "calm w w' \<Longrightarrow> running jb o0 w \<Longrightarrow> running jb o0 w'"
  using calm_sound [of w w'] calm_job [of w w' jb] unfolding running_def by (auto elim!: calm_orderE intro: order_le_trans)

lemma lasting_running [simp]: "lasting (running jb o0)"
  unfolding lasting_def using calm_running running_def by blast

lemma running_open: "running jb o0 w \<Longrightarrow> open_order (do_id o0) w"
  by (auto simp: running_def open_order_def order_le_def)

text \<open>Nothing was submitted for the order; only a waived one, which is not refunded, may run again.\<close>

definition quiet :: "domain_order \<Rightarrow> world \<Rightarrow> bool" where
  "quiet o0 w \<longleftrightarrow> waived o0 \<or> regs w (do_id o0) = 0"

definition held :: "domain_order \<Rightarrow> world \<Rightarrow> bool" where
  "held o0 w \<longleftrightarrow> (\<exists>d. w_domain w (do_fqdn o0) = Some d \<and> dr_client_order d = Some (do_id o0) \<and>
     (dr_provider_id d \<noteq> None \<or> dr_status d \<noteq> D_FAILED))"

lemma calm_quiet: "calm w w' \<Longrightarrow> quiet o0 w \<Longrightarrow> quiet o0 w'"
  by (simp add: quiet_def calm_counts)

lemma calm_held: "calm w w' \<Longrightarrow> held o0 w \<Longrightarrow> held o0 w'"
proof -
  assume c: "calm w w'" and "held o0 w"
  then obtain d where d: "w_domain w (do_fqdn o0) = Some d" "dr_client_order d = Some (do_id o0)"
    "dr_provider_id d \<noteq> None \<or> dr_status d \<noteq> D_FAILED" by (auto simp: held_def)
  from c d(1) obtain e where e: "w_domain w' (do_fqdn o0) = Some e" "domain_le d e" by (rule calm_domainE)
  from e(2) d(2,3) have "dr_client_order e = Some (do_id o0)" "dr_provider_id e \<noteq> None \<or> dr_status e \<noteq> D_FAILED"
    by (auto simp: domain_le_def)
  with e(1) show ?thesis by (auto simp: held_def)
qed

lemma running_quiet:
  assumes r: "running jb o0 w" and n: "\<And>d. w_domain w (do_fqdn o0) = Some d \<Longrightarrow> \<not> remembers (do_id o0) d"
  shows "quiet o0 w"
proof (cases "regs w (do_id o0) = 0")
  case False
  from r obtain o1 where o: "sound w" "w_order w (do_id o0) = Some o1" "order_le o0 o1" "\<not> closed_order o0"
    by (auto simp: running_def)
  have "do_fqdn o1 = do_fqdn o0" "do_id o1 = do_id o0" using o(3) by (simp_all add: order_le_def)
  with n have "\<not> armed w o1" by (auto simp: armed_def)
  with sound_safe [OF o(1,2)] False o(3,4) show ?thesis by (auto simp: order_safe_def quiet_def waived_def order_le_def)
qed (simp add: quiet_def)

text \<open>A write to a row that remembers no other order keeps the world sound, while nothing was submitted.\<close>

lemma quiet_write:
  assumes r: "running jb o0 w" and q: "quiet o0 w" and k: "keyed w'"
    and same: "fw_calls w' = fw_calls w" "od_jobs (fw_od w') = od_jobs (fw_od w)"
    and o: "\<And>j. j \<noteq> do_id o0 \<Longrightarrow> w_order w' j = w_order w j"
    and o2: "\<And>o1. w_order w (do_id o0) = Some o1 \<Longrightarrow> order_le o0 o1 \<Longrightarrow>
       (\<exists>o2. w_order w' (do_id o0) = Some o2 \<and> order_le o1 o2)"
    and d: "\<And>j fq d. j \<noteq> do_id o0 \<Longrightarrow> w_domain w fq = Some d \<Longrightarrow> remembers j d \<Longrightarrow> w_domain w' fq = Some d"
  shows "running jb o0 w'"
proof -
  let ?i = "do_id o0"
  from r obtain o1 where a: "sound w" "w_order w ?i = Some o1" "order_le o0 o1" by (auto simp: running_def)
  from o2 [OF a(2,3)] obtain o3 where b: "w_order w' ?i = Some o3" "order_le o1 o3" by blast
  have "order_ok w' ?i"
  proof (cases "regs w ?i = 0 \<and> rens w ?i = 0")
    case True
    with same show ?thesis by (simp add: order_ok_def)
  next
    case False
    from sound_safe [OF a(1,2) False] q a(3) b(2) have "order_safe w' o3 (regs w ?i) (rens w ?i)"
      by (auto simp: order_safe_def quiet_def order_le_def waived_def)
    with b(1) same show ?thesis by (simp add: order_ok_def)
  qed
  with sound_focus [OF a(1) k] o d same have "sound w'" by simp
  with r b a(3) same(2) show ?thesis
    by (auto simp: running_def job_of_def w_job_def intro: order_le_trans)
qed

lemma reserve_step:
  assumes r: "running jb o0 w" and o1: "do_id o1 = do_id o0" "do_fqdn o1 = do_fqdn o0"
    and f: "reserve_registration_domain cfg o1 name ext (Suc n, w) = (x, s, w')"
  shows "\<exists>res. x = Done res \<and> running jb o0 w' \<and> (\<forall>d. res = Some d \<longrightarrow> dr_fqdn d = do_fqdn o0 \<and> held o0 w' \<and>
     (dr_provider_id d = None \<longrightarrow> \<not> truthy (dr_marker d) \<longrightarrow> quiet o0 w'))"
proof (cases "w_domain w (do_fqdn o0)")
  case (Some d)
  have fq: "dr_fqdn d = do_fqdn o0" using row_at_Some [OF Some] by simp
  show ?thesis
  proof (cases "dr_provider_id d = None \<and> dr_status d = D_FAILED")
    case True
    let ?d = "rebound_domain cfg o1 name ext d"
    have q: "quiet o0 w" using r True Some by (intro running_quiet) (auto simp: remembers_def)
    have d: "dr_fqdn ?d = do_fqdn o0" "dr_client_order ?d = Some (do_id o0)" "dr_status ?d = D_REGISTERING"
      using fq o1 by (simp_all add: rebound_domain_def)
    have "running jb o0 (set_domain ?d w)"
    proof (rule quiet_write [OF r q])
      show "keyed (set_domain ?d w)" using r by (simp add: running_def sound_def keyed_def)
      show "w_domain (set_domain ?d w) f = Some e" if "w_domain w f = Some e" "remembers j e" for j f e
        using that True Some by (auto simp: row_at_put d remembers_def)
    qed simp_all
    moreover have "held o0 (set_domain ?d w)" using Some d by (simp add: held_def row_at_put)
    moreover have "quiet o0 (set_domain ?d w)" using q by (simp add: quiet_def)
    ultimately show ?thesis using f Some True o1 d
      by (auto simp: reserve_registration_domain_def atomic_def Let_def)
  next
    case False
    then have h: "held o0 w" if "dr_client_order d = Some (do_id o0)" using that Some by (auto simp: held_def)
    have "quiet o0 w" if "dr_provider_id d = None" "\<not> truthy (dr_marker d)"
      using r that Some by (intro running_quiet) (auto simp: remembers_def register_marker_def)
    with f Some False o1 fq r h show ?thesis
      by (auto simp: reserve_registration_domain_def atomic_def split: if_splits)
  qed
next
  case None
  let ?d = "new_domain cfg o1 name ext"
  let ?w = "w\<lparr>fw_zone := (fw_zone w)\<lparr>zb_domains := zb_domains (fw_zone w) @ [?d]\<rparr>\<rparr>"
  have d: "dr_fqdn ?d = do_fqdn o0" "dr_client_order ?d = Some (do_id o0)" "dr_status ?d = D_REGISTERING"
    using o1 by (simp_all add: new_domain_def)
  have q: "quiet o0 w" using r None by (intro running_quiet) auto
  have "running jb o0 ?w"
  proof (rule quiet_write [OF r q])
    show "keyed ?w" using r None d by (auto simp: running_def sound_def keyed_def unique_by_def row_at_def find_key_None)
    show "w_domain ?w f = Some e" if "w_domain w f = Some e" for f e
      using that by (simp add: row_at_append)
  qed simp_all
  moreover have "held o0 ?w" using None d by (simp add: held_def row_at_append)
  moreover have "quiet o0 ?w" using q by (simp add: quiet_def)
  ultimately show ?thesis using f None o1 d r
    by (auto simp: reserve_registration_domain_def atomic_def Let_def split: if_splits)
qed


lemma triple_reserve:
  assumes "do_id o1 = do_id o0" "do_fqdn o1 = do_fqdn o0"
  shows "ongoing (running jb o0) (reserve_registration_domain cfg o1 name ext)
    (\<lambda>res w. running jb o0 w \<and> (\<forall>d. res = Some d \<longrightarrow> dr_fqdn d = do_fqdn o0 \<and> held o0 w \<and>
      (dr_provider_id d = None \<longrightarrow> \<not> truthy (dr_marker d) \<longrightarrow> quiet o0 w)))"
proof (rule tripleI)
  fix n w assume r: "running jb o0 w"
  obtain x s w' where f: "reserve_registration_domain cfg o1 name ext (n, w) = (x, s, w')" by (metis prod_cases3)
  show "case reserve_registration_domain cfg o1 name ext (n, w) of
      (Done res, _, w) \<Rightarrow> running jb o0 w \<and> (\<forall>d. res = Some d \<longrightarrow> dr_fqdn d = do_fqdn o0 \<and> held o0 w \<and>
        (dr_provider_id d = None \<longrightarrow> \<not> truthy (dr_marker d) \<longrightarrow> quiet o0 w))
    | (Raised e, _, w) \<Rightarrow> running jb o0 w | (Died, _, w) \<Rightarrow> sound w"
  proof (cases n)
    case 0
    with r show ?thesis by (simp add: reserve_registration_domain_def atomic_def running_def)
  next
    case (Suc m)
    from reserve_step [OF r assms f [unfolded Suc]] f show ?thesis unfolding Suc by auto
  qed
qed

lemma registers_snoc: "registers oid (cs @ [c]) = registers oid cs + (case c of C_Register i n x \<Rightarrow> if i = oid then 1 else 0 | _ \<Rightarrow> 0)"
  by (auto simp: registers_def split: remote_call.splits)

lemma renews_snoc: "renews oid (cs @ [c]) = renews oid cs + (case c of C_Renew i p \<Rightarrow> if i = oid then 1 else 0 | _ \<Rightarrow> 0)"
  by (auto simp: renews_def split: remote_call.splits)

text \<open>The submission: first the marker, then the call.\<close>

definition marked :: "domain_order \<Rightarrow> world \<Rightarrow> bool" where
  "marked o0 w \<longleftrightarrow> (\<exists>d. w_domain w (do_fqdn o0) = Some d \<and> remembers (do_id o0) d)"

lemma mark_step:
  assumes r: "running jb o0 w" and q: "quiet o0 w" and h: "held o0 w"
  defines "w' \<equiv> with_order (do_id o0) (\<lambda>o1. o1\<lparr>do_status := O_SUBMITTING\<rparr>)
     (with_domain (do_fqdn o0) (\<lambda>d. d\<lparr>dr_marker := Some (register_marker (do_id o0))\<rparr>) w)"
  shows "running jb o0 w' \<and> quiet o0 w' \<and> marked o0 w'"
proof -
  let ?i = "do_id o0" and ?m = "Some (register_marker (do_id o0))"
  from r obtain o1 where a: "w_order w ?i = Some o1" "order_le o0 o1" "\<not> closed_order o0" by (auto simp: running_def)
  have i: "do_id o1 = ?i" "\<not> closed_order o1" using a by (auto simp: order_le_def)
  from h obtain d where d: "w_domain w (do_fqdn o0) = Some d" "dr_client_order d = Some ?i"
    "dr_provider_id d \<noteq> None \<or> dr_status d \<noteq> D_FAILED" by (auto simp: held_def)
  have fq: "dr_fqdn d = do_fqdn o0" using row_at_Some [OF d(1)] by simp
  have w': "w' = set_order (o1\<lparr>do_status := O_SUBMITTING\<rparr>) (set_domain (d\<lparr>dr_marker := ?m\<rparr>) w)"
    using a d by (simp add: w'_def with_order_def with_domain_def)
  have "running jb o0 w'"
  proof (rule quiet_write [OF r q])
    show "keyed w'" using r by (simp add: w' running_def sound_def keyed_def)
    show "\<exists>o2. w_order w' ?i = Some o2 \<and> order_le o2' o2" if "w_order w ?i = Some o2'" for o2'
      using that a i by (auto simp: w' row_at_put order_le_def actionable_def closed_order_def)
    show "w_domain w' f = Some e" if "j \<noteq> ?i" "w_domain w f = Some e" "remembers j e" for j f e
      using that d fq by (auto simp: w' row_at_put remembers_def)
  qed (simp_all add: w' row_at_put i)
  moreover have "marked o0 w'" using d fq by (auto simp: marked_def w' row_at_put remembers_def)
  moreover have "quiet o0 w'" using q by (simp add: quiet_def w')
  ultimately show ?thesis by blast
qed

lemma bought_step:
  assumes r: "running jb o0 w" and q: "quiet o0 w" and m: "marked o0 w"
  shows "running jb o0 (w\<lparr>fw_calls := fw_calls w @ [C_Register (do_id o0) name ext]\<rparr>)" (is "running jb o0 ?w")
proof -
  let ?i = "do_id o0"
  from r obtain o1 where a: "sound w" "w_order w ?i = Some o1" "order_le o0 o1" "\<not> actionable o0" by (auto simp: running_def)
  have o: "do_id o1 = ?i" "do_fqdn o1 = do_fqdn o0" "\<not> actionable o1" "waived o1 = waived o0"
    using a by (auto simp: order_le_def waived_def)
  with m have armed: "armed ?w o1" by (simp add: marked_def armed_def)
  have "rens w ?i = 0 \<or> rens w ?i = 1 \<and> do_action o1 = RENEW \<and> do_baseline o1 \<noteq> None"
    using sound_safe [OF a(1,2)] by (cases "rens w ?i = 0") (auto simp: order_safe_def)
  with armed o q have "order_safe ?w o1 (regs ?w ?i) (rens ?w ?i)"
    by (auto simp: order_safe_def quiet_def registers_snoc renews_snoc)
  with a(2) have ok: "order_ok ?w ?i" by (auto simp: order_ok_def)
  have "sound ?w"
    by (rule sound_focus [OF a(1) _ ok]) (use a(1) in \<open>auto simp: sound_def keyed_def registers_snoc renews_snoc\<close>)
  with r show ?thesis by (simp add: running_def job_of_def w_job_def)
qed

lemma triple_submit:
  assumes "oid = do_id o0" "fq = do_fqdn o0"
  shows "triple (\<lambda>w. running jb o0 w \<and> quiet o0 w \<and> held o0 w) (submit_registration reg oid fq name ext)
    (\<lambda>_. running jb o0) (running jb o0) sound"
  unfolding submit_registration_def commit_def remote_def assms
proof (rule triple_after)
  show "triple (\<lambda>w. running jb o0 w \<and> quiet o0 w \<and> held o0 w)
    (atomic (\<lambda>w. (Inr (), with_order (do_id o0) (\<lambda>o1. o1\<lparr>do_status := O_SUBMITTING\<rparr>)
       (with_domain (do_fqdn o0) (\<lambda>d. d\<lparr>dr_marker := Some (register_marker (do_id o0))\<rparr>) w))))
    (\<lambda>_ w. running jb o0 w \<and> quiet o0 w \<and> marked o0 w) (running jb o0) sound"
    using mark_step by (intro triple_atomic) (auto simp: running_def)
  show "triple (\<lambda>w. running jb o0 w \<and> quiet o0 w \<and> marked o0 w)
    (atomic (\<lambda>w. (reg (fw_calls w) (C_Register (do_id o0) name ext),
       w\<lparr>fw_calls := fw_calls w @ [C_Register (do_id o0) name ext]\<rparr>)))
    (\<lambda>_. running jb o0) (running jb o0) sound"
    using bought_step by (intro triple_atomic) (auto simp: running_def)
qed


definition told :: "(world \<Rightarrow> bool) \<Rightarrow> 'a option \<Rightarrow> world \<Rightarrow> bool" where
  "told P r = (case r of None \<Rightarrow> sound | Some _ \<Rightarrow> P)"

lemma told_simps [simp]: "told P None = sound" "told P (Some r) = P"
  by (simp_all add: told_def)

lemma ongoing_failing: "lasting P \<Longrightarrow> ongoing P (failing (fail_paid_order cfg env oid c t)) (told Q)"
  unfolding failing_def by (rule triple_after [OF closing_fail]) (auto intro: triple_give)

lemma ongoing_some: "ongoing P m (\<lambda>_. P) \<Longrightarrow> ongoing P (next_act m (\<lambda>r. give (Some r))) (told P)"
  by (erule ongoing_next) (auto intro: triple_give)

lemma triple_buy:
  assumes "do_id o1 = do_id o0" "fq = do_fqdn o0"
  shows "triple (\<lambda>w. running jb o0 w \<and> quiet o0 w \<and> held o0 w) (buy_registration cfg env reg o1 fq name ext chk)
    (told (running jb o0)) (running jb o0) sound"
proof -
  let ?P = "running jb o0" and ?B = "\<lambda>w. running jb o0 w \<and> quiet o0 w \<and> held o0 w"
  have f: "triple ?B (failing (fail_paid_order cfg env oid c t)) (told ?P) ?P sound" for oid c t
    by (rule triple_pre [OF ongoing_failing]) simp_all
  have t: "triple ?B (throw e) (told ?P) ?P sound" for e :: fexn
    by (rule triple_throw) simp
  have s: "triple ?B (next_act (submit_registration reg (do_id o1) fq name ext) (\<lambda>r. give (Some r))) (told ?P) ?P sound"
    by (rule triple_next [OF triple_submit [OF assms]]) (auto intro: triple_give)
  show ?thesis unfolding buy_registration_def Let_def
    by (intro triple_splits f t s)
qed

lemma triple_registration_reply:
  assumes "do_id o1 = do_id o0" "dr_fqdn d = do_fqdn o0"
  shows "triple (\<lambda>w. running jb o0 w \<and> held o0 w \<and> (dr_provider_id d = None \<longrightarrow> \<not> truthy (dr_marker d) \<longrightarrow> quiet o0 w))
    (registration_reply cfg env reg o1 d name ext) (told (running jb o0)) (running jb o0) sound"
proof -
  let ?P = "running jb o0"
  let ?B = "\<lambda>w. running jb o0 w \<and> held o0 w \<and> (dr_provider_id d = None \<longrightarrow> \<not> truthy (dr_marker d) \<longrightarrow> quiet o0 w)"
  have L: "lasting ?B"
    using calm_held calm_quiet by (intro lasting_conj lasting_running) blast
  have f: "triple ?B (failing (fail_paid_order cfg env oid c t)) (told ?P) ?P sound" for oid c t
    by (rule triple_pre [OF ongoing_failing]) simp_all
  have c: "triple ?B (remote reg (C_Check name ext)) (\<lambda>_. ?B) ?P sound"
    "triple ?B (remote reg (C_Search name ext)) (\<lambda>_. ?B) ?P sound"
    by (rule triple_conseq [OF ongoing_remote [OF L]]; simp add: harmless_call_def)+
  have g: "triple ?B (next_act (remote reg (C_Get pid)) (\<lambda>r. give (Some r))) (told ?P) ?P sound" for pid
    by (rule triple_pre [OF ongoing_some]) (auto intro: ongoing_remote simp: harmless_call_def)
  have s: "triple ?B (give (Some found)) (told ?P) ?P sound" for found :: reply
    by (rule triple_give) simp
  have t: "triple ?B (throw e) (told ?P) ?P sound" for e :: fexn
    by (rule triple_throw) simp
  have b: "triple ?B (buy_registration cfg env reg o1 (dr_fqdn d) name ext chk) (told ?P) ?P sound"
    if "dr_provider_id d = None" "\<not> truthy (dr_marker d)" for chk
    by (rule triple_pre [OF triple_buy [OF assms]]) (use that in simp)
  show ?thesis unfolding registration_reply_def Let_def
  proof (intro triple_option g triple_next [OF c(1)] triple_if f triple_next [OF c(2)] s t)
  qed (use b in auto)
qed


definition open_registration :: "string \<Rightarrow> world \<Rightarrow> bool" where
  "open_registration oid w \<longleftrightarrow> (\<exists>o1. w_order w oid = Some o1 \<and> \<not> closed_order o1 \<and> do_action o1 \<noteq> RENEW)"

lemma calm_open_registration: "calm w w' \<Longrightarrow> open_registration oid w \<Longrightarrow> open_registration oid w'"
  unfolding open_registration_def by (auto elim!: calm_orderE simp: order_le_def)

lemma running_registration: "running jb o0 w \<Longrightarrow> do_action o0 \<noteq> RENEW \<Longrightarrow> open_registration (do_id o0) w"
  by (auto simp: running_def open_registration_def order_le_def)

text \<open>A status change of an open order and its domain, as the transactions below make it.\<close>

lemma with_domain_orders [simp]: "fw_od (with_domain fq f w) = fw_od w" "fw_calls (with_domain fq f w) = fw_calls w"
  by (auto simp: with_domain_def split: option.splits)

lemma calm_update:
  assumes d: "\<And>d. domain_le d (f d)"
    and g: "\<And>o1. w_order w oid = Some o1 \<Longrightarrow> order_le o1 (g o1)"
  shows "calm w (with_operation i h (with_order oid g (with_domain fq f w)))"
proof -
  have "calm w (with_domain fq f w)" using d by (rule calm_with_domain)
  also have "calm \<dots> (with_order oid g (with_domain fq f w))" using g by (intro calm_with_order) simp
  also have "calm \<dots> (with_operation i h \<dots>)" by (rule calm_with_operation)
  finally show ?thesis .
qed

lemma gentle_commit_with:
  assumes f: "\<And>w. calm w0 w \<Longrightarrow> calm w (f w)" and g: "\<And>w u w'. g w = (u, w') \<Longrightarrow> calm w w'"
  shows "gentle w0 (commit_with f b g)"
  unfolding commit_with_def
proof (rule gentle_atomic)
  fix w x w' assume c: "calm w0 w"
    and e: "(if \<not> b then (Inr (), f w) else case g (f w) of (Inl e, _) \<Rightarrow> (Inl e, w) | (Inr _, w') \<Rightarrow> (Inr (), w')) = (x, w')"
  obtain u v where gf: "g (f w) = (u, v)" by fastforce
  from e gf have "w' = f w \<or> w' = w \<or> w' = v" by (auto split: if_splits sum.splits)
  with f [OF c] calm_trans [OF f [OF c] g [OF gf]] show "calm w w'" by auto
qed

lemma add_job_keeps: "row_at dj_id i jobs = Some j \<Longrightarrow> row_at dj_id i (add_job jid kind res dedupe t jobs) = Some j"
  by (simp add: add_job_def row_at_append)

lemma calm_pending_job: "pending_job cfg env oid fq w = (u, w') \<Longrightarrow> calm w w'"
  by (auto simp: pending_job_def Let_def calm_def w_job_def add_job_keeps add_job_unique simp del: append_Cons
      split: if_split_asm)

lemma gentle_record_registration:
  assumes "open_registration (do_id o1) w0"
  shows "gentle w0 (record_registration cfg env o1 fq result pid)"
  unfolding record_registration_def Let_def
  by (intro gentle_rules gentle_commit_with calm_pending_job calm_update)
    (auto simp: domain_le_def order_le_def actionable_def closed_order_def open_registration_def
      dest: calm_open_registration [OF _ assms])

lemma gentle_finish_active:
  assumes "open_order oid w0" shows "gentle w0 (finish_active_order oid fq pst)"
  unfolding finish_active_order_def Let_def
  by (intro gentle_commit calm_update)
    (auto simp: domain_le_def order_le_def actionable_def closed_order_def open_order_def dest: calm_open [OF _ assms])

lemma closing_complete:
  "closing (running jb o0) (complete_registration cfg env reg (do_id o0) fq pst pid)"
  unfolding complete_registration_def
proof (rule triple_after)
  let ?P = "running jb o0"
  show "ongoing ?P (attempt (ensure_managed_zone cfg reg fq pid None)
      (\<lambda>e. after (commit (with_domain fq (\<lambda>d. d\<lparr>dr_dnssec_status := ''error''\<rparr>))) (throw e))) (\<lambda>_. ?P)"
    by (intro gentle_lasting lasting_running gentle_rules gentle_ensure_managed_zone gentle_commit calm_with_domain)
      (simp add: domain_le_def)
  show "closing ?P (after (finish_active_order (do_id o0) fq pst) (provision_bundle cfg env (do_id o0) False))"
  proof (rule triple_after)
    show "ongoing ?P (finish_active_order (do_id o0) fq pst) (\<lambda>_. ?P)"
      by (intro gentle_lasting lasting_running gentle_finish_active running_open)
    show "closing ?P (provision_bundle cfg env (do_id o0) False)"
      by (intro closing_gentle lasting_running gentle_provision_bundle)
  qed
qed

lemma gentle_resolve: "gentle w0 (resolve_provider_id reg name ext result)"
  unfolding resolve_provider_id_def by (intro gentle_rules) (simp_all add: harmless_call_def)

lemma triple_register_reserved:
  assumes "do_id o1 = do_id o0" "dr_fqdn d = do_fqdn o0" "do_action o0 \<noteq> RENEW"
  shows "triple (\<lambda>w. running jb o0 w \<and> held o0 w \<and> (dr_provider_id d = None \<longrightarrow> \<not> truthy (dr_marker d) \<longrightarrow> quiet o0 w))
    (register_reserved cfg env reg o1 d name ext fq) (\<lambda>_. sound) (running jb o0) sound"
  unfolding register_reserved_def
proof (rule triple_next [OF triple_registration_reply [OF assms(1,2)]], rule triple_option)
  fix r :: "reply option"
  let ?P = "running jb o0"
  show "triple (told ?P r) (give ()) (\<lambda>_. sound) ?P sound" if "r = None"
    using that by (auto intro: triple_give)
  fix result assume r: "r = Some result"
  have f: "closing ?P (after (record_registration cfg env o1 fq res pid)
      (if active_status (rp_status res) then complete_registration cfg env reg (do_id o1) fq (rp_status res) pid else give ()))" for res pid
  proof (rule triple_after)
    show "ongoing ?P (record_registration cfg env o1 fq res pid) (\<lambda>_. ?P)"
      using running_registration assms by (intro gentle_lasting lasting_running gentle_record_registration) simp
    show "closing ?P (if active_status (rp_status res) then complete_registration cfg env reg (do_id o1) fq (rp_status res) pid else give ())"
      unfolding assms(1) by (intro triple_if closing_complete closing_give lasting_running)
  qed
  show "triple (told ?P r) (next_act (resolve_provider_id reg name ext result) (\<lambda>(result, pid).
      after (record_registration cfg env o1 fq result pid)
        (if active_status (rp_status result) then complete_registration cfg env reg (do_id o1) fq (rp_status result) pid
         else give ()))) (\<lambda>_. sound) ?P sound"
    unfolding r told_simps
    by (intro triple_next [OF gentle_lasting] lasting_running gentle_resolve triple_prod f)
qed

lemma closing_registration:
  assumes act: "do_action o0 \<noteq> RENEW"
  shows "closing (running jb o0) (fulfil_registration cfg env reg (do_id o0))"
  unfolding fulfil_registration_def
proof (rule look_lasting)
  fix w0 assume "running jb o0 w0"
  then obtain o1 where o1: "w_order w0 (do_id o0) = Some o1" "order_le o0 o1" by (auto simp: running_def)
  let ?P = "running jb o0"
  have i: "do_id o1 = do_id o0" "do_fqdn o1 = do_fqdn o0" using o1(2) by (simp_all add: order_le_def)
  have f: "closing ?P (fail_paid_order cfg env (do_id o0) c t)" for c t by (intro closing_fail lasting_running)
  show "closing ?P (case w_order w0 (do_id o0) of None \<Rightarrow> give () | Some o1 \<Rightarrow>
      case row_at dq_id (do_quote o1) (od_quotes (fw_od w0)) of
        None \<Rightarrow> fail_paid_order cfg env (do_id o0) ''quote_missing'' ''The paid quote no longer exists.''
      | Some q \<Rightarrow> case normalize_registrable_domain (do_fqdn o1) of
          Inl (s, c) \<Rightarrow> throw (F_Problem c c)
        | Inr (name, ext, fq) \<Rightarrow> next_act (reserve_registration_domain cfg o1 name ext) (\<lambda>domain. case domain of
            None \<Rightarrow> fail_paid_order cfg env (do_id o0) ''domain_order_conflict'' ''This domain is already assigned to another Hyrule order.''
          | Some d \<Rightarrow> register_reserved cfg env reg o1 d name ext fq))"
    unfolding o1(1) option.case
  proof (intro triple_option triple_sum triple_prod f ongoing_throw triple_next [OF triple_reserve [OF i]])
    fix name ext fq and res :: "domain_row option"
    show "triple (\<lambda>w. ?P w \<and> (\<forall>d. res = Some d \<longrightarrow> dr_fqdn d = do_fqdn o0 \<and> held o0 w \<and>
        (dr_provider_id d = None \<longrightarrow> \<not> truthy (dr_marker d) \<longrightarrow> quiet o0 w)))
      (fail_paid_order cfg env (do_id o0) ''domain_order_conflict'' ''This domain is already assigned to another Hyrule order.'')
      (\<lambda>_. sound) ?P sound" by (rule triple_pre [OF f]) simp
    fix d assume "res = Some d"
    then show "triple (\<lambda>w. ?P w \<and> (\<forall>d. res = Some d \<longrightarrow> dr_fqdn d = do_fqdn o0 \<and> held o0 w \<and>
        (dr_provider_id d = None \<longrightarrow> \<not> truthy (dr_marker d) \<longrightarrow> quiet o0 w)))
      (register_reserved cfg env reg o1 d name ext fq) (\<lambda>_. sound) ?P sound"
      by (cases "dr_fqdn d = do_fqdn o0")
        (auto intro: triple_pre [OF triple_register_reserved [OF i(1) _ act]] triple_false)
  qed
qed


subsection \<open>Renewal\<close>

lemma calm_baseline:
  assumes r: "running jb o0 w" and a: "do_action o0 = RENEW"
  shows "running jb o0 (with_domain fq (\<lambda>d. if dr_expires_at d = None then d\<lparr>dr_expires_at := Some b\<rparr> else d)
     (with_order (do_id o0) (\<lambda>o1. o1\<lparr>do_status := O_SUBMITTING, do_baseline := Some b\<rparr>) w)) \<and>
     (\<exists>o2. w_order (with_domain fq (\<lambda>d. if dr_expires_at d = None then d\<lparr>dr_expires_at := Some b\<rparr> else d)
     (with_order (do_id o0) (\<lambda>o1. o1\<lparr>do_status := O_SUBMITTING, do_baseline := Some b\<rparr>) w)) (do_id o0) = Some o2 \<and>
       do_baseline o2 \<noteq> None)" (is "running jb o0 ?w \<and> _")
proof -
  let ?g = "\<lambda>o1. o1\<lparr>do_status := O_SUBMITTING, do_baseline := Some b\<rparr>"
  from r obtain o1 where o1: "w_order w (do_id o0) = Some o1" "order_le o0 o1" "\<not> closed_order o0"
    by (auto simp: running_def)
  have i: "do_id o1 = do_id o0" using o1(2) by (simp add: order_le_def)
  have "calm w (with_order (do_id o0) ?g w)"
    using o1 by (intro calm_with_order) (auto simp: order_le_def actionable_def closed_order_def)
  also have "calm \<dots> ?w" by (rule calm_with_domain) (simp add: domain_le_def)
  finally have "running jb o0 ?w" using r by (rule calm_running)
  moreover have "w_order ?w (do_id o0) = Some (?g o1)" using o1(1) i by (simp add: with_order_def row_at_put)
  ultimately show ?thesis by auto
qed

lemma renewed_step:
  assumes r: "running jb o0 w" and a: "do_action o0 = RENEW" and z: "rens w (do_id o0) = 0"
    and b: "w_order w (do_id o0) = Some o2" "do_baseline o2 \<noteq> None"
  shows "running jb o0 (w\<lparr>fw_calls := fw_calls w @ [C_Renew (do_id o0) pid]\<rparr>)" (is "running jb o0 ?w")
proof -
  let ?i = "do_id o0"
  from r b(1) have o: "sound w" "order_le o0 o2" "\<not> actionable o0" by (auto simp: running_def)
  have c: "waived o2 \<or> regs w ?i = 0 \<or> regs w ?i = 1 \<and> (closed_order o2 \<or> armed w o2)"
    using sound_safe [OF o(1) b(1)] by (cases "regs w ?i = 0") (auto simp: order_safe_def)
  have "armed ?w o2 = armed w o2" by (simp add: armed_def)
  with c o(2,3) a b z have "order_safe ?w o2 (regs ?w ?i) (rens ?w ?i)"
    by (auto simp: order_safe_def order_le_def registers_snoc renews_snoc)
  with b(1) have ok: "order_ok ?w ?i" by (auto simp: order_ok_def)
  have "sound ?w"
    by (rule sound_focus [OF o(1) _ ok]) (use o(1) in \<open>auto simp: sound_def keyed_def registers_snoc renews_snoc\<close>)
  with r show ?thesis by (simp add: running_def job_of_def w_job_def)
qed

lemma triple_submit_renewal:
  assumes "oid = do_id o0" "do_action o0 = RENEW"
  shows "triple (\<lambda>w. running jb o0 w \<and> rens w (do_id o0) = 0) (submit_renewal reg oid fq pid b)
    (\<lambda>_. running jb o0) (running jb o0) sound"
  unfolding submit_renewal_def commit_def remote_def assms
proof (rule triple_after)
  let ?f = "\<lambda>w. with_domain fq (\<lambda>d. if dr_expires_at d = None then d\<lparr>dr_expires_at := Some b\<rparr> else d)
     (with_order (do_id o0) (\<lambda>o1. o1\<lparr>do_status := O_SUBMITTING, do_baseline := Some b\<rparr>) w)"
  let ?Q = "\<lambda>w. running jb o0 w \<and> rens w (do_id o0) = 0 \<and> (\<exists>o2. w_order w (do_id o0) = Some o2 \<and> do_baseline o2 \<noteq> None)"
  have n: "rens (?f w) oid = rens w oid" for w oid by (auto simp: with_order_def split: option.splits)
  show "triple (\<lambda>w. running jb o0 w \<and> rens w (do_id o0) = 0) (atomic (\<lambda>w. (Inr (), ?f w))) (\<lambda>_. ?Q) (running jb o0) sound"
  proof (rule triple_atomic)
    fix w a w' assume p: "running jb o0 w \<and> rens w (do_id o0) = 0" and "(Inr (), ?f w) = (Inr a, w')"
    then have w': "w' = ?f w" by simp
    from p have "running jb o0 w" ..
    from calm_baseline [OF this assms(2), of fq b] p n [where w = w and oid = "do_id o0"] show "?Q w'" unfolding w' by simp
  qed (auto simp: running_def)
  show "triple ?Q (atomic (\<lambda>w. (reg (fw_calls w) (C_Renew (do_id o0) pid),
       w\<lparr>fw_calls := fw_calls w @ [C_Renew (do_id o0) pid]\<rparr>))) (\<lambda>_. running jb o0) (running jb o0) sound"
    using renewed_step [OF _ assms(2)] by (intro triple_atomic) (auto simp: running_def)
qed

lemma triple_renewal_reply:
  assumes "do_id o1 = do_id o0" "do_action o0 = RENEW"
  shows "triple (\<lambda>w. running jb o0 w \<and> (do_baseline o1 = None \<longrightarrow> rens w (do_id o0) = 0)) (renewal_reply reg o1 d pid)
    (\<lambda>_. running jb o0) (running jb o0) sound"
proof -
  let ?P = "running jb o0" and ?B = "\<lambda>w. running jb o0 w \<and> (do_baseline o1 = None \<longrightarrow> rens w (do_id o0) = 0)"
  have L: "lasting ?B" by (intro lasting_conj lasting_running) (simp add: calm_counts)
  have c: "triple ?B (remote reg (C_Get pid)) (\<lambda>_. ?B) ?P sound"
    by (rule triple_conseq [OF ongoing_remote [OF L]]) (simp_all add: harmless_call_def)
  have s: "triple ?B (next_act (submit_renewal reg (do_id o1) fq pid b) (\<lambda>r. give (r, b))) (\<lambda>_. ?P) ?P sound"
    if "do_baseline o1 = None" for fq b
    by (rule triple_next [OF triple_pre [OF triple_submit_renewal [OF assms]]]) (use that in \<open>auto intro: triple_give\<close>)
  have g: "triple ?B (give x) (\<lambda>_. ?P) ?P sound" for x :: "reply \<times> int" by (rule triple_give) simp
  have t: "triple ?B (throw e) Q ?P sound" for e Q by (rule triple_throw) simp
  show ?thesis unfolding renewal_reply_def
    by (intro triple_next [OF c] triple_option triple_if s g t)
qed

lemma gentle_record_renewal:
  assumes "open_order oid w0" shows "gentle w0 (record_renewal cfg env oid fq result b)"
  unfolding record_renewal_def Let_def
  by (intro gentle_commit_with calm_pending_job calm_update)
    (auto simp: domain_le_def order_le_def actionable_def closed_order_def open_order_def dest: calm_open [OF _ assms])

lemma triple_renew_owned:
  assumes "do_id o1 = do_id o0" "do_action o0 = RENEW"
  shows "triple (\<lambda>w. running jb o0 w \<and> (do_baseline o1 = None \<longrightarrow> rens w (do_id o0) = 0))
    (renew_owned cfg env reg o1 d pid) (\<lambda>_. sound) (running jb o0) sound"
proof -
  let ?P = "running jb o0" and ?B = "\<lambda>w. running jb o0 w \<and> (do_baseline o1 = None \<longrightarrow> rens w (do_id o0) = 0)"
  have L: "lasting ?B" by (intro lasting_conj lasting_running) (simp add: calm_counts)
  have c: "triple ?B (remote reg (C_Tld tld)) (\<lambda>_. ?B) ?P sound" for tld
    by (rule triple_conseq [OF ongoing_remote [OF L]]) (simp_all add: harmless_call_def)
  have f: "triple ?B (fail_paid_order cfg env oid c t) (\<lambda>_. sound) ?P sound" for oid c t
    by (rule triple_pre [OF closing_fail]) simp_all
  have t: "triple ?B (throw e) Q ?P sound" for e Q by (rule triple_throw) simp
  have g: "closing ?P (record_renewal cfg env (do_id o1) fq result b)" for fq result b
    unfolding assms(1) by (intro closing_gentle lasting_running gentle_record_renewal running_open)
  show ?thesis unfolding renew_owned_def
    by (intro triple_sum triple_prod triple_next [OF c] triple_option triple_bool triple_if f t g
        triple_next [OF triple_renewal_reply [OF assms]])
qed

lemma closing_renewal:
  assumes act: "do_action o0 = RENEW"
  shows "closing (running jb o0) (fulfil_renewal cfg env reg (do_id o0))"
  unfolding fulfil_renewal_def
proof (rule look_fact [where F = "\<lambda>w0 w. running jb o0 w \<and>
    (\<forall>o1. w_order w0 (do_id o0) = Some o1 \<longrightarrow> do_baseline o1 = None \<longrightarrow> rens w (do_id o0) = 0)"])
  fix w0 assume r: "running jb o0 w0"
  let ?P = "running jb o0" and ?i = "do_id o0"
  let ?F = "\<lambda>w. running jb o0 w \<and> (\<forall>o1. w_order w0 ?i = Some o1 \<longrightarrow> do_baseline o1 = None \<longrightarrow> rens w ?i = 0)"
  have "rens w0 ?i = 0" if "w_order w0 ?i = Some o1" "do_baseline o1 = None" for o1
  proof (rule ccontr)
    assume "rens w0 ?i \<noteq> 0"
    with sound_safe [OF _ that(1)] r have "order_safe w0 o1 (regs w0 ?i) (rens w0 ?i)" by (simp add: running_def)
    with \<open>rens w0 ?i \<noteq> 0\<close> that(2) show False by (simp add: order_safe_def)
  qed
  with r show "?F w0" by blast
  have f: "triple ?F (fail_paid_order cfg env ?i c t) (\<lambda>_. sound) ?P sound" for c t
    by (rule triple_pre [OF closing_fail]) simp_all
  have g: "triple ?F (give ()) (\<lambda>_. sound) ?P sound" by (rule triple_give) (simp add: running_def)
  show "triple ?F (case w_order w0 ?i of None \<Rightarrow> give () | Some o1 \<Rightarrow>
      case (if do_owner o1 = None then None else owned_domain (fw_zone w0) (the (do_owner o1)) (do_fqdn o1)) of
        None \<Rightarrow> fail_paid_order cfg env ?i ''domain_not_renewable'' ''The domain cannot be renewed.''
      | Some d \<Rightarrow> case dr_provider_id d of
          None \<Rightarrow> fail_paid_order cfg env ?i ''domain_not_renewable'' ''The domain cannot be renewed.''
        | Some pid \<Rightarrow> renew_owned cfg env reg o1 d pid) (\<lambda>_. sound) ?P sound"
  proof (intro triple_option f g)
    fix o1 d pid assume o1: "w_order w0 ?i = Some o1"
    have "do_id o1 = ?i" using row_at_Some [OF o1] by simp
    then show "triple ?F (renew_owned cfg env reg o1 d pid) (\<lambda>_. sound) ?P sound"
      by (rule triple_pre [OF triple_renew_owned [OF _ act]]) (use o1 in simp)
  qed
qed


subsection \<open>Reconciliation\<close>

lemma pending_order_found:
  assumes "keyed w" "pending_order w fq = Some o1"
  shows "w_order w (do_id o1) = Some o1" "waits_for_provider o1"
proof -
  from assms(2) have "o1 \<in> set (od_orders (fw_od w))" "waits_for_provider o1"
    unfolding pending_order_def by (auto dest: find_hit)
  with assms(1) show "w_order w (do_id o1) = Some o1" "waits_for_provider o1" by (auto simp: keyed_def intro: row_at_member)
qed

lemma waiting_open: "waits_for_provider o1 \<Longrightarrow> \<not> closed_order o1 \<and> \<not> actionable o1"
  by (auto simp: waits_for_provider_def closed_order_def actionable_def)

lemma reconciled_order_le: "expired \<or> waits_for_provider o1 \<Longrightarrow> order_le o1 (reconciled_order active expired r pid o1)"
  using waiting_open [of o1] by (auto simp: reconciled_order_def order_le_def actionable_def closed_order_def)

lemma reconciled_domain_le: "domain_le d (reconciled_domain t x a r pid d)"
  by (simp add: reconciled_domain_def Let_def domain_le_def)

lemma reconciled_step:
  assumes k: "keyed w" and t: "terminal \<noteq> None \<Longrightarrow> expired"
    and s: "record_reconciled fq transferred expired active r pid terminal (Suc n, w) = (x, s, w')"
  shows "\<exists>res. x = Done res \<and> calm w w' \<and> (\<forall>o2. res = Some (Some o2) \<longrightarrow> terminal = None \<longrightarrow> open_order (do_id o2) w')"
proof (cases "w_domain w fq")
  case None
  with s show ?thesis by (auto simp: record_reconciled_def atomic_def)
next
  case (Some d)
  let ?found = "case pending_order w fq of Some o1 \<Rightarrow> Some o1
    | None \<Rightarrow> (case terminal of None \<Rightarrow> None | Some i \<Rightarrow> w_order w i)"
  let ?w1 = "set_domain (reconciled_domain transferred expired active r pid d) w"
  have w1: "calm w ?w1" using Some reconciled_domain_le by (rule calm_set_domain)
  show ?thesis
  proof (cases ?found)
    case None
    with s Some w1 show ?thesis by (auto simp: record_reconciled_def atomic_def Let_def)
  next
    case f: (Some o1)
    let ?o2 = "reconciled_order active expired r pid o1"
    have o1: "w_order w (do_id o1) = Some o1 \<and> (expired \<or> waits_for_provider o1)"
      "terminal = None \<longrightarrow> waits_for_provider o1"
      using f t pending_order_found [OF k] row_at_Some by (fastforce split: option.splits)+
    have le: "order_le o1 ?o2" using o1 by (intro reconciled_order_le) simp
    have i: "do_id ?o2 = do_id o1" by (simp add: reconciled_order_def)
    have at1: "w_order ?w1 (do_id o1) = Some o1" using o1 by simp
    note w1 also have "calm ?w1 (set_order ?o2 ?w1)" using at1 le by (rule calm_set_order)
    finally have w2: "calm w (set_order ?o2 ?w1)" .
    have w3: "calm w (with_operation k g (set_order ?o2 ?w1))" for k g
      by (rule calm_trans [OF w2 calm_with_operation])
    have cl: "\<not> closed_order ?o2" if "terminal = None"
      using o1(2) le that waiting_open [of o1] by (auto simp: order_le_def)
    have op: "open_order (do_id ?o2) (set_order ?o2 ?w1)" "open_order (do_id ?o2) (with_operation k g (set_order ?o2 ?w1))"
      if "terminal = None" for k g
      using o1 i cl [OF that] by (simp_all add: open_order_def row_at_put)
    from s Some f have "x = Done (Some (Some ?o2))"
      "w' = (if \<not> active \<and> \<not> expired then with_operation (do_operation o1) (\<lambda>p. p\<lparr>op_state := OP_WAITING_PROVIDER\<rparr>)
         (set_order ?o2 ?w1) else set_order ?o2 ?w1)"
      by (auto simp: record_reconciled_def atomic_def Let_def)
    with w2 w3 op show ?thesis by auto
  qed
qed

lemma triple_record_reconciled:
  assumes P: "lasting P" and t: "terminal \<noteq> None \<Longrightarrow> expired"
  shows "triple P (record_reconciled fq transferred expired active r pid terminal)
    (\<lambda>res w. P w \<and> (\<forall>o2. res = Some (Some o2) \<longrightarrow> terminal = None \<longrightarrow> open_order (do_id o2) w)) (\<lambda>_. False) P"
proof (rule tripleI)
  fix n w assume p: "P w"
  then have k: "keyed w" using lastingD(1) [OF P] by (simp add: sound_def)
  obtain x s w' where f: "record_reconciled fq transferred expired active r pid terminal (n, w) = (x, s, w')"
    by (metis prod_cases3)
  show "case record_reconciled fq transferred expired active r pid terminal (n, w) of
      (Done res, _, w) \<Rightarrow> P w \<and> (\<forall>o2. res = Some (Some o2) \<longrightarrow> terminal = None \<longrightarrow> open_order (do_id o2) w)
    | (Raised e, _, w) \<Rightarrow> False | (Died, _, w) \<Rightarrow> P w"
  proof (cases n)
    case 0
    with p show ?thesis by (simp add: record_reconciled_def atomic_def)
  next
    case (Suc m)
    from reconciled_step [OF k t f [unfolded Suc]] f lastingD(2) [OF P p] show ?thesis unfolding Suc by auto
  qed
qed

lemma gentle_activate_reconciled:
  assumes "\<And>o1. order = Some o1 \<Longrightarrow> open_order (do_id o1) w0"
  shows "gentle w0 (activate_reconciled cfg env reg d retry r pid order)"
  unfolding activate_reconciled_def Let_def
  by (intro gentle_rules gentle_ensure_managed_zone gentle_finish_active gentle_provision_bundle gentle_commit
      calm_with_domain assms) (simp_all add: domain_le_def)

lemma gentle_reconcile_source: "gentle w0 (reconcile_source reg d)"
  unfolding reconcile_source_def by (intro gentle_rules) (simp_all add: harmless_call_def)

lemma closing_reconcile_found:
  assumes P: "lasting P" shows "closing P (reconcile_found cfg env reg d retry r pid)"
proof -
  let ?fq = "dr_fqdn d" let ?pst = "rp_status r"
  define active departed where "active = active_status ?pst" and "departed = departed_status ?pst"
  define transferred where "transferred = (dr_status d = D_TRANSFER_PENDING \<and> departed)"
  define expired where "expired = (expired_status ?pst \<or> departed \<and> \<not> transferred)"
  let ?k = "\<lambda>res. case res of None \<Rightarrow> give () | Some order \<Rightarrow>
      if transferred \<or> expired then give ()
      else if \<not> active then
        (if retry \<and> order \<noteq> None then throw (F_Provider True ''domain_reconciliation_pending''
           ''The registrar still reports the domain operation as pending'') else give ())
      else if dr_status d = D_TRANSFER_PENDING then give ()
      else activate_reconciled cfg env reg d retry r pid order"
  have rest: "triple (\<lambda>w. P w \<and> (\<forall>o2. res = Some (Some o2) \<longrightarrow> open_order (do_id o2) w)) (?k res) (\<lambda>_. sound) P sound"
    for res
  proof -
    let ?B = "\<lambda>w. P w \<and> (\<forall>o2. res = Some (Some o2) \<longrightarrow> open_order (do_id o2) w)"
    have g: "triple ?B (give ()) (\<lambda>_. sound) P sound" by (rule triple_give) (use lastingD(1) [OF P] in blast)
    have t: "triple ?B (throw e) (\<lambda>_. sound) P sound" for e by (rule triple_throw) blast
    have a: "triple ?B (activate_reconciled cfg env reg d retry r pid order) (\<lambda>_. sound) P sound" if "res = Some order" for order
    proof -
      have "lasting ?B" using calm_open by (intro lasting_conj P) blast
      then have "closing ?B (activate_reconciled cfg env reg d retry r pid order)"
        using that by (intro closing_gentle gentle_activate_reconciled) auto
      then show ?thesis by (rule triple_conseq) auto
    qed
    show ?thesis by (intro triple_option triple_if g t a)
  qed
  show ?thesis unfolding reconcile_found_def Let_def
    unfolding active_def [symmetric] departed_def [symmetric] transferred_def [symmetric] expired_def [symmetric]
  proof (rule look_lasting)
    fix w0
    define terminal where "terminal = (if expired then map_option do_id (pending_order w0 ?fq) else None)"
    have k: "closing P (next_act (record_reconciled ?fq transferred expired active r pid terminal) ?k)" if "terminal = None"
    proof (rule triple_next [OF _ rest])
      show "ongoing P (record_reconciled ?fq transferred expired active r pid terminal)
        (\<lambda>res w. P w \<and> (\<forall>o2. res = Some (Some o2) \<longrightarrow> open_order (do_id o2) w))"
        by (rule triple_conseq [OF triple_record_reconciled [OF P]]) (use that lastingD(1) [OF P] in auto)
    qed
    have s: "triple sound (?k res) (\<lambda>_. sound) P sound" if "terminal \<noteq> None" for res
      using that by (auto simp: terminal_def intro: triple_give split: option.splits if_splits)
    have e: "triple sound (next_act (record_reconciled ?fq transferred expired active r pid terminal) ?k) (\<lambda>_. sound) P sound"
      if "terminal \<noteq> None"
    proof (rule triple_next [OF _ s [OF that]])
      show "triple sound (record_reconciled ?fq transferred expired active r pid terminal) (\<lambda>_. sound) P sound"
        by (rule triple_conseq [OF triple_record_reconciled [OF lasting_sound]])
          (use that in \<open>auto simp: terminal_def split: if_splits\<close>)
    qed
    show "closing P (after (case if expired then map_option do_id (pending_order w0 ?fq) else None of None \<Rightarrow> give ()
        | Some oid \<Rightarrow> fail_paid_order cfg env oid ''registrar_terminal_status''
           (''The registrar reported terminal status '' @ ?pst @ '' before the paid domain order completed.''))
      (next_act (record_reconciled ?fq transferred expired active r pid
         (if expired then map_option do_id (pending_order w0 ?fq) else None)) ?k))"
      unfolding terminal_def [symmetric]
    proof (cases terminal)
      case None
      have "closing P (after (give ()) (next_act (record_reconciled ?fq transferred expired active r pid terminal) ?k))"
        by (rule triple_after [OF triple_give k]) (use None in auto)
      with None show "closing P (after (case terminal of None \<Rightarrow> give ()
        | Some oid \<Rightarrow> fail_paid_order cfg env oid ''registrar_terminal_status''
           (''The registrar reported terminal status '' @ ?pst @ '' before the paid domain order completed.''))
        (next_act (record_reconciled ?fq transferred expired active r pid terminal) ?k))" by simp
    next
      case (Some oid)
      then have "terminal \<noteq> None" by simp
      from triple_after [OF closing_fail [OF P] e [OF this]] Some
      show "closing P (after (case terminal of None \<Rightarrow> give ()
        | Some oid \<Rightarrow> fail_paid_order cfg env oid ''registrar_terminal_status''
           (''The registrar reported terminal status '' @ ?pst @ '' before the paid domain order completed.''))
        (next_act (record_reconciled ?fq transferred expired active r pid terminal) ?k))" by simp
    qed
  qed
qed

lemma closing_reconcile:
  assumes P: "lasting P" shows "closing P (reconcile_domain cfg env reg fq retry)"
  unfolding reconcile_domain_def
  by (intro look_lasting triple_option closing_give [OF P] triple_next [OF gentle_lasting [OF P gentle_reconcile_source]]
      triple_prod closing_reconcile_found [OF P])


subsection \<open>Runs of a job\<close>

lemma triple_ex: "(\<And>x. A x \<Longrightarrow> triple (P x) m Q R D) \<Longrightarrow> triple (\<lambda>w. \<exists>x. A x \<and> P x w) m Q R D"
  unfolding triple_def by meson

definition working :: "domain_job \<Rightarrow> world \<Rightarrow> bool" where
  "working jb w \<longleftrightarrow> sound w \<and> job_of jb w"

lemma lasting_working: "lasting (working jb)"
  unfolding lasting_def working_def using calm_sound calm_job by blast

lemma working_sound: "working jb w \<Longrightarrow> sound w"
  by (simp add: working_def)

lemma lasting_open: "lasting (\<lambda>w. working jb w \<and> open_order oid w)"
  using calm_open by (intro lasting_conj lasting_working)

lemma running_working: "running jb o0 w \<Longrightarrow> working jb w \<and> open_order (do_id o0) w"
  using running_open by (auto simp: working_def running_def)

text \<open>What the first transaction of a fulfilment finds.\<close>

definition planned :: "domain_job \<Rightarrow> string \<Rightarrow> fulfil_plan \<Rightarrow> world \<Rightarrow> bool" where
  "planned jb oid plan w \<longleftrightarrow>
     (case plan of
        Plan_Stop \<Rightarrow> sound w
      | Plan_Run act \<Rightarrow> \<exists>o0. (do_id o0 = oid \<and> do_action o0 = act) \<and> running jb o0 w
      | _ \<Rightarrow> working jb w \<and> open_order oid w)"

lemma start_step:
  assumes w: "working jb w" and s: "start_fulfilment oid (Suc n, w) = (x, s, w')"
  shows "\<exists>plan. x = Done plan \<and> planned jb oid plan w'"
proof (cases "w_order w oid")
  case None
  with s w show ?thesis by (auto simp: start_fulfilment_def atomic_def planned_def working_def)
next
  case (Some o1)
  let ?o2 = "o1\<lparr>do_status := O_CHECKING\<rparr>"
  have i: "do_id o1 = oid" using row_at_Some [OF Some] by simp
  show ?thesis
  proof (cases "closed_order o1 \<or> do_status o1 = O_ACTIVE \<or> do_status o1 = O_PROVIDER_PENDING")
    case True
    with s w Some show ?thesis
      by (auto simp: start_fulfilment_def atomic_def planned_def working_def closed_order_def open_order_def split: if_splits)
  next
    case False
    have "calm w (set_order ?o2 w)"
      using Some False by (rule_tac calm_set_order) (auto simp: order_le_def actionable_def closed_order_def)
    also have "calm \<dots> (with_operation k f (set_order ?o2 w))" for k f by (rule calm_with_operation)
    finally have c: "calm w (with_operation k f (set_order ?o2 w))" for k f .
    have "running jb ?o2 (with_operation k f (set_order ?o2 w))" for k f
      using calm_sound [OF c] calm_job [OF c] w Some i
      by (auto simp: running_def working_def row_at_put closed_order_def actionable_def)
    with s False Some i show ?thesis
      by (auto simp: start_fulfilment_def atomic_def planned_def closed_order_def intro!: exI [of _ ?o2])
  qed
qed

lemma triple_start:
  "triple (working jb) (start_fulfilment oid) (planned jb oid) (\<lambda>_. False) sound"
proof (rule tripleI)
  fix n w assume p: "working jb w"
  obtain x s w' where f: "start_fulfilment oid (n, w) = (x, s, w')" by (metis prod_cases3)
  show "case start_fulfilment oid (n, w) of
      (Done plan, _, w) \<Rightarrow> planned jb oid plan w | (Raised e, _, w) \<Rightarrow> False | (Died, _, w) \<Rightarrow> sound w"
  proof (cases n)
    case 0
    with p show ?thesis by (simp add: start_fulfilment_def atomic_def working_def)
  next
    case (Suc m)
    from start_step [OF p f [unfolded Suc]] f show ?thesis unfolding Suc by auto
  qed
qed

lemma closing_run:
  assumes a: "do_action o0 = act" and i: "do_id o0 = oid"
  shows "closing (running jb o0) (run_fulfilment cfg env reg oid act)"
  unfolding run_fulfilment_def
proof (rule triple_attempt)
  let ?P = "running jb o0"
  show "closing ?P (if act = RENEW then fulfil_renewal cfg env reg oid else fulfil_registration cfg env reg oid)"
    using closing_renewal [of o0 jb] closing_registration [of o0 jb] a i by auto
  show "closing ?P (case e of
      F_Provider retry c t \<Rightarrow> if retry then throw e else fail_paid_order cfg env oid ''registrar_rejected'' t
    | F_Problem c t \<Rightarrow> fail_paid_order cfg env oid c t | _ \<Rightarrow> throw e)" for e
    by (cases e) (simp_all add: ongoing_throw closing_fail)
qed

lemma triple_fulfil:
  "triple (working jb) (fulfil_order cfg env reg oid) (\<lambda>_. sound) (\<lambda>w. working jb w \<and> open_order oid w) sound"
  unfolding fulfil_order_def
proof (rule triple_next)
  let ?R = "\<lambda>w. working jb w \<and> open_order oid w"
  show "triple (working jb) (start_fulfilment oid) (planned jb oid) ?R sound"
    by (rule triple_conseq [OF triple_start]) simp_all
  fix plan
  note L = lasting_open [of jb oid]
  show "triple (planned jb oid plan) (case plan of Plan_Stop \<Rightarrow> give () | Plan_Bundle \<Rightarrow> provision_bundle cfg env oid False
      | Plan_Reconcile fq \<Rightarrow> reconcile_domain cfg env reg fq False
      | Plan_Run act \<Rightarrow> run_fulfilment cfg env reg oid act) (\<lambda>_. sound) ?R sound"
  proof (cases plan)
    case Plan_Stop
    then show ?thesis by (auto simp: planned_def intro: triple_give)
  next
    case Plan_Bundle
    with closing_gentle [OF L gentle_provision_bundle] show ?thesis by (simp add: planned_def [abs_def])
  next
    case (Plan_Reconcile fq)
    with closing_reconcile [OF L] show ?thesis by (simp add: planned_def [abs_def])
  next
    case (Plan_Run act)
    have "triple (running jb o0) (run_fulfilment cfg env reg oid act) (\<lambda>_. sound) ?R sound"
      if "do_id o0 = oid \<and> do_action o0 = act" for o0
      using that running_working by (intro triple_conseq [OF closing_run [of o0 act oid jb]]) blast+
    then have "triple (\<lambda>w. \<exists>o0. (do_id o0 = oid \<and> do_action o0 = act) \<and> running jb o0 w)
      (run_fulfilment cfg env reg oid act) (\<lambda>_. sound) ?R sound" by (rule triple_ex)
    with Plan_Run show ?thesis by (simp add: planned_def [abs_def])
  qed
qed

text \<open>Giving up.\<close>

lemma give_up_bundle_frame [simp]:
  "fw_calls (give_up_bundle o1 d m w) = fw_calls w" "fw_od (give_up_bundle o1 d m w) = fw_od w"
  by (auto simp: give_up_bundle_def Let_def split: option.splits)

lemma calm_vms: "calm w w' \<Longrightarrow> calm w (w'\<lparr>fw_vms := v\<rparr>)"
  by (rule calm_trans) (auto intro: calm_same)

lemma calm_give_up_bundle: "calm w (give_up_bundle o1 d m w)"
proof -
  have "calm w (with_domain fq (\<lambda>x. x\<lparr>dr_vm := None\<rparr>) w)" for fq
    by (rule calm_with_domain) (simp add: domain_le_def)
  then show ?thesis by (auto simp: give_up_bundle_def Let_def calm_vms split: option.splits)
qed

lemma calm_statuses:
  assumes o: "w_order w oid = Some o1" "order_le o1 o2" and d: "w_domain w fq = Some d" "domain_le d e"
  shows "calm w (set_order o2 (set_domain e w))"
proof -
  have "calm w (set_domain e w)" using d by (rule calm_set_domain)
  also have "calm \<dots> (set_order o2 \<dots>)" using o by (intro calm_set_order [where oid = oid and ?o1.0 = o1]) simp_all
  finally show ?thesis .
qed

lemma give_up_calm:
  assumes g: "give_up_fulfilment cfg env m e oid w = (Inr full, w')" and op: "open_order oid w"
  shows "calm w w'"
proof -
  from op obtain o1 where o1: "w_order w oid = Some o1" "\<not> closed_order o1" by (auto simp: open_order_def)
  note op' = calm_trans [OF _ calm_with_operation]
  have le: "order_le o1 (o1\<lparr>do_status := st, do_error := a, do_detail := b\<rparr>)" if "st \<in> {O_ACTIVE, O_PROVIDER_PENDING}" for st a b
    using o1(2) that by (auto simp: order_le_def actionable_def closed_order_def)
  show ?thesis
  proof (cases "w_domain w (do_fqdn o1)")
    case None
    with g o1 show ?thesis by (auto simp: give_up_fulfilment_def Let_def intro: calm_with_operation)
  next
    case (Some d)
    let ?mark = "\<lambda>st c. o1\<lparr>do_status := st, do_error := Some c, do_detail := Some (take 1000 (exn_text e))\<rparr>"
    have P: "calm w (set_order (?mark O_PROVIDER_PENDING c) (set_domain (d\<lparr>dr_status := D_PROVIDER_PENDING\<rparr>) w))" for c
      by (rule calm_statuses [OF o1(1) le Some]) (simp_all add: domain_le_def)
    have S: "calm w (set_order (?mark O_PROVIDER_PENDING c)
        (set_domain (d\<lparr>dr_status := D_PROVIDER_PENDING, dr_dnssec_status := x\<rparr>) w))" for c x
      by (rule calm_statuses [OF o1(1) le Some]) (simp_all add: domain_le_def)
    have R: "calm w (set_order (?mark O_PROVIDER_PENDING c) w)" for c
      by (rule calm_set_order [OF o1(1) le]) simp
    have A: "calm w (give_up_bundle o1 d m (set_order (?mark O_ACTIVE c) (set_domain (d\<lparr>dr_status := D_ACTIVE\<rparr>) w)))" for c
      by (rule calm_trans [OF calm_statuses [OF o1(1) le Some] calm_give_up_bundle]) (simp_all add: domain_le_def)
    have L: "calm w v \<Longrightarrow> calm w (v\<lparr>fw_od := (fw_od v)\<lparr>od_ledger := l\<rparr>\<rparr>)" for v l
      by (rule calm_trans) (auto intro: calm_same)
    note P = P [simplified] and S = S [simplified] and A = A [simplified]
    consider "do_action o1 = REGISTER \<and> dr_provider_id d = None \<and> dr_marker d = Some (register_marker oid)"
      | "\<not> (do_action o1 = REGISTER \<and> dr_provider_id d = None \<and> dr_marker d = Some (register_marker oid))"
        "dr_provider_id d = None \<or> do_action o1 = RENEW \<or> dr_dnssec_status d \<noteq> ''active''"
      | "dr_provider_id d \<noteq> None" "do_action o1 \<noteq> RENEW" "dr_dnssec_status d = ''active''"
      by blast
    then show ?thesis
    proof cases
      case 1
      with g o1(1) Some show ?thesis
        by (auto simp: give_up_fulfilment_def Let_def intro!: op' P)
    next
      case 2
      with g o1(1) Some show ?thesis unfolding give_up_fulfilment_def Let_def option.case if_not_P [OF 2(1)]
        by (auto intro!: op' S R calm_with_operation split: if_split_asm)
    next
      case 3
      with g o1(1) Some show ?thesis
        by (auto simp: give_up_fulfilment_def Let_def intro!: op' L A split: if_split_asm option.split_asm)
    qed
  qed
qed


lemma triple_retry:
  "triple (\<lambda>w. working jb w \<and> (dj_kind jb = ''fulfill_order'' \<longrightarrow> open_order (dj_resource jb) w))
    (retry_or_fail_job cfg env m jb e) (\<lambda>_. sound) sound sound"
  unfolding retry_or_fail_job_def
proof (rule triple_next)
  let ?P = "\<lambda>w. working jb w \<and> (dj_kind jb = ''fulfill_order'' \<longrightarrow> open_order (dj_resource jb) w)"
  let ?f = "\<lambda>w. case w_job w (dj_id jb) of
      None \<Rightarrow> (Inr False, w)
    | Some j \<Rightarrow>
      if retryable e \<and> dj_attempts j < 10 then (Inr False, with_job (dj_id j) (retry_job (fe_now env)) w)
      else
        let w1 = with_job (dj_id j) (\<lambda>x. x\<lparr>dj_status := J_FAILED\<rparr>) w in
        if dj_kind j = ''fulfill_order'' then
          (case give_up_fulfilment cfg env m e (dj_resource j) w1 of
             (Inl x, _) \<Rightarrow> (Inl x, w) | (Inr full, w2) \<Rightarrow> (Inr full, w2))
        else (Inr False, w1)"
  have step: "sound w'" if p: "?P w" and f: "?f w = (x, w')" for w x w'
  proof -
    from p have s: "sound w" by (simp add: working_def)
    from p obtain j where j: "w_job w (dj_id jb) = Some j" "same_job jb j" by (auto simp: working_def job_of_def)
    have r: "calm w (with_job (dj_id j) (retry_job (fe_now env)) w)"
      by (rule calm_with_job) (simp add: same_job_def retry_job_def)
    have c: "calm w (with_job (dj_id j) (\<lambda>x. x\<lparr>dj_status := J_FAILED\<rparr>) w)" (is "calm w ?w1")
      by (rule calm_with_job) (simp add: same_job_def)
    show ?thesis
    proof (cases "retryable e \<and> dj_attempts j < 10")
      case True
      with f j(1) calm_sound [OF r s] show ?thesis by simp
    next
      case n: False
      show ?thesis
      proof (cases "dj_kind j = ''fulfill_order''")
        case False
        with f j(1) n calm_sound [OF c s] show ?thesis by (simp add: Let_def split: if_split_asm)
      next
        case True
        obtain y w2 where g: "give_up_fulfilment cfg env m e (dj_resource j) ?w1 = (y, w2)" by fastforce
        show ?thesis
        proof (cases y)
          case (Inl z)
          with f j(1) n True g s show ?thesis by (simp add: Let_def split: if_split_asm)
        next
          case (Inr full)
          from p j(2) True have "open_order (dj_resource j) w" by (simp add: same_job_def)
          then have "open_order (dj_resource j) ?w1" by (rule calm_open [OF c])
          with g Inr have "calm ?w1 w2" using give_up_calm by blast
          from calm_sound [OF this calm_sound [OF c s]] f j(1) n True g Inr show ?thesis
            by (simp add: Let_def split: if_split_asm)
        qed
      qed
    qed
  qed
  show "triple ?P (atomic ?f) (\<lambda>_. sound) sound sound"
  proof (rule triple_atomic)
    fix w a w' assume "?P w" "?f w = (Inr a, w')"
    then show "sound w'" by (rule step)
  next
    fix w x w' assume "?P w" "?f w = (Inl x, w')"
    then show "sound w'" by (rule step)
  qed (simp add: working_def)
  show "closing sound (if full then fail_paid_order cfg env (dj_resource jb) (exn_code ''fulfillment_failed'' e) (exn_text e)
      else give ())" for full
    by (intro triple_if closing_fail closing_give lasting_sound)
qed

lemma claim_step:
  assumes s: "sound w" and c: "claim_job cfg now worker (Suc n, w) = (x, t, w')"
  shows "x = Done None \<and> sound w' \<or> (\<exists>j. x = Done (Some j) \<and> working j w')"
proof (cases "py_min (<) dj_available_at (filter (claimable cfg now) (od_jobs (fw_od w)))")
  case None
  with c s show ?thesis by (simp add: claim_job_def atomic_def)
next
  case (Some j)
  let ?j = "j\<lparr>dj_status := J_RUNNING, dj_locked_at := Some now, dj_locked_by := Some worker, dj_attempts := dj_attempts j + 1\<rparr>"
  have m: "j \<in> set (od_jobs (fw_od w))" using int_key.py_min_in [OF Some] by simp
  from s have u: "unique_by dj_id (od_jobs (fw_od w))" by (simp add: sound_def keyed_def)
  from row_at_member [OF u m] have a: "w_job w (dj_id j) = Some j" by (simp add: w_job_def)
  have "calm w (with_job (dj_id j) (\<lambda>_. ?j) w)"
  proof -
    have "w_job (with_job (dj_id j) (\<lambda>_. ?j) w) i = (if i = dj_id j then Some ?j else w_job w i)" for i
      using a by (simp add: with_job_def w_job_def row_at_alter)
    then have "\<exists>k. w_job (with_job (dj_id j) (\<lambda>_. ?j) w) i = Some k \<and> same_job l k" if "w_job w i = Some l" for i l
      using that a by (auto simp: same_job_def)
    then show ?thesis by (auto simp: calm_def with_job_def unique_by_alter)
  qed
  from calm_sound [OF this s] have "sound (with_job (dj_id j) (\<lambda>_. ?j) w)" .
  moreover have "job_of ?j (with_job (dj_id j) (\<lambda>_. ?j) w)"
    using a by (simp add: job_of_def with_job_def w_job_def row_at_alter)
  ultimately show ?thesis using c Some by (auto simp: claim_job_def atomic_def working_def Let_def)
qed

lemma triple_claim:
  "triple sound (claim_job cfg now worker) (\<lambda>res. case res of None \<Rightarrow> sound | Some j \<Rightarrow> working j) (\<lambda>_. False) sound"
proof (rule tripleI)
  fix n w assume p: "sound w"
  obtain x s w' where f: "claim_job cfg now worker (n, w) = (x, s, w')" by (metis prod_cases3)
  show "case claim_job cfg now worker (n, w) of
      (Done res, _, w) \<Rightarrow> (case res of None \<Rightarrow> sound | Some j \<Rightarrow> working j) w | (Raised e, _, w) \<Rightarrow> False | (Died, _, w) \<Rightarrow> sound w"
  proof (cases n)
    case 0
    with p show ?thesis by (simp add: claim_job_def atomic_def)
  next
    case (Suc m)
    from claim_step [OF p f [unfolded Suc]] f show ?thesis unfolding Suc by auto
  qed
qed

lemma triple_dispatch:
  "triple (working jb) (dispatch_job cfg env reg jb) (\<lambda>_. sound)
    (\<lambda>w. working jb w \<and> (dj_kind jb = ''fulfill_order'' \<longrightarrow> open_order (dj_resource jb) w)) sound"
proof (cases "dj_kind jb = ''fulfill_order''")
  case True
  then show ?thesis unfolding dispatch_job_def by (simp add: triple_fulfil)
next
  case False
  have "closing (working jb) (dispatch_job cfg env reg jb)"
    unfolding dispatch_job_def if_not_P [OF False]
    by (intro triple_if closing_reconcile lasting_working ongoing_throw)
  then show ?thesis by (rule triple_conseq) (use False in simp_all)
qed

lemma keeps_process_job: "keeps sound (process_job cfg env reg worker m)"
  unfolding process_job_def
proof (rule triple_next)
  show "triple sound (claim_job cfg (fe_now env) worker) (\<lambda>res. case res of None \<Rightarrow> sound | Some j \<Rightarrow> working j) sound sound"
    by (rule triple_conseq [OF triple_claim]) simp_all
  fix found :: "domain_job option"
  have fin: "keeps sound (commit (with_job i (\<lambda>j. j\<lparr>dj_status := J_COMPLETED\<rparr>)))" for i
    by (intro closing_gentle lasting_sound gentle_commit calm_with_job) (simp add: same_job_def)
  have "triple (working jb) (after (attempt_else (dispatch_job cfg env reg jb) (retry_or_fail_job cfg env m jb)
      (\<lambda>_. commit (with_job (dj_id jb) (\<lambda>j. j\<lparr>dj_status := J_COMPLETED\<rparr>)))) (give True)) (\<lambda>_. sound) sound sound" for jb
    by (rule triple_after [OF triple_attempt_else [OF triple_dispatch triple_retry fin]]) (rule triple_give)
  then show "triple ((case found of None \<Rightarrow> sound | Some j \<Rightarrow> working j)) (case found of None \<Rightarrow> give False | Some job \<Rightarrow>
      after (attempt_else (dispatch_job cfg env reg job) (\<lambda>e. retry_or_fail_job cfg env m job e)
        (\<lambda>_. commit (with_job (dj_id job) (\<lambda>j. j\<lparr>dj_status := J_COMPLETED\<rparr>)))) (give True)) (\<lambda>_. sound) sound sound"
    by (cases found) (simp_all add: triple_give)
qed

lemma keeps_process_jobs: "keeps sound (process_jobs cfg envs reg worker m)"
proof (induction envs)
  case (Cons env envs)
  then show ?case
    by (auto intro!: keeps_next keeps_process_job keeps_give)
qed (simp add: keeps_give)


subsection \<open>Worker runs, payments and zone operations together\<close>

text \<open>The worker's turns, each with the registrar's answers of that time and dying when its actions run out; the
  payments, sweeps and checkout guards; and the customers' and the maintenance's operations on the zones.\<close>

inductive domain_step :: "fulfil_cfg \<Rightarrow> normaliser \<Rightarrow> world \<Rightarrow> world \<Rightarrow> bool" for cfg tidy where
  work: "process_jobs cfg envs reg worker message (n, w) = (r, n', w') \<Longrightarrow> domain_step cfg tidy w w'"
| orders: "order_step (fc_wired cfg) (fw_od w) db \<Longrightarrow> domain_step cfg tidy w (w\<lparr>fw_od := db\<rparr>)"
| zone: "zone_step tidy (fw_zone w) z \<Longrightarrow> domain_step cfg tidy w (w\<lparr>fw_zone := z\<rparr>)"

lemma calm_zone_put:
  assumes "zb_domains z = put_row dr_fqdn e (zb_domains (fw_zone w))" "w_domain w (dr_fqdn e) = Some d" "domain_le d e"
  shows "calm w (w\<lparr>fw_zone := z\<rparr>)"
proof -
  have "calm w (set_domain e w)" using assms(2,3) by (rule calm_set_domain)
  also have "calm \<dots> (w\<lparr>fw_zone := z\<rparr>)" by (rule calm_same) (simp_all add: assms(1))
  finally show ?thesis .
qed

lemma calm_zone_map:
  "zb_domains z = map f (zb_domains (fw_zone w)) \<Longrightarrow> (\<And>d. domain_le d (f d)) \<Longrightarrow> calm w (w\<lparr>fw_zone := z\<rparr>)"
  by (rule calm_map_domains [of f]) simp_all

lemma calm_zone_same: "zb_domains z = zb_domains (fw_zone w) \<Longrightarrow> calm w (w\<lparr>fw_zone := z\<rparr>)"
  by (rule calm_same) simp_all

lemma commit_zone_domains:
  "zb_domains (commit_zone d rows db) = put_row dr_fqdn (d\<lparr>dr_revision := dr_revision d + 1\<rparr>) (zb_domains db)"
  by (simp add: commit_zone_def Let_def)

lemma calm_zone_step: "zone_step tidy (fw_zone w) z \<Longrightarrow> calm w (w\<lparr>fw_zone := z\<rparr>)"
proof (induction "fw_zone w" z rule: zone_step.induct)
  case (changeset cfg digest guard c dns_ok db1 x db')
  from changeset show ?case
  proof (cases rule: apply_changeset_cases)
    case (3 l t d)
    from 3(6) show ?thesis
    proof (cases rule: changeset_locked_cases)
      case (3 rows gone)
      with \<open>w_domain w (dr_fqdn d) = Some d\<close> show ?thesis
        by (intro calm_zone_put [where d = d and e = "d\<lparr>dr_revision := dr_revision d + 1\<rparr>"])
          (simp_all add: commit_zone_domains domain_le_def)
    qed (simp_all add: calm_zone_same)
  qed simp_all
next
  case (attach owner fq vid ipv6 dns_ok snap y db')
  show ?case
  proof (cases "w_domain w fq")
    case None
    with attach show ?thesis by (auto simp: attach_vm_def split: option.splits if_splits)
  next
    case (Some d)
    from attach Some show ?thesis
    proof (cases rule: attach_vm_cases)
      case (2 rows)
      with Some row_at_Some [OF Some] show ?thesis
        by (intro calm_zone_put [where d = d and e = "d\<lparr>dr_vm := Some vid, dr_vm_ipv6 := Some ipv6, dr_revision := dr_revision d + 1\<rparr>"])
          (simp_all add: commit_zone_domains domain_le_def)
    qed simp
  qed
next
  case (detach owner fq vid dns_ok snap y db')
  show ?case
  proof (cases "w_domain w fq")
    case None
    with detach show ?thesis by (auto simp: detach_vm_def split: option.splits)
  next
    case (Some d)
    let ?d = "d\<lparr>dr_vm := None, dr_vm_ipv6 := None\<rparr>"
    from detach Some show ?thesis
    proof (cases rule: detach_vm_cases)
      case 2
      with Some row_at_Some [OF Some] show ?thesis
        by (intro calm_zone_put [where d = d and e = "?d\<lparr>dr_revision := dr_revision d + 1\<rparr>"])
          (simp_all add: commit_zone_domains domain_le_def)
    next
      case 3
      with Some row_at_Some [OF Some] show ?thesis
        by (intro calm_zone_put [where d = d and e = ?d]) (simp_all add: domain_le_def)
    qed simp
  qed
next
  case (claim owner nm vid y db')
  then show ?case
  proof (cases rule: claim_vm_attachment_cases)
    case (2 d)
    then show ?thesis
      by (intro calm_zone_put [where d = d and e = "d\<lparr>dr_vm := Some vid, dr_vm_ipv6 := None\<rparr>"]) (simp_all add: domain_le_def)
  qed simp
next
  case (release vid y db')
  then show ?case
  proof (cases rule: release_claim_cases)
    case 2
    then show ?thesis by (intro calm_zone_map [where f = "unclaimed vid"]) (simp_all add: unclaimed_def domain_le_def)
  qed simp
next
  case (handover sha256 owner nm token z db')
  then show ?case
  proof (cases rule: claim_legacy_domain_cases)
    case (2 d)
    then show ?thesis
      by (intro calm_zone_put [where d = d and e = "d\<lparr>dr_owner := Some owner, dr_anon_hash := None\<rparr>"]) (simp_all add: domain_le_def)
  qed simp
next
  case (renewals now window due n db')
  then show ?case
    by (intro calm_zone_map [where f = "refreshed now window due"])
      (auto simp: refresh_renewal_states_def refreshed_def domain_le_def live_status_def split: option.splits)
qed

text \<open>Payments and sweeps touch only orders that nothing was bought for.\<close>

lemma order_step_frame:
  assumes "order_step wired db db'" and "unique_by do_id (od_orders db)"
  shows "unique_by do_id (od_orders db') \<and> unique_by dj_id (od_jobs db') = unique_by dj_id (od_jobs db) \<and>
    (\<forall>j o1. order_at db j = Some o1 \<longrightarrow> \<not> actionable o1 \<longrightarrow> order_at db' j = Some o1)"
proof -
  have lapse: ?thesis if "lapsed_from db db'"
  proof -
    from that have l: "\<And>j. lapse_at (order_at db j) (order_at db' j)" "od_jobs db' = od_jobs db"
      "unique_by do_id (od_orders db') = unique_by do_id (od_orders db)"
      by (simp_all add: lapsed_from_def)
    have "order_at db' j = Some o1" if "order_at db j = Some o1" "\<not> actionable o1" for j o1
      using l(1) [of j] that by (auto simp: lapse_at_def actionable_def)
    with l(2,3) assms(2) show ?thesis by simp
  qed
  from assms(1) show ?thesis
  proof cases
    case (pay env oid p snap res)
    show ?thesis
    proof (cases res)
      case (Inl x)
      with pay mark_paid_error have "db' = db" by blast
      with assms(2) show ?thesis by simp
    next
      case (Inr o2)
      with pay have "mark_paid wired env oid p snap db = (Inr o2, db')" by simp
      then show ?thesis
      proof (cases rule: mark_paid_cases)
        case (2 o0)
        with assms(2) show ?thesis by (auto simp: closed_as_def row_at_put)
      next
        case (3 o0)
        then have "actionable o0" by (simp add: actionable_def)
        with 3 assms(2) show ?thesis by (auto simp: queued_as_def row_at_put)
      qed (use assms(2) in simp)
    qed
  next
    case (sweep now n)
    then show ?thesis using expire_quotes_lapses [OF assms(2)] by (intro lapse) blast
  next
    case (check now oid res)
    then show ?thesis by (intro lapse check_lapses)
  next
    case (guard now oid owner snap res)
    then show ?thesis by (intro lapse guard_lapses)
  qed
qed

lemma domain_step_sound: "domain_step cfg tidy w w' \<Longrightarrow> sound w \<Longrightarrow> sound w'"
proof (induction rule: domain_step.induct)
  case (work envs reg worker message n w r n' w')
  from tripleD [OF keeps_process_jobs work(2,1)] show ?case by (cases r) simp_all
next
  case (orders w db)
  then have k: "keyed w" by (simp add: sound_def)
  from order_step_frame [OF orders(1)] k
  have f: "unique_by do_id (od_orders db)" "unique_by dj_id (od_jobs db)"
    "\<And>j o1. w_order w j = Some o1 \<Longrightarrow> \<not> actionable o1 \<Longrightarrow> order_at db j = Some o1"
    by (auto simp: keyed_def)
  have "order_ok (w\<lparr>fw_od := db\<rparr>) oid" for oid
    using sound_ok [OF orders(2), of oid] f(3) [of oid] by (auto simp: order_ok_def order_safe_def armed_def)
  with f k show ?case by (simp add: sound_def keyed_def)
next
  case (zone w z)
  with calm_zone_step calm_sound show ?case by blast
qed

lemma fresh_sound: "keyed w \<Longrightarrow> fw_calls w = [] \<Longrightarrow> sound w"
  by (simp add: sound_def order_ok_def registers_def renews_def)

text \<open>C1: however the registrar answers, however often the worker dies, retries or reconciles, and whatever
  payments and zone operations come between, the registrar is asked at most once to register the name of a charged
  order and at most once to renew for any order; and a name asked for stays on record for its order until the order is
  refunded.\<close>

theorem register_at_most_once:
  assumes "(domain_step cfg tidy)\<^sup>*\<^sup>* w w'" and "keyed w" and "fw_calls w = []"
  shows "((\<forall>o1. w_order w' oid = Some o1 \<longrightarrow> \<not> waived o1) \<longrightarrow> registers oid (fw_calls w') \<le> 1) \<and>
     renews oid (fw_calls w') \<le> 1 \<and>
     (registers oid (fw_calls w') = 1 \<longrightarrow>
        (\<exists>o1. w_order w' oid = Some o1 \<and> (waived o1 \<or> closed_order o1 \<or> armed w' o1)))"
proof -
  from assms(1) fresh_sound [OF assms(2,3)] have "sound w'"
    by (induction rule: rtranclp_induct) (auto intro: domain_step_sound)
  from sound_ok [OF this, of oid] show ?thesis by (auto simp: order_ok_def order_safe_def)
qed


subsection \<open>A worked run\<close>

definition demo_paid_order :: domain_order where
  "demo_paid_order = demo_domain_order\<lparr>do_fqdn := ''a.io'', do_owner := Some ''acc'', do_status := O_QUEUED\<rparr>"

definition demo_paid_job :: domain_job where
  "demo_paid_job = \<lparr>dj_id = ''job'', dj_kind = ''fulfill_order'', dj_resource = ''do_1'', dj_dedupe = ''order:do_1'',
     dj_status = J_QUEUED, dj_attempts = 0, dj_available_at = 0, dj_locked_at = None, dj_locked_by = None\<rparr>"

definition demo_world :: world where
  "demo_world = \<lparr>fw_od = demo_order_db\<lparr>od_orders := [demo_paid_order], od_jobs := [demo_paid_job]\<rparr>,
     fw_zone = demo_zone\<lparr>zb_domains := []\<rparr>,
     fw_vms = empty_vm_db, fw_calls = [], fw_inflight = {}\<rparr>"

definition demo_fulfil_cfg :: fulfil_cfg where
  "demo_fulfil_cfg = \<lparr>fc_markup = \<lparr>mk_percent = Dec 0 0, mk_min_usd = Dec 1 0\<rparr>, fc_fx = (\<lambda>_. Some (Dec 1 0)),
     fc_nameservers = [''ns1''], fc_reconcile_delay = 60, fc_lock_timeout = 300, fc_wired = True,
     fc_store = demo_store_cfg\<rparr>"

definition demo_fulfil_env :: "int \<Rightarrow> fulfil_env" where
  "demo_fulfil_env now = \<lparr>fe_now = now, fe_event_id = ''e'', fe_job_id = ''j'', fe_vm_id = ''v'', fe_gen = ''g'', fe_tok = ''t'',
     fe_anon = ''n'', fe_capacity = None\<rparr>"

text \<open>The name is free, the registrar never answers the registration, and does not show it either.\<close>

definition demo_registrar :: registrar where
  "demo_registrar cs c = (case c of
     C_Register i n x \<Rightarrow> Inl (F_Provider True ''timeout'' ''timeout'')
   | _ \<Rightarrow> Inr \<lparr>rp_found = False, rp_premium = False, rp_available = True, rp_price = Some (Dec 9 0), rp_currency = ''USD'',
       rp_id = None, rp_status = [], rp_expiry = None\<rparr>)"

definition demo_run :: "nat \<Rightarrow> int \<Rightarrow> world \<Rightarrow> world" where
  "demo_run n now w = snd (snd (process_jobs demo_fulfil_cfg [demo_fulfil_env now] demo_registrar ''host'' ''failed'' (n, w)))"

text \<open>The process dies right after the registration call; the job is claimed again once its lock is stale.\<close>

lemma demo_rerun:
  "(let w = demo_run 20 (seconds 400) (demo_run 7 1 demo_world) in
     (registers ''do_1'' (fw_calls w), map_option (\<lambda>o1. (do_mode o1, do_status o1)) (w_order w ''do_1''),
      map dj_status (od_jobs (fw_od w)))) = (1, Some (''charged'', O_CHECKING), [J_QUEUED])"
  by code_simp

theorem register_at_most_once_witness:
  "\<exists>w o1. domain_step demo_fulfil_cfg (\<lambda>t z v. Some v) demo_world (demo_run 7 1 demo_world) \<and>
     domain_step demo_fulfil_cfg (\<lambda>t z v. Some v) (demo_run 7 1 demo_world) w \<and>
     w_order w ''do_1'' = Some o1 \<and> registers ''do_1'' (fw_calls w) = 1 \<and> armed w o1"
proof -
  let ?w1 = "demo_run 7 1 demo_world" let ?w = "demo_run 20 (seconds 400) ?w1"
  have s: "domain_step demo_fulfil_cfg (\<lambda>t z v. Some v) w (demo_run n now w)" for n now w
    unfolding demo_run_def by (metis domain_step.work prod.collapse)
  then have r: "(domain_step demo_fulfil_cfg (\<lambda>t z v. Some v))\<^sup>*\<^sup>* demo_world ?w"
    by (meson rtranclp.rtrancl_refl rtranclp.rtrancl_into_rtrancl)
  have "keyed demo_world" "fw_calls demo_world = []"
    by (simp_all add: keyed_def demo_world_def demo_order_defs demo_zone_def unique_by_def)
  note t = register_at_most_once [OF r this, of "''do_1''"]
  from demo_rerun obtain o1 where o1: "w_order ?w ''do_1'' = Some o1" "registers ''do_1'' (fw_calls ?w) = 1"
    "do_mode o1 = ''charged''" "do_status o1 = O_CHECKING" by (auto simp: Let_def)
  with t have "armed ?w o1" by (auto simp: waived_def is_waived_billing_def closed_order_def)
  with s o1 show ?thesis by blast
qed


subsection \<open>Giving up and leases\<close>

definition delivered :: "domain_order \<Rightarrow> domain_row \<Rightarrow> bool" where
  "delivered o1 d \<longleftrightarrow> dr_provider_id d \<noteq> None \<and> do_action o1 \<noteq> RENEW \<and> dr_dnssec_status d = ''active''"

text \<open>C24: a job that runs out of attempts asks for the full refund only when the registrar can hold nothing for the order:
  no registrar id and no submitted registration. Otherwise the order stays pending for the reconciliation, or,
  when the domain and its zone were delivered, becomes active with exactly the VM's part owed to a charged customer.\<close>

theorem give_up_keeps_submitted:
  assumes "w_order w oid = Some o1" and "w_domain w (do_fqdn o1) = Some d"
    and "give_up_fulfilment cfg env m e oid w = (Inr full, w')"
  shows "full = (dr_provider_id d = None \<and> \<not> (do_action o1 = REGISTER \<and> dr_marker d = Some (register_marker oid))) \<and>
     (\<not> full \<longrightarrow> (\<exists>o2. w_order w' oid = Some o2 \<and>
        do_status o2 = (if delivered o1 d then O_ACTIVE else O_PROVIDER_PENDING) \<and> do_mode o2 = do_mode o1)) \<and>
     (if delivered o1 d \<and> dec_less (Dec 0 0) (do_vm_amount o1) \<and> \<not> waived o1
      then \<exists>ev. od_ledger (fw_od w') = od_ledger (fw_od w) @ [ev] \<and> ev_type ev = REFUND_OWED_EVENT \<and>
         event_order_id ev = oid \<and> ev_amount ev = Some (do_vm_amount o1)
      else od_ledger (fw_od w') = od_ledger (fw_od w))"
proof -
  have i: "do_id o1 = oid" using row_at_Some [OF assms(1)] by simp
  note look = assms(1) i
  consider "do_action o1 = REGISTER \<and> dr_provider_id d = None \<and> dr_marker d = Some (register_marker oid)"
    | "\<not> (do_action o1 = REGISTER \<and> dr_provider_id d = None \<and> dr_marker d = Some (register_marker oid))" "dr_provider_id d = None"
    | "dr_provider_id d \<noteq> None" "do_action o1 = RENEW"
    | "dr_provider_id d \<noteq> None" "do_action o1 \<noteq> RENEW" "dr_dnssec_status d \<noteq> ''active''"
    | "dr_provider_id d \<noteq> None" "do_action o1 \<noteq> RENEW" "dr_dnssec_status d = ''active''"
    by blast
  then show ?thesis
  proof cases
    case 5
    note def = assms(3) [unfolded give_up_fulfilment_def Let_def assms(1,2) option.case]
    show ?thesis
    proof (cases "dec_less (Dec 0 0) (do_vm_amount o1) \<and> \<not> waived o1")
      case False
      with 5 def look show ?thesis by (auto simp: delivered_def waived_def row_at_put)
    next
      case True
      let ?o = "o1\<lparr>do_status := O_ACTIVE, do_error := Some ''bundle_vm_failed'', do_detail := Some (take 1000 (exn_text e))\<rparr>"
      from True 5 def obtain ev where ev: "build_refund_event (fc_wired cfg) (fe_event_id env) (od_intents (fw_od w)) ?o
          ''bundle_vm_failed'' (Some (do_vm_amount o1)) = Some ev"
        by (auto simp: waived_def split: option.split_asm)
      from order_refund_event [OF ev] True 5 def look ev show ?thesis
        by (auto simp: delivered_def waived_def row_at_put)
    qed
  qed (use assms(2,3) look in \<open>auto simp: give_up_fulfilment_def Let_def delivered_def row_at_put split: if_split_asm\<close>)
qed

text \<open>C26: the claimed job is one that is due, or whose holder went silent, and no claimable job has been available for
  longer; until the lock timeout has passed, no other worker is handed the same job.\<close>

theorem claimed_job_leased:
  assumes "claim_job cfg now worker (Suc n, w) = (Done (Some j), s, w1)" and "unique_by dj_id (od_jobs (fw_od w))"
  shows "(\<exists>i. w_job w (dj_id j) = Some i \<and> claimable cfg now i \<and> dj_attempts j = dj_attempts i + 1 \<and>
        (\<forall>k \<in> set (od_jobs (fw_od w)). claimable cfg now k \<longrightarrow> dj_available_at i \<le> dj_available_at k)) \<and>
     (\<forall>later other m k s' w2. later \<le> now + seconds (fc_lock_timeout cfg) \<longrightarrow>
        claim_job cfg later other (Suc m, w1) = (Done (Some k), s', w2) \<longrightarrow> dj_id k \<noteq> dj_id j)"
proof -
  obtain i where pm: "py_min (<) dj_available_at (filter (claimable cfg now) (od_jobs (fw_od w))) = Some i"
    and j: "j = i\<lparr>dj_status := J_RUNNING, dj_locked_at := Some now, dj_locked_by := Some worker, dj_attempts := dj_attempts i + 1\<rparr>"
    and w1: "w1 = with_job (dj_id i) (\<lambda>_. j) w"
    using assms(1) by (auto simp: claim_job_def atomic_def Let_def split: option.splits)
  have i: "i \<in> set (od_jobs (fw_od w))" "claimable cfg now i" using int_key.py_min_in [OF pm] by auto
  have at: "w_job w (dj_id j) = Some i" using row_at_member [OF assms(2) i(1)] by (simp add: w_job_def j)
  have least: "dj_available_at i \<le> dj_available_at k" if "k \<in> set (od_jobs (fw_od w))" "claimable cfg now k" for k
    using int_key.py_min_least [OF pm, of k] that by auto
  have "dj_id k \<noteq> dj_id j" if l: "later \<le> now + seconds (fc_lock_timeout cfg)"
    and c: "claim_job cfg later other (Suc m, w1) = (Done (Some k), s', w2)" for later other m k s' w2
  proof
    assume same: "dj_id k = dj_id j"
    from c obtain l where m: "py_min (<) dj_available_at (filter (claimable cfg later) (od_jobs (fw_od w1))) = Some l"
      and "dj_id k = dj_id l"
      by (auto simp: claim_job_def atomic_def Let_def split: option.splits)
    with same have id: "dj_id l = dj_id i" by (simp add: j)
    from int_key.py_min_in [OF m] have li: "l \<in> set (od_jobs (fw_od w1))" "claimable cfg later l" by auto
    from li(1) id have "l = j" unfolding w1 with_job_def alter_row_def by (auto simp: j split: if_splits)
    with li(2) l show False by (simp add: claimable_def j)
  qed
  with at i least show ?thesis by (auto simp: j)
qed

theorem give_up_keeps_submitted_witness:
  "\<exists>w w' o2. give_up_fulfilment demo_fulfil_cfg (demo_fulfil_env 1) ''m'' (F_Other ''x'') ''do_1'' w = (Inr False, w') \<and>
     w_order w' ''do_1'' = Some o2 \<and> do_status o2 = O_PROVIDER_PENDING \<and> od_ledger (fw_od w') = []"
proof -
  let ?d = "demo_zone_domain\<lparr>dr_provider_id := None, dr_marker := Some (register_marker ''do_1'')\<rparr>"
  let ?w = "demo_world\<lparr>fw_zone := demo_zone\<lparr>zb_domains := [?d]\<rparr>\<rparr>"
  let ?g = "give_up_fulfilment demo_fulfil_cfg (demo_fulfil_env 1) ''m'' (F_Other ''x'') ''do_1'' ?w"
  have o: "w_order ?w ''do_1'' = Some demo_paid_order"
    by (simp add: demo_world_def demo_paid_order_def demo_order_defs)
  have d: "w_domain ?w (do_fqdn demo_paid_order) = Some ?d"
    by (simp add: demo_paid_order_def demo_zone_domain_def)
  have act: "do_action demo_paid_order = REGISTER" by (simp add: demo_paid_order_def demo_order_defs)
  have "fst ?g = Inr False" using o d act by (simp add: give_up_fulfilment_def Let_def)
  then obtain w' where g: "?g = (Inr False, w')" by (metis prod.collapse)
  from give_up_keeps_submitted [OF o d g] act
  have "(\<exists>o2. w_order w' ''do_1'' = Some o2 \<and> do_status o2 = O_PROVIDER_PENDING) \<and> od_ledger (fw_od w') = od_ledger (fw_od ?w)"
    by (auto simp: delivered_def)
  moreover have "od_ledger (fw_od ?w) = []" by (simp add: demo_world_def demo_order_defs)
  ultimately show ?thesis using g by auto
qed

theorem claimed_job_leased_witness:
  "\<exists>j s w1. claim_job demo_fulfil_cfg 1 ''host'' (1, demo_world) = (Done (Some j), s, w1) \<and> dj_attempts j = 1 \<and>
     (\<forall>k s' w2. claim_job demo_fulfil_cfg 300 ''other'' (1, w1) \<noteq> (Done (Some k), s', w2) \<or> dj_id k \<noteq> ''job'')"
proof -
  let ?c = "claim_job demo_fulfil_cfg 1 ''host'' (1, demo_world)"
  have "case ?c of (Done (Some j), s, w1) \<Rightarrow> dj_attempts j = 1 \<and> dj_id j = ''job'' | _ \<Rightarrow> False"
    by (simp add: claim_job_def atomic_def demo_world_def demo_order_defs demo_paid_job_def claimable_def Let_def)
  then obtain j s w1 where c: "?c = (Done (Some j), s, w1)" and j: "dj_attempts j = 1" "dj_id j = ''job''"
    by (auto split: prod.splits res.splits option.splits)
  have u: "unique_by dj_id (od_jobs (fw_od demo_world))" by (simp add: demo_world_def demo_order_defs unique_by_def)
  from claimed_job_leased [OF _ u, of demo_fulfil_cfg 1 "''host''" 0 j s w1] c
  have "\<forall>later other m k s' w2. later \<le> 1 + seconds (fc_lock_timeout demo_fulfil_cfg) \<longrightarrow>
      claim_job demo_fulfil_cfg later other (Suc m, w1) = (Done (Some k), s', w2) \<longrightarrow> dj_id k \<noteq> dj_id j" by simp
  from this [rule_format, of 300 "''other''" 0] c j show ?thesis
    by (intro exI [of _ j] exI [of _ s] exI [of _ w1]) (auto simp: demo_fulfil_cfg_def seconds_def)
qed

end
