(* ===== verification/Threads.thy ===== *)
theory Threads
  imports Prelude
begin

text \<open>
  Programs of transactions that run concurrently. A program is a resumption: it has returned, has raised, or waits
  with its next transaction. Between two of its transactions any others may run, and a program that is never
  resumed again has died. A transaction can be refused by the database, and can commit although its answer is lost.
\<close>

datatype outcome = Answered | Refused | Lost

datatype (dead 'w, 'e, 'a) prog = Return 'a | Raise 'e | Act "outcome \<Rightarrow> 'w \<Rightarrow> 'w \<times> ('w, 'e, 'a) prog"

primrec bind_prog :: "('w, 'e, 'a) prog \<Rightarrow> ('a \<Rightarrow> ('w, 'e, 'b) prog) \<Rightarrow> ('w, 'e, 'b) prog" where
  "bind_prog (Return a) k = k a"
| "bind_prog (Raise e) k = Raise e"
| "bind_prog (Act f) k = Act (\<lambda>m w. map_prod id (\<lambda>p. bind_prog p k) (f m w))"

primrec handle_prog :: "('w, 'e, 'a) prog \<Rightarrow> ('e \<Rightarrow> ('w, 'e, 'a) prog) \<Rightarrow> ('w, 'e, 'a) prog" where
  "handle_prog (Return a) h = Return a"
| "handle_prog (Raise e) h = h e"
| "handle_prog (Act f) h = Act (\<lambda>m w. map_prod id (\<lambda>p. handle_prog p h) (f m w))"

definition seq_prog :: "('w, 'e, 'a) prog \<Rightarrow> ('w, 'e, 'b) prog \<Rightarrow> ('w, 'e, 'b) prog" where
  "seq_prog p q = bind_prog p (\<lambda>_. q)"

text \<open>One transaction; \<open>e\<close> is raised when the database fails.\<close>

definition answer :: "outcome \<Rightarrow> 'e \<Rightarrow> 'w \<Rightarrow> ('e + 'a) \<times> 'w \<Rightarrow> 'w \<times> ('w, 'e, 'a) prog" where
  "answer m e w r =
     (case m of
        Refused \<Rightarrow> (w, Raise e)
      | Lost \<Rightarrow> (snd r, Raise e)
      | Answered \<Rightarrow> (snd r, case fst r of Inl x \<Rightarrow> Raise x | Inr a \<Rightarrow> Return a))"

definition transact :: "'e \<Rightarrow> ('w \<Rightarrow> ('e + 'a) \<times> 'w) \<Rightarrow> ('w, 'e, 'a) prog" where
  "transact e f = Act (\<lambda>m w. answer m e w (f w))"

lemma answer_cases:
  obtains a where "answer m e w r = (snd r, Return a)" "fst r = Inr a"
  | x where "answer m e w r = (snd r, Raise x)" | "answer m e w r = (w, Raise e)"
  by (cases m; cases "fst r") (auto simp: answer_def)

text \<open>A program alone, its transactions all answered.\<close>

primrec run_alone :: "('w, 'e, 'a) prog \<Rightarrow> 'w \<Rightarrow> ('e + 'a) \<times> 'w" where
  "run_alone (Return a) = (\<lambda>w. (Inr a, w))"
| "run_alone (Raise e) = (\<lambda>w. (Inl e, w))"
| "run_alone (Act f) = (\<lambda>w. case map_prod id run_alone (f Answered w) of (w', r) \<Rightarrow> r w')"

lemma prog_induct [case_names Return Raise Act, induct type: prog]:
  assumes "\<And>a. P (Return a)" "\<And>e. P (Raise e)" "\<And>f. (\<And>m w. P (snd (f m w))) \<Longrightarrow> P (Act f)"
  shows "P p"
proof (induction p rule: prog.induct)
  case (Act f)
  have "P (snd (f m w))" for m w
    by (rule Act [of "f m" "f m w"]) (auto simp: snds.simps intro: prod.collapse [symmetric])
  then show ?case by (rule assms(3))
qed (rule assms)+

lemma run_Act: "run_alone (Act f) w = run_alone (snd (f Answered w)) (fst (f Answered w))"
  by (simp add: case_prod_beta)

lemma run_bind: "run_alone (bind_prog p k) w = (case run_alone p w of (Inl e, w') \<Rightarrow> (Inl e, w') | (Inr a, w') \<Rightarrow> run_alone (k a) w')"
proof (induction p arbitrary: w)
  case (Act f)
  show ?case by (simp add: run_Act Act del: run_alone.simps(3))
qed simp_all

lemma run_handle:
  "run_alone (handle_prog p h) w = (case run_alone p w of (Inl e, w') \<Rightarrow> run_alone (h e) w' | (Inr a, w') \<Rightarrow> (Inr a, w'))"
proof (induction p arbitrary: w)
  case (Act f)
  show ?case by (simp add: run_Act Act del: run_alone.simps(3))
qed simp_all

lemma run_transact: "run_alone (transact e f) w = f w"
  by (simp add: transact_def answer_def prod_eq_iff split: sum.splits)

lemma run_seq: "run_alone (seq_prog p q) w = (case run_alone p w of (Inl e, w') \<Rightarrow> (Inl e, w') | (Inr a, w') \<Rightarrow> run_alone q w')"
  by (simp add: seq_prog_def run_bind)

lemmas run_simps = run_bind run_handle run_transact run_seq

text \<open>A program alone, its transactions answered, refused or lost.\<close>

inductive ends :: "('w, 'e, 'a) prog \<Rightarrow> 'w \<Rightarrow> 'e + 'a \<Rightarrow> 'w \<Rightarrow> bool" where
  return: "ends (Return a) w (Inr a) w"
| raise: "ends (Raise e) w (Inl e) w"
| act: "ends (snd (f m w)) (fst (f m w)) r w' \<Longrightarrow> ends (Act f) w r w'"

inductive_simps ends_simps [simp]: "ends (Return a) w r w'" "ends (Raise e) w r w'"
inductive_simps ends_Act: "ends (Act f) w r w'"
inductive_cases ends_ActE: "ends (Act f) w r w'"

lemma ends_bind:
  "ends (bind_prog p k) w r w' \<Longrightarrow>
     (\<exists>e. ends p w (Inl e) w' \<and> r = Inl e) \<or> (\<exists>a w1. ends p w (Inr a) w1 \<and> ends (k a) w1 r w')"
proof (induction p arbitrary: w)
  case (Act f)
  from Act.prems obtain m where "ends (bind_prog (snd (f m w)) k) (fst (f m w)) r w'"
    by (auto elim: ends_ActE)
  from Act.IH [OF this] show ?case by (metis ends.act)
qed auto

lemma ends_handle:
  "ends (handle_prog p h) w r w' \<Longrightarrow>
     (\<exists>a. ends p w (Inr a) w' \<and> r = Inr a) \<or> (\<exists>e w1. ends p w (Inl e) w1 \<and> ends (h e) w1 r w')"
proof (induction p arbitrary: w)
  case (Act f)
  from Act.prems obtain m where "ends (handle_prog (snd (f m w)) h) (fst (f m w)) r w'"
    by (auto elim: ends_ActE)
  from Act.IH [OF this] show ?case by (metis ends.act)
qed auto

lemma ends_transact:
  "ends (transact e f) w r w' \<Longrightarrow> (r = Inl e \<and> (w' = w \<or> w' = snd (f w))) \<or> (r = fst (f w) \<and> w' = snd (f w))"
  by (auto simp: transact_def answer_def elim!: ends_ActE split: outcome.splits sum.splits)

lemma run_ends: "run_alone p w = (r, w') \<Longrightarrow> ends p w r w'"
proof (induction p arbitrary: w)
  case (Act f)
  then have "ends (snd (f Answered w)) (fst (f Answered w)) r w'" by (simp only: run_Act)
  then show ?case by (rule ends.act)
qed auto

text \<open>A program alone with given outcomes; \<open>None\<close>: it has died when they are used up.\<close>

fun run_with :: "outcome list \<Rightarrow> ('w, 'e, 'a) prog \<Rightarrow> 'w \<Rightarrow> ('e + 'a) option \<times> 'w" where
  "run_with ms (Return a) w = (Some (Inr a), w)"
| "run_with ms (Raise e) w = (Some (Inl e), w)"
| "run_with [] (Act f) w = (None, w)"
| "run_with (m # ms) (Act f) w = (case f m w of (w', p) \<Rightarrow> run_with ms p w')"

subsection \<open>Pools of programs\<close>

text \<open>Any program resumes with any outcome; a new one may start at any time.\<close>

inductive pool_step :: "('w, 'e, 'a) prog set \<Rightarrow> 'w \<times> ('w, 'e, 'a) prog list \<Rightarrow> 'w \<times> ('w, 'e, 'a) prog list \<Rightarrow> bool"
  for starts where
  resume: "i < length ps \<Longrightarrow> ps ! i = Act f \<Longrightarrow> f m w = (w', p) \<Longrightarrow> pool_step starts (w, ps) (w', ps[i := p])"
| start: "p \<in> starts \<Longrightarrow> pool_step starts (w, ps) (w, ps @ [p])"

inductive_cases pool_stepE: "pool_step starts (w, ps) c"

text \<open>The contract of the transactions: an invariant, and a log of events that is only extended, so that what a
  program has seen in it stays true whatever the others do. \<open>K\<close>: the events seen.\<close>

primrec safe :: "('w \<Rightarrow> bool) \<Rightarrow> ('w \<Rightarrow> 'v set) \<Rightarrow> ('w, 'e, 'a) prog \<Rightarrow> 'v set \<Rightarrow> bool" where
  "safe I seen (Return a) = (\<lambda>K. True)"
| "safe I seen (Raise e) = (\<lambda>K. True)"
| "safe I seen (Act f) = (\<lambda>K. \<forall>m w. I w \<longrightarrow> K \<subseteq> seen w \<longrightarrow>
     (case map_prod id (safe I seen) (f m w) of (w', s) \<Rightarrow> I w' \<and> seen w \<subseteq> seen w' \<and> s (seen w')))"

lemma safe_Act:
  "safe I seen (Act f) K \<longleftrightarrow> (\<forall>m w. I w \<longrightarrow> K \<subseteq> seen w \<longrightarrow>
     I (fst (f m w)) \<and> seen w \<subseteq> seen (fst (f m w)) \<and> safe I seen (snd (f m w)) (seen (fst (f m w))))"
  by (simp add: safe.simps(3) case_prod_beta)

declare safe.simps(3) [simp del]

lemma safe_more: "safe I seen p K \<Longrightarrow> K \<subseteq> K' \<Longrightarrow> safe I seen p K'"
proof (induction p)
  case (Act f)
  then show ?case unfolding safe_Act by (meson order_trans)
qed simp_all

lemma run_with_safe:
  "safe I seen p K \<Longrightarrow> I w \<Longrightarrow> K \<subseteq> seen w \<Longrightarrow> I (snd (run_with ms p w)) \<and> seen w \<subseteq> seen (snd (run_with ms p w))"
proof (induction ms p w arbitrary: K rule: run_with.induct)
  case (4 m ms f w)
  obtain w' p where f: "f m w = (w', p)" by fastforce
  from 4(2) have "\<forall>m w. I w \<longrightarrow> K \<subseteq> seen w \<longrightarrow> I (fst (f m w)) \<and> seen w \<subseteq> seen (fst (f m w)) \<and>
      safe I seen (snd (f m w)) (seen (fst (f m w)))" unfolding safe_Act .
  with 4(3,4) have "I (fst (f m w)) \<and> seen w \<subseteq> seen (fst (f m w)) \<and> safe I seen (snd (f m w)) (seen (fst (f m w)))" by blast
  then have "I w'" "seen w \<subseteq> seen w'" "safe I seen p (seen w')" by (simp_all add: f)
  with 4(1) [OF f [symmetric], of "seen w'"] show ?case by (simp add: f) blast
qed simp_all

definition pool_ok :: "('w \<Rightarrow> bool) \<Rightarrow> ('w \<Rightarrow> 'v set) \<Rightarrow> 'w \<times> ('w, 'e, 'a) prog list \<Rightarrow> bool" where
  "pool_ok I seen c \<longleftrightarrow> I (fst c) \<and> (\<forall>p \<in> set (snd c). safe I seen p (seen (fst c)))"

lemma pool_step_ok:
  assumes "pool_step starts c c'" "pool_ok I seen c" "\<And>p. p \<in> starts \<Longrightarrow> safe I seen p {}"
  shows "pool_ok I seen c' \<and> seen (fst c) \<subseteq> seen (fst c')"
  using assms(1)
proof cases
  case (resume i ps f m w w' p)
  have "safe I seen (Act f) (seen w)" "I w" using assms(2) resume by (auto simp: pool_ok_def dest: nth_mem)
  then have "I (fst (f m w)) \<and> seen w \<subseteq> seen (fst (f m w)) \<and> safe I seen (snd (f m w)) (seen (fst (f m w)))"
    unfolding safe_Act by simp
  with resume(5) have w': "I w'" "seen w \<subseteq> seen w'" "safe I seen p (seen w')" by simp_all
  have "safe I seen q (seen w')" if "q \<in> set (ps[i := p])" for q
  proof -
    from that consider "q = p" | "q \<in> set ps" using set_update_subset_insert [of ps i p] by blast
    then show ?thesis
    proof cases
      case 2
      with assms(2) resume(1) have "safe I seen q (seen w)" by (simp add: pool_ok_def)
      then show ?thesis using w'(2) by (rule safe_more)
    qed (use w' in simp)
  qed
  with w' resume show ?thesis by (simp add: pool_ok_def)
next
  case (start p w ps)
  have "safe I seen p (seen w)" by (rule safe_more [OF assms(3) [OF start(3)]]) simp
  with assms(2) start show ?thesis by (auto simp: pool_ok_def)
qed

lemma pool_run_ok:
  assumes "(pool_step starts)\<^sup>*\<^sup>* c c'" "pool_ok I seen c" "\<And>p. p \<in> starts \<Longrightarrow> safe I seen p {}"
  shows "pool_ok I seen c' \<and> seen (fst c) \<subseteq> seen (fst c')"
  using assms(1,2)
proof (induction rule: rtranclp_induct)
  case (step c1 c2)
  with pool_step_ok [where I = I and seen = seen, OF step(2) _ assms(3)] show ?case by blast
qed simp

text \<open>A program that may be run once the events \<open>F\<close> are in the log.\<close>

definition secure :: "('w \<Rightarrow> bool) \<Rightarrow> ('w \<Rightarrow> 'v set) \<Rightarrow> 'v set \<Rightarrow> ('w, 'e, 'a) prog \<Rightarrow> bool" where
  "secure I seen F p \<longleftrightarrow> (\<forall>K. F \<subseteq> K \<longrightarrow> safe I seen p K)"

lemma secure_Return: "secure I seen F (Return a)" and secure_Raise: "secure I seen F (Raise e)"
  by (simp_all add: secure_def)

lemma secure_Act: "secure I seen F (Act f) \<longleftrightarrow> (\<forall>m w. I w \<longrightarrow> F \<subseteq> seen w \<longrightarrow>
    I (fst (f m w)) \<and> seen w \<subseteq> seen (fst (f m w)) \<and> safe I seen (snd (f m w)) (seen (fst (f m w))))"
  unfolding secure_def safe_Act by (meson order_refl order_trans)

lemma secure_bind:
  assumes "secure I seen F p" "\<And>a. secure I seen F (k a)"
  shows "secure I seen F (bind_prog p k)"
proof -
  have "safe I seen (bind_prog p k) K" if "safe I seen p K" "F \<subseteq> K" for K
    using that
  proof (induction p arbitrary: K)
    case (Return a)
    with assms(2) show ?case by (simp add: secure_def)
  next
    case (Act f)
    have "I (fst (f m w)) \<and> seen w \<subseteq> seen (fst (f m w)) \<and> safe I seen (bind_prog (snd (f m w)) k) (seen (fst (f m w)))"
      if w: "I w" "K \<subseteq> seen w" for m w
    proof -
      from Act.prems(1) w have l: "I (fst (f m w))" "seen w \<subseteq> seen (fst (f m w))"
        "safe I seen (snd (f m w)) (seen (fst (f m w)))" unfolding safe_Act by blast+
      with Act.prems(2) w have "F \<subseteq> seen (fst (f m w))" by blast
      from Act.IH [OF l(3) this] l show ?thesis by blast
    qed
    then show ?case by (simp add: safe_Act)
  qed simp
  with assms(1) show ?thesis by (simp add: secure_def)
qed

lemma secure_handle:
  assumes "secure I seen F p" "\<And>e. secure I seen F (h e)"
  shows "secure I seen F (handle_prog p h)"
proof -
  have "safe I seen (handle_prog p h) K" if "safe I seen p K" "F \<subseteq> K" for K
    using that
  proof (induction p arbitrary: K)
    case (Raise e)
    with assms(2) show ?case by (simp add: secure_def)
  next
    case (Act f)
    have "I (fst (f m w)) \<and> seen w \<subseteq> seen (fst (f m w)) \<and> safe I seen (handle_prog (snd (f m w)) h) (seen (fst (f m w)))"
      if w: "I w" "K \<subseteq> seen w" for m w
    proof -
      from Act.prems(1) w have l: "I (fst (f m w))" "seen w \<subseteq> seen (fst (f m w))"
        "safe I seen (snd (f m w)) (seen (fst (f m w)))" unfolding safe_Act by blast+
      with Act.prems(2) w have "F \<subseteq> seen (fst (f m w))" by blast
      from Act.IH [OF l(3) this] l show ?thesis by blast
    qed
    then show ?case by (simp add: safe_Act)
  qed simp
  with assms(1) show ?thesis by (simp add: secure_def)
qed

lemma secure_seq: "secure I seen F p \<Longrightarrow> secure I seen F q \<Longrightarrow> secure I seen F (seq_prog p q)"
  unfolding seq_prog_def by (rule secure_bind)

lemma secure_transact:
  assumes "\<And>w. I w \<Longrightarrow> F \<subseteq> seen w \<Longrightarrow> I (snd (f w)) \<and> seen w \<subseteq> seen (snd (f w))"
  shows "secure I seen F (transact e f)"
  unfolding transact_def secure_Act
proof (intro allI impI)
  fix m w assume "I w" "F \<subseteq> seen w"
  from assms [OF this] \<open>I w\<close> show "I (fst (answer m e w (f w))) \<and> seen w \<subseteq> seen (fst (answer m e w (f w))) \<and>
      safe I seen (snd (answer m e w (f w))) (seen (fst (answer m e w (f w))))"
    by (cases rule: answer_cases [of m e w "f w"]) simp_all
qed

text \<open>A transaction whose result tells events of the log.\<close>

lemma secure_learn:
  assumes "\<And>w. I w \<Longrightarrow> F \<subseteq> seen w \<Longrightarrow> I (snd (f w)) \<and> seen w \<subseteq> seen (snd (f w))"
    and "\<And>w a. I w \<Longrightarrow> F \<subseteq> seen w \<Longrightarrow> fst (f w) = Inr a \<Longrightarrow> \<exists>G. G \<subseteq> seen (snd (f w)) \<and> secure I seen G (k a)"
  shows "secure I seen F (bind_prog (transact e f) k)"
  unfolding transact_def bind_prog.simps secure_Act
proof (intro allI impI)
  fix m w assume w: "I w" "F \<subseteq> seen w"
  let ?r = "map_prod id (\<lambda>p. bind_prog p k) (answer m e w (f w))"
  have "safe I seen (k a) (seen (snd (f w)))" if "fst (f w) = Inr a" for a
    using assms(2) [OF w that] by (auto simp: secure_def)
  with assms(1) [OF w] w(1) show "I (fst ?r) \<and> seen w \<subseteq> seen (fst ?r) \<and> safe I seen (snd ?r) (seen (fst ?r))"
    by (cases rule: answer_cases [of m e w "f w"]) simp_all
qed

lemma secure_option:
  "(x = None \<Longrightarrow> secure I seen F p) \<Longrightarrow> (\<And>y. x = Some y \<Longrightarrow> secure I seen F (q y)) \<Longrightarrow>
     secure I seen F (case x of None \<Rightarrow> p | Some y \<Rightarrow> q y)"
  by (cases x) simp_all

lemma secure_if: "(b \<Longrightarrow> secure I seen F p) \<Longrightarrow> (\<not> b \<Longrightarrow> secure I seen F q) \<Longrightarrow> secure I seen F (if b then p else q)"
  by simp

lemma secure_prod: "(\<And>a b. x = (a, b) \<Longrightarrow> secure I seen F (k a b)) \<Longrightarrow> secure I seen F (case x of (a, b) \<Rightarrow> k a b)"
  by (cases x) simp

lemma secure_more: "secure I seen F p \<Longrightarrow> F \<subseteq> G \<Longrightarrow> secure I seen G p"
  unfolding secure_def by blast

lemmas secure_rules = secure_bind secure_seq secure_handle secure_Return secure_Raise secure_option secure_if secure_prod

text \<open>A program that is resumed with answers for a while, in a pool.\<close>

fun drive :: "nat \<Rightarrow> ('w, 'e, 'a) prog \<Rightarrow> 'w \<Rightarrow> 'w \<times> ('w, 'e, 'a) prog" where
  "drive (Suc n) (Act f) w = (case f Answered w of (w', p) \<Rightarrow> drive n p w')"
| "drive n p w = (w, p)"

lemma drive_pool:
  "(pool_step starts)\<^sup>*\<^sup>* (w, ps @ [p]) (fst (drive n p w), ps @ [snd (drive n p w)])"
proof (induction n p w rule: drive.induct)
  case (1 n f w)
  obtain w' p where f: "f Answered w = (w', p)" by fastforce
  have "pool_step starts (w, ps @ [Act f]) (w', (ps @ [Act f])[length ps := p])"
    by (rule pool_step.resume [of _ _ f Answered]) (simp_all add: f)
  then have "pool_step starts (w, ps @ [Act f]) (w', ps @ [p])" by simp
  with 1 [OF f [symmetric]] show ?case by (simp add: f converse_rtranclp_into_rtranclp)
qed simp_all

lemma drive_started:
  assumes "p \<in> starts"
  shows "(pool_step starts)\<^sup>*\<^sup>* (w, ps) (fst (drive n p w), ps @ [snd (drive n p w)])"
  by (rule converse_rtranclp_into_rtranclp [OF pool_step.start [OF assms] drive_pool])

subsection \<open>Safe pools\<close>

text \<open>The contract of the programs that a service starts.\<close>

locale secure_pool =
  fixes inv :: "'w \<Rightarrow> bool" and facts :: "'w \<Rightarrow> 'v set" and starts :: "('w, 'e, 'a) prog set"
  assumes started: "p \<in> starts \<Longrightarrow> secure inv facts {} p"
begin

lemma reachable:
  assumes "(pool_step starts)\<^sup>*\<^sup>* (w, []) (w', ps)" "inv w"
  shows "inv w' \<and> facts w \<subseteq> facts w'"
proof -
  have "safe inv facts p {}" if "p \<in> starts" for p using started [OF that] by (simp add: secure_def)
  from pool_run_ok [where I = inv and seen = facts, OF assms(1) _ this] assms(2) show ?thesis
    by (simp add: pool_ok_def)
qed

end

end
