(* ===== verification/Handoff.thy ===== *)
theory Handoff
  imports Domain_Fulfil Threads
begin

text \<open>
  \<^verbatim>\<open>services/intents.py\<close>, second half: what happens once a native payment has settled. A worker triggers the
  handoff of an intent once, to the fulfilment of a domain order or to a new VM; a worker that stalls is replaced by
  a recovery that takes over its lease and records the refund. All of them run concurrently, as programs of
  \<^verbatim>\<open>Threads\<close>. The log of the world names the transitions the safety argument is about; the code has no such log.
\<close>

subsection \<open>The shared world\<close>

datatype native_event =
  Triggered string int | Leased string int | Delivered string int | Refund_Recorded string | Started string string

datatype native_exn = N_Fenced | N_Disabled | N_Runtime | N_Error

record native_world =
  nw_base :: world
  nw_claimed :: "string \<Rightarrow> string set"    \<comment> \<open>\<^verbatim>\<open>_claimed_quote_ids\<close> of each process\<close>
  nw_inflight :: "string \<Rightarrow> string set"   \<comment> \<open>the provisioning tasks of each process\<close>
  nw_log :: "native_event list"              \<comment> \<open>newest first\<close>

type_synonym 'a native = "(native_world, native_exn, 'a) prog"

record handoff_cfg =
  hc_wired :: bool
  hc_domains :: bool
  hc_store :: store_cfg
  hc_wallet :: wallet

record handoff_env =
  he_proc :: string
  he_now :: int
  he_later :: int
  he_event_id :: string
  he_vm_id :: string
  he_gen :: string
  he_tok :: string
  he_anon :: string
  he_capacity :: "capacity option"
  he_order :: order_env
  he_scan :: "string \<Rightarrow> scan_result option"

abbreviation n_db :: "native_world \<Rightarrow> order_db" where
  "n_db w \<equiv> fw_od (nw_base w)"

definition on_base :: "(world \<Rightarrow> world) \<Rightarrow> native_world \<Rightarrow> native_world" where
  "on_base f w = w\<lparr>nw_base := f (nw_base w)\<rparr>"

definition on_db :: "(order_db \<Rightarrow> order_db) \<Rightarrow> native_world \<Rightarrow> native_world" where
  "on_db f = on_base (\<lambda>b. b\<lparr>fw_od := f (fw_od b)\<rparr>)"

definition n_intent :: "native_world \<Rightarrow> string \<Rightarrow> intent option" where
  "n_intent w iid = find_intent (od_intents (n_db w)) iid"

definition set_intent :: "string \<Rightarrow> (intent \<Rightarrow> intent) \<Rightarrow> native_world \<Rightarrow> native_world" where
  "set_intent iid f = on_db (\<lambda>db. db\<lparr>od_intents := update_intent iid f (od_intents db)\<rparr>)"

definition note_event :: "native_event \<Rightarrow> native_world \<Rightarrow> native_world" where
  "note_event e w = w\<lparr>nw_log := e # nw_log w\<rparr>"

definition native_tx :: "(native_world \<Rightarrow> (native_exn + 'a) \<times> native_world) \<Rightarrow> 'a native" where
  "native_tx = transact N_Error"

definition native_do :: "(native_world \<Rightarrow> native_world) \<Rightarrow> unit native" where
  "native_do f = native_tx (\<lambda>w. (Inr (), f w))"

definition native_read :: "(native_world \<Rightarrow> 'a) \<Rightarrow> 'a native" where
  "native_read f = native_tx (\<lambda>w. (Inr (f w), w))"

text \<open>The VM operations with the domain rows they unlink.\<close>

definition on_vms :: "(vm_db \<Rightarrow> vm_db) \<Rightarrow> world \<Rightarrow> world" where
  "on_vms f w =
     (let vms = f ((fw_vms w)\<lparr>vd_domains := map link_of (zb_domains (fw_zone w))\<rparr>) in
      w\<lparr>fw_vms := vms,
        fw_zone := (fw_zone w)\<lparr>zb_domains :=
          map (\<lambda>(d, l). d\<lparr>dr_vm := dl_vm l\<rparr>) (zip (zb_domains (fw_zone w)) (vd_domains vms))\<rparr>\<rparr>)"

definition vm_exn :: "vm_error_kind \<Rightarrow> native_exn" where
  "vm_exn e = (case e of
     Account_Disabled \<Rightarrow> N_Disabled
   | Already_Bound \<Rightarrow> N_Runtime | No_Unique_Prefix \<Rightarrow> N_Runtime | Owner_Changed \<Rightarrow> N_Runtime
   | Prefix_Error n \<Rightarrow> (if n = Exhausted then N_Runtime else N_Error)
   | Insufficient_Cpu \<Rightarrow> N_Runtime | Insufficient_Ram \<Rightarrow> N_Runtime | Insufficient_Disk \<Rightarrow> N_Runtime
   | _ \<Rightarrow> N_Error)"

subsection \<open>The refund of an intent\<close>

definition asset_code :: "asset \<Rightarrow> string" where
  "asset_code a = (case a of BTC \<Rightarrow> ''BTC'' | XMR \<Rightarrow> ''XMR'')"

definition intent_refund_fields :: "intent \<Rightarrow> string \<Rightarrow> string option \<Rightarrow> owed_fields" where
  "intent_refund_fields i reason vid =
     \<lparr>w_path = (if in_resource_type i = ''domain_order'' then ''/v1/domains/orders'' else ''/v1/vm/create''),
      w_payer = Some (in_id i), w_amount = in_amount_usd i, w_tx = in_tx_hash i, w_reason = reason,
      w_network = Some ''native'', w_asset = Some (asset_code (in_asset i)), w_vm_id = vid,
      w_extra = [(''intent_id'', Some (in_id i)), (''native_deposit_address'', Some (in_address i)),
        (''native_refund_address'', in_refund_address i), (''resource_type'', Some (in_resource_type i)),
        (''resource_id'', in_resource_id i), (''amount_received_crypto'', map_option dec_str (in_received i))]\<rparr>"

text \<open>A domain order that still waits for the payment is closed in the same transaction.\<close>

definition close_unpaid_order :: "int \<Rightarrow> string \<Rightarrow> intent \<Rightarrow> order_db \<Rightarrow> order_db" where
  "close_unpaid_order now reason i db =
     (if in_resource_type i = ''domain_order'' \<and> truthy (in_resource_id i) then
        (case order_at db (the (in_resource_id i)) of
           None \<Rightarrow> db
         | Some o1 \<Rightarrow>
           if do_status o1 \<noteq> O_AWAITING_PAYMENT then db
           else put_order (o1\<lparr>do_status := O_REFUND_DUE, do_network := Some ''native'',
             do_asset := Some (asset_code (in_asset i)), do_payer := Some (in_id i), do_tx := in_tx_hash i,
             do_error := Some (take 64 reason),
             do_detail := Some ''Native payment settled, but fulfillment handoff failed.'',
             do_paid_at := (if in_paid_at i = None then Some now else in_paid_at i)\<rparr>) db)
      else db)"

text \<open>\<open>owed\<close>: what the query for an earlier obligation answered. Nothing locks the intent between that query and the
  commit; here both are one step, as if transactions were serialised.\<close>

definition write_native_refund ::
    "bool \<Rightarrow> string \<Rightarrow> int \<Rightarrow> string \<Rightarrow> string \<Rightarrow> string option \<Rightarrow> bool \<Rightarrow> native_world \<Rightarrow> (native_exn + bool) \<times> native_world" where
  "write_native_refund wired uid now iid reason vid owed w =
     (case n_intent w iid of
        None \<Rightarrow> (Inr False, w)
      | Some i \<Rightarrow>
        let w1 = on_db (close_unpaid_order now reason i) w
        in if in_status i = I_REFUND_MANUAL \<and> owed then (Inr False, w1)
           else
             let w2 = set_intent iid (\<lambda>j. j\<lparr>in_status := I_REFUND_MANUAL\<rparr>) w1
             in case (if owed then None else build_owed_event wired uid (intent_refund_fields i reason vid)) of
                  None \<Rightarrow> (Inr True, w2)
                | Some e \<Rightarrow> (Inr True, note_event (Refund_Recorded iid) (on_db (\<lambda>db. db\<lparr>od_ledger := od_ledger db @ [e]\<rparr>) w2)))"

definition native_refund ::
    "bool \<Rightarrow> string \<Rightarrow> int \<Rightarrow> string \<Rightarrow> string \<Rightarrow> string option \<Rightarrow> native_world \<Rightarrow> (native_exn + bool) \<times> native_world" where
  "native_refund wired uid now iid reason vid w =
     write_native_refund wired uid now iid reason vid (owed_to (od_ledger (n_db w)) iid \<noteq> []) w"

definition record_native_intent_refund ::
    "handoff_cfg \<Rightarrow> handoff_env \<Rightarrow> string \<Rightarrow> string \<Rightarrow> string option \<Rightarrow> bool native" where
  "record_native_intent_refund cfg env iid reason vid =
     native_tx (native_refund (hc_wired cfg) (he_event_id env) (he_later env) iid reason vid)"

text \<open>The refund of a VM that failed after it was delivered; \<^verbatim>\<open>LIMIT 1\<close> is the first row.\<close>

definition record_native_refund :: "handoff_cfg \<Rightarrow> handoff_env \<Rightarrow> string \<Rightarrow> string \<Rightarrow> bool native" where
  "record_native_refund cfg env vid reason =
     bind_prog (native_read (\<lambda>w. find (\<lambda>i. in_vm_id i = Some vid) (od_intents (n_db w)))) (\<lambda>row. case row of
        None \<Rightarrow> Return False
      | Some i \<Rightarrow> record_native_intent_refund cfg env (in_id i) reason (Some vid))"

subsection \<open>Combinators of the handoff\<close>

text \<open>\<^verbatim>\<open>try: a = p  except Exception as e: h e  else: k a\<close>; in a \<^verbatim>\<open>try\<close> block that tracks its progress, \<open>h\<close> is the
  handler at this point and \<open>k\<close> the rest of the block, with its own.\<close>

definition try_else :: "'a native \<Rightarrow> (native_exn \<Rightarrow> 'b native) \<Rightarrow> ('a \<Rightarrow> 'b native) \<Rightarrow> 'b native" where
  "try_else p h k =
     bind_prog (handle_prog (bind_prog p (\<lambda>a. Return (Inr a))) (\<lambda>e. Return (Inl e)))
       (\<lambda>r. case r of Inl e \<Rightarrow> h e | Inr a \<Rightarrow> k a)"

definition swallow :: "'a native \<Rightarrow> unit native" where
  "swallow p = try_else p (\<lambda>_. Return ()) (\<lambda>_. Return ())"

text \<open>Up to three attempts, the failure of all of them ignored.\<close>

definition three_times :: "'a native \<Rightarrow> unit native" where
  "three_times p = try_else p (\<lambda>_. try_else p (\<lambda>_. swallow p) (\<lambda>_. Return ())) (\<lambda>_. Return ())"

definition demand :: "bool native \<Rightarrow> native_exn \<Rightarrow> unit native" where
  "demand p e = bind_prog p (\<lambda>b. if b then Return () else Raise e)"

subsection \<open>Fences\<close>

definition persist_planned_vm_id :: "string \<Rightarrow> string \<Rightarrow> string option \<Rightarrow> string native" where
  "persist_planned_vm_id iid candidate existing =
     (if truthy existing then Return (the existing)
      else seq_prog
        (native_do (set_intent iid (\<lambda>i. if in_vm_id i = None then i\<lparr>in_vm_id := Some candidate\<rparr> else i)))
        (bind_prog (native_read (\<lambda>w. case n_intent w iid of None \<Rightarrow> None | Some i \<Rightarrow> in_vm_id i))
          (\<lambda>v. case v of None \<Rightarrow> Raise N_Runtime | Some vid \<Rightarrow> Return vid)))"

definition holds_handoff :: "int \<Rightarrow> intent \<Rightarrow> bool" where
  "holds_handoff token i \<longleftrightarrow> in_status i = I_PROVISIONING \<and> in_triggered_at i = Some token"

definition require_current :: "string \<Rightarrow> int \<Rightarrow> unit native" where
  "require_current iid token =
     demand (native_read (\<lambda>w. case n_intent w iid of None \<Rightarrow> False | Some i \<Rightarrow> holds_handoff token i)) N_Fenced"

subsection \<open>VM operations of the handoff\<close>

definition release_reserved :: "string \<Rightarrow> unit native" where
  "release_reserved vid = native_do (on_base (on_vms (release_vm_reservation vid)))"

definition FAILURE_INTERNAL :: string where
  "FAILURE_INTERNAL = ''Provisioning failed because of a problem on our side. The order was stopped. Contact support to review any payment or refund.''"

definition mark_failed :: "string \<Rightarrow> unit native" where
  "mark_failed vid = native_do (on_base (on_vms (\<lambda>db. fst (mark_vm_failed vid FAILURE_INTERNAL db))))"

definition zone_exn_native :: "zone_exn \<Rightarrow> native_exn" where
  "zone_exn_native e = (case e of Zone_Runtime t \<Rightarrow> N_Runtime | _ \<Rightarrow> N_Error)"

definition in_zone :: "(zone_db \<Rightarrow> (zone_exn + unit) \<times> zone_db) \<Rightarrow> unit native" where
  "in_zone f = native_tx (\<lambda>w. case f (fw_zone (nw_base w)) of
       (Inl e, z) \<Rightarrow> (Inl (zone_exn_native e), w)
     | (Inr _, z) \<Rightarrow> (Inr (), on_base (\<lambda>b. b\<lparr>fw_zone := z\<rparr>) w))"

definition release_claimed :: "string \<Rightarrow> unit native" where
  "release_claimed vid = in_zone (release_vm_attachment_claim vid)"

definition clean_up :: "handoff_cfg \<Rightarrow> string option \<Rightarrow> bool \<Rightarrow> unit native" where
  "clean_up cfg vid claimed =
     (case vid of
        None \<Rightarrow> Return ()
      | Some v \<Rightarrow>
        seq_prog (swallow (release_reserved v)) (seq_prog (swallow (mark_failed v))
          (if claimed \<and> hc_domains cfg then swallow (release_claimed v) else Return ())))"

text \<open>The handler of the whole handoff. \<open>reserved\<close>: the reservation had returned.\<close>

definition give_up_handoff ::
    "handoff_cfg \<Rightarrow> handoff_env \<Rightarrow> string \<Rightarrow> string option \<Rightarrow> bool \<Rightarrow> bool \<Rightarrow> native_exn \<Rightarrow> unit native" where
  "give_up_handoff cfg env iid planned reserved claimed e =
     (if e = N_Fenced then clean_up cfg planned claimed
      else seq_prog
        (try_else (record_native_intent_refund cfg env iid ''provisioning_failed'' planned)
          (\<lambda>_. native_do (set_intent iid (\<lambda>i. i\<lparr>in_status := I_FAILED\<rparr>))) (\<lambda>_. Return ()))
        (clean_up cfg (if reserved then planned else None) claimed))"

text \<open>A refund that ends the handoff.\<close>

definition refund_instead :: "handoff_cfg \<Rightarrow> handoff_env \<Rightarrow> string \<Rightarrow> string \<Rightarrow> string option \<Rightarrow> 'a option native" where
  "refund_instead cfg env iid reason vid =
     seq_prog (record_native_intent_refund cfg env iid reason vid) (Return None)"

subsection \<open>The stages of a VM handoff\<close>

text \<open>Each stage returns \<open>None\<close> when the payment was refunded instead.\<close>

definition quote_binding_ok :: "intent \<Rightarrow> vm_create_request \<Rightarrow> quote_row \<Rightarrow> bool" where
  "quote_binding_ok i rq q \<longleftrightarrow>
     (q_owner q = None \<or> q_owner q = in_owner i) \<and> q_payload q = payload_json rq \<and>
     (case in_amount_usd i of None \<Rightarrow> False | Some a \<Rightarrow> dec_eq a (q_amount_usd q))"

definition claim_native_quote :: "handoff_env \<Rightarrow> string \<Rightarrow> bool native" where
  "claim_native_quote env qid =
     native_tx (\<lambda>w. case claim_quote qid (nw_claimed w (he_proc env)) (od_vm_quotes (n_db w)) of
       (won, claimed, t) \<Rightarrow>
         (Inr won, (on_db (\<lambda>db. db\<lparr>od_vm_quotes := t\<rparr>) w)\<lparr>nw_claimed := (nw_claimed w)(he_proc env := claimed)\<rparr>))"

definition admit_quote :: "handoff_cfg \<Rightarrow> handoff_env \<Rightarrow> intent \<Rightarrow> vm_create_request \<Rightarrow> unit option native" where
  "admit_quote cfg env i rq =
     (let refund = (\<lambda>reason. refund_instead cfg env (in_id i) reason None) in
      case o_quote_id rq of
        None \<Rightarrow> Return (Some ())
      | Some qid \<Rightarrow>
        bind_prog (native_read (\<lambda>w. get_quote (od_vm_quotes (n_db w)) qid)) (\<lambda>quote. case quote of
          None \<Rightarrow> refund ''quote_missing_at_settlement''
        | Some q \<Rightarrow>
          if q_status q = Q_CONSUMED then refund ''quote_already_consumed''
          else if is_expired q (he_later env) then refund ''quote_expired_at_settlement''
          else if \<not> quote_binding_ok i rq q then refund ''quote_binding_mismatch_at_settlement''
          else bind_prog (claim_native_quote env qid)
            (\<lambda>won. if won then Return (Some ()) else refund ''quote_already_consumed'')))"

definition admit_handoff :: "handoff_cfg \<Rightarrow> handoff_env \<Rightarrow> intent \<Rightarrow> int \<Rightarrow> vm_create_request \<Rightarrow> unit option native" where
  "admit_handoff cfg env i token rq =
     seq_prog (require_current (in_id i) token)
     (bind_prog (admit_quote cfg env i rq) (\<lambda>r. case r of
        None \<Rightarrow> Return None
      | Some _ \<Rightarrow>
        if o_domain_mode rq = CUSTOM \<and> (\<not> hc_domains cfg \<or> in_owner i = None \<or> \<not> truthy (o_domain rq))
        then refund_instead cfg env (in_id i) ''custom_domain_unavailable_at_settlement'' None
        else seq_prog (require_current (in_id i) token) (Return (Some ()))))"

definition reserve_native :: "handoff_cfg \<Rightarrow> handoff_env \<Rightarrow> intent \<Rightarrow> vm_create_request \<Rightarrow> string \<Rightarrow> (string \<times> string) native" where
  "reserve_native cfg env i rq planned =
     native_tx (\<lambda>w.
       let db = fw_vms (nw_base w);
           turn = \<lparr>it_generated_id = planned, it_gen = he_gen env, it_tok = he_tok env, it_read = db, it_commit = db\<rparr>
       in case reserve_vm_with_capacity (hc_store cfg) rq (in_owner i) (Some planned) (in_snapshot i)
              (in_snapshot i = None) (he_capacity env) (he_anon env) (he_later env) db db (replicate 5 turn) of
            (Inl e, _) \<Rightarrow> (Inl (vm_exn e), w)
          | (Inr (row, anon), db') \<Rightarrow>
              (Inr (vm_id row, anon), (case db' of None \<Rightarrow> w | Some d \<Rightarrow> on_base (\<lambda>b. b\<lparr>fw_vms := d\<rparr>) w)))"

definition reserve_stage ::
    "handoff_cfg \<Rightarrow> handoff_env \<Rightarrow> intent \<Rightarrow> vm_create_request \<Rightarrow> string \<Rightarrow> (string \<times> string) option native" where
  "reserve_stage cfg env i rq planned =
     try_else (reserve_native cfg env i rq planned)
       (\<lambda>e. if e = N_Disabled then refund_instead cfg env (in_id i) ''account_disabled_at_settlement'' (Some planned)
            else if e = N_Runtime
            then refund_instead cfg env (in_id i) ''vm_capacity_unavailable_at_settlement'' (Some planned)
            else Raise e)
       (\<lambda>r. Return (Some r))"

text \<open>After the reservation the handler's progress includes it; the result says whether a domain was claimed.\<close>

definition claim_stage ::
    "handoff_cfg \<Rightarrow> handoff_env \<Rightarrow> intent \<Rightarrow> int \<Rightarrow> vm_create_request \<Rightarrow> string \<Rightarrow> bool option native" where
  "claim_stage cfg env i token rq planned =
     seq_prog (require_current (in_id i) token)
       (if o_domain_mode rq \<noteq> CUSTOM then Return (Some False)
        else try_else (in_zone (claim_vm_attachment (the (in_owner i)) (the (o_domain rq)) planned))
          (\<lambda>_. seq_prog (swallow (release_reserved planned))
             (refund_instead cfg env (in_id i) ''custom_domain_unavailable_at_settlement'' (Some planned)))
          (\<lambda>_. Return (Some True)))"

definition activate_native :: "handoff_cfg \<Rightarrow> handoff_env \<Rightarrow> intent \<Rightarrow> string \<Rightarrow> vm_row option native" where
  "activate_native cfg env i vid =
     native_tx (\<lambda>w.
       let db = fw_vms (nw_base w);
           a = \<lparr>aa_vm_id = vid, aa_wallet = in_id i,
             aa_settlement = \<lparr>si_retail = in_amount_usd i, si_admin_waived = False, si_tx = in_tx_hash i\<rparr>,
             aa_owner = None, aa_start = False, aa_guard_ok = True\<rparr>
       in case activate_vm_reservation (hc_store cfg) a (he_later env) (he_gen env) (he_tok env) db db of
            (Inl e, _) \<Rightarrow> (Inl (vm_exn e), w)
          | (Inr row, db') \<Rightarrow> (Inr row, on_base (\<lambda>b. b\<lparr>fw_vms := db'\<rparr>) w))"

definition activate_stage ::
    "handoff_cfg \<Rightarrow> handoff_env \<Rightarrow> intent \<Rightarrow> string \<Rightarrow> string \<Rightarrow> bool \<Rightarrow> vm_row option native" where
  "activate_stage cfg env i planned vid claimed =
     try_else (activate_native cfg env i vid)
       (\<lambda>e. if e = N_Disabled
            then seq_prog (if claimed \<and> hc_domains cfg then release_claimed planned else Return ())
              (seq_prog (release_reserved planned)
                (refund_instead cfg env (in_id i) ''account_disabled_at_settlement'' (Some planned)))
            else Raise e)
       (\<lambda>row. case row of None \<Rightarrow> Raise N_Runtime | Some r \<Rightarrow> Return (Some r))"

text \<open>The delivery fence: linking the VM and leaving PROVISIONING is one conditional update.\<close>

definition deliver :: "string \<Rightarrow> int \<Rightarrow> string \<Rightarrow> string \<Rightarrow> native_world \<Rightarrow> (native_exn + unit) \<times> native_world" where
  "deliver iid token vid anon w =
     (case n_intent w iid of
        None \<Rightarrow> (Inl N_Fenced, w)
      | Some i \<Rightarrow>
        if holds_handoff token i
        then (Inr (), note_event (Delivered iid token)
          (set_intent iid (\<lambda>j. j\<lparr>in_status := I_PROVISIONED, in_vm_id := Some vid, in_anon_token := Some anon\<rparr>) w))
        else (Inl N_Fenced, w))"

definition start_native :: "handoff_cfg \<Rightarrow> handoff_env \<Rightarrow> string \<Rightarrow> string \<Rightarrow> unit native" where
  "start_native cfg env iid vid =
     native_do (\<lambda>w.
       case start_provisioning (hc_store cfg) vid (he_later env) (he_gen env) (he_tok env)
           (nw_inflight w (he_proc env)) (fw_vms (nw_base w)) of
         (started, inflight, db) \<Rightarrow>
           (if started then note_event (Started iid vid) else id)
             ((on_base (\<lambda>b. b\<lparr>fw_vms := db\<rparr>) w)\<lparr>nw_inflight := (nw_inflight w)(he_proc env := inflight)\<rparr>))"

definition deliver_stage ::
    "handoff_cfg \<Rightarrow> handoff_env \<Rightarrow> intent \<Rightarrow> int \<Rightarrow> vm_create_request \<Rightarrow> string \<Rightarrow> string \<Rightarrow> unit native" where
  "deliver_stage cfg env i token rq vid anon =
     seq_prog (require_current (in_id i) token)
     (seq_prog
       (case in_amount_usd i of
          None \<Rightarrow> Return ()
        | Some a \<Rightarrow> three_times (native_do (on_base (\<lambda>b. b\<lparr>fw_vms := persist_charged_amount vid a (fw_vms b)\<rparr>))))
     (seq_prog
       (case o_quote_id rq of
          None \<Rightarrow> Return ()
        | Some qid \<Rightarrow> three_times (native_do
            (on_db (\<lambda>db. db\<lparr>od_vm_quotes := link_quote_vm qid vid (od_vm_quotes db)\<rparr>))))
     (seq_prog (native_tx (deliver (in_id i) token vid anon)) (start_native cfg env (in_id i) vid))))"

definition handoff_vm :: "handoff_cfg \<Rightarrow> handoff_env \<Rightarrow> intent \<Rightarrow> int \<Rightarrow> unit native" where
  "handoff_vm cfg env i token =
     (let fail = give_up_handoff cfg env (in_id i) in
      case in_order i of
        Vm_Order rq \<Rightarrow>
          try_else (persist_planned_vm_id (in_id i) (he_vm_id env) (in_vm_id i)) (fail None False False) (\<lambda>planned.
          try_else (admit_handoff cfg env i token rq) (fail (Some planned) False False) (\<lambda>admitted. case admitted of
            None \<Rightarrow> Return ()
          | Some _ \<Rightarrow>
          try_else (reserve_stage cfg env i rq planned) (fail (Some planned) False False) (\<lambda>res. case res of
            None \<Rightarrow> Return ()
          | Some (vid, anon) \<Rightarrow>
          try_else (claim_stage cfg env i token rq planned) (fail (Some planned) True False) (\<lambda>claim. case claim of
            None \<Rightarrow> Return ()
          | Some claimed \<Rightarrow>
          try_else
            (seq_prog (if claimed then require_current (in_id i) token else Return ())
              (activate_stage cfg env i planned vid claimed))
            (fail (Some planned) True claimed) (\<lambda>row. case row of
            None \<Rightarrow> Return ()
          | Some r \<Rightarrow>
          try_else (deliver_stage cfg env i token rq (vm_id r) anon) (fail (Some planned) True claimed) Return)))))
      | _ \<Rightarrow> fail None False False N_Error)"

subsection \<open>Domain orders\<close>

text \<open>The order is read unlocked first. An exception of the service is not a database failure, but is handled as one.\<close>

definition settle_order :: "handoff_cfg \<Rightarrow> handoff_env \<Rightarrow> string \<Rightarrow> intent \<Rightarrow> domain_order native" where
  "settle_order cfg env oid i =
     bind_prog (native_read n_db) (\<lambda>snap.
       native_tx (\<lambda>w. case native_order_settled (hc_wired cfg) (he_order env) oid i snap (n_db w) of
           (Inl _, db) \<Rightarrow> (Inl N_Error, on_db (\<lambda>_. db) w)
         | (Inr o1, db) \<Rightarrow> (Inr o1, on_db (\<lambda>_. db) w)))"

definition handed_status :: "order_status \<Rightarrow> crypto_intent_status" where
  "handed_status s = (if s = O_REFUND_DUE \<or> s = O_REFUNDED then I_REFUND_MANUAL else I_PROVISIONED)"

text \<open>What an exception of the handoff leads to: the durable status of the order decides.\<close>

definition recheck_order :: "string \<Rightarrow> string \<Rightarrow> native_world \<Rightarrow> (native_exn + bool) \<times> native_world" where
  "recheck_order iid oid w =
     (case order_at (n_db w) oid of
        None \<Rightarrow> (Inr False, w)
      | Some o1 \<Rightarrow>
        if do_status o1 = O_AWAITING_PAYMENT then (Inr False, w)
        else (Inr True, set_intent iid (\<lambda>j. j\<lparr>in_status := handed_status (do_status o1)\<rparr>) w))"

definition handoff_domain :: "handoff_cfg \<Rightarrow> handoff_env \<Rightarrow> intent \<Rightarrow> unit native" where
  "handoff_domain cfg env i =
     (let iid = in_id i; refund = (\<lambda>reason. seq_prog (record_native_intent_refund cfg env iid reason None) (Return ())) in
      if \<not> hc_domains cfg \<or> \<not> truthy (in_resource_id i) then refund ''domain_fulfillment_unavailable''
      else
        let oid = the (in_resource_id i) in
        try_else
          (bind_prog (settle_order cfg env oid i)
            (\<lambda>o1. native_do (set_intent iid (\<lambda>j. j\<lparr>in_status := handed_status (do_status o1)\<rparr>))))
          (\<lambda>_. bind_prog (native_tx (recheck_order iid oid))
            (\<lambda>handed. if handed then Return () else refund ''domain_fulfillment_handoff_failed''))
          Return)"

subsection \<open>The trigger\<close>

text \<open>Exactly one caller moves the trigger column from null.\<close>

definition take_trigger :: "string \<Rightarrow> int \<Rightarrow> native_world \<Rightarrow> (native_exn + bool) \<times> native_world" where
  "take_trigger iid now w =
     (case n_intent w iid of
        None \<Rightarrow> (Inr False, w)
      | Some i \<Rightarrow>
        if in_triggered_at i \<noteq> None then (Inr False, w)
        else (Inr True, note_event (Triggered iid now)
          (set_intent iid (\<lambda>j. j\<lparr>in_triggered_at := Some now, in_status := I_PROVISIONING\<rparr>) w)))"

definition trigger_provisioning :: "handoff_cfg \<Rightarrow> handoff_env \<Rightarrow> string \<Rightarrow> unit native" where
  "trigger_provisioning cfg env iid =
     bind_prog (native_tx (take_trigger iid (he_now env))) (\<lambda>won.
       if \<not> won then Return ()
       else bind_prog (native_read (\<lambda>w. n_intent w iid)) (\<lambda>row. case row of
           None \<Rightarrow> Return ()
         | Some i \<Rightarrow>
           if in_order i = No_Order then Return ()
           else case in_triggered_at i of
             None \<Rightarrow> Return ()
           | Some token \<Rightarrow>
             if in_resource_type i = ''domain_order'' then handoff_domain cfg env i else handoff_vm cfg env i token))"

subsection \<open>Recovery\<close>

definition take_lease :: "string \<Rightarrow> int \<Rightarrow> native_world \<Rightarrow> (native_exn + bool) \<times> native_world" where
  "take_lease iid now w =
     (case n_intent w iid of
        None \<Rightarrow> (Inr False, w)
      | Some i \<Rightarrow>
        if in_status i = I_PROVISIONING \<and> in_resource_type i = ''vm'' \<and>
           (case in_triggered_at i of None \<Rightarrow> False | Some t \<Rightarrow> t \<le> now - VM_PROVISIONING_RECOVERY_DELAY)
        then (Inr True, note_event (Leased iid now) (set_intent iid (\<lambda>j. j\<lparr>in_triggered_at := Some now\<rparr>) w))
        else (Inr False, w))"

definition recover_leased :: "handoff_cfg \<Rightarrow> handoff_env \<Rightarrow> intent \<Rightarrow> unit native" where
  "recover_leased cfg env i =
     seq_prog
       (case in_vm_id i of
          None \<Rightarrow> Return ()
        | Some v \<Rightarrow>
          seq_prog (release_reserved v) (seq_prog (mark_failed v)
            (case in_order i of
               Vm_Order rq \<Rightarrow> if o_domain_mode rq = CUSTOM \<and> hc_domains cfg then release_claimed v else Return ()
             | _ \<Rightarrow> Return ())))
       (seq_prog (record_native_intent_refund cfg env (in_id i) ''provisioning_interrupted'' (in_vm_id i)) (Return ()))"

definition recover_interrupted :: "handoff_cfg \<Rightarrow> handoff_env \<Rightarrow> string \<Rightarrow> bool native" where
  "recover_interrupted cfg env iid =
     bind_prog (native_tx (take_lease iid (he_now env))) (\<lambda>won.
       if \<not> won then Return False
       else bind_prog (native_read (\<lambda>w. n_intent w iid)) (\<lambda>row. case row of
           None \<Rightarrow> Return False
         | Some i \<Rightarrow> try_else (recover_leased cfg env i) (\<lambda>_. Return False) (\<lambda>_. Return True)))"

definition resume_domain_handoff :: "handoff_cfg \<Rightarrow> handoff_env \<Rightarrow> string \<Rightarrow> bool native" where
  "resume_domain_handoff cfg env iid =
     (if \<not> hc_domains cfg then Return False
      else bind_prog (native_read (\<lambda>w. n_intent w iid)) (\<lambda>row. case row of
          None \<Rightarrow> Return False
        | Some i \<Rightarrow>
          if in_status i \<noteq> I_PROVISIONING \<or> in_resource_type i \<noteq> ''domain_order'' \<or> \<not> truthy (in_resource_id i)
          then Return False
          else try_else (settle_order cfg env (the (in_resource_id i)) i) (\<lambda>_. Return False)
            (\<lambda>o1. seq_prog (native_do (set_intent iid
                (\<lambda>j. if in_status j = I_PROVISIONING then j\<lparr>in_status := handed_status (do_status o1)\<rparr> else j)))
              (Return True))))"

subsection \<open>Polling\<close>

text \<open>After the commit of a scan the row is read again, and a settled one is triggered.\<close>

definition poll_intent :: "handoff_cfg \<Rightarrow> handoff_env \<Rightarrow> string \<Rightarrow> unit native" where
  "poll_intent cfg env iid =
     bind_prog (native_read (\<lambda>w. n_intent w iid)) (\<lambda>row. case row of
        None \<Rightarrow> Return ()
      | Some i \<Rightarrow>
        if poll_terminal (in_status i) then Return ()
        else case he_scan env iid of
          None \<Rightarrow> Return ()
        | Some scan \<Rightarrow>
          seq_prog
            (native_tx (\<lambda>w. case apply_intent_scan (hc_wallet cfg) iid scan (min_confirmations (in_asset i)) (he_now env)
                 (od_intents (n_db w)) of
               None \<Rightarrow> (Inl N_Error, w)
             | Some (_, t) \<Rightarrow> (Inr (), on_db (\<lambda>db. db\<lparr>od_intents := t\<rparr>) w)))
            (bind_prog (native_read (\<lambda>w. n_intent w iid)) (\<lambda>row. case row of
               None \<Rightarrow> Return ()
             | Some j \<Rightarrow> if in_status j = I_SETTLED then trigger_provisioning cfg env iid else Return ())))"

fun count_touched :: "(string \<Rightarrow> bool native) \<Rightarrow> string list \<Rightarrow> nat native" where
  "count_touched p [] = Return 0"
| "count_touched p (iid # ids) =
     bind_prog (p iid) (\<lambda>b. bind_prog (count_touched p ids) (\<lambda>n. Return (if b then Suc n else n)))"

text \<open>One pass; \<open>envs\<close>: clock and generated values of the work on each intent.\<close>

definition scan_pending_intents :: "handoff_cfg \<Rightarrow> int \<Rightarrow> (string \<Rightarrow> handoff_env) \<Rightarrow> nat native" where
  "scan_pending_intents cfg now envs =
     bind_prog (native_read (\<lambda>w. scan_selection now (od_intents (n_db w)))) (\<lambda>(polls, handoffs, recoveries).
     bind_prog (count_touched (\<lambda>iid. recover_interrupted cfg (envs iid) iid) recoveries) (\<lambda>a.
     bind_prog (count_touched (\<lambda>iid. resume_domain_handoff cfg (envs iid) iid) handoffs) (\<lambda>b.
     bind_prog (count_touched
         (\<lambda>iid. try_else (poll_intent cfg (envs iid) iid) (\<lambda>_. Return False) (\<lambda>_. Return True)) polls)
       (\<lambda>c. Return (a + b + c)))))"

text \<open>What a process of the service may start: a pass of the scanner, or the poll of one intent for its customer.\<close>

definition native_starts :: "handoff_cfg \<Rightarrow> nat native set" where
  "native_starts cfg =
     {scan_pending_intents cfg now envs | now envs. True} \<union> {seq_prog (poll_intent cfg env iid) (Return 0) | env iid. True}"

end
