(* ===== verification/Handoff_Safety.thy ===== *)
theory Handoff_Safety
  imports Handoff
begin

text \<open>
  Safety of the native handoff. The log of every concurrent run is accepted by a small protocol: one trigger, leases
  with growing tokens, one delivery under the newest token and never after a refund, one obligation per intent, and
  no start of a VM that was not delivered. The invariant ties the log to the intent rows and to the ledger.
\<close>

subsection \<open>The protocol\<close>

fun token_of :: "native_event list \<Rightarrow> string \<Rightarrow> int option" where
  "token_of [] iid = None"
| "token_of (Triggered j t # l) iid = (if j = iid then Some t else token_of l iid)"
| "token_of (Leased j t # l) iid = (if j = iid then Some t else token_of l iid)"
| "token_of (_ # l) iid = token_of l iid"

definition handed_over :: "native_event list \<Rightarrow> string \<Rightarrow> bool" where
  "handed_over l iid \<longleftrightarrow> (\<exists>t. Delivered iid t \<in> set l)"

fun allowed :: "native_event \<Rightarrow> native_event list \<Rightarrow> bool" where
  "allowed (Triggered iid t) l \<longleftrightarrow> token_of l iid = None"
| "allowed (Leased iid t) l \<longleftrightarrow>
     (case token_of l iid of None \<Rightarrow> False | Some s \<Rightarrow> s + VM_PROVISIONING_RECOVERY_DELAY \<le> t) \<and>
     \<not> handed_over l iid \<and> Refund_Recorded iid \<notin> set l"
| "allowed (Delivered iid t) l \<longleftrightarrow> token_of l iid = Some t \<and> \<not> handed_over l iid \<and> Refund_Recorded iid \<notin> set l"
| "allowed (Refund_Recorded iid) l \<longleftrightarrow> token_of l iid \<noteq> None \<and> Refund_Recorded iid \<notin> set l"
| "allowed (Started iid v) l \<longleftrightarrow> handed_over l iid"

fun protocol :: "native_event list \<Rightarrow> bool" where
  "protocol [] = True"
| "protocol (e # l) = (allowed e l \<and> protocol l)"

fun event_intent :: "native_event \<Rightarrow> string" where
  "event_intent (Triggered i t) = i" | "event_intent (Leased i t) = i" | "event_intent (Delivered i t) = i"
| "event_intent (Refund_Recorded i) = i" | "event_intent (Started i v) = i"

lemma token_of_other: "event_intent e \<noteq> iid \<Longrightarrow> token_of (e # l) iid = token_of l iid"
  by (cases e) auto

lemma token_of_known: "token_of l iid \<noteq> None \<longleftrightarrow> (\<exists>t. Triggered iid t \<in> set l \<or> Leased iid t \<in> set l)"
  by (induction l iid rule: token_of.induct) auto

lemma protocol_silent: "protocol l \<Longrightarrow> token_of l iid = None \<Longrightarrow> \<not> handed_over l iid \<and> Refund_Recorded iid \<notin> set l"
proof (induction l)
  case (Cons e l)
  then show ?case by (cases e) (auto simp: handed_over_def split: if_splits)
qed (simp add: handed_over_def)

subsection \<open>The invariant\<close>

datatype native_fact = Noted native_event | Typed string string

definition native_seen :: "native_world \<Rightarrow> native_fact set" where
  "native_seen w = Noted ` set (nw_log w) \<union> (\<lambda>i. Typed (in_id i) (in_resource_type i)) ` set (od_intents (n_db w))"

definition vm_intent :: "intent \<Rightarrow> bool" where
  "vm_intent i \<longleftrightarrow> in_resource_type i \<noteq> ''domain_order''"

definition billable :: "intent \<Rightarrow> bool" where
  "billable i \<longleftrightarrow> (case in_amount_usd i of None \<Rightarrow> False | Some a \<Rightarrow> \<not> dec_le a (Dec 0 0))"

text \<open>\<open>wd\<close>: whether the service has a ledger.\<close>

definition intent_agrees :: "bool \<Rightarrow> native_event list \<Rightarrow> ledger \<Rightarrow> intent \<Rightarrow> bool" where
  "intent_agrees wd l led i \<longleftrightarrow>
     token_of l (in_id i) = in_triggered_at i \<and>
     (in_status i = I_PROVISIONING \<longrightarrow> \<not> handed_over l (in_id i) \<and> Refund_Recorded (in_id i) \<notin> set l) \<and>
     (Refund_Recorded (in_id i) \<in> set l \<longrightarrow> owed_to led (in_id i) \<noteq> []) \<and>
     (vm_intent i \<longrightarrow> length (owed_to led (in_id i)) = (if Refund_Recorded (in_id i) \<in> set l then 1 else 0)) \<and>
     (in_triggered_at i \<noteq> None \<longrightarrow> in_status i \<in> {I_PROVISIONING, I_PROVISIONED, I_REFUND_MANUAL, I_FAILED}) \<and>
     (in_triggered_at i \<noteq> None \<longrightarrow> vm_intent i \<longrightarrow> in_status i = I_PROVISIONED \<longrightarrow> handed_over l (in_id i)) \<and>
     (in_triggered_at i \<noteq> None \<longrightarrow> vm_intent i \<longrightarrow> in_status i = I_REFUND_MANUAL \<longrightarrow> wd \<longrightarrow> billable i \<longrightarrow>
        Refund_Recorded (in_id i) \<in> set l)"

definition ids_apart :: "intents \<Rightarrow> domain_order list \<Rightarrow> bool" where
  "ids_apart t os \<longleftrightarrow> unique_by in_id t \<and> (\<forall>i \<in> set t. in_id i \<noteq> [] \<and> length (in_id i) \<le> 128 \<and> in_id i \<notin> do_id ` set os)"

definition native_inv :: "bool \<Rightarrow> native_world \<Rightarrow> bool" where
  "native_inv wd w \<longleftrightarrow> protocol (nw_log w) \<and> ids_apart (od_intents (n_db w)) (od_orders (n_db w)) \<and>
     (\<forall>i \<in> set (od_intents (n_db w)). intent_agrees wd (nw_log w) (od_ledger (n_db w)) i)"

text \<open>Changes to other tables.\<close>

definition unmoved :: "native_world \<Rightarrow> native_world \<Rightarrow> bool" where
  "unmoved w w' \<longleftrightarrow> nw_log w' = nw_log w \<and> od_intents (n_db w') = od_intents (n_db w) \<and>
     od_orders (n_db w') = od_orders (n_db w) \<and> od_ledger (n_db w') = od_ledger (n_db w)"

abbreviation kept :: "bool \<Rightarrow> native_world \<Rightarrow> native_world \<Rightarrow> bool" where
  "kept wd w w' \<equiv> native_inv wd w' \<and> native_seen w \<subseteq> native_seen w'"

lemma unmoved_kept: "native_inv wd w \<Longrightarrow> unmoved w w' \<Longrightarrow> kept wd w w'"
  by (simp add: unmoved_def native_inv_def native_seen_def)

lemma on_base_simps [simp]:
  "nw_log (on_base f w) = nw_log w" "nw_base (on_base f w) = f (nw_base w)"
  "nw_log (on_db g w) = nw_log w" "n_db (on_db g w) = g (n_db w)"
  "nw_log (set_intent iid h w) = nw_log w"
  "od_intents (n_db (set_intent iid h w)) = update_intent iid h (od_intents (n_db w))"
  "od_orders (n_db (set_intent iid h w)) = od_orders (n_db w)" "od_ledger (n_db (set_intent iid h w)) = od_ledger (n_db w)"
  "nw_log (note_event e w) = e # nw_log w" "nw_base (note_event e w) = nw_base w"
  by (simp_all add: on_base_def on_db_def set_intent_def note_event_def)

lemma on_vms_db [simp]: "fw_od (on_vms f b) = fw_od b"
  by (simp add: on_vms_def Let_def)

text \<open>An update of an intent row.\<close>

definition same_key :: "(intent \<Rightarrow> intent) \<Rightarrow> bool" where
  "same_key f \<longleftrightarrow> (\<forall>i. in_id (f i) = in_id i \<and> in_resource_type (f i) = in_resource_type i \<and>
     in_amount_usd (f i) = in_amount_usd i)"

lemma update_intent_keys:
  assumes "same_key f"
  shows "map in_id (update_intent iid f t) = map in_id t"
    "(\<lambda>i. Typed (in_id i) (in_resource_type i)) ` set (update_intent iid f t) =
       (\<lambda>i. Typed (in_id i) (in_resource_type i)) ` set t"
    "ids_apart (update_intent iid f t) os = ids_apart t os"
proof -
  from assms have f: "in_id (f i) = in_id i" "in_resource_type (f i) = in_resource_type i" for i by (auto simp: same_key_def)
  show m: "map in_id (update_intent iid f t) = map in_id t" by (simp add: update_intent_def f)
  show "(\<lambda>i. Typed (in_id i) (in_resource_type i)) ` set (update_intent iid f t) =
       (\<lambda>i. Typed (in_id i) (in_resource_type i)) ` set t"
    unfolding update_intent_def set_map image_image by (rule image_cong) (simp_all add: f)
  have "(\<forall>i \<in> set (update_intent iid f t). P (in_id i)) = (\<forall>i \<in> set t. P (in_id i))" for P
    unfolding update_intent_def set_map ball_simps by (rule ball_cong) (simp_all add: f)
  from this [of "\<lambda>x. x \<noteq> [] \<and> length x \<le> 128 \<and> x \<notin> do_id ` set os"] m show "ids_apart (update_intent iid f t) os = ids_apart t os"
    by (simp add: ids_apart_def unique_by_def)
qed

text \<open>The status changes that need no event.\<close>

definition may_become :: "intent \<Rightarrow> crypto_intent_status \<Rightarrow> bool" where
  "may_become i s \<longleftrightarrow> s = in_status i \<or> (in_triggered_at i = None \<and> s \<noteq> I_PROVISIONING) \<or> s = I_FAILED \<or>
     (\<not> vm_intent i \<and> s \<in> {I_PROVISIONED, I_REFUND_MANUAL})"

lemma set_intent_kept:
  assumes "native_inv wd w" "same_key f"
    and "\<And>i. in_id i = iid \<Longrightarrow> i \<in> set (od_intents (n_db w)) \<Longrightarrow>
      in_triggered_at (f i) = in_triggered_at i \<and> may_become i (in_status (f i))"
  shows "kept wd w (set_intent iid f w)"
proof -
  have "intent_agrees wd (nw_log w) (od_ledger (n_db w)) j" if j: "j \<in> set (update_intent iid f (od_intents (n_db w)))" for j
  proof -
    from j obtain i where i: "i \<in> set (od_intents (n_db w))" "j = (if in_id i = iid then f i else i)"
      by (auto simp: update_intent_def)
    with assms(1) have a: "intent_agrees wd (nw_log w) (od_ledger (n_db w)) i" by (simp add: native_inv_def)
    show ?thesis
    proof (cases "in_id i = iid")
      case True
      from assms(2) have f: "in_id (f i) = in_id i" "vm_intent (f i) = vm_intent i" "billable (f i) = billable i"
        by (simp_all add: same_key_def vm_intent_def billable_def)
      from assms(3) [OF True i(1)] have t: "in_triggered_at (f i) = in_triggered_at i" "may_become i (in_status (f i))"
        by simp_all
      from t(2) a have "intent_agrees wd (nw_log w) (od_ledger (n_db w)) (f i)"
        unfolding may_become_def intent_agrees_def f t(1) by (elim disjE) auto
      with i True show ?thesis by simp
    qed (use a i in simp)
  qed
  with assms(1,2) update_intent_keys [OF assms(2)] show ?thesis
    by (simp add: native_inv_def native_seen_def)
qed

subsection \<open>The transactions\<close>

lemma n_intentD: "n_intent w iid = Some i \<Longrightarrow> i \<in> set (od_intents (n_db w)) \<and> in_id i = iid"
  by (auto simp: n_intent_def dest: find_intent_id)

lemma same_row:
  assumes "native_inv wd w" "i \<in> set (od_intents (n_db w))" "j \<in> set (od_intents (n_db w))" "in_id i = in_id j"
  shows "i = j"
proof -
  from assms(1) have "inj_on in_id (set (od_intents (n_db w)))"
    by (simp add: native_inv_def ids_apart_def unique_by_def distinct_map)
  with assms(2-) show ?thesis by (auto dest: inj_onD)
qed

lemma owner_unique:
  "native_inv wd w \<Longrightarrow> n_intent w iid = Some i \<Longrightarrow> j \<in> set (od_intents (n_db w)) \<Longrightarrow> in_id j = iid \<Longrightarrow> j = i"
  by (auto dest!: n_intentD intro: same_row)

lemma agrees_other:
  "intent_agrees wd l led i \<Longrightarrow> event_intent e \<noteq> in_id i \<Longrightarrow> intent_agrees wd (e # l) led i"
  by (cases e) (auto simp: intent_agrees_def token_of_other handed_over_def)

text \<open>An event together with the change of its intent.\<close>

lemma note_kept:
  assumes "native_inv wd w" "n_intent w iid = Some i" "event_intent e = iid" "allowed e (nw_log w)" "same_key f"
    and "intent_agrees wd (e # nw_log w) (od_ledger (n_db w)) (f i)"
  shows "kept wd w (note_event e (set_intent iid f w))"
proof -
  have "intent_agrees wd (e # nw_log w) (od_ledger (n_db w)) j" if j: "j \<in> set (update_intent iid f (od_intents (n_db w)))" for j
  proof -
    from j obtain k where k: "k \<in> set (od_intents (n_db w))" "j = (if in_id k = iid then f k else k)"
      by (auto simp: update_intent_def)
    with assms(1) have a: "intent_agrees wd (nw_log w) (od_ledger (n_db w)) k" by (simp add: native_inv_def)
    show ?thesis
    proof (cases "in_id k = iid")
      case True
      with owner_unique [OF assms(1,2) k(1)] assms(6) k show ?thesis by simp
    next
      case False
      with agrees_other [OF a, of e] assms(3) k show ?thesis by simp
    qed
  qed
  with assms(1,4) update_intent_keys [OF assms(5)] show ?thesis
    by (auto simp: native_inv_def native_seen_def)
qed

lemma row_kept:
  assumes "native_inv wd w" "n_intent w iid = Some i" "same_key f"
    and "intent_agrees wd (nw_log w) (od_ledger (n_db w)) (f i)"
  shows "kept wd w (set_intent iid f w)"
proof -
  have "intent_agrees wd (nw_log w) (od_ledger (n_db w)) j" if j: "j \<in> set (update_intent iid f (od_intents (n_db w)))" for j
  proof -
    from j obtain k where k: "k \<in> set (od_intents (n_db w))" "j = (if in_id k = iid then f k else k)"
      by (auto simp: update_intent_def)
    with assms(1) have "intent_agrees wd (nw_log w) (od_ledger (n_db w)) k" by (simp add: native_inv_def)
    with owner_unique [OF assms(1,2) k(1)] assms(4) k show ?thesis by auto
  qed
  with assms(1) update_intent_keys [OF assms(3)] show ?thesis
    by (simp add: native_inv_def native_seen_def)
qed

lemma agreesD: "native_inv wd w \<Longrightarrow> n_intent w iid = Some i \<Longrightarrow> intent_agrees wd (nw_log w) (od_ledger (n_db w)) i"
  by (auto simp: native_inv_def dest: n_intentD)

lemma take_trigger_kept: "native_inv wd w \<Longrightarrow> kept wd w (snd (take_trigger iid now w))"
proof (cases "\<exists>i. n_intent w iid = Some i \<and> in_triggered_at i = None")
  case True
  then obtain i where i: "n_intent w iid = Some i" "in_triggered_at i = None" by blast
  assume inv: "native_inv wd w"
  from agreesD [OF inv i(1)] i n_intentD [OF i(1)] have t: "token_of (nw_log w) iid = None" by (simp add: intent_agrees_def)
  with inv have s: "\<not> handed_over (nw_log w) iid \<and> Refund_Recorded iid \<notin> set (nw_log w)"
    by (intro protocol_silent) (simp add: native_inv_def)
  from agreesD [OF inv i(1)] n_intentD [OF i(1)] s
  have "intent_agrees wd (Triggered iid now # nw_log w) (od_ledger (n_db w))
      (i\<lparr>in_triggered_at := Some now, in_status := I_PROVISIONING\<rparr>)"
    by (auto simp: intent_agrees_def handed_over_def vm_intent_def billable_def)
  with inv i t show ?thesis
    by (simp add: take_trigger_def note_kept same_key_def)
qed (auto simp: take_trigger_def split: option.splits)

lemma take_lease_kept: "native_inv wd w \<Longrightarrow> kept wd w (snd (take_lease iid now w))"
proof (cases "\<exists>i t. n_intent w iid = Some i \<and> in_status i = I_PROVISIONING \<and> in_resource_type i = ''vm'' \<and>
    in_triggered_at i = Some t \<and> t \<le> now - VM_PROVISIONING_RECOVERY_DELAY")
  case True
  then obtain i t where i: "n_intent w iid = Some i" "in_status i = I_PROVISIONING" "in_resource_type i = ''vm''"
    "in_triggered_at i = Some t" "t \<le> now - VM_PROVISIONING_RECOVERY_DELAY" by blast
  assume inv: "native_inv wd w"
  from agreesD [OF inv i(1)] n_intentD [OF i(1)] i
  have a: "token_of (nw_log w) iid = Some t" "\<not> handed_over (nw_log w) iid" "Refund_Recorded iid \<notin> set (nw_log w)"
    by (simp_all add: intent_agrees_def)
  from agreesD [OF inv i(1)] n_intentD [OF i(1)] a
  have "intent_agrees wd (Leased iid now # nw_log w) (od_ledger (n_db w)) (i\<lparr>in_triggered_at := Some now\<rparr>)"
    using i(2) by (auto simp: intent_agrees_def handed_over_def vm_intent_def)
  with inv i a show ?thesis
    by (simp add: take_lease_def note_kept same_key_def)
qed (auto simp: take_lease_def split: option.splits)

lemma deliver_kept: "native_inv wd w \<Longrightarrow> kept wd w (snd (deliver iid token vid anon w))"
proof (cases "\<exists>i. n_intent w iid = Some i \<and> holds_handoff token i")
  case True
  then obtain i where i: "n_intent w iid = Some i" "in_status i = I_PROVISIONING" "in_triggered_at i = Some token"
    by (auto simp: holds_handoff_def)
  assume inv: "native_inv wd w"
  from agreesD [OF inv i(1)] n_intentD [OF i(1)] i
  have a: "token_of (nw_log w) iid = Some token" "\<not> handed_over (nw_log w) iid" "Refund_Recorded iid \<notin> set (nw_log w)"
    by (simp_all add: intent_agrees_def)
  from agreesD [OF inv i(1)] n_intentD [OF i(1)] a
  have "intent_agrees wd (Delivered iid token # nw_log w) (od_ledger (n_db w))
      (i\<lparr>in_status := I_PROVISIONED, in_vm_id := Some vid, in_anon_token := Some anon\<rparr>)"
    using i(2) by (auto simp: intent_agrees_def handed_over_def vm_intent_def)
  with inv i a show ?thesis
    by (simp add: deliver_def holds_handoff_def note_kept same_key_def)
qed (auto simp: deliver_def split: option.splits)

text \<open>Payments of domain orders: their obligations name the order or the payer of that payment.\<close>

definition bills_only :: "order_db \<Rightarrow> order_db \<Rightarrow> string option set \<Rightarrow> bool" where
  "bills_only db db' ps \<longleftrightarrow> od_intents db' = od_intents db \<and>
     (\<exists>m. od_ledger db' = od_ledger db @ m \<and> (\<forall>e \<in> set m. ev_payer e \<in> ps))"

lemma bills_none: "od_intents db' = od_intents db \<Longrightarrow> od_ledger db' = od_ledger db \<Longrightarrow> bills_only db db' ps"
  by (simp add: bills_only_def)

lemma refund_event_payer:
  "build_refund_event wired uid ints o1 reason amount = Some e \<Longrightarrow> ev_payer e \<in> {Some (do_id o1), do_payer o1}"
  by (auto simp: build_refund_event_def build_owed_event_Some owed_event_fields_def order_refund_fields_def Let_def
      blank_fields_def)

lemma refuse_bills:
  "refuse_paid_order wired uid code detail amount o1 db = Some (o2, db') \<Longrightarrow> do_id o1 = oid \<Longrightarrow> do_payer o1 = p \<Longrightarrow>
     bills_only db db' {Some oid, p}"
  by (auto simp: refuse_paid_order_def Let_def bills_only_def dest!: refund_event_payer split: if_splits option.splits)

lemma bills_from: "bills_only db0 db' ps \<Longrightarrow> od_intents db0 = od_intents db \<Longrightarrow> od_ledger db0 = od_ledger db \<Longrightarrow> bills_only db db' ps"
  by (simp add: bills_only_def)

lemma attribute_payer [simp]: "do_payer (attribute_payment now pay o1) = Some (take 128 (pi_payer pay))"
  by (simp add: attribute_payment_def)

lemma queue_bills: "queue_order env o1 db = Some (o2, db') \<Longrightarrow> bills_only db db' ps"
  by (auto simp: queue_order_def Let_def bills_only_def split: if_splits)

lemma accept_bills:
  assumes "accept_payment wired env pay o0 db = (Inr o2, db')"
  shows "bills_only db db' {Some (do_id o0), Some (take 128 (pi_payer pay))}"
proof -
  let ?o1 = "attribute_payment (oe_now env) pay o0"
  have refused: "refuse_paid_order wired uid code detail None ?o1 db0 = Some (o2, db') \<Longrightarrow>
      od_intents db0 = od_intents db \<Longrightarrow> od_ledger db0 = od_ledger db \<Longrightarrow> ?thesis" for uid code detail db0
    by (rule bills_from, rule refuse_bills, assumption) simp_all
  have queued: "queue_order env ?o1 db0 = Some (o2, db') \<Longrightarrow>
      od_intents db0 = od_intents db \<Longrightarrow> od_ledger db0 = od_ledger db \<Longrightarrow> ?thesis" for db0
    by (rule bills_from, rule queue_bills, assumption) simp_all
  from assms show ?thesis
    unfolding accept_payment_def Let_def or_undo_Inr
    by (auto simp: or_undo_Inr intro: refused queued split: if_split_asm option.split_asm)
qed

lemma mark_paid_bills:
  assumes "mark_paid wired env oid pay snap db = (res, db')"
  shows "bills_only db db' {Some oid, Some (take 128 (pi_payer pay))}"
proof (cases res)
  case (Inl x)
  with assms have "db' = db" by (blast dest: mark_paid_error)
  then show ?thesis by (simp add: bills_none)
next
  case (Inr o2)
  have i: "order_at db oid = Some o0 \<Longrightarrow> do_id o0 = oid" for o0 using row_at_Some [of do_id oid] by blast
  from assms Inr show ?thesis
    unfolding mark_paid_def Let_def
    by (auto simp: or_undo_Inr i dest!: accept_bills intro: bills_none refuse_bills split: if_split_asm option.split_asm)
qed

lemma put_row_keys: "map key (put_row key r t) = map key t"
  by (simp add: put_row_def alter_row_def)

lemma put_row_key_set: "key ` set (put_row key r t) = key ` set t"
  by (metis put_row_keys set_map)

lemma mark_paid_orders:
  assumes "mark_paid wired env oid pay snap db = (res, db')"
  shows "do_id ` set (od_orders db') = do_id ` set (od_orders db)"
proof (cases res)
  case (Inl x)
  with assms have "db' = db" by (blast dest: mark_paid_error)
  then show ?thesis by simp
next
  case (Inr o2)
  with assms have "mark_paid wired env oid pay snap db = (Inr o2, db')" by simp
  then show ?thesis
    by (cases rule: mark_paid_cases) (auto simp: closed_as_def queued_as_def put_row_key_set)
qed

lemma agrees_billed:
  assumes "intent_agrees wd l led i" "\<And>e. e \<in> set m \<Longrightarrow> vm_intent i \<Longrightarrow> ev_payer e \<noteq> Some (in_id i)"
  shows "intent_agrees wd l (led @ m) i"
proof -
  have "owed_to m (in_id i) = []" if "vm_intent i" using that assms(2) by (auto simp: owed_to_def filter_empty_conv)
  with assms(1) show ?thesis by (auto simp: intent_agrees_def)
qed

text \<open>Changes of the order tables that bill no VM intent.\<close>

lemma orders_kept:
  assumes "native_inv wd w" "bills_only (n_db w) db ps" "do_id ` set (od_orders db) = do_id ` set (od_orders (n_db w))"
    and "\<And>i. i \<in> set (od_intents (n_db w)) \<Longrightarrow> vm_intent i \<Longrightarrow> Some (in_id i) \<notin> ps"
  shows "kept wd w (on_db (\<lambda>_. db) w)"
proof -
  from assms(2) obtain m where m: "od_intents db = od_intents (n_db w)" "od_ledger db = od_ledger (n_db w) @ m"
    "\<And>e. e \<in> set m \<Longrightarrow> ev_payer e \<in> ps" by (auto simp: bills_only_def)
  have "intent_agrees wd (nw_log w) (od_ledger db) i" if "i \<in> set (od_intents db)" for i
    unfolding m(2)
  proof (rule agrees_billed)
    show "intent_agrees wd (nw_log w) (od_ledger (n_db w)) i" using assms(1) that m(1) by (simp add: native_inv_def)
    show "ev_payer e \<noteq> Some (in_id i)" if "e \<in> set m" "vm_intent i" for e
      using m(3) [OF that(1)] assms(4) [OF _ that(2)] \<open>i \<in> set (od_intents db)\<close> m(1) by auto
  qed
  with assms(1,3) m(1) show ?thesis by (simp add: native_inv_def native_seen_def ids_apart_def)
qed

lemma settle_kept:
  assumes "native_inv wd w" "Typed (in_id i) ''domain_order'' \<in> native_seen w"
    and "native_order_settled wired env oid i snap (n_db w) = (res, db)"
  shows "kept wd w (on_db (\<lambda>_. db) w)"
proof (cases "\<exists>o2. res = Inr o2")
  case False
  then obtain x where "res = Inl x" by (cases res) auto
  with assms(3) have "db = n_db w" unfolding native_order_settled_def by (blast dest: mark_paid_error)
  with assms(1) show ?thesis by (simp add: native_inv_def native_seen_def)
next
  case True
  then obtain o2 where r: "res = Inr o2" by blast
  with assms(3) have mp: "mark_paid wired env oid (native_payment i) snap (n_db w) = (Inr o2, db)"
    by (simp add: native_order_settled_def)
  from mp obtain o0 where o0: "order_at (n_db w) oid = Some o0" by (cases rule: mark_paid_cases)
  then have oid: "oid \<in> do_id ` set (od_orders (n_db w))" by (auto dest: row_at_Some)
  from assms(2) obtain j where j: "j \<in> set (od_intents (n_db w))" "in_id j = in_id i" "in_resource_type j = ''domain_order''"
    by (auto simp: native_seen_def)
  show ?thesis
  proof (rule orders_kept [OF assms(1) mark_paid_bills [OF mp] mark_paid_orders [OF mp]])
    fix k assume k: "k \<in> set (od_intents (n_db w))" "vm_intent k"
    have "in_id k \<noteq> in_id i" using same_row [OF assms(1) k(1) j(1)] k(2) j(2,3) by (auto simp: vm_intent_def)
    moreover have "length (in_id i) \<le> 128" "in_id k \<noteq> oid"
      using assms(1) k(1) j(1,2) oid by (auto simp: native_inv_def ids_apart_def)
    ultimately show "Some (in_id k) \<notin> {Some oid, Some (take 128 (pi_payer (native_payment i)))}"
      by (simp add: native_payment_def)
  qed
qed

lemma close_unpaid_frame:
  "od_intents (close_unpaid_order now reason i db) = od_intents db"
  "od_ledger (close_unpaid_order now reason i db) = od_ledger db"
  "do_id ` set (od_orders (close_unpaid_order now reason i db)) = do_id ` set (od_orders db)"
  by (auto simp: close_unpaid_order_def put_row_key_set split: option.splits)

lemma native_refund_kept:
  assumes inv: "native_inv wd w" and known: "token_of (nw_log w) iid \<noteq> None"
  shows "kept wd w (snd (native_refund wd uid now iid reason vid w))"
proof (cases "n_intent w iid")
  case None
  with inv show ?thesis by (simp add: native_refund_def write_native_refund_def)
next
  case (Some i)
  define w1 where "w1 = on_db (close_unpaid_order now reason i) w"
  let ?flip = "\<lambda>j. j\<lparr>in_status := I_REFUND_MANUAL\<rparr>"
  let ?event = "build_owed_event wd uid (intent_refund_fields i reason vid)"
  let ?r = "snd (native_refund wd uid now iid reason vid w)"
  have id: "in_id i = iid" "i \<in> set (od_intents (n_db w))" using n_intentD [OF Some] by simp_all
  have ns: "bills_only (n_db w) (n_db w1) {}" by (simp add: bills_none w1_def close_unpaid_frame)
  have "kept wd w (on_db (\<lambda>_. n_db w1) w)"
    by (rule orders_kept [OF inv ns]) (simp_all add: w1_def close_unpaid_frame)
  then have k1: "kept wd w w1" by (simp add: w1_def on_db_def on_base_def)
  have i1: "n_intent w1 iid = Some i" using Some by (simp add: n_intent_def w1_def close_unpaid_frame)
  have led: "od_ledger (n_db w1) = od_ledger (n_db w)" "nw_log w1 = nw_log w"
    by (simp_all add: w1_def close_unpaid_frame)
  have sk: "same_key ?flip" by (simp add: same_key_def)
  let ?owed = "owed_to (od_ledger (n_db w)) iid \<noteq> []"
  have r: "?r = (if in_status i = I_REFUND_MANUAL \<and> ?owed then w1
      else case (if ?owed then None else ?event) of
        None \<Rightarrow> set_intent iid ?flip w1
      | Some e \<Rightarrow> note_event (Refund_Recorded iid) (on_db (\<lambda>db. db\<lparr>od_ledger := od_ledger db @ [e]\<rparr>) (set_intent iid ?flip w1)))"
    unfolding native_refund_def write_native_refund_def Some Let_def option.case w1_def [symmetric]
    by (cases "in_status i = I_REFUND_MANUAL \<and> ?owed"; cases ?owed; cases ?event) simp_all
  have flip: "kept wd w (set_intent iid ?flip w1)" if why: "?owed \<or> ?event = None"
  proof -
    have "iid \<noteq> []" using inv id by (auto simp: native_inv_def ids_apart_def)
    then have "?event = None \<Longrightarrow> wd \<Longrightarrow> \<not> billable i"
      by (auto simp: build_owed_event_def is_owed_def intent_refund_fields_def billable_def id(1) truthy_def split: if_splits option.splits)
    then have "intent_agrees wd (nw_log w1) (od_ledger (n_db w1)) (?flip i)"
      using agreesD [OF inv Some] why unfolding led
      by (auto simp: intent_agrees_def vm_intent_def billable_def id(1) split: if_splits)
    with k1 row_kept [OF _ i1 sk] show ?thesis by blast
  qed
  consider (owed) "?owed" | (none) "\<not> ?owed" "?event = None" | (some) e where "\<not> ?owed" "?event = Some e"
    by (cases ?owed; cases ?event) simp_all
  then show ?thesis
  proof cases
    case owed
    with r flip k1 show ?thesis by simp
  next
    case none
    with r flip show ?thesis by simp
  next
    case (some e)
    let ?w3 = "on_db (\<lambda>db. db\<lparr>od_ledger := od_ledger db @ [e]\<rparr>) (set_intent iid ?flip w1)"
    have e: "ev_payer e = Some iid" "ev_type e = REFUND_OWED_EVENT"
      using some(2) by (auto simp: build_owed_event_Some owed_event_fields_def intent_refund_fields_def blank_fields_def id)
    have fresh: "Refund_Recorded iid \<notin> set (nw_log w)"
      using agreesD [OF inv Some] some(1) id by (auto simp: intent_agrees_def)
    have ag: "intent_agrees wd (Refund_Recorded iid # nw_log w) (od_ledger (n_db w) @ [e]) j"
      if j: "j \<in> set (update_intent iid ?flip (od_intents (n_db w)))" for j
    proof -
      from j obtain k where k: "k \<in> set (od_intents (n_db w))" "j = (if in_id k = iid then ?flip k else k)"
        by (auto simp: update_intent_def)
      with inv have a: "intent_agrees wd (nw_log w) (od_ledger (n_db w)) k" by (simp add: native_inv_def)
      show ?thesis
      proof (cases "in_id k = iid")
        case True
        with k a some(1) e show ?thesis by (auto simp: intent_agrees_def vm_intent_def handed_over_def owed_to_single)
      next
        case False
        then have "intent_agrees wd (nw_log w) (od_ledger (n_db w) @ [e]) k"
          using a e by (auto intro: agrees_billed)
        with agrees_other [of wd _ _ k "Refund_Recorded iid"] False k show ?thesis by simp
      qed
    qed
    have "protocol (nw_log w)" "ids_apart (od_intents (n_db w1)) (od_orders (n_db w1))" using inv k1 by (simp_all add: native_inv_def)
    with ag fresh known update_intent_keys [OF sk] have "native_inv wd (note_event (Refund_Recorded iid) ?w3)"
      by (simp add: native_inv_def led) (simp add: w1_def close_unpaid_frame)
    moreover have "native_seen w \<subseteq> native_seen (note_event (Refund_Recorded iid) ?w3)"
      using k1 update_intent_keys(2) [OF sk] by (auto simp: native_seen_def led)
    ultimately show ?thesis using r some by simp
  qed
qed

subsection \<open>The programs\<close>

abbreviation guarded :: "bool \<Rightarrow> native_fact set \<Rightarrow> 'a native \<Rightarrow> bool" where
  "guarded wd F p \<equiv> secure (native_inv wd) native_seen F p"

lemma guarded_tx:
  "(\<And>w. native_inv wd w \<Longrightarrow> F \<subseteq> native_seen w \<Longrightarrow> kept wd w (snd (f w))) \<Longrightarrow> guarded wd F (native_tx f)"
  unfolding native_tx_def by (rule secure_transact)

lemma guarded_do: "(\<And>w. native_inv wd w \<Longrightarrow> kept wd w (f w)) \<Longrightarrow> guarded wd F (native_do f)"
  unfolding native_do_def by (rule guarded_tx) simp

lemma guarded_read: "guarded wd F (native_read f)"
  unfolding native_read_def by (rule guarded_tx) simp

lemma guarded_unmoved: "(\<And>w. unmoved w (f w)) \<Longrightarrow> guarded wd F (native_do f)"
  by (rule guarded_do) (rule unmoved_kept)

lemma guarded_tx_unmoved: "(\<And>w. unmoved w (snd (f w))) \<Longrightarrow> guarded wd F (native_tx f)"
  by (rule guarded_tx) (rule unmoved_kept)

lemma guarded_set:
  "same_key f \<Longrightarrow> (\<And>i. in_triggered_at (f i) = in_triggered_at i \<and> may_become i (in_status (f i))) \<Longrightarrow>
     guarded wd F (native_do (set_intent iid f))"
  by (rule guarded_do) (rule set_intent_kept)

lemma typed_row:
  "native_inv wd w \<Longrightarrow> Typed iid t \<in> native_seen w \<Longrightarrow> i \<in> set (od_intents (n_db w)) \<Longrightarrow> in_id i = iid \<Longrightarrow>
     in_resource_type i = t"
  by (auto simp: native_seen_def dest: same_row)

text \<open>The outcome of a domain order.\<close>

lemma handed_status_may: "\<not> vm_intent i \<Longrightarrow> may_become i (handed_status s)"
  by (simp add: handed_status_def may_become_def)

lemma set_handed_kept:
  "native_inv wd w \<Longrightarrow> Typed iid ''domain_order'' \<in> native_seen w \<Longrightarrow>
     kept wd w (set_intent iid (\<lambda>j. if b j then j\<lparr>in_status := handed_status s\<rparr> else j) w)"
proof (rule set_intent_kept)
  fix i assume "native_inv wd w" "Typed iid ''domain_order'' \<in> native_seen w" "in_id i = iid" "i \<in> set (od_intents (n_db w))"
  from typed_row [OF this(1,2,4,3)] have "\<not> vm_intent i" by (simp add: vm_intent_def)
  then show "in_triggered_at (if b i then i\<lparr>in_status := handed_status s\<rparr> else i) = in_triggered_at i \<and>
      may_become i (in_status (if b i then i\<lparr>in_status := handed_status s\<rparr> else i))"
    by (simp add: handed_status_may) (simp add: may_become_def)
qed (simp_all add: same_key_def)

lemma guarded_handed:
  "Typed iid ''domain_order'' \<in> F \<Longrightarrow>
     guarded wd F (native_do (set_intent iid (\<lambda>j. if b j then j\<lparr>in_status := handed_status s\<rparr> else j)))"
  unfolding native_do_def by (rule guarded_tx) (auto dest: set_handed_kept)

lemmas guarded_handed_always = guarded_handed [where b = "\<lambda>_. True", simplified]

lemma guarded_try_else:
  "guarded wd F p \<Longrightarrow> (\<And>e. guarded wd F (h e)) \<Longrightarrow> (\<And>a. guarded wd F (k a)) \<Longrightarrow> guarded wd F (try_else p h k)"
  unfolding try_else_def by (intro secure_bind secure_handle secure_Return) (auto split: sum.split)

lemma guarded_swallow: "guarded wd F p \<Longrightarrow> guarded wd F (swallow p)"
  by (simp add: swallow_def guarded_try_else secure_Return)

lemma guarded_three: "guarded wd F p \<Longrightarrow> guarded wd F (three_times p)"
  by (simp add: three_times_def guarded_swallow guarded_try_else secure_Return)

lemma guarded_demand: "guarded wd F p \<Longrightarrow> guarded wd F (demand p e)"
  unfolding demand_def by (intro secure_bind secure_if secure_Return secure_Raise)

lemma guarded_order_json:
  "guarded wd F p \<Longrightarrow> guarded wd F q \<Longrightarrow> (\<And>rq. guarded wd F (r rq)) \<Longrightarrow>
     guarded wd F (case x of No_Order \<Rightarrow> p | Bad_Order \<Rightarrow> q | Vm_Order rq \<Rightarrow> r rq)"
  by (cases x) simp_all

lemmas guards = secure_rules guarded_read guarded_try_else guarded_swallow guarded_three guarded_demand guarded_order_json

lemma unmoved_on_vms: "unmoved w (on_base (on_vms f) w)"
  by (simp add: unmoved_def)

lemma release_reserved_guarded: "guarded wd F (release_reserved vid)"
  unfolding release_reserved_def by (rule guarded_unmoved) (rule unmoved_on_vms)

lemma mark_failed_guarded: "guarded wd F (mark_failed vid)"
  unfolding mark_failed_def by (rule guarded_unmoved) (rule unmoved_on_vms)

lemma in_zone_guarded: "guarded wd F (in_zone f)"
  unfolding in_zone_def by (rule guarded_tx_unmoved) (simp add: unmoved_def split: prod.split sum.split)

lemma claim_native_guarded: "guarded wd F (claim_native_quote env qid)"
  unfolding claim_native_quote_def by (rule guarded_tx_unmoved) (simp add: unmoved_def split: prod.split)

lemma reserve_native_guarded: "guarded wd F (reserve_native cfg env i rq planned)"
  unfolding reserve_native_def Let_def
  by (rule guarded_tx_unmoved) (simp add: unmoved_def split: prod.split sum.split option.split)

lemma activate_native_guarded: "guarded wd F (activate_native cfg env i vid)"
  unfolding activate_native_def Let_def
  by (rule guarded_tx_unmoved) (simp add: unmoved_def split: prod.split sum.split)

lemma persist_planned_guarded: "guarded wd F (persist_planned_vm_id iid cand existing)"
  unfolding persist_planned_vm_id_def by (intro guards guarded_set) (auto simp: same_key_def may_become_def)

lemma require_current_guarded: "guarded wd F (require_current iid token)"
  unfolding require_current_def by (intro guards)

lemma clean_up_guarded: "guarded wd F (clean_up cfg vid claimed)"
  unfolding clean_up_def release_claimed_def
  by (intro guards release_reserved_guarded mark_failed_guarded in_zone_guarded)

lemmas vm_guards = guards release_reserved_guarded mark_failed_guarded in_zone_guarded claim_native_guarded
  reserve_native_guarded activate_native_guarded persist_planned_guarded require_current_guarded clean_up_guarded

text \<open>What a worker of an intent knows: its trigger.\<close>

definition knows_trigger :: "native_fact set \<Rightarrow> string \<Rightarrow> bool" where
  "knows_trigger F iid \<longleftrightarrow> (\<exists>t. Noted (Triggered iid t) \<in> F \<or> Noted (Leased iid t) \<in> F)"

lemma knows_token: "knows_trigger F iid \<Longrightarrow> F \<subseteq> native_seen w \<Longrightarrow> token_of (nw_log w) iid \<noteq> None"
  unfolding token_of_known by (auto simp: knows_trigger_def native_seen_def)

lemma refund_guarded: "knows_trigger F iid \<Longrightarrow> guarded (hc_wired cfg) F (record_native_intent_refund cfg env iid reason vid)"
  unfolding record_native_intent_refund_def by (rule guarded_tx) (rule native_refund_kept, assumption, rule knows_token)

lemma refund_instead_guarded: "knows_trigger F iid \<Longrightarrow> guarded (hc_wired cfg) F (refund_instead cfg env iid reason vid)"
  unfolding refund_instead_def by (intro guards refund_guarded)

lemma give_up_guarded: "knows_trigger F iid \<Longrightarrow> guarded (hc_wired cfg) F (give_up_handoff cfg env iid planned reserved claimed e)"
  unfolding give_up_handoff_def
  by (intro guards refund_guarded clean_up_guarded guarded_set) (auto simp: same_key_def may_become_def)

lemmas worker_guards = vm_guards refund_guarded refund_instead_guarded give_up_guarded

lemma admit_quote_guarded: "knows_trigger F (in_id i) \<Longrightarrow> guarded (hc_wired cfg) F (admit_quote cfg env i rq)"
  unfolding admit_quote_def Let_def by (intro worker_guards)

lemma admit_handoff_guarded: "knows_trigger F (in_id i) \<Longrightarrow> guarded (hc_wired cfg) F (admit_handoff cfg env i token rq)"
  unfolding admit_handoff_def by (intro worker_guards admit_quote_guarded)

lemma reserve_stage_guarded: "knows_trigger F (in_id i) \<Longrightarrow> guarded (hc_wired cfg) F (reserve_stage cfg env i rq planned)"
  unfolding reserve_stage_def by (intro worker_guards)

lemma claim_stage_guarded: "knows_trigger F (in_id i) \<Longrightarrow> guarded (hc_wired cfg) F (claim_stage cfg env i token rq planned)"
  unfolding claim_stage_def by (intro worker_guards)

lemma activate_stage_guarded: "knows_trigger F (in_id i) \<Longrightarrow> guarded (hc_wired cfg) F (activate_stage cfg env i planned vid claimed)"
  unfolding activate_stage_def release_claimed_def by (intro worker_guards)

lemma start_kept: "native_inv wd w \<Longrightarrow> handed_over (nw_log w) iid \<Longrightarrow> kept wd w (note_event (Started iid vid) w)"
proof -
  assume inv: "native_inv wd w" and d: "handed_over (nw_log w) iid"
  have "intent_agrees wd (Started iid vid # nw_log w) (od_ledger (n_db w)) i" if "i \<in> set (od_intents (n_db w))" for i
  proof -
    from that inv have "intent_agrees wd (nw_log w) (od_ledger (n_db w)) i" by (simp add: native_inv_def)
    then show ?thesis by (auto simp: intent_agrees_def handed_over_def)
  qed
  with inv d show ?thesis by (auto simp: native_inv_def native_seen_def)
qed

lemma start_native_guarded: "guarded wd {Noted (Delivered iid t)} (start_native cfg env iid vid)"
  unfolding start_native_def native_do_def
proof (rule guarded_tx)
  fix w assume inv: "native_inv wd w" and F: "{Noted (Delivered iid t)} \<subseteq> native_seen w"
  obtain st fl db where sp: "start_provisioning (hc_store cfg) vid (he_later env) (he_gen env) (he_tok env)
      (nw_inflight w (he_proc env)) (fw_vms (nw_base w)) = (st, fl, db)" by (metis prod_cases3)
  let ?w = "(on_base (\<lambda>b. b\<lparr>fw_vms := db\<rparr>) w)\<lparr>nw_inflight := (nw_inflight w)(he_proc env := fl)\<rparr>"
  have k: "kept wd w ?w" by (rule unmoved_kept [OF inv]) (simp add: unmoved_def on_base_def)
  have "handed_over (nw_log ?w) iid" using F by (auto simp: native_seen_def handed_over_def on_base_def)
  with k have "kept wd ?w (note_event (Started iid vid) ?w)" by (intro start_kept) auto
  with k show "kept wd w (snd (Inr (), case start_provisioning (hc_store cfg) vid (he_later env) (he_gen env) (he_tok env)
      (nw_inflight w (he_proc env)) (fw_vms (nw_base w)) of
      (started, inflight, db) \<Rightarrow> (if started then note_event (Started iid vid) else id)
         ((on_base (\<lambda>b. b\<lparr>fw_vms := db\<rparr>) w)\<lparr>nw_inflight := (nw_inflight w)(he_proc env := inflight)\<rparr>)))"
    unfolding sp snd_conv prod.case by (cases st) auto
qed

lemma deliver_logs: "fst (deliver iid token vid anon w) = Inr () \<Longrightarrow> Noted (Delivered iid token) \<in> native_seen (snd (deliver iid token vid anon w))"
  by (auto simp: deliver_def native_seen_def split: option.splits if_splits)

lemma deliver_start_guarded: "guarded wd F (seq_prog (native_tx (deliver iid token vid anon)) (start_native cfg env iid v))"
  unfolding seq_prog_def native_tx_def
proof (rule secure_learn)
  fix w assume "native_inv wd w"
  then show "kept wd w (snd (deliver iid token vid anon w))" by (rule deliver_kept)
  fix a assume "fst (deliver iid token vid anon w) = Inr a"
  then have "fst (deliver iid token vid anon w) = Inr ()" by simp
  from deliver_logs [OF this] have "{Noted (Delivered iid token)} \<subseteq> native_seen (snd (deliver iid token vid anon w))"
    by simp
  with start_native_guarded
  show "\<exists>G \<subseteq> native_seen (snd (deliver iid token vid anon w)). guarded wd G (start_native cfg env iid v)"
    by (intro exI [of _ "{Noted (Delivered iid token)}"] conjI)
qed

lemma deliver_stage_guarded: "guarded wd F (deliver_stage cfg env i token rq vid anon)"
  unfolding deliver_stage_def
  by (intro secure_seq [OF require_current_guarded] secure_seq deliver_start_guarded guards guarded_unmoved)
    (simp_all add: unmoved_def)

lemma handoff_vm_guarded: "knows_trigger F (in_id i) \<Longrightarrow> guarded (hc_wired cfg) F (handoff_vm cfg env i token)"
  unfolding handoff_vm_def Let_def
  by (intro worker_guards admit_handoff_guarded reserve_stage_guarded claim_stage_guarded activate_stage_guarded
      deliver_stage_guarded)

lemma settle_order_guarded:
  "Typed (in_id i) ''domain_order'' \<in> F \<Longrightarrow> guarded (hc_wired cfg) F (settle_order cfg env oid i)"
  unfolding settle_order_def
proof (intro guards guarded_tx)
  fix snap w assume t: "Typed (in_id i) ''domain_order'' \<in> F" and inv: "native_inv (hc_wired cfg) w" and F: "F \<subseteq> native_seen w"
  obtain res db where r: "native_order_settled (hc_wired cfg) (he_order env) oid i snap (n_db w) = (res, db)" by fastforce
  with settle_kept [OF inv _ r] t F
  show "kept (hc_wired cfg) w (snd (case native_order_settled (hc_wired cfg) (he_order env) oid i snap (n_db w) of
      (Inl _, db) \<Rightarrow> (Inl N_Error, on_db (\<lambda>_. db) w) | (Inr o1, db) \<Rightarrow> (Inr o1, on_db (\<lambda>_. db) w)))"
    by (cases res) auto
qed

lemma recheck_guarded: "Typed iid ''domain_order'' \<in> F \<Longrightarrow> guarded wd F (native_tx (recheck_order iid oid))"
proof (rule guarded_tx)
  fix w assume "Typed iid ''domain_order'' \<in> F" "native_inv wd w" "F \<subseteq> native_seen w"
  then show "kept wd w (snd (recheck_order iid oid w))"
    using set_handed_kept [of wd w iid "\<lambda>_. True" s for s]
    by (auto simp: recheck_order_def split: option.split)
qed

lemma handoff_domain_guarded:
  "Typed (in_id i) ''domain_order'' \<in> F \<Longrightarrow> knows_trigger F (in_id i) \<Longrightarrow> guarded (hc_wired cfg) F (handoff_domain cfg env i)"
  unfolding handoff_domain_def Let_def
  by (intro worker_guards settle_order_guarded recheck_guarded guarded_handed_always) auto

text \<open>A row that is read tells its type.\<close>

lemma read_row_guarded:
  assumes "guarded wd F (k None)" "\<And>i. in_id i = iid \<Longrightarrow> guarded wd (insert (Typed iid (in_resource_type i)) F) (k (Some i))"
  shows "guarded wd F (bind_prog (native_read (\<lambda>w. n_intent w iid)) k)"
  unfolding native_read_def native_tx_def
proof (rule secure_learn)
  fix w a assume "F \<subseteq> native_seen w" "fst (Inr (n_intent w iid), w) = Inr a"
  then show "\<exists>G \<subseteq> native_seen (snd (Inr (n_intent w iid), w)). guarded wd G (k a)"
  proof (cases a)
    case None
    with assms(1) \<open>F \<subseteq> native_seen w\<close> show ?thesis by auto
  next
    case (Some i)
    with \<open>fst (Inr (n_intent w iid), w) = Inr a\<close> have i: "n_intent w iid = Some i" by simp
    from n_intentD [OF i] have "Typed iid (in_resource_type i) \<in> native_seen w" by (auto simp: native_seen_def)
    with assms(2) [of i] n_intentD [OF i] Some \<open>F \<subseteq> native_seen w\<close> show ?thesis
      by (intro exI [of _ "insert (Typed iid (in_resource_type i)) F"]) auto
  qed
qed simp

lemma knows_more: "knows_trigger F iid \<Longrightarrow> knows_trigger (insert x F) iid"
  by (auto simp: knows_trigger_def)

lemma trigger_logs: "fst (take_trigger iid now w) = Inr True \<Longrightarrow> Noted (Triggered iid now) \<in> native_seen (snd (take_trigger iid now w))"
  by (auto simp: take_trigger_def native_seen_def split: option.splits if_splits)

lemma lease_logs: "fst (take_lease iid now w) = Inr True \<Longrightarrow> Noted (Leased iid now) \<in> native_seen (snd (take_lease iid now w))"
  by (auto simp: take_lease_def native_seen_def split: option.splits if_splits)

lemma trigger_guarded: "guarded (hc_wired cfg) F (trigger_provisioning cfg env iid)"
  unfolding trigger_provisioning_def native_tx_def
proof (rule secure_learn)
  fix w assume "native_inv (hc_wired cfg) w"
  then show "kept (hc_wired cfg) w (snd (take_trigger iid (he_now env) w))" by (rule take_trigger_kept)
  fix won assume won: "fst (take_trigger iid (he_now env) w) = Inr won"
  let ?s = "native_seen (snd (take_trigger iid (he_now env) w))"
  let ?k = "if \<not> won then Return () else bind_prog (native_read (\<lambda>w. n_intent w iid)) (\<lambda>row. case row of
           None \<Rightarrow> Return ()
         | Some i \<Rightarrow>
           if in_order i = No_Order then Return ()
           else case in_triggered_at i of
             None \<Rightarrow> Return ()
           | Some token \<Rightarrow>
             if in_resource_type i = ''domain_order'' then handoff_domain cfg env i else handoff_vm cfg env i token)"
  show "\<exists>G \<subseteq> ?s. guarded (hc_wired cfg) G ?k"
  proof (cases won)
    case False
    then show ?thesis by (auto simp: secure_Return)
  next
    case True
    with trigger_logs won have "{Noted (Triggered iid (he_now env))} \<subseteq> ?s" by auto
    moreover have "knows_trigger {Noted (Triggered iid (he_now env))} iid" by (auto simp: knows_trigger_def)
    then have "guarded (hc_wired cfg) {Noted (Triggered iid (he_now env))} ?k"
      by (intro secure_if read_row_guarded secure_Return)
        (auto intro!: guards handoff_domain_guarded handoff_vm_guarded knows_more)
    ultimately show ?thesis by blast
  qed
qed

lemma recover_leased_guarded: "knows_trigger F (in_id i) \<Longrightarrow> guarded (hc_wired cfg) F (recover_leased cfg env i)"
  unfolding recover_leased_def release_claimed_def by (intro worker_guards)

lemma recover_guarded: "guarded (hc_wired cfg) F (recover_interrupted cfg env iid)"
  unfolding recover_interrupted_def native_tx_def
proof (rule secure_learn)
  fix w assume "native_inv (hc_wired cfg) w"
  then show "kept (hc_wired cfg) w (snd (take_lease iid (he_now env) w))" by (rule take_lease_kept)
  fix won assume won: "fst (take_lease iid (he_now env) w) = Inr won"
  let ?s = "native_seen (snd (take_lease iid (he_now env) w))"
  let ?k = "if \<not> won then Return False else bind_prog (native_read (\<lambda>w. n_intent w iid)) (\<lambda>row. case row of
           None \<Rightarrow> Return False
         | Some i \<Rightarrow> try_else (recover_leased cfg env i) (\<lambda>_. Return False) (\<lambda>_. Return True))"
  show "\<exists>G \<subseteq> ?s. guarded (hc_wired cfg) G ?k"
  proof (cases won)
    case False
    then show ?thesis by (auto simp: secure_Return)
  next
    case True
    with lease_logs won have "{Noted (Leased iid (he_now env))} \<subseteq> ?s" by auto
    moreover have "knows_trigger {Noted (Leased iid (he_now env))} iid" by (auto simp: knows_trigger_def)
    then have "guarded (hc_wired cfg) {Noted (Leased iid (he_now env))} ?k"
      by (intro secure_if read_row_guarded secure_Return)
        (auto intro!: guards recover_leased_guarded knows_more)
    ultimately show ?thesis by blast
  qed
qed

lemma resume_guarded: "guarded (hc_wired cfg) F (resume_domain_handoff cfg env iid)"
  unfolding resume_domain_handoff_def
  by (intro secure_if secure_Return read_row_guarded)
    (auto intro!: guards settle_order_guarded guarded_handed)

text \<open>A scan touches only a row that was not triggered.\<close>

lemma update_one:
  "unique_by in_id t \<Longrightarrow> find_intent t iid = Some row \<Longrightarrow>
     update_intent iid (\<lambda>_. row') t = update_intent iid (\<lambda>i. if i = row then row' else i) t"
  using find_intent_id [of t iid row]
  by (auto simp: update_intent_def unique_by_def distinct_map dest: inj_onD)

lemma apply_scan_kept:
  assumes inv: "native_inv wd w" and ap: "apply_intent_scan wl iid scan c now (od_intents (n_db w)) = Some (go, t')"
  shows "kept wd w (on_db (\<lambda>db. db\<lparr>od_intents := t'\<rparr>) w)"
proof -
  have same: "on_db (\<lambda>db. db\<lparr>od_intents := od_intents (n_db w)\<rparr>) w = w" by (simp add: on_db_def on_base_def)
  show ?thesis
  proof (cases "t' = od_intents (n_db w)")
    case True
    with inv same show ?thesis by simp
  next
    case False
    let ?t = "od_intents (n_db w)"
    from ap False obtain row where row: "find_intent ?t iid = Some row" "\<not> poll_terminal (in_status row)"
      by (auto simp: apply_intent_scan_def split: option.splits if_splits)
    let ?row1 = "scanned_row row scan now"
    obtain g where t': "t' = update_intent iid (\<lambda>_. g) ?t"
      and g: "in_id g = in_id row" "in_resource_type g = in_resource_type row" "in_amount_usd g = in_amount_usd row"
        "in_triggered_at g = in_triggered_at row" "in_status g \<in> {I_EXPIRED, I_WAITING_PAYMENT, I_SETTLED, I_REFUND_MANUAL}"
    proof (cases "utc (in_expires_at row) < now \<and> dec_eq (sr_received scan) (Dec 0 0)")
      case True
      with ap row have "t' = update_intent iid (\<lambda>_. ?row1\<lparr>in_status := I_EXPIRED\<rparr>) ?t" by (simp add: apply_intent_scan_def)
      then show thesis by (rule that) (simp_all add: scanned_row_def)
    next
      case False
      with ap row obtain st where st: "decide_status ?row1 scan c (maybe_requote wl ?row1 now) = Some st"
        by (auto simp: apply_intent_scan_def Let_def split: option.splits)
      let ?g = "?row1\<lparr>in_status := st, in_paid_at := (if st = I_SETTLED \<and> in_paid_at ?row1 = None then Some now else in_paid_at ?row1)\<rparr>"
      from ap have "t' = update_intent iid (\<lambda>_. ?g) ?t"
        unfolding apply_intent_scan_def Let_def row option.case if_not_P [OF row(2)] scanned_row_frame if_not_P [OF False] st
          option.inject prod.inject by (elim conjE) (rule sym)
      then show thesis by (rule that) (use decide_status_range [OF st] in \<open>auto simp: scanned_row_def\<close>)
    qed
    let ?f = "\<lambda>i. if i = row then g else i"
    have u: "unique_by in_id ?t" using inv by (simp add: native_inv_def ids_apart_def)
    have "on_db (\<lambda>db. db\<lparr>od_intents := t'\<rparr>) w = set_intent iid ?f w"
      unfolding t' update_one [OF u row(1)] by (simp add: set_intent_def on_db_def on_base_def)
    moreover have "kept wd w (set_intent iid ?f w)"
    proof (rule set_intent_kept [OF inv])
      show "same_key ?f" by (simp add: same_key_def g)
      have "intent_agrees wd (nw_log w) (od_ledger (n_db w)) row"
        using inv find_intent_id [OF row(1)] by (simp add: native_inv_def)
      with row(2) have "in_triggered_at row = None"
        by (auto simp: intent_agrees_def poll_terminal_def)
      with g show "in_triggered_at (?f i) = in_triggered_at i \<and> may_become i (in_status (?f i))" for i
        by (auto simp: may_become_def)
    qed
    ultimately show ?thesis by simp
  qed
qed

lemma poll_guarded: "guarded (hc_wired cfg) F (poll_intent cfg env iid)"
  unfolding poll_intent_def
proof (intro guards guarded_tx trigger_guarded)
  fix row scan w assume "native_inv (hc_wired cfg) w"
  then show "kept (hc_wired cfg) w
      (snd (case apply_intent_scan (hc_wallet cfg) iid scan (min_confirmations (in_asset row)) (he_now env) (od_intents (n_db w)) of
         None \<Rightarrow> (Inl N_Error, w) | Some (_, t) \<Rightarrow> (Inr (), on_db (\<lambda>db. db\<lparr>od_intents := t\<rparr>) w)))"
    by (auto dest: apply_scan_kept split: option.split)
qed

lemma count_guarded: "(\<And>iid. guarded wd F (p iid)) \<Longrightarrow> guarded wd F (count_touched p ids)"
  by (induction ids) (auto intro!: guards)

lemma scan_guarded: "guarded (hc_wired cfg) F (scan_pending_intents cfg now envs)"
  unfolding scan_pending_intents_def
  by (intro guards count_guarded recover_guarded resume_guarded poll_guarded)

lemma starts_guarded: "p \<in> native_starts cfg \<Longrightarrow> guarded (hc_wired cfg) {} p"
  by (auto simp: native_starts_def intro!: scan_guarded guards poll_guarded)

interpretation native: secure_pool "native_inv (hc_wired cfg)" native_seen "native_starts cfg" for cfg
  by unfold_locales (rule starts_guarded)

end
