(* ===== verification/Handoff_Props.thy ===== *)
theory Handoff_Props
  imports Handoff_Safety
begin

text \<open>
  Properties of the native handoff: the order of what concurrent runs do, the obligations they leave, and the
  recovery of a handoff whose worker died; with a run that delivers and one that is recovered.
\<close>

subsection \<open>What every concurrent run keeps\<close>

text \<open>The start: no intent has been triggered, and no VM intent is owed anything.\<close>

definition native_fresh :: "native_world \<Rightarrow> bool" where
  "native_fresh w \<longleftrightarrow> nw_log w = [] \<and> ids_apart (od_intents (n_db w)) (od_orders (n_db w)) \<and>
     (\<forall>i \<in> set (od_intents (n_db w)). in_triggered_at i = None \<and>
        (vm_intent i \<longrightarrow> owed_to (od_ledger (n_db w)) (in_id i) = []))"

lemma fresh_inv: "native_fresh w \<Longrightarrow> native_inv wd w"
  by (simp add: native_fresh_def native_inv_def intent_agrees_def handed_over_def)

lemma protocol_split: "protocol (l @ e # m) \<Longrightarrow> allowed e m \<and> protocol m"
  by (induction l) auto

lemma protocol_once:
  "protocol (l @ Delivered iid t # m) \<Longrightarrow> \<not> handed_over l iid"
  by (induction l) (auto simp: handed_over_def)

lemma protocol_no_lease:
  "protocol (l @ Delivered iid t # m) \<Longrightarrow> Leased iid s \<notin> set l"
  by (induction l) (auto simp: handed_over_def)

lemma protocol_owed_once: "protocol l \<Longrightarrow> count_list l (Refund_Recorded iid) \<le> 1"
proof (induction l)
  case (Cons e l)
  then show ?case by (cases "e = Refund_Recorded iid") (auto simp: count_notin)
qed simp

lemma find_intent_update:
  "in_id (f i) = iid \<Longrightarrow> find_intent t iid = Some i \<Longrightarrow> find_intent (update_intent iid f t) iid = Some (f i)"
  by (induction t) (auto simp: find_intent_def update_intent_def split: if_splits)

lemma native_run:
  "(pool_step (native_starts cfg))\<^sup>*\<^sup>* (w, []) (w', ps) \<Longrightarrow> native_fresh w \<Longrightarrow> native_inv (hc_wired cfg) w'"
  using native.reachable fresh_inv by blast

text \<open>C6: however many scanners and polls run concurrently, stall, die or lose the answer of a commit: the log of
  what they did to a paid intent is ordered. It is triggered once. A lease is taken only over an intent that is neither
  delivered nor refunded, with a token at least the recovery delay newer than the one before. A VM is delivered once,
  under the newest token, never after a refund, and no lease is taken afterwards. A provisioner is started only for a
  delivered intent, and one obligation is written at most.\<close>

theorem native_handoff_protocol:
  assumes "(pool_step (native_starts cfg))\<^sup>*\<^sup>* (w, []) (w', ps)" and "native_fresh w"
    and "nw_log w' = newer @ e # older"
  shows "(case e of
      Triggered iid t \<Rightarrow> token_of older iid = None \<and> \<not> handed_over older iid \<and> Refund_Recorded iid \<notin> set older
    | Leased iid t \<Rightarrow> (\<exists>s. token_of older iid = Some s \<and> s + VM_PROVISIONING_RECOVERY_DELAY \<le> t) \<and>
        \<not> handed_over older iid \<and> Refund_Recorded iid \<notin> set older
    | Delivered iid t \<Rightarrow> token_of older iid = Some t \<and> \<not> handed_over older iid \<and> \<not> handed_over newer iid \<and>
        Refund_Recorded iid \<notin> set older \<and> (\<forall>s. Leased iid s \<notin> set newer)
    | Refund_Recorded iid \<Rightarrow> token_of older iid \<noteq> None \<and> Refund_Recorded iid \<notin> set older \<and> Refund_Recorded iid \<notin> set newer
    | Started iid vid \<Rightarrow> handed_over older iid)"
proof -
  from native_run [OF assms(1,2)] assms(3) have p: "protocol (newer @ e # older)" by (simp add: native_inv_def)
  from protocol_split [OF p] have a: "allowed e older" "protocol older" by simp_all
  show ?thesis
  proof (cases e)
    case (Triggered iid t)
    with a protocol_silent [OF a(2)] show ?thesis by simp
  next
    case (Leased iid t)
    with a show ?thesis by (auto split: option.splits)
  next
    case (Delivered iid t)
    with a p protocol_once [of newer iid t older] protocol_no_lease [of newer iid t older] show ?thesis by simp
  next
    case (Refund_Recorded iid)
    with a protocol_owed_once [OF p, of iid] show ?thesis by (auto simp: count_list_0_iff)
  next
    case (Started iid vid)
    with a show ?thesis by simp
  qed
qed


text \<open>Without that serialisation two callers that both query before either commits owe the money twice.\<close>

lemma overlapping_refunds_owe_twice:
  assumes "n_intent w iid = Some i" "in_resource_type i = ''vm''" "in_status i = I_PROVISIONING" "billable i" "iid \<noteq> []"
    and "owed_to (od_ledger (n_db w)) iid = []"
  shows "length (owed_to (od_ledger (n_db (snd (write_native_refund True u2 now iid r2 v False
      (snd (write_native_refund True u1 now iid r1 v False w)))))) iid) = 2"
proof -
  have id: "in_id i = iid" using n_intentD [OF assms(1)] by simp
  have ev: "\<exists>e. build_owed_event True u (intent_refund_fields j r v) = Some e \<and> ev_type e = REFUND_OWED_EVENT \<and> ev_payer e = Some iid"
    if "billable j" "in_id j = iid" for u j r
    using that assms(5) by (auto simp: build_owed_event_Some is_owed_def intent_refund_fields_def owed_event_fields_def
        blank_fields_def billable_def truthy_def split: option.splits)
  let ?j = "i\<lparr>in_status := I_REFUND_MANUAL\<rparr>"
  have close: "on_db (close_unpaid_order now r j) w' = w'" if "in_resource_type j = ''vm''" for j r w'
    using that by (simp add: close_unpaid_order_def on_db_def on_base_def)
  obtain e1 where e1: "build_owed_event True u1 (intent_refund_fields i r1 v) = Some e1" "ev_type e1 = REFUND_OWED_EVENT"
    "ev_payer e1 = Some iid" using ev [OF assms(4) id] by blast
  obtain e2 where e2: "build_owed_event True u2 (intent_refund_fields ?j r2 v) = Some e2" "ev_type e2 = REFUND_OWED_EVENT"
    "ev_payer e2 = Some iid" using ev [of ?j] assms(4) id by (auto simp: billable_def)
  let ?w1 = "snd (write_native_refund True u1 now iid r1 v False w)"
  have w1: "?w1 = note_event (Refund_Recorded iid) (on_db (\<lambda>db. db\<lparr>od_ledger := od_ledger db @ [e1]\<rparr>)
      (set_intent iid (\<lambda>j. j\<lparr>in_status := I_REFUND_MANUAL\<rparr>) w))"
    unfolding write_native_refund_def assms(1) option.case Let_def close [OF assms(2)] by (simp add: assms(3) e1)
  then have "n_intent ?w1 iid = Some ?j"
    using find_intent_update [of "\<lambda>j. j\<lparr>in_status := I_REFUND_MANUAL\<rparr>" i iid] assms(1) id by (simp add: n_intent_def)
  then show ?thesis
    using e1 e2 assms(6) by (simp add: write_native_refund_def [of _ u2] Let_def close assms(2) w1 owed_to_def [of "[e1, e2]"])
qed

subsection \<open>Recovery of a lost handoff\<close>

lemma run_try_else:
  "run_alone (try_else p h k) w =
     (case run_alone p w of (Inl e, w') \<Rightarrow> run_alone (h e) w' | (Inr a, w') \<Rightarrow> run_alone (k a) w')"
  by (simp add: try_else_def run_simps split: prod.split sum.split)

lemma run_native: "run_alone (native_tx f) w = f w" "run_alone (native_do g) w = (Inr (), g w)"
  "run_alone (native_read r) w = (Inr (r w), w)"
  by (simp_all add: native_tx_def native_do_def native_read_def run_transact)

text \<open>At most one domain is attached to a VM, or the lookup of its claim raises.\<close>

definition single_claim :: "string \<Rightarrow> world \<Rightarrow> bool" where
  "single_claim v b \<longleftrightarrow> length (filter (\<lambda>d. dr_vm d = Some v) (zb_domains (fw_zone b))) \<le> 1"

lemma length_le_1: "length xs \<le> Suc 0 \<longleftrightarrow> xs = [] \<or> (\<exists>x. xs = [x])"
  by (cases xs) auto

lemma run_release_claimed:
  "single_claim v (nw_base w) \<Longrightarrow> \<exists>w'. run_alone (release_claimed v) w = (Inr (), w') \<and> unmoved w w'"
  by (auto simp: release_claimed_def in_zone_def run_native release_vm_attachment_claim_def single_claim_def length_le_1
      unmoved_def)

lemma on_vms_domains:
  assumes "\<And>db. vd_domains (f db) = vd_domains db \<or> vd_domains (f db) = unlink_domain v (vd_domains db)"
  shows "\<exists>g. zb_domains (fw_zone (on_vms f b)) = map g (zb_domains (fw_zone b)) \<and> (\<forall>d. dr_vm (g d) = None \<or> dr_vm (g d) = dr_vm d)"
proof -
  let ?ds = "zb_domains (fw_zone b)"
  let ?u = "\<lambda>d. if dl_vm d = Some v \<and> dl_ipv6 d = None then d\<lparr>dl_vm := None\<rparr> else d"
  have z: "map (\<lambda>(d, l). d\<lparr>dr_vm := dl_vm l\<rparr>) (zip ?ds (map h ?ds)) = map (\<lambda>d. d\<lparr>dr_vm := dl_vm (h d)\<rparr>) ?ds" for h
    by (induction ?ds) (auto simp: zip_map2 zip_same_conv_map)
  from assms [of "(fw_vms b)\<lparr>vd_domains := map link_of ?ds\<rparr>"] show ?thesis
  proof
    assume "vd_domains (f ((fw_vms b)\<lparr>vd_domains := map link_of ?ds\<rparr>)) = vd_domains ((fw_vms b)\<lparr>vd_domains := map link_of ?ds\<rparr>)"
    then show ?thesis
      by (intro exI [of _ "\<lambda>d. d\<lparr>dr_vm := dl_vm (link_of d)\<rparr>"]) (simp add: on_vms_def Let_def z link_of_def)
  next
    assume "vd_domains (f ((fw_vms b)\<lparr>vd_domains := map link_of ?ds\<rparr>)) =
      unlink_domain v (vd_domains ((fw_vms b)\<lparr>vd_domains := map link_of ?ds\<rparr>))"
    then show ?thesis
      by (intro exI [of _ "\<lambda>d. d\<lparr>dr_vm := dl_vm (?u (link_of d))\<rparr>"])
        (simp add: on_vms_def Let_def unlink_domain_def z comp_def, simp add: link_of_def)
  qed
qed

lemma unlinked_single:
  assumes "\<And>db. vd_domains (f db) = vd_domains db \<or> vd_domains (f db) = unlink_domain v' (vd_domains db)"
    and "single_claim v b"
  shows "single_claim v (on_vms f b)"
proof -
  from on_vms_domains [of f v' b, OF assms(1)] obtain g where g: "zb_domains (fw_zone (on_vms f b)) = map g (zb_domains (fw_zone b))"
    "\<forall>d. dr_vm (g d) = None \<or> dr_vm (g d) = dr_vm d" by blast
  have "length (filter (\<lambda>d. dr_vm (g d) = Some v) ds) \<le> length (filter (\<lambda>d. dr_vm d = Some v) ds)" for ds
    by (induction ds) (use g(2) in \<open>auto intro: le_SucI\<close>, metis option.distinct(1))
  from this assms(2) show ?thesis unfolding single_claim_def g(1) filter_map length_map comp_def by (rule order_trans)
qed

lemma run_cleanup:
  assumes "single_claim v (nw_base w)"
  shows "\<exists>w'. run_alone (seq_prog (release_reserved v) (seq_prog (mark_failed v) (release_claimed v))) w = (Inr (), w') \<and> unmoved w w'"
    "\<exists>w'. run_alone (seq_prog (release_reserved v) (seq_prog (mark_failed v) (Return ()))) w = (Inr (), w') \<and> unmoved w w'"
proof -
  let ?w1 = "on_base (on_vms (release_vm_reservation v)) w"
  let ?w2 = "on_base (on_vms (\<lambda>db. fst (mark_vm_failed v FAILURE_INTERNAL db))) ?w1"
  have "single_claim v (nw_base ?w1)"
    using assms by (simp add: unlinked_single [of _ v] release_vm_reservation_def split: option.split)
  then have "single_claim v (nw_base ?w2)"
    by (simp add: unlinked_single [of _ v] mark_vm_failed_def update_vm_def split: option.split)
  from run_release_claimed [OF this]
  show "\<exists>w'. run_alone (seq_prog (release_reserved v) (seq_prog (mark_failed v) (release_claimed v))) w = (Inr (), w') \<and> unmoved w w'"
    by (auto simp: run_simps release_reserved_def mark_failed_def run_native unmoved_def)
  show "\<exists>w'. run_alone (seq_prog (release_reserved v) (seq_prog (mark_failed v) (Return ()))) w = (Inr (), w') \<and> unmoved w w'"
    by (auto simp: run_simps release_reserved_def mark_failed_def run_native unmoved_def)
qed

lemma run_recover_leased:
  assumes i: "n_intent w iid = Some i" "in_status i = I_PROVISIONING" "in_resource_type i = ''vm''" "billable i" "iid \<noteq> []"
    and wired: "hc_wired cfg" and none: "owed_to (od_ledger (n_db w)) iid = []"
    and claim: "\<And>v. in_vm_id i = Some v \<Longrightarrow> single_claim v (nw_base w)"
  shows "\<exists>w' e j. run_alone (recover_leased cfg env i) w = (Inr (), w') \<and>
     n_intent w' iid = Some j \<and> in_status j = I_REFUND_MANUAL \<and>
     owed_to (od_ledger (n_db w')) iid = [e] \<and> ev_amount e = in_amount_usd i"
proof -
  let ?undo = "case in_vm_id i of
          None \<Rightarrow> Return ()
        | Some v \<Rightarrow>
          seq_prog (release_reserved v) (seq_prog (mark_failed v)
            (case in_order i of
               Vm_Order rq \<Rightarrow> if o_domain_mode rq = CUSTOM \<and> hc_domains cfg then release_claimed v else Return ()
             | _ \<Rightarrow> Return ()))"
  have "\<exists>w1. run_alone ?undo w = (Inr (), w1) \<and> unmoved w w1"
  proof (cases "in_vm_id i")
    case None
    then show ?thesis by (simp add: unmoved_def)
  next
    case (Some v)
    note u = run_cleanup [OF claim [OF Some]]
    show ?thesis
    proof (cases "\<exists>rq. in_order i = Vm_Order rq \<and> o_domain_mode rq = CUSTOM \<and> hc_domains cfg")
      case True
      with u(1) Some show ?thesis by auto
    next
      case False
      then have "(case in_order i of Vm_Order rq \<Rightarrow> if o_domain_mode rq = CUSTOM \<and> hc_domains cfg then release_claimed v else Return ()
             | _ \<Rightarrow> Return ()) = Return ()" by (auto split: order_json.split)
      with u(2) Some show ?thesis by simp
    qed
  qed
  then obtain w1 where w1: "run_alone ?undo w = (Inr (), w1)" "unmoved w w1" by blast
  have id: "in_id i = iid" using n_intentD [OF i(1)] by simp
  from w1(2) i(1) none have n1: "n_intent w1 iid = Some i" "owed_to (od_ledger (n_db w1)) iid = []"
    by (simp_all add: unmoved_def n_intent_def)
  let ?f = "intent_refund_fields i ''provisioning_interrupted'' (in_vm_id i)"
  have owed: "is_owed ?f" using i(4,5) id by (auto simp: is_owed_def intent_refund_fields_def billable_def truthy_def split: option.splits)
  then have ev: "build_owed_event True (he_event_id env) ?f = Some (build_event (he_event_id env) (owed_event_fields ?f))"
    by (simp add: build_owed_event_Some)
  have close: "on_db (close_unpaid_order (he_later env) ''provisioning_interrupted'' i) w1 = w1"
    using i(3) by (simp add: close_unpaid_order_def on_db_def on_base_def)
  let ?w2 = "note_event (Refund_Recorded iid) (on_db (\<lambda>db. db\<lparr>od_ledger := od_ledger db @
      [build_event (he_event_id env) (owed_event_fields ?f)]\<rparr>) (set_intent iid (\<lambda>j. j\<lparr>in_status := I_REFUND_MANUAL\<rparr>) w1))"
  have ref: "native_refund True (he_event_id env) (he_later env) iid ''provisioning_interrupted'' (in_vm_id i) w1 = (Inr True, ?w2)"
    unfolding native_refund_def write_native_refund_def n1(1) option.case Let_def close n1(2) ev by (simp add: i(2))
  have "run_alone (recover_leased cfg env i) w = (Inr (), ?w2)"
    unfolding recover_leased_def record_native_intent_refund_def id
    by (simp add: run_simps run_native w1(1) wired ref)
  moreover have "n_intent ?w2 iid = Some (i\<lparr>in_status := I_REFUND_MANUAL\<rparr>)"
    using find_intent_update [of "\<lambda>j. j\<lparr>in_status := I_REFUND_MANUAL\<rparr>" i iid] n1(1) id by (simp add: n_intent_def)
  moreover have "owed_to (od_ledger (n_db ?w2)) iid = [build_event (he_event_id env) (owed_event_fields ?f)]"
    using n1(2) id by (simp add: owed_to_single owed_event_fields_def intent_refund_fields_def blank_fields_def)
  moreover have "ev_amount (build_event (he_event_id env) (owed_event_fields ?f)) = in_amount_usd i"
    by (simp add: owed_event_fields_def intent_refund_fields_def blank_fields_def)
  ultimately show ?thesis by (intro exI [of _ ?w2] exI [of _ "build_event (he_event_id env) (owed_event_fields ?f)"]
      exI [of _ "i\<lparr>in_status := I_REFUND_MANUAL\<rparr>"]) simp
qed

text \<open>C8: no paid VM intent is stuck in its handoff. In every state that a concurrent run can reach, whatever workers
  died there: if the handoff of a VM intent with a positive amount is older than the recovery delay, a recovery that is
  left to run completes, closes the intent as refunded, and leaves exactly one obligation, of the intent's amount.\<close>

theorem stale_handoff_is_refunded:
  assumes "(pool_step (native_starts cfg))\<^sup>*\<^sup>* (w0, []) (w, ps)" and "native_fresh w0"
    and "n_intent w iid = Some i" "in_status i = I_PROVISIONING" "in_resource_type i = ''vm''" "in_triggered_at i = Some t"
      "t + VM_PROVISIONING_RECOVERY_DELAY \<le> he_now env"
    and "hc_wired cfg" "billable i" "\<And>v. in_vm_id i = Some v \<Longrightarrow> single_claim v (nw_base w)"
  shows "\<exists>w' e j. run_alone (recover_interrupted cfg env iid) w = (Inr True, w') \<and>
     n_intent w' iid = Some j \<and> in_status j = I_REFUND_MANUAL \<and>
     owed_to (od_ledger (n_db w')) iid = [e] \<and> ev_amount e = in_amount_usd i"
proof -
  from native_run [OF assms(1,2)] assms(8) have inv: "native_inv True w" by simp
  from n_intentD [OF assms(3)] have id: "in_id i = iid" "i \<in> set (od_intents (n_db w))" by simp_all
  from agreesD [OF inv assms(3)] assms(4,5) id have none: "owed_to (od_ledger (n_db w)) iid = []"
    by (auto simp: intent_agrees_def vm_intent_def)
  have ne: "iid \<noteq> []" using inv id by (auto simp: native_inv_def ids_apart_def)
  let ?i = "i\<lparr>in_triggered_at := Some (he_now env)\<rparr>"
  let ?w1 = "note_event (Leased iid (he_now env)) (set_intent iid (\<lambda>j. j\<lparr>in_triggered_at := Some (he_now env)\<rparr>) w)"
  have lease: "take_lease iid (he_now env) w = (Inr True, ?w1)"
    using assms(3-7) by (simp add: take_lease_def)
  have i1: "n_intent ?w1 iid = Some ?i"
    using find_intent_update [of "\<lambda>j. j\<lparr>in_triggered_at := Some (he_now env)\<rparr>" i iid] assms(3) id by (simp add: n_intent_def)
  have "\<exists>w' e j. run_alone (recover_leased cfg env ?i) ?w1 = (Inr (), w') \<and>
     n_intent w' iid = Some j \<and> in_status j = I_REFUND_MANUAL \<and>
     owed_to (od_ledger (n_db w')) iid = [e] \<and> ev_amount e = in_amount_usd ?i"
    by (rule run_recover_leased [OF i1])
      (use assms(4,5,8-10) none ne in \<open>simp_all add: billable_def set_intent_def on_db_def on_base_def single_claim_def\<close>)
  then show ?thesis
    by (auto simp: recover_interrupted_def run_simps run_native lease i1 run_try_else)
qed


subsection \<open>Witnesses\<close>

text \<open>One paid VM intent, polled by one process; the VM needs no hypervisor.\<close>

definition demo_native_intent :: intent where
  "demo_native_intent = demo_intent\<lparr>in_order := Vm_Order demo_vm_order, in_amount_crypto := Dec 1 0\<rparr>"

definition demo_native_world :: native_world where
  "demo_native_world =
     \<lparr>nw_base = \<lparr>fw_od = demo_order_db\<lparr>od_intents := [demo_native_intent]\<rparr>, fw_zone = demo_zone, fw_vms = empty_vm_db,
        fw_calls = [], fw_inflight = {}\<rparr>,
      nw_claimed = (\<lambda>_. {}), nw_inflight = (\<lambda>_. {}), nw_log = []\<rparr>"

definition demo_handoff_cfg :: handoff_cfg where
  "demo_handoff_cfg = \<lparr>hc_wired = True, hc_domains = True, hc_store = demo_store_cfg\<lparr>sc_real := False\<rparr>, hc_wallet = demo_wallet\<rparr>"

definition demo_handoff_env :: "int \<Rightarrow> handoff_env" where
  "demo_handoff_env now = \<lparr>he_proc = ''p1'', he_now = now, he_later = now, he_event_id = ''e1'', he_vm_id = ''vm1'',
     he_gen = ''g'', he_tok = ''t'', he_anon = ''anon'', he_capacity = None, he_order = demo_order_env now,
     he_scan = (\<lambda>_. Some \<lparr>sr_received = Dec 1 0, sr_confirmations = 1, sr_tx_hash = Some ''tx''\<rparr>)\<rparr>"

abbreviation demo_poll :: "nat native" where
  "demo_poll \<equiv> seq_prog (poll_intent demo_handoff_cfg (demo_handoff_env 10) ''i1'') (Return 0)"

abbreviation demo_scan :: "nat native" where
  "demo_scan \<equiv> scan_pending_intents demo_handoff_cfg (minutes 6) (\<lambda>_. demo_handoff_env (minutes 6))"

text \<open>The worker dies right after its trigger; the poll that is not interrupted delivers; a later scan recovers.\<close>

abbreviation demo_stalled :: native_world where
  "demo_stalled \<equiv> fst (drive 4 demo_poll demo_native_world)"

lemma demo_triggered:
  "map_option (\<lambda>i. (in_status i, in_resource_type i, in_triggered_at i, in_vm_id i, in_amount_usd i)) (n_intent demo_stalled ''i1'') =
     Some (I_PROVISIONING, ''vm'', Some 10, None, Some (Dec 5 0))"
  by code_simp

lemma demo_delivered:
  "nw_log (fst (drive 40 demo_poll demo_native_world)) = [Started ''i1'' ''vm1'', Delivered ''i1'' 10, Triggered ''i1'' 10]"
  by code_simp

lemma demo_recovered:
  "map (\<lambda>i. (in_id i, in_status i, in_resource_type i, in_triggered_at i, in_amount_usd i))
      (od_intents (n_db (fst (drive 40 demo_scan demo_stalled)))) =
     [(''i1'', I_REFUND_MANUAL, ''vm'', Some (minutes 6), Some (Dec 5 0))]"
  by code_simp

lemma demo_fresh: "native_fresh demo_native_world"
  by (simp add: native_fresh_def demo_native_world_def demo_native_intent_def ids_apart_def unique_by_def demo_order_db_def
      demo_domain_order_def new_intent_def demo_intent_args_def Let_def vm_intent_def)

lemma demo_poll_starts: "demo_poll \<in> native_starts demo_handoff_cfg"
  and demo_scan_starts: "demo_scan \<in> native_starts demo_handoff_cfg"
  by (auto simp: native_starts_def)

lemma demo_run: "(pool_step (native_starts demo_handoff_cfg))\<^sup>*\<^sup>* (demo_native_world, [])
    (fst (drive n demo_poll demo_native_world), [snd (drive n demo_poll demo_native_world)])"
  using drive_started [OF demo_poll_starts, of demo_native_world "[]" n] by simp

theorem native_handoff_protocol_witness:
  "\<exists>w ps. (pool_step (native_starts demo_handoff_cfg))\<^sup>*\<^sup>* (demo_native_world, []) (w, ps) \<and>
     handed_over (nw_log w) ''i1'' \<and> (\<forall>s. Leased ''i1'' s \<notin> set [Started ''i1'' ''vm1'']) \<and>
     token_of [Triggered ''i1'' 10] ''i1'' = Some 10"
proof -
  note p = native_handoff_protocol [OF demo_run [of 40] demo_fresh, of "[Started ''i1'' ''vm1'']" "Delivered ''i1'' 10" "[Triggered ''i1'' 10]"]
  have "handed_over (nw_log (fst (drive 40 demo_poll demo_native_world))) ''i1''"
    by (simp add: demo_delivered handed_over_def)
  with p demo_run [of 40] demo_delivered show ?thesis by fastforce
qed


theorem stale_handoff_is_refunded_witness:
  "\<exists>w' e j. run_alone (recover_interrupted demo_handoff_cfg (demo_handoff_env (minutes 6)) ''i1'') demo_stalled = (Inr True, w') \<and>
     n_intent w' ''i1'' = Some j \<and> in_status j = I_REFUND_MANUAL \<and>
     owed_to (od_ledger (n_db w')) ''i1'' = [e] \<and> ev_amount e = Some (Dec 5 0)"
proof -
  from demo_triggered obtain i where i: "n_intent demo_stalled ''i1'' = Some i" "in_status i = I_PROVISIONING"
    "in_resource_type i = ''vm''" "in_triggered_at i = Some 10" "in_vm_id i = None" "in_amount_usd i = Some (Dec 5 0)"
    by auto
  then have "billable i" by (simp add: billable_def dec_le_def dec_less_def coeff_at_def pow10_def)
  with stale_handoff_is_refunded [OF demo_run [of 4] demo_fresh i(1-4), of "demo_handoff_env (minutes 6)"] i(5,6)
  show ?thesis by (simp add: demo_handoff_env_def demo_handoff_cfg_def VM_PROVISIONING_RECOVERY_DELAY_def minutes_def seconds_def)
qed

end
