(* ===== verification/Vm_Life.thy ===== *)
theory Vm_Life
  imports Vm_Store Threads
begin

text \<open>
  The life of a VM after its provisioning: expiry and its customer-visible policy (\<^verbatim>\<open>services/vm_expiry.py\<close>),
  extension, suspension, deletion, retention and recovery (\<^verbatim>\<open>services/vm_retention.py\<close>, \<^verbatim>\<open>orchestrator.py\<close>, the
  recovery and extension routes of \<^verbatim>\<open>api/admin.py\<close> and \<^verbatim>\<open>api/routes.py\<close>). Operations are programs of \<^verbatim>\<open>Threads\<close>.
  A section that holds the row locks is one action; the hypervisor is asked inside it, and what it was asked is in the
  log even when the section's commit fails.
\<close>

subsection \<open>Rows\<close>

datatype notice = Warn int | Warn_Deletion

text \<open>The columns of \<^verbatim>\<open>VMRow\<close> that the lifecycle uses, and the pending resume of a paid extension.\<close>

record resume =
  rs_receipt :: string
  rs_uuid :: string
  rs_owner :: "string option"
  rs_wallet :: string

record life_vm =
  lv_id :: string
  lv_wallet :: string
  lv_owner :: "string option"
  lv_token :: "string option"
  lv_status :: vm_status
  lv_uuid :: "string option"
  lv_prefix :: "int option"
  lv_expires :: "py_datetime option"
  lv_deletion :: "int option"
  lv_reason :: "string option"              \<comment> \<open>\<^verbatim>\<open>suspension_reason\<close>\<close>
  lv_by :: "string option"                  \<comment> \<open>\<^verbatim>\<open>suspended_by_account_id\<close>\<close>
  lv_resume :: "resume option"
  lv_transfer :: "string option option"     \<comment> \<open>owner in the pending transfer resume\<close>
  lv_deleted_uuid :: "string option"        \<comment> \<open>\<^verbatim>\<open>metadata["provider_deleted_uuid"]\<close>\<close>
  lv_notices :: "(notice \<times> int) list"     \<comment> \<open>announced for which deadline\<close>
  lv_created :: int
  lv_destroyed :: "int option"
  lv_error :: "string option"
  lv_hostname :: string
  lv_mode :: domain_mode
  lv_domain :: "string option"
  lv_config :: "string \<times> int \<times> int \<times> int \<times> string"

record manifest =
  mf_uuid :: string
  mf_disks :: "string list"
  mf_snapshots :: "string list"
  mf_auto_poweron :: bool
  mf_ha :: string
  mf_blocked :: "(string \<times> string) list"

datatype retention_state = Prepared | Retained | Restoring

record retention =
  rt_source :: string
  rt_owner :: "string option"
  rt_wallet :: string
  rt_state :: retention_state
  rt_version :: int
  rt_kind :: string
  rt_manifest :: manifest
  rt_config :: "string \<times> int \<times> int \<times> int \<times> string"
  rt_until :: int
  rt_retained_at :: "int option"
  rt_operation :: "string option"
  rt_verified :: "int option"
  rt_attempted :: "int option"
  rt_error :: "string option"
  rt_next :: "int option"

datatype restore_state = R_Pending | R_Authorized | R_Completed

record restore =
  re_vm :: string
  re_actor :: string
  re_days :: int
  re_reason :: string
  re_state :: restore_state
  re_previous :: int                        \<comment> \<open>\<^verbatim>\<open>retention_snapshot["previous_expiry"]\<close>\<close>
  re_evidence :: retention
  re_expiry :: int
  re_completed :: "int option"

subsection \<open>The expiry policy\<close>

datatype expiry_state =
  E_Active | E_Expired | E_Deletion_Eligible | E_Deleting | E_Retaining | E_Retained | E_Restoring
| E_Not_Set | E_Not_Applicable | E_Destroyed

record expiry_info =
  ei_state :: expiry_state
  ei_grace_ends :: "int option"
  ei_retained_until :: "int option"
  ei_eligible :: bool

definition plain_info :: "expiry_state \<Rightarrow> expiry_info" where
  "plain_info s = \<lparr>ei_state = s, ei_grace_ends = None, ei_retained_until = None, ei_eligible = False\<rparr>"

definition build_vm_expiry ::
    "vm_status \<Rightarrow> py_datetime option \<Rightarrow> int \<Rightarrow> int \<Rightarrow> int option \<Rightarrow> retention_state option \<Rightarrow> int option \<Rightarrow> expiry_info" where
  "build_vm_expiry status expires grace_hours now deletion ret retained_until =
     (if status = DESTROYED then plain_info E_Destroyed
      else case ret of
        Some r \<Rightarrow>
          (plain_info (case r of Prepared \<Rightarrow> E_Retaining | Retained \<Rightarrow> E_Retained | Restoring \<Rightarrow> E_Restoring))
            \<lparr>ei_retained_until := retained_until\<rparr>
      | None \<Rightarrow>
        if deletion \<noteq> None then (plain_info E_Deleting)\<lparr>ei_eligible := True\<rparr>
        else if status = FAILED then plain_info E_Not_Applicable
        else case expires of
          None \<Rightarrow> plain_info E_Not_Set
        | Some e \<Rightarrow>
          let grace_end = utc e + hours grace_hours;
              s = (if now \<le> utc e then E_Active else if now \<le> grace_end then E_Expired else E_Deletion_Eligible)
          in \<lparr>ei_state = s, ei_grace_ends = Some grace_end, ei_retained_until = None, ei_eligible = (s = E_Deletion_Eligible)\<rparr>)"

subsection \<open>The shared world\<close>

datatype life_exn = L_Runtime | L_Value | L_Provider | L_Db | L_Unknown | L_State_Unavailable | L_Http int

text \<open>Requests to the hypervisor, and the transitions the safety argument is about.\<close>

text \<open>A start by the extension, transfer or administrator flows, or one by the enabling of an account.\<close>

datatype power_call = P_Start | P_Enable | P_Reboot | P_Shutdown | P_Suspend

datatype life_event =
  Claimed string "int option" bool       \<comment> \<open>VM, expiry cutoff, with retention evidence\<close>
| Extended string int                    \<comment> \<open>VM, new expiry\<close>
| Regranted string int                   \<comment> \<open>VM, new expiry of an authorised recovery\<close>
| Recovered string
| Delete_Asked string string             \<comment> \<open>VM, guest\<close>
| Delete_Done string string
| Protect_Asked string string
| Unprotect_Asked string string
| Power_Asked power_call string string
| Freed string "string option"           \<comment> \<open>the prefix of the VM, whose guest was this\<close>

datatype life_note = Expiry_Warning int | Deletion_Warning int | Expiry_Suspended

record life_world =
  lw_vms :: "life_vm list"
  lw_retention :: "string \<rightharpoonup> retention"
  lw_restores :: "string \<rightharpoonup> restore"
  lw_accounts :: "string \<rightharpoonup> account"
  lw_attempts :: "string set"              \<comment> \<open>VMs with a guest result row\<close>
  lw_receipts :: "(string \<times> string \<times> int) list"
  lw_refunds :: "(string \<times> string) list"  \<comment> \<open>refunds of extensions: VM, receipt\<close>
  lw_jobs :: "(string \<times> bool) list"       \<comment> \<open>deferred detachments: VM, whether the prefix is freed with it\<close>
  lw_notes :: "(string \<times> life_note) list" \<comment> \<open>customer events\<close>
  lw_audit :: "(string \<times> string) list"    \<comment> \<open>audited action, VM\<close>
  lw_dispatched :: "string list"           \<comment> \<open>VMs whose provisioning was started again\<close>
  lw_log :: "life_event list"              \<comment> \<open>newest first\<close>

type_synonym 'a life = "(life_world, life_exn, 'a) prog"

record life_cfg =
  lc_grace_hours :: int
  lc_retention :: bool
  lc_retention_days :: int
  lc_verify_interval :: int
  lc_verify_retry :: int
  lc_verify_batch :: nat
  lc_warning_hours :: "int list"
  lc_deletion_warning_hours :: int
  lc_domains :: bool

text \<open>The clock, generated values and the answers of the hypervisor and the DNS service during one operation.\<close>

record life_env =
  le_now :: int
  le_receipt :: string
  le_power :: "string \<Rightarrow> string option"          \<comment> \<open>\<open>None\<close>: it raises\<close>
  le_ok :: "string \<Rightarrow> bool"                       \<comment> \<open>a call for this guest answers\<close>
  le_capture :: "string \<Rightarrow> manifest option"
  le_dns_ok :: bool
  le_detach_ok :: bool

definition life_at :: "life_world \<Rightarrow> string \<Rightarrow> life_vm option" where
  "life_at w vid = row_at lv_id vid (lw_vms w)"

definition put_life :: "life_vm \<Rightarrow> life_world \<Rightarrow> life_world" where
  "put_life r w = w\<lparr>lw_vms := put_row lv_id r (lw_vms w)\<rparr>"

definition add_event :: "life_event \<Rightarrow> life_world \<Rightarrow> life_world" where
  "add_event e w = w\<lparr>lw_log := e # lw_log w\<rparr>"

definition life_do :: "(life_world \<Rightarrow> life_world) \<Rightarrow> unit life" where
  "life_do f = transact L_Db (\<lambda>w. (Inr (), f w))"

definition life_read :: "(life_world \<Rightarrow> 'a) \<Rightarrow> 'a life" where
  "life_read f = transact L_Db (\<lambda>w. (Inr (f w), w))"

text \<open>A section under the row locks: its result, the world after its calls alone, and after its commit.\<close>

type_synonym 'a held = "(life_exn + 'a) \<times> life_world \<times> life_world"

text \<open>The flag of the result: the commit was acknowledged. A section that raises has stored nothing.\<close>

definition held_try :: "(life_world \<Rightarrow> 'a held) \<Rightarrow> ('a \<times> bool) life" where
  "held_try f = Act (\<lambda>m w. case f w of (r, called, stored) \<Rightarrow>
     (case r of
        Inl e \<Rightarrow> (called, Raise e)
      | Inr a \<Rightarrow> (if m = Refused then called else stored, Return (a, m = Answered))))"

definition leave :: "life_exn + 'a \<Rightarrow> life_world \<Rightarrow> 'a held" where
  "leave r w = (r, w, w)"

text \<open>The owner is read before the locks are taken, and must be the same afterwards.\<close>

definition locked_try :: "string \<Rightarrow> (life_vm option \<Rightarrow> life_world \<Rightarrow> 'a held) \<Rightarrow> ('a \<times> bool) life" where
  "locked_try vid body =
     bind_prog (life_read (\<lambda>w. case life_at w vid of None \<Rightarrow> None | Some r \<Rightarrow> lv_owner r)) (\<lambda>owner.
       held_try (\<lambda>w. case life_at w vid of
           None \<Rightarrow> body None w
         | Some r \<Rightarrow> if lv_owner r \<noteq> owner then leave (Inl L_Runtime) w else body (Some r) w))"

definition locked_vm :: "string \<Rightarrow> (life_vm option \<Rightarrow> life_world \<Rightarrow> 'a held) \<Rightarrow> 'a life" where
  "locked_vm vid body = bind_prog (locked_try vid body) (\<lambda>(a, acked). if acked then Return a else Raise L_Db)"

definition account_active :: "life_world \<Rightarrow> string \<Rightarrow> bool" where
  "account_active w a = (case lw_accounts w a of None \<Rightarrow> False | Some acc \<Rightarrow> ac_disabled_at acc = None)"

definition vm_owner_enabled :: "life_world \<Rightarrow> life_vm \<Rightarrow> bool" where
  "vm_owner_enabled w r = (case lv_owner r of None \<Rightarrow> True | Some a \<Rightarrow> account_active w a)"

text \<open>What a caller was authorised for.\<close>

type_synonym identity = "string \<times> string option \<times> string \<times> string option"

definition identity_of :: "life_vm \<Rightarrow> identity" where
  "identity_of r = (lv_id r, lv_owner r, lv_wallet r, lv_token r)"

definition vm_identity_matches :: "identity option \<Rightarrow> life_vm \<Rightarrow> bool" where
  "vm_identity_matches i r = (case i of None \<Rightarrow> True | Some x \<Rightarrow> x = identity_of r)"

definition identity_refused :: "identity option \<Rightarrow> life_world \<Rightarrow> life_vm \<Rightarrow> bool" where
  "identity_refused i w r \<longleftrightarrow> \<not> vm_identity_matches i r \<or> (i \<noteq> None \<and> \<not> vm_owner_enabled w r)"

definition locked_reason :: "life_vm \<Rightarrow> bool" where
  "locked_reason r \<longleftrightarrow> lv_reason r \<in> {Some ''account_disabled'', Some ''manual_admin''}"

subsection \<open>Retention evidence\<close>

text \<open>\<open>None\<close>: a \<^verbatim>\<open>ValueError\<close>.\<close>

definition prepare_retention :: "int \<Rightarrow> string \<Rightarrow> manifest \<Rightarrow> int \<Rightarrow> life_world \<Rightarrow> (retention \<times> life_world) option" where
  "prepare_retention now vid m until w =
     (case life_at w vid of
        None \<Rightarrow> None
      | Some r \<Rightarrow>
        (case lw_retention w vid of
           Some t \<Rightarrow> if rt_version t \<noteq> 2 \<or> rt_kind t \<noteq> ''whole_vm'' \<or> rt_manifest t \<noteq> m then None else Some (t, w)
         | None \<Rightarrow>
           if lv_uuid r \<noteq> Some (mf_uuid m) \<or> mf_disks m = [] \<or> lv_wallet r = [] then None
           else if until \<le> now then None
           else let t = \<lparr>rt_source = mf_uuid m, rt_owner = lv_owner r, rt_wallet = lv_wallet r, rt_state = Prepared,
                  rt_version = 2, rt_kind = ''whole_vm'', rt_manifest = m, rt_config = lv_config r, rt_until = until,
                  rt_retained_at = None, rt_operation = None, rt_verified = None, rt_attempted = None, rt_error = None,
                  rt_next = None\<rparr>
             in Some (t, w\<lparr>lw_retention := (lw_retention w)(vid \<mapsto> t)\<rparr>)))"

definition stored_manifest :: "retention \<Rightarrow> manifest option" where
  "stored_manifest t =
     (if rt_version t \<noteq> 2 \<or> rt_kind t \<noteq> ''whole_vm'' \<or> mf_uuid (rt_manifest t) \<noteq> rt_source t then None
      else if mf_disks (rt_manifest t) = [] then None
      else Some (rt_manifest t))"

text \<open>The row still is what the evidence was captured from.\<close>

definition same_resource :: "life_vm \<Rightarrow> retention \<Rightarrow> bool" where
  "same_resource r t \<longleftrightarrow> lv_uuid r = Some (rt_source t) \<and> lv_owner r = rt_owner t \<and> lv_wallet r = rt_wallet t"

definition prepare_restore ::
    "int \<Rightarrow> life_vm \<Rightarrow> string \<Rightarrow> string \<Rightarrow> int \<Rightarrow> string \<Rightarrow> life_world \<Rightarrow> (restore \<times> life_world) option" where
  "prepare_restore now r op actor day_count reason w =
     (case lw_restores w op of
        Some x \<Rightarrow> if (re_vm x, re_days x, re_reason x) \<noteq> (lv_id r, day_count, reason) then None else Some (x, w)
      | None \<Rightarrow>
        (case (lw_retention w (lv_id r), lv_expires r) of
           (Some t, Some e) \<Rightarrow>
             if rt_state t \<noteq> Retained \<or> rt_operation t \<noteq> None \<or> lv_deletion r = None \<or> \<not> same_resource r t \<or>
                \<not> (1 \<le> day_count \<and> day_count \<le> 365) \<or> strip reason = []
             then None
             else let x = \<lparr>re_vm = lv_id r, re_actor = actor, re_days = day_count, re_reason = reason, re_state = R_Pending,
                    re_previous = utc e, re_evidence = t, re_expiry = max (utc e) now + days day_count,
                    re_completed = None\<rparr>
               in Some (x, w\<lparr>lw_restores := (lw_restores w)(op \<mapsto> x),
                    lw_retention := (lw_retention w)(lv_id r \<mapsto> t\<lparr>rt_state := Restoring, rt_operation := Some op\<rparr>)\<rparr>)
         | _ \<Rightarrow> None))"

definition restore_held :: "life_vm \<Rightarrow> string \<Rightarrow> restore \<Rightarrow> life_world \<Rightarrow> retention option" where
  "restore_held r op x w =
     (case lw_retention w (lv_id r) of
        None \<Rightarrow> None
      | Some t \<Rightarrow>
        if re_vm x \<noteq> lv_id r \<or> rt_state t \<noteq> Restoring \<or> rt_operation t \<noteq> Some op \<or> lv_deletion r = None \<or>
           \<not> same_resource r t
        then None else Some t)"

definition authorize_restore :: "int \<Rightarrow> life_vm \<Rightarrow> string \<Rightarrow> restore \<Rightarrow> life_world \<Rightarrow> life_world option" where
  "authorize_restore now r op x w =
     (if re_state x \<noteq> R_Pending \<or> restore_held r op x w = None \<or>
         map_option utc (lv_expires r) \<noteq> Some (re_previous x) \<or> re_expiry x \<le> now
      then None
      else Some (add_event (Regranted (lv_id r) (re_expiry x))
        (put_life (r\<lparr>lv_expires := Some (Aware (re_expiry x) 0), lv_reason := Some ''manual_admin'', lv_by := Some (re_actor x)\<rparr>)
          (w\<lparr>lw_restores := (lw_restores w)(op \<mapsto> x\<lparr>re_state := R_Authorized\<rparr>)\<rparr>))))"

definition complete_restore :: "int \<Rightarrow> life_vm \<Rightarrow> string \<Rightarrow> restore \<Rightarrow> life_world \<Rightarrow> life_world option" where
  "complete_restore now r op x w =
     (if re_state x \<noteq> R_Authorized \<or> restore_held r op x w = None then None
      else Some (add_event (Recovered (lv_id r))
        (put_life (r\<lparr>lv_expires := Some (Aware (re_expiry x) 0), lv_deletion := None, lv_reason := Some ''manual_admin'',
             lv_by := Some (re_actor x)\<rparr>)
          (w\<lparr>lw_restores := (lw_restores w)(op \<mapsto> x\<lparr>re_state := R_Completed, re_completed := Some now\<rparr>),
             lw_retention := (lw_retention w)(lv_id r := None)\<rparr>))))"

subsection \<open>Extension\<close>

definition vm_can_extend :: "life_vm option \<Rightarrow> bool" where
  "vm_can_extend row =
     (case row of
        None \<Rightarrow> False
      | Some r \<Rightarrow> lv_expires r \<noteq> None \<and> lv_deletion r = None \<and> lv_status r \<notin> {DESTROYED, FAILED, PROVISIONING} \<and>
          \<not> locked_reason r)"

text \<open>A guest that the expiry worker stopped, although the commit after it was lost, is marked so in the session.
  \<open>None\<close>: the power state could not be verified.\<close>

definition reconcile_extension_power :: "life_env \<Rightarrow> life_vm \<Rightarrow> life_vm option" where
  "reconcile_extension_power env r =
     (case lv_expires r of
        None \<Rightarrow> Some r
      | Some e \<Rightarrow>
        if lv_deletion r \<noteq> None \<or> lv_status r \<in> {DESTROYED, FAILED, PROVISIONING} \<or> locked_reason r then Some r
        else if le_now env \<le> utc e \<or> lv_uuid r = None \<or> lv_status r = SUSPENDED then Some r
        else (case le_power env (the (lv_uuid r)) of
            None \<Rightarrow> None
          | Some p \<Rightarrow>
            if p = ''Running'' then Some r
            else if p \<noteq> ''Halted'' then None
            else Some (r\<lparr>lv_status := SUSPENDED, lv_reason := Some ''expired'', lv_by := None\<rparr>)))"

definition extended_row :: "life_env \<Rightarrow> int \<Rightarrow> life_vm \<Rightarrow> life_vm" where
  "extended_row env day_count r =
     (let expiry = max (utc (the (lv_expires r))) (le_now env) + days day_count in
      r\<lparr>lv_expires := Some (Aware expiry 0),
        lv_resume := (case lv_uuid r of
            Some u \<Rightarrow> if lv_status r = SUSPENDED
              then Some \<lparr>rs_receipt = le_receipt env, rs_uuid = u, rs_owner = lv_owner r, rs_wallet = lv_wallet r\<rparr>
              else lv_resume r
          | None \<Rightarrow> lv_resume r)\<rparr>)"

text \<open>Purchased time and its receipt, in one commit; the result is the status it was bought for.\<close>

definition extend_held :: "life_env \<Rightarrow> int \<Rightarrow> life_vm option \<Rightarrow> life_world \<Rightarrow> (vm_status \<times> string option) option held" where
  "extend_held env day_count row w =
     (case row of
        None \<Rightarrow> leave (Inr None) w
      | Some r0 \<Rightarrow>
        (case reconcile_extension_power env r0 of
           None \<Rightarrow> leave (Inr None) w
         | Some r \<Rightarrow>
           if \<not> vm_can_extend (Some r) \<or> \<not> vm_owner_enabled w r then leave (Inr None) w
           else
             let r1 = extended_row env day_count r; expiry = utc (the (lv_expires r1)) in
             (Inr (Some (lv_status r, lv_uuid r)), w,
              add_event (Extended (lv_id r) expiry)
                ((put_life r1 w)\<lparr>lw_receipts := lw_receipts w @ [(le_receipt env, lv_id r, expiry)]\<rparr>))))"

text \<open>The start of a guest whose extension was paid, under the locks.\<close>

definition resume_stale :: "life_vm \<Rightarrow> resume \<Rightarrow> bool" where
  "resume_stale r p \<longleftrightarrow>
     lv_status r \<noteq> SUSPENDED \<or> lv_deletion r \<noteq> None \<or> lv_uuid r \<noteq> Some (rs_uuid p) \<or>
     (lv_owner r, lv_wallet r) \<noteq> (rs_owner p, rs_wallet p) \<or> locked_reason r"

definition resume_held :: "life_env \<Rightarrow> life_vm option \<Rightarrow> life_world \<Rightarrow> unit held" where
  "resume_held env row w =
     (case row of
        None \<Rightarrow> leave (Inr ()) w
      | Some r \<Rightarrow>
        (case lv_resume r of
           None \<Rightarrow> leave (Inr ()) w
         | Some p \<Rightarrow>
           if resume_stale r p then (Inr (), w, put_life (r\<lparr>lv_resume := None\<rparr>) w)
           else if \<not> vm_owner_enabled w r then leave (Inr ()) w
           else
             let u = rs_uuid p; running = r\<lparr>lv_status := RUNNING, lv_reason := None, lv_by := None, lv_resume := None\<rparr> in
             (case le_power env u of
                None \<Rightarrow> leave (Inr ()) w
              | Some pw \<Rightarrow>
                if pw = ''Halted'' then
                  let called = add_event (Power_Asked P_Start (lv_id r) u) w in
                  if le_ok env u then (Inr (), called, put_life running called) else leave (Inr ()) called
                else if pw \<noteq> ''Running'' then leave (Inr ()) w
                else (Inr (), w, put_life running w))))"

definition reconcile_extension_resume :: "life_env \<Rightarrow> string \<Rightarrow> unit life" where
  "reconcile_extension_resume env vid = locked_vm vid (resume_held env)"

text \<open>After the lost answer of a commit, a fresh section waits for it and looks for the receipt.\<close>

definition find_receipt :: "life_env \<Rightarrow> life_vm option \<Rightarrow> life_world \<Rightarrow> bool held" where
  "find_receipt env row w =
     (if row = None then leave (Inl L_Unknown) w
      else leave (Inr (\<exists>x \<in> set (lw_receipts w). fst x = le_receipt env)) w)"

definition after_extension :: "life_env \<Rightarrow> string \<Rightarrow> vm_status \<times> string option \<Rightarrow> life_vm option life" where
  "after_extension env vid was =
     handle_prog
       (seq_prog
         (if fst was = SUSPENDED \<and> truthy (snd was)
          then handle_prog (reconcile_extension_resume env vid) (\<lambda>e. if e = L_Runtime then Return () else Raise e)
          else Return ())
         (bind_prog (life_read (\<lambda>w. life_at w vid))
           (\<lambda>row. case row of None \<Rightarrow> Raise L_State_Unavailable | Some r \<Rightarrow> Return (Some r))))
       (\<lambda>_. Raise L_State_Unavailable)"

text \<open>After the commit. \<open>None\<close>: rejected, or not stored.\<close>

definition settle_extension :: "life_env \<Rightarrow> string \<Rightarrow> (vm_status \<times> string option) option \<times> bool \<Rightarrow> life_vm option life" where
  "settle_extension env vid x =
     (case fst x of
        None \<Rightarrow> Return None
      | Some was \<Rightarrow>
        if snd x then after_extension env vid was
        else bind_prog (handle_prog (locked_vm vid (find_receipt env)) (\<lambda>_. Raise L_Unknown))
          (\<lambda>found. if found then after_extension env vid was else Return None))"

definition extend_vm :: "life_env \<Rightarrow> string \<Rightarrow> int \<Rightarrow> life_vm option life" where
  "extend_vm env vid day_count =
     (if day_count \<le> 0 then Raise L_Value
      else bind_prog (locked_try vid (extend_held env day_count)) (settle_extension env vid))"

text \<open>The route: identity, power and eligibility are checked and the payment is taken under the same locks. \<open>paid\<close>: the
  gate granted it; the answer of the gate otherwise is \<open>L_Http 402\<close> here.\<close>

definition extend_paid_held ::
    "life_env \<Rightarrow> identity \<Rightarrow> bool \<Rightarrow> int \<Rightarrow> life_vm option \<Rightarrow> life_world \<Rightarrow> (vm_status \<times> string option) option held" where
  "extend_paid_held env i paid day_count row w =
     (case row of
        None \<Rightarrow> leave (Inl (L_Http 404)) w
      | Some r0 \<Rightarrow>
        if i \<noteq> identity_of r0 then leave (Inl (L_Http 404)) w
        else (case reconcile_extension_power env r0 of
            None \<Rightarrow> leave (Inl (L_Http 503)) w
          | Some r \<Rightarrow>
            if \<not> vm_can_extend (Some r) \<or> \<not> vm_owner_enabled w r then leave (Inl (L_Http 409)) w
            else if \<not> paid then leave (Inl (L_Http 402)) w
            else if day_count \<le> 0 then leave (Inl L_Value) w
            else extend_held env day_count (Some r) w))"

definition refund_extension :: "life_env \<Rightarrow> string \<Rightarrow> 'a life" where
  "refund_extension env vid =
     seq_prog
       (handle_prog (life_do (\<lambda>w. w\<lparr>lw_refunds := lw_refunds w @ [(vid, le_receipt env)]\<rparr>)) (\<lambda>_. Raise (L_Http 503)))
       (Raise (L_Http 409))"

definition extend_route :: "life_env \<Rightarrow> string \<Rightarrow> identity \<Rightarrow> bool \<Rightarrow> int \<Rightarrow> life_vm life" where
  "extend_route env vid i paid day_count =
     bind_prog (locked_try vid (extend_paid_held env i paid day_count)) (\<lambda>x.
       bind_prog (handle_prog (settle_extension env vid x) (\<lambda>_. Raise (L_Http 503)))
         (\<lambda>updated. case updated of Some row \<Rightarrow> Return row | None \<Rightarrow> refund_extension env vid))"

subsection \<open>Deletion\<close>

datatype destroy_result = Not_Destroyed | Destroyed | Kept_Retained

text \<open>What the claiming section hands to the calls after it.\<close>

record claim =
  cl_uuid :: "string option"
  cl_manifest :: "manifest option"
  cl_verified :: bool
  cl_status :: vm_status
  cl_hostname :: string
  cl_mode :: domain_mode
  cl_domain :: "string option"
  cl_owner :: "string option"
  cl_unresolved :: bool

definition provider_gone :: "life_vm \<Rightarrow> bool" where
  "provider_gone r \<longleftrightarrow> lv_uuid r \<noteq> None \<and> lv_deleted_uuid r = lv_uuid r"

definition fully_destroyed :: "life_vm \<Rightarrow> bool" where
  "fully_destroyed r \<longleftrightarrow> lv_status r = DESTROYED \<and> lv_prefix r = None \<and> (lv_uuid r = None \<or> provider_gone r)"

definition still_due :: "int option \<Rightarrow> life_vm \<Rightarrow> bool" where
  "still_due before r \<longleftrightarrow>
     (case before of
        None \<Rightarrow> True
      | Some b \<Rightarrow> lv_deletion r \<noteq> None \<or> lv_status r = DESTROYED \<or>
          (lv_status r \<noteq> FAILED \<and> (case lv_expires r of None \<Rightarrow> False | Some e \<Rightarrow> utc e < b)))"

text \<open>The evidence of this deletion: stored earlier, captured now, or none.\<close>

definition claim_evidence ::
    "life_cfg \<Rightarrow> life_env \<Rightarrow> int option \<Rightarrow> life_vm \<Rightarrow> life_world \<Rightarrow> (life_exn + manifest option) \<times> life_world" where
  "claim_evidence cfg env before r w =
     (case lw_retention w (lv_id r) of
        Some t \<Rightarrow> (case stored_manifest t of None \<Rightarrow> (Inl L_Value, w) | Some m \<Rightarrow> (Inr (Some m), w))
      | None \<Rightarrow>
        if lv_status r \<noteq> DESTROYED \<and> truthy (lv_uuid r) \<and> lv_deletion r = None \<and> before \<noteq> None \<and> lc_retention cfg then
          (case le_capture env (the (lv_uuid r)) of
             None \<Rightarrow> (Inl L_Provider, w)
           | Some m \<Rightarrow>
             (case prepare_retention (le_now env) (lv_id r) m (le_now env + days (lc_retention_days cfg)) w of
                None \<Rightarrow> (Inl L_Value, w)
              | Some (t, w1) \<Rightarrow> (Inr (Some m), w1)))
        else (Inr None, w))"

text \<open>The answers that need no claim.\<close>

definition claim_answer :: "int option \<Rightarrow> identity option \<Rightarrow> bool \<Rightarrow> life_world \<Rightarrow> life_vm \<Rightarrow> destroy_result option" where
  "claim_answer before i reconcile w r =
     (let state = map_option rt_state (lw_retention w (lv_id r)) in
      if identity_refused i w r then Some Not_Destroyed
      else if fully_destroyed r then Some Destroyed
      else if \<not> still_due before r then Some Not_Destroyed
      else if reconcile \<and> state = None then Some Not_Destroyed
      else if state = Some Restoring then Some Not_Destroyed
      else if state = Some Retained \<and> before \<noteq> None then Some Kept_Retained
      else None)"

definition claim_held ::
    "life_cfg \<Rightarrow> life_env \<Rightarrow> int option \<Rightarrow> identity option \<Rightarrow> bool \<Rightarrow> life_vm option \<Rightarrow> life_world
     \<Rightarrow> (destroy_result + claim) held" where
  "claim_held cfg env before i reconcile row w =
     (case row of
        None \<Rightarrow> leave (Inr (Inl Not_Destroyed)) w
      | Some r \<Rightarrow>
        if claim_answer before i reconcile w r \<noteq> None
        then leave (Inr (Inl (the (claim_answer before i reconcile w r)))) w
        else (case claim_evidence cfg env before r w of
            (Inl e, _) \<Rightarrow> leave (Inl e) w
          | (Inr m, w1) \<Rightarrow>
            if m \<noteq> None \<and> lv_uuid r \<noteq> map_option mf_uuid m then leave (Inl L_Runtime) w
            else
              let w2 = (if lv_deletion r \<noteq> None then w1
                    else add_event (Claimed (lv_id r) before (m \<noteq> None))
                      (put_life (r\<lparr>lv_deletion := Some (le_now env)\<rparr>) w1))
              in (Inr (Inr \<lparr>cl_uuid = lv_uuid r, cl_manifest = m, cl_verified = provider_gone r, cl_status = lv_status r,
                    cl_hostname = lv_hostname r, cl_mode = lv_mode r, cl_domain = lv_domain r, cl_owner = lv_owner r,
                    cl_unresolved = (lv_uuid r = None \<and> lv_id r \<in> lw_attempts w)\<rparr>), w, w2)))"

text \<open>The guest is stopped and kept; nothing of it is released.\<close>

definition retained_vm_row :: "life_vm \<Rightarrow> life_vm" where
  "retained_vm_row r = r\<lparr>lv_status := SUSPENDED, lv_reason := (if locked_reason r then lv_reason r else Some ''expired'')\<rparr>"

definition protect_held ::
    "life_cfg \<Rightarrow> life_env \<Rightarrow> int option \<Rightarrow> manifest \<Rightarrow> life_vm option \<Rightarrow> life_world \<Rightarrow> destroy_result held" where
  "protect_held cfg env before m row w =
     (case row of
        None \<Rightarrow> leave (Inr Not_Destroyed) w
      | Some r \<Rightarrow>
        if lv_uuid r \<noteq> Some (mf_uuid m) \<or> lv_deletion r = None then leave (Inr Not_Destroyed) w
        else (case lw_retention w (lv_id r) of
            None \<Rightarrow> leave (Inl L_Runtime) w
          | Some t \<Rightarrow>
            if stored_manifest t \<noteq> Some m then leave (Inl L_Runtime) w
            else if rt_state t = Restoring then leave (Inr Not_Destroyed) w
            else if rt_state t = Retained \<and> before \<noteq> None then leave (Inr Kept_Retained) w
            else
              let called = add_event (Protect_Asked (lv_id r) (mf_uuid m)) w; now = le_now env in
              if \<not> le_ok env (mf_uuid m) then leave (Inl L_Provider) called
              else (Inr Kept_Retained, called,
                put_life (retained_vm_row r)
                  (called\<lparr>lw_retention := (lw_retention w)(lv_id r \<mapsto> t\<lparr>rt_state := Retained,
                     rt_retained_at := (if rt_retained_at t = None then Some now else rt_retained_at t),
                     rt_verified := Some now, rt_attempted := Some now, rt_error := None,
                     rt_next := Some (now + seconds (lc_verify_interval cfg))\<rparr>)\<rparr>))))"

end
