(* ===== verification/Vm_Expiry.thy ===== *)
theory Vm_Expiry
  imports Vm_Life "HOL-Library.List_Lexorder" "HOL-Library.Char_ord" "HOL-Library.Product_Lexorder"
begin

text \<open>
  Destruction, the expiry sweep, the retry sweeps, the verification of retained VMs and the administrator's actions
  on one VM (\<^verbatim>\<open>orchestrator.py\<close> from \<^verbatim>\<open>reconcile_extension_resumes\<close> on, the VM actions of \<^verbatim>\<open>api/admin.py\<close>), as
  programs over the world of \<^verbatim>\<open>Vm_Life\<close>.
\<close>

subsection \<open>Destruction\<close>

text \<open>A call that is made outside of a transaction.\<close>

definition life_call :: "(life_world \<Rightarrow> life_world) \<Rightarrow> unit life" where
  "life_call f = Act (\<lambda>m w. (f w, Return ()))"

text \<open>The check that a caller adds to the locked section; for a request of an administrator, that he still is one.\<close>

type_synonym guard = "life_world \<Rightarrow> bool"

definition admin_in_force :: "string \<Rightarrow> guard" where
  "admin_in_force actor w =
     (case lw_accounts w actor of None \<Rightarrow> False | Some a \<Rightarrow> ac_is_admin a \<and> ac_disabled_at a = None)"

definition guarded :: "guard \<Rightarrow> (life_vm option \<Rightarrow> life_world \<Rightarrow> 'a held) \<Rightarrow> life_vm option \<Rightarrow> life_world \<Rightarrow> 'a held" where
  "guarded g body row w = (if g w then body row w else leave (Inl (L_Http 403)) w)"

text \<open>The provider is asked to delete a guest without evidence, unless an earlier attempt saw it gone.\<close>

definition delete_guest :: "life_env \<Rightarrow> string \<Rightarrow> claim \<Rightarrow> unit life" where
  "delete_guest env vid c =
     (if truthy (cl_uuid c) \<and> \<not> cl_verified c then
        (let u = the (cl_uuid c) in
         seq_prog (life_call (add_event (Delete_Asked vid u)))
           (if le_ok env u then life_call (add_event (Delete_Done vid u)) else Raise L_Provider))
      else Return ())"

definition guest_settled :: "claim \<Rightarrow> bool" where
  "guest_settled c \<longleftrightarrow> truthy (cl_uuid c) \<or> (cl_status c \<noteq> PROVISIONING \<and> \<not> cl_unresolved c)"

text \<open>The DNS names of the VM; the result says that every user of its address is gone.\<close>

definition detach_names :: "life_cfg \<Rightarrow> life_env \<Rightarrow> string \<Rightarrow> claim \<Rightarrow> bool life" where
  "detach_names cfg env vid c =
     (let clean = guest_settled c \<and> (cl_hostname c = [] \<or> le_dns_ok env) in
      if cl_mode c = CUSTOM \<and> truthy (cl_domain c) then
        if lc_domains cfg \<and> cl_owner c \<noteq> None \<and> le_detach_ok env then Return clean
        else seq_prog
          (if lc_domains cfg \<and> cl_owner c \<noteq> None
           then handle_prog (life_do (\<lambda>w. w\<lparr>lw_jobs := lw_jobs w @ [(vid, clean)]\<rparr>)) (\<lambda>_. Return ())
           else Return ())
          (Return False)
      else Return clean)"

definition destroyed_row :: "life_env \<Rightarrow> claim \<Rightarrow> life_vm \<Rightarrow> life_vm" where
  "destroyed_row env c r =
     r\<lparr>lv_status := DESTROYED, lv_destroyed := Some (le_now env),
       lv_deleted_uuid := (if cl_uuid c = None then lv_deleted_uuid r else cl_uuid c)\<rparr>"

text \<open>The prefix is released with the row only when this attempt accounted for the guest the row names.\<close>

definition finalize_held :: "life_env \<Rightarrow> claim \<Rightarrow> bool \<Rightarrow> life_vm option \<Rightarrow> life_world \<Rightarrow> unit held" where
  "finalize_held env c clean row w =
     (case row of
        None \<Rightarrow> leave (Inr ()) w
      | Some r \<Rightarrow>
        let r1 = destroyed_row env c r in
        (Inr (), w,
         if clean \<and> lv_uuid r = cl_uuid c
         then add_event (Freed (lv_id r) (lv_uuid r)) (put_life (r1\<lparr>lv_prefix := None\<rparr>) w)
         else put_life r1 w))"

definition carry_out :: "life_cfg \<Rightarrow> life_env \<Rightarrow> string \<Rightarrow> int option \<Rightarrow> claim \<Rightarrow> destroy_result life" where
  "carry_out cfg env vid before c =
     (if truthy (cl_uuid c) \<and> cl_manifest c \<noteq> None
      then locked_vm vid (protect_held cfg env before (the (cl_manifest c)))
      else seq_prog (delete_guest env vid c)
        (bind_prog (detach_names cfg env vid c)
          (\<lambda>clean. seq_prog (locked_vm vid (finalize_held env c clean)) (Return Destroyed))))"

definition destroy_vm ::
    "life_cfg \<Rightarrow> life_env \<Rightarrow> int option \<Rightarrow> identity option \<Rightarrow> bool \<Rightarrow> guard \<Rightarrow> string \<Rightarrow> destroy_result life" where
  "destroy_vm cfg env before i reconcile g vid =
     bind_prog (locked_vm vid (guarded g (claim_held cfg env before i reconcile)))
       (\<lambda>r. case r of Inl x \<Rightarrow> Return x | Inr c \<Rightarrow> carry_out cfg env vid before c)"

text \<open>A deferred detachment that converged.\<close>

definition release_destroyed_prefix :: "string \<Rightarrow> unit life" where
  "release_destroyed_prefix vid =
     life_do (\<lambda>w. case life_at w vid of
        None \<Rightarrow> w
      | Some r \<Rightarrow>
        if lv_status r \<noteq> DESTROYED then w
        else if lv_uuid r \<noteq> None \<and> lv_deleted_uuid r \<noteq> lv_uuid r then w
        else if lv_uuid r = None \<and> vid \<in> lw_attempts w then w
        else add_event (Freed vid (lv_uuid r)) (put_life (r\<lparr>lv_prefix := None\<rparr>) w))"

definition reboot_vm :: "life_env \<Rightarrow> identity option \<Rightarrow> guard \<Rightarrow> string \<Rightarrow> bool life" where
  "reboot_vm env i g vid =
     locked_vm vid (guarded g (\<lambda>row w. case row of
        None \<Rightarrow> leave (Inr False) w
      | Some r \<Rightarrow>
        if \<not> truthy (lv_uuid r) \<or> lv_deletion r \<noteq> None \<or> identity_refused i w r then leave (Inr False) w
        else let called = add_event (Power_Asked P_Reboot vid (the (lv_uuid r))) w in
          leave (if le_ok env (the (lv_uuid r)) then Inr True else Inl L_Provider) called))"

subsection \<open>Retry sweeps\<close>

primrec each_prog :: "('k \<Rightarrow> 'a life) \<Rightarrow> 'k list \<Rightarrow> 'a list life" where
  "each_prog f [] = Return []"
| "each_prog f (k # ks) = bind_prog (f k) (\<lambda>a. bind_prog (each_prog f ks) (\<lambda>l. Return (a # l)))"

text \<open>One page of a retry sweep: the first hundred rows after the cursor in the order of their ids (by code points), and
  the cursor of the next.\<close>

definition retry_page :: "(life_vm \<Rightarrow> bool) \<Rightarrow> string \<Rightarrow> life_world \<Rightarrow> string list" where
  "retry_page p cursor w =
     take 100 (sort (filter (\<lambda>i. cursor < i) (map lv_id (filter p (lw_vms w)))))"

definition next_cursor :: "string list \<Rightarrow> string" where
  "next_cursor page = (if length page = 100 then last page else [])"

definition reconcile_extension_resumes :: "(string \<Rightarrow> life_env) \<Rightarrow> string \<Rightarrow> (int \<times> string) life" where
  "reconcile_extension_resumes env cursor =
     bind_prog (life_read (retry_page (\<lambda>r. lv_status r = SUSPENDED \<and> lv_resume r \<noteq> None) cursor)) (\<lambda>page.
       bind_prog
         (each_prog (\<lambda>vid. seq_prog (reconcile_extension_resume (env vid) vid)
            (life_read (\<lambda>w. case life_at w vid of None \<Rightarrow> False | Some r \<Rightarrow> lv_status r = RUNNING))) page)
         (\<lambda>resumed. Return (int (length (filter id resumed)), next_cursor page)))"

text \<open>The resume that an ownership transfer left. The recipient is the owner read before the locks are taken.\<close>

datatype transfer_outcome = Dropped life_vm | Resumed life_vm | Restarted life_vm | Left

definition unsuspended :: "life_vm \<Rightarrow> life_vm" where
  "unsuspended r = r\<lparr>lv_reason := None, lv_by := None\<rparr>"

text \<open>The guest is asked for its power state first; the result is whether the action went through.\<close>

definition power_towards :: "life_env \<Rightarrow> power_call \<Rightarrow> string \<Rightarrow> life_vm \<Rightarrow> life_world \<Rightarrow> bool \<times> life_world" where
  "power_towards env call from r w =
     (let u = the (lv_uuid r); called = add_event (Power_Asked call (lv_id r) u) w in
      case le_power env u of
        None \<Rightarrow> (False, w)
      | Some p \<Rightarrow>
        if p = from then (le_ok env u, called)
        else (p = (if from = ''Halted'' then ''Running'' else ''Halted''), w))"

definition transfer_step :: "life_env \<Rightarrow> string \<Rightarrow> life_vm \<Rightarrow> life_world \<Rightarrow> transfer_outcome \<times> life_world" where
  "transfer_step env recipient r w =
     (case lv_transfer r of
        None \<Rightarrow> (Left, w)
      | Some owner \<Rightarrow>
        if lv_owner r \<noteq> owner then (Dropped (r\<lparr>lv_transfer := None\<rparr>), w)
        else if \<not> account_active w recipient then (Left, w)
        else if lv_deletion r \<noteq> None then (Dropped (r\<lparr>lv_transfer := None\<rparr>), w)
        else if (case lv_expires r of None \<Rightarrow> False | Some e \<Rightarrow> utc e \<le> le_now env)
        then (Resumed (r\<lparr>lv_reason := Some ''expired'', lv_by := None, lv_transfer := None\<rparr>), w)
        else if lv_status r \<in> {DESTROYED, FAILED} then (Resumed ((unsuspended r)\<lparr>lv_transfer := None\<rparr>), w)
        else if lv_status r \<in> {PROVISIONING, SUSPENDED} \<and> truthy (lv_uuid r) then
          (case power_towards env P_Start ''Halted'' r w of
             (False, w1) \<Rightarrow> (Left, w1)
           | (True, w1) \<Rightarrow>
             (Resumed ((unsuspended r)\<lparr>lv_status := (if lv_status r = PROVISIONING then PROVISIONING else RUNNING),
                lv_transfer := None\<rparr>), w1))
        else if lv_status r = SUSPENDED then
          (Restarted ((unsuspended r)\<lparr>lv_status := PROVISIONING, lv_error := None, lv_transfer := None\<rparr>), w)
        else (Resumed ((unsuspended r)\<lparr>lv_transfer := None\<rparr>), w))"

text \<open>The result: whether it is done, and whether provisioning is to be started.\<close>

definition transfer_held :: "life_env \<Rightarrow> string \<Rightarrow> life_vm option \<Rightarrow> life_world \<Rightarrow> (bool \<times> bool) held" where
  "transfer_held env recipient row w =
     (case row of
        None \<Rightarrow> leave (Inr (False, False)) w
      | Some r \<Rightarrow>
        (case transfer_step env recipient r w of
            (Left, w1) \<Rightarrow> leave (Inr (False, False)) w1
          | (Dropped r1, w1) \<Rightarrow> (Inr (False, False), w1, put_life r1 w1)
          | (Resumed r1, w1) \<Rightarrow> (Inr (True, False), w1, put_life r1 w1)
          | (Restarted r1, w1) \<Rightarrow>
            (Inr (True, True), w1, (put_life r1 w1)\<lparr>lw_attempts := insert (lv_id r) (lw_attempts w1)\<rparr>)))"

text \<open>A section that does not compare the owner again.\<close>

definition row_held :: "string \<Rightarrow> (life_vm option \<Rightarrow> life_world \<Rightarrow> 'a held) \<Rightarrow> 'a life" where
  "row_held vid body =
     bind_prog (held_try (\<lambda>w. body (life_at w vid) w)) (\<lambda>(a, acked). if acked then Return a else Raise L_Db)"

definition restart_provisioning :: "string \<Rightarrow> unit life" where
  "restart_provisioning vid = life_call (\<lambda>w. w\<lparr>lw_dispatched := lw_dispatched w @ [vid]\<rparr>)"

definition reconcile_transfer_resume :: "life_env \<Rightarrow> string \<Rightarrow> bool life" where
  "reconcile_transfer_resume env vid =
     bind_prog (life_read (\<lambda>w. case life_at w vid of None \<Rightarrow> None | Some r \<Rightarrow> lv_owner r)) (\<lambda>snapshot.
       case snapshot of
         None \<Rightarrow> Return False
       | Some recipient \<Rightarrow>
         bind_prog (row_held vid (transfer_held env recipient)) (\<lambda>(result, restart).
           seq_prog (if restart then restart_provisioning vid else Return ()) (Return result)))"

definition reconcile_transfer_resumes :: "(string \<Rightarrow> life_env) \<Rightarrow> string \<Rightarrow> (int \<times> string) life" where
  "reconcile_transfer_resumes env cursor =
     bind_prog (life_read (retry_page (\<lambda>r. lv_transfer r \<noteq> None) cursor)) (\<lambda>page.
       bind_prog (each_prog (\<lambda>vid. reconcile_transfer_resume (env vid) vid) page)
         (\<lambda>results. Return (int (length (filter id results)), next_cursor page)))"

subsection \<open>The verification of retained VMs\<close>

definition still_retained :: "life_vm option \<Rightarrow> retention \<Rightarrow> bool" where
  "still_retained row t \<longleftrightarrow>
     (case row of None \<Rightarrow> False | Some r \<Rightarrow> lv_deletion r \<noteq> None \<and> lv_status r = SUSPENDED \<and> same_resource r t)"

definition verified_evidence :: "life_cfg \<Rightarrow> life_env \<Rightarrow> life_vm option \<Rightarrow> retention \<Rightarrow> retention" where
  "verified_evidence cfg env row t =
     (let now = le_now env;
          error = (if \<not> still_retained row t then Some ''lifecycle_state_changed''
            else if stored_manifest t = None \<or> \<not> le_ok env (rt_source t) then Some ''provider_verification_failed''
            else None);
          wait = (if error = None then lc_verify_interval cfg else lc_verify_retry cfg)
      in t\<lparr>rt_verified := (if error = None then Some now else rt_verified t), rt_attempted := Some now,
           rt_error := error, rt_next := Some (now + seconds wait)\<rparr>)"

definition verify_held :: "life_cfg \<Rightarrow> life_env \<Rightarrow> string \<Rightarrow> life_vm option \<Rightarrow> life_world \<Rightarrow> bool held" where
  "verify_held cfg env vid row w =
     (case lw_retention w vid of
        None \<Rightarrow> leave (Inr False) w
      | Some t \<Rightarrow>
        if rt_state t \<noteq> Retained \<or> (case rt_next t of None \<Rightarrow> False | Some d \<Rightarrow> le_now env < d)
        then leave (Inr False) w
        else (Inr True, w, w\<lparr>lw_retention := (lw_retention w)(vid \<mapsto> verified_evidence cfg env row t)\<rparr>))"

text \<open>The batch that is due, oldest first. Evidence belongs to a row, so the rows of the table enumerate it; a record
  that was never verified counts from its creation.\<close>

definition verification_due :: "life_cfg \<Rightarrow> int \<Rightarrow> (string \<Rightarrow> int) \<Rightarrow> life_world \<Rightarrow> string list" where
  "verification_due cfg now created w =
     (let due = (\<lambda>vid. case lw_retention w vid of
            None \<Rightarrow> None
          | Some t \<Rightarrow> if rt_state t = Retained \<and> (case rt_next t of None \<Rightarrow> True | Some d \<Rightarrow> d \<le> now)
              then Some (case rt_next t of None \<Rightarrow> created vid | Some d \<Rightarrow> d) else None)
      in take (lc_verify_batch cfg)
           (map snd (sort (collect_some (\<lambda>r. map_option (\<lambda>d. (d, lv_id r)) (due (lv_id r))) (lw_vms w)))))"

definition verify_retained_vms :: "life_cfg \<Rightarrow> int \<Rightarrow> (string \<Rightarrow> int) \<Rightarrow> (string \<Rightarrow> life_env) \<Rightarrow> int life" where
  "verify_retained_vms cfg now created env =
     bind_prog (life_read (verification_due cfg now created)) (\<lambda>batch.
       bind_prog (each_prog (\<lambda>vid. locked_vm vid (verify_held cfg (env vid) vid)) batch)
         (\<lambda>checked. Return (int (length (filter id checked)))))"

subsection \<open>The expiry sweep\<close>

definition emit :: "string \<Rightarrow> life_note \<Rightarrow> unit life" where
  "emit vid n = handle_prog (life_do (\<lambda>w. w\<lparr>lw_notes := lw_notes w @ [(vid, n)]\<rparr>)) (\<lambda>_. Return ())"

definition notice_sent :: "life_vm \<Rightarrow> notice \<Rightarrow> int \<Rightarrow> bool" where
  "notice_sent r n expiry \<longleftrightarrow> (n, expiry) \<in> set (lv_notices r)"

text \<open>Markers of a superseded deadline are dropped.\<close>

definition mark_notice :: "notice \<Rightarrow> int \<Rightarrow> life_vm \<Rightarrow> life_vm" where
  "mark_notice n expiry r = r\<lparr>lv_notices := filter (\<lambda>(k, e). e = expiry \<and> k \<noteq> n) (lv_notices r) @ [(n, expiry)]\<rparr>"

definition whole_hours :: "int \<Rightarrow> int" where
  "whole_hours d = max 1 (d div hours 1)"

definition warning_thresholds :: "life_cfg \<Rightarrow> int list" where
  "warning_thresholds cfg = rev (sort (remdups (filter (\<lambda>h. 0 < h) (lc_warning_hours cfg))))"

definition warnable :: "life_vm \<Rightarrow> bool" where
  "warnable r \<longleftrightarrow> lv_expires r \<noteq> None \<and> lv_deletion r = None \<and> lv_status r \<in> {READY, RUNNING}"

definition warn_held :: "life_env \<Rightarrow> int list \<Rightarrow> life_vm option \<Rightarrow> life_world \<Rightarrow> int option held" where
  "warn_held env thresholds row w =
     (case row of
        None \<Rightarrow> leave (Inr None) w
      | Some r \<Rightarrow>
        if \<not> warnable r then leave (Inr None) w
        else
          let expiry = utc (the (lv_expires r)); remaining = expiry - le_now env;
              due = filter (\<lambda>h. remaining \<le> hours h) thresholds
          in if remaining \<le> 0 \<or> due = [] \<or> notice_sent r (Warn (Min (set due))) expiry then leave (Inr None) w
             else (Inr (Some (whole_hours remaining)), w, put_life (mark_notice (Warn (Min (set due))) expiry r) w))"

definition warn_upcoming_expiries :: "life_cfg \<Rightarrow> int \<Rightarrow> (string \<Rightarrow> life_env) \<Rightarrow> unit life" where
  "warn_upcoming_expiries cfg now env =
     (let thresholds = warning_thresholds cfg in
      if thresholds = [] then Return ()
      else bind_prog
        (life_read (\<lambda>w. map lv_id (filter (\<lambda>r. warnable r \<and> now < utc (the (lv_expires r)) \<and>
           utc (the (lv_expires r)) \<le> now + hours (hd thresholds)) (lw_vms w))))
        (\<lambda>page. bind_prog
          (each_prog (\<lambda>vid. bind_prog (locked_vm vid (warn_held (env vid) thresholds))
             (\<lambda>n. case n of None \<Rightarrow> Return () | Some h \<Rightarrow> emit vid (Expiry_Warning h))) page)
          (\<lambda>_. Return ())))"

text \<open>A placeholder that was never paid.\<close>

definition stale_reservation :: "int \<Rightarrow> life_vm \<Rightarrow> bool" where
  "stale_reservation now r \<longleftrightarrow>
     lv_wallet r = [] \<and> lv_deletion r = None \<and> lv_status r = PROVISIONING \<and> lv_created r < now - minutes 15"

definition purge_reservations :: "int \<Rightarrow> unit life" where
  "purge_reservations now = life_do (\<lambda>w. w\<lparr>lw_vms := filter (\<lambda>r. \<not> stale_reservation now r) (lw_vms w)\<rparr>)"

definition sweep_candidate :: "int \<Rightarrow> life_world \<Rightarrow> life_vm \<Rightarrow> bool" where
  "sweep_candidate now w r \<longleftrightarrow>
     (lv_status r \<noteq> DESTROYED \<or>
      (case lv_uuid r of None \<Rightarrow> False | Some u \<Rightarrow> (case lv_deleted_uuid r of None \<Rightarrow> [] | Some d \<Rightarrow> d) \<noteq> u) \<or>
      lv_prefix r \<noteq> None) \<and>
     \<not> (case lw_retention w (lv_id r) of None \<Rightarrow> False | Some t \<Rightarrow> rt_state t \<in> {Retained, Restoring}) \<and>
     (lv_deletion r \<noteq> None \<or>
      (lv_status r \<noteq> FAILED \<and> (case lv_expires r of None \<Rightarrow> False | Some e \<Rightarrow> utc e < now)))"

datatype sweep_step = Skip_Vm | Warn_Owner int | Suspended bool | Delete_Due int

definition deletion_warning :: "life_cfg \<Rightarrow> life_env \<Rightarrow> life_vm \<Rightarrow> int \<Rightarrow> int option" where
  "deletion_warning cfg env r expiry =
     (let grace_end = expiry + hours (lc_grace_hours cfg); warn = lc_deletion_warning_hours cfg; now = le_now env in
      if warn \<le> 0 \<or> now < grace_end - hours warn \<or> grace_end \<le> now \<or> notice_sent r Warn_Deletion expiry then None
      else Some (whole_hours (grace_end - now)))"

definition suspended_row :: "life_vm \<Rightarrow> life_vm" where
  "suspended_row r =
     (let r1 = (if lv_status r = PROVISIONING then r else r\<lparr>lv_status := SUSPENDED\<rparr>) in
      if locked_reason r then r1 else r1\<lparr>lv_reason := Some ''expired'', lv_by := None\<rparr>)"

text \<open>The decision of the sweep.\<close>

definition delete_due :: "life_cfg \<Rightarrow> int \<Rightarrow> life_vm \<Rightarrow> bool" where
  "delete_due cfg now r \<longleftrightarrow>
     lv_deletion r \<noteq> None \<or>
     (lv_status r \<noteq> FAILED \<and>
      (case lv_expires r of None \<Rightarrow> False | Some e \<Rightarrow> utc e + hours (lc_grace_hours cfg) < now))"

definition sweep_held :: "life_cfg \<Rightarrow> life_env \<Rightarrow> life_vm option \<Rightarrow> life_world \<Rightarrow> sweep_step held" where
  "sweep_held cfg env row w =
     (case row of
        None \<Rightarrow> leave (Inr Skip_Vm) w
      | Some r \<Rightarrow>
        if fully_destroyed r then leave (Inr Skip_Vm) w
        else if lv_deletion r = None \<and> (lv_expires r = None \<or> lv_status r = FAILED) then leave (Inr Skip_Vm) w
        else if delete_due cfg (le_now env) r
        then leave (Inr (Delete_Due (le_now env - hours (lc_grace_hours cfg)))) w
        else
          let expiry = utc (the (lv_expires r)) in
          if le_now env \<le> expiry \<or> lv_status r = SUSPENDED then
            (if lv_status r = SUSPENDED \<and> lv_reason r = Some ''expired'' then
               (case deletion_warning cfg env r expiry of
                  None \<Rightarrow> leave (Inr Skip_Vm) w
                | Some h \<Rightarrow> (Inr (Warn_Owner h), w, put_life (mark_notice Warn_Deletion expiry r) w))
             else leave (Inr Skip_Vm) w)
          else if lv_status r = PROVISIONING \<and> lv_uuid r = None then leave (Inr Skip_Vm) w
          else
            let called = (if truthy (lv_uuid r) then add_event (Power_Asked P_Suspend (lv_id r) (the (lv_uuid r))) w else w) in
            if truthy (lv_uuid r) \<and> \<not> le_ok env (the (lv_uuid r)) then leave (Inr Skip_Vm) called
            else (Inr (Suspended (\<not> locked_reason r \<and> lv_status r \<noteq> PROVISIONING)), called,
                  put_life (suspended_row r) called))"

definition sweep_one :: "life_cfg \<Rightarrow> life_env \<Rightarrow> string \<Rightarrow> unit life" where
  "sweep_one cfg env vid =
     bind_prog (locked_try vid (sweep_held cfg env)) (\<lambda>(s, acked).
       case s of
         Skip_Vm \<Rightarrow> if acked then Return () else Raise L_Db
       | Warn_Owner h \<Rightarrow> if acked then emit vid (Deletion_Warning h) else Return ()
       | Suspended told \<Rightarrow>
         if \<not> acked then Raise L_Db else if told then emit vid Expiry_Suspended else Return ()
       | Delete_Due cutoff \<Rightarrow>
         if \<not> acked then Raise L_Db
         else handle_prog
           (seq_prog (destroy_vm cfg env (Some cutoff) None False (\<lambda>_. True) vid) (Return ())) (\<lambda>_. Return ()))"

definition check_expiries :: "life_cfg \<Rightarrow> int \<Rightarrow> (string \<Rightarrow> life_env) \<Rightarrow> string \<Rightarrow> string \<Rightarrow> unit life" where
  "check_expiries cfg now env resume_cursor transfer_cursor =
     seq_prog (reconcile_extension_resumes env resume_cursor)
     (seq_prog (reconcile_transfer_resumes env transfer_cursor)
     (seq_prog (handle_prog (warn_upcoming_expiries cfg now env) (\<lambda>_. Return ()))
     (seq_prog (purge_reservations now)
     (bind_prog (life_read (\<lambda>w. map lv_id (filter (sweep_candidate now w) (lw_vms w))))
       (\<lambda>page. seq_prog (each_prog (\<lambda>vid. sweep_one cfg (env vid) vid) page) (Return ()))))))"

subsection \<open>Actions of an administrator\<close>

text \<open>The audit row of an action is committed with it, or on its own before a call to the hypervisor.\<close>

definition audit :: "string \<Rightarrow> string \<Rightarrow> life_world \<Rightarrow> life_world" where
  "audit action vid w = w\<lparr>lw_audit := lw_audit w @ [(action, vid)]\<rparr>"

definition admin_locked :: "string \<Rightarrow> string \<Rightarrow> (life_vm option \<Rightarrow> life_world \<Rightarrow> 'a held) \<Rightarrow> 'a life" where
  "admin_locked actor vid body =
     bind_prog (life_read (\<lambda>w. case life_at w vid of None \<Rightarrow> None | Some r \<Rightarrow> lv_owner r)) (\<lambda>owner.
       row_held vid (guarded (admin_in_force actor) (\<lambda>row w.
         if (case row of None \<Rightarrow> False | Some r \<Rightarrow> lv_owner r \<noteq> owner) then leave (Inl (L_Http 409)) w
         else body row w)))"

text \<open>Recovery time; the power state and the suspension stay.\<close>

definition grant_held :: "life_env \<Rightarrow> int \<Rightarrow> life_vm option \<Rightarrow> life_world \<Rightarrow> int held" where
  "grant_held env day_count row w =
     (case row of
        None \<Rightarrow> leave (Inl (L_Http 404)) w
      | Some r \<Rightarrow>
        if lv_deletion r \<noteq> None \<or> lv_expires r = None \<or> lv_status r \<in> {PROVISIONING, FAILED, DESTROYED}
        then leave (Inl (L_Http 409)) w
        else
          let expiry = max (utc (the (lv_expires r))) (le_now env) + days day_count in
          (Inr expiry, w, audit ''vm.extend'' (lv_id r)
             (add_event (Extended (lv_id r) expiry) (put_life (r\<lparr>lv_expires := Some (Aware expiry 0)\<rparr>) w))))"

definition grant_time :: "life_env \<Rightarrow> string \<Rightarrow> string \<Rightarrow> int \<Rightarrow> int life" where
  "grant_time env actor vid day_count = admin_locked actor vid (grant_held env day_count)"

definition request_restore_held ::
    "life_env \<Rightarrow> string \<Rightarrow> string \<Rightarrow> int \<Rightarrow> string \<Rightarrow> life_vm option \<Rightarrow> life_world \<Rightarrow> unit held" where
  "request_restore_held env op actor day_count reason row w =
     (case row of
        None \<Rightarrow> leave (Inl (L_Http 404)) w
      | Some r \<Rightarrow>
        (case prepare_restore (le_now env) r op actor day_count reason w of
           None \<Rightarrow> leave (Inl (L_Http 409)) w
         | Some (x, w1) \<Rightarrow>
           (Inr (), w, if lw_restores w op = None then audit ''vm.restore_requested'' (lv_id r) w1 else w1)))"

definition owner_blocks_restore :: "life_world \<Rightarrow> life_vm \<Rightarrow> bool" where
  "owner_blocks_restore w r \<longleftrightarrow>
     (if truthy (lv_owner r) then \<not> account_active w (the (lv_owner r)) else lv_reason r = Some ''account_disabled'')"

text \<open>One of the two rounds of the recovery; the result is the finished operation.\<close>

definition restore_round ::
    "life_env \<Rightarrow> string \<Rightarrow> bool \<Rightarrow> life_vm option \<Rightarrow> life_world \<Rightarrow> restore option held" where
  "restore_round env op finish row w =
     (case lw_restores w op of
        None \<Rightarrow> leave (Inl (L_Http 409)) w
      | Some x \<Rightarrow>
        if re_state x = R_Completed then leave (Inr (Some x)) w
        else (case row of
            None \<Rightarrow> leave (Inl (L_Http 409)) w
          | Some r \<Rightarrow>
            (case lw_retention w (lv_id r) of
               None \<Rightarrow> leave (Inl (L_Http 409)) w
             | Some t \<Rightarrow>
               if rt_state t \<noteq> Restoring \<or> rt_operation t \<noteq> Some op \<or> lv_deletion r = None \<or> \<not> same_resource r t \<or>
                  lv_status r \<noteq> SUSPENDED \<or> owner_blocks_restore w r
               then leave (Inl (L_Http 409)) w
               else if re_state x = R_Pending then
                 (case authorize_restore (le_now env) r op x w of
                    None \<Rightarrow> leave (Inl (L_Http 409)) w
                  | Some w1 \<Rightarrow> (Inr None, w, audit ''vm.restore_authorized'' (lv_id r) w1))
               else if re_expiry x \<le> le_now env \<or> map_option utc (lv_expires r) \<noteq> Some (re_expiry x)
               then leave (Inl (L_Http 409)) w
               else if \<not> finish then leave (Inr None) w
               else if stored_manifest t = None then leave (Inl (L_Http 503)) w
               else
                 let called = add_event (Unprotect_Asked (lv_id r) (rt_source t)) w in
                 if \<not> le_ok env (rt_source t) then leave (Inl (L_Http 503)) called
                 else (case complete_restore (le_now env) r op x called of
                     None \<Rightarrow> leave (Inl L_Value) called
                   | Some w2 \<Rightarrow>
                     (Inr (Some (x\<lparr>re_state := R_Completed, re_completed := Some (le_now env)\<rparr>)), called,
                      audit ''vm.restore_completed'' (lv_id r) w2)))))"

definition restore_retained_vm :: "life_env \<Rightarrow> string \<Rightarrow> string \<Rightarrow> string \<Rightarrow> int \<Rightarrow> string \<Rightarrow> restore life" where
  "restore_retained_vm env actor vid op day_count reason =
     seq_prog (admin_locked actor vid (request_restore_held env op actor day_count reason))
       (bind_prog (admin_locked actor vid (restore_round env op False)) (\<lambda>a. case a of
          Some x \<Rightarrow> Return x
        | None \<Rightarrow> bind_prog (admin_locked actor vid (restore_round env op True))
            (\<lambda>b. case b of Some x \<Rightarrow> Return x | None \<Rightarrow> Raise (L_Http 409))))"

datatype admin_action = A_Start | A_Reboot | A_Shutdown | A_Suspend

text \<open>Why an action is refused: the checks in order, after those of the lock.\<close>

definition action_refused :: "life_env \<Rightarrow> admin_action \<Rightarrow> life_world \<Rightarrow> life_vm \<Rightarrow> bool" where
  "action_refused env a w r \<longleftrightarrow>
     (a \<in> {A_Start, A_Reboot} \<and> \<not> vm_owner_enabled w r) \<or> lv_deletion r \<noteq> None \<or> lv_status r = DESTROYED \<or>
     (a \<in> {A_Start, A_Reboot} \<and> lv_status r \<in> {FAILED, DESTROYED}) \<or> lv_status r = PROVISIONING \<or>
     (a = A_Start \<and> (case lv_expires r of None \<Rightarrow> False | Some e \<Rightarrow> utc e \<le> le_now env)) \<or>
     (a \<in> {A_Start, A_Reboot} \<and> lv_reason r = Some ''account_disabled'') \<or> \<not> truthy (lv_uuid r)"

definition act_on :: "life_env \<Rightarrow> admin_action \<Rightarrow> string \<Rightarrow> life_vm \<Rightarrow> life_world \<Rightarrow> bool \<times> life_world \<times> life_vm" where
  "act_on env a actor r w =
     (let stopped = (if lv_status r = FAILED then r else r\<lparr>lv_status := SUSPENDED\<rparr>);
          marked = (if lv_reason r = Some ''account_disabled'' then stopped
                    else stopped\<lparr>lv_reason := Some ''manual_admin'', lv_by := Some actor\<rparr>)
      in case a of
        A_Start \<Rightarrow> (case power_towards env P_Start ''Halted'' r w of
            (ok, w1) \<Rightarrow> (ok, w1, (unsuspended r)\<lparr>lv_status := RUNNING\<rparr>))
      | A_Reboot \<Rightarrow>
          (le_ok env (the (lv_uuid r)), add_event (Power_Asked P_Reboot (lv_id r) (the (lv_uuid r))) w, r)
      | A_Shutdown \<Rightarrow> (case power_towards env P_Shutdown ''Running'' r w of (ok, w1) \<Rightarrow> (ok, w1, marked))
      | A_Suspend \<Rightarrow> (case power_towards env P_Suspend ''Running'' r w of (ok, w1) \<Rightarrow> (ok, w1, marked)))"

definition action_held :: "life_env \<Rightarrow> admin_action \<Rightarrow> string \<Rightarrow> life_vm option \<Rightarrow> life_world \<Rightarrow> unit held" where
  "action_held env a actor row w =
     (case row of
        None \<Rightarrow> leave (Inl (L_Http 404)) w
      | Some r \<Rightarrow>
        if action_refused env a w r then leave (Inl (L_Http 409)) w
        else (case act_on env a actor r (audit ''vm.action.requested'' (lv_id r) w) of
            (ok, called, r1) \<Rightarrow>
              if ok then (Inr (), called, put_life r1 called) else leave (Inl L_Provider) called))"

definition vm_action :: "life_env \<Rightarrow> admin_action \<Rightarrow> string \<Rightarrow> string \<Rightarrow> unit life" where
  "vm_action env a actor vid = admin_locked actor vid (action_held env a actor)"

text \<open>The destruction asked for by an administrator.\<close>

definition admin_destroy :: "life_cfg \<Rightarrow> life_env \<Rightarrow> string \<Rightarrow> string \<Rightarrow> destroy_result life" where
  "admin_destroy cfg env actor vid =
     bind_prog (destroy_vm cfg env None None False (admin_in_force actor) vid)
       (\<lambda>x. if x = Not_Destroyed then Raise (L_Http 409) else Return x)"

text \<open>The same by the customer, whose access the route has checked.\<close>

definition customer_destroy :: "life_cfg \<Rightarrow> life_env \<Rightarrow> identity \<Rightarrow> guard \<Rightarrow> string \<Rightarrow> destroy_result life" where
  "customer_destroy cfg env i g vid =
     bind_prog (destroy_vm cfg env None (Some i) False g vid)
       (\<lambda>x. if x = Not_Destroyed then Raise (L_Http 404) else Return x)"

definition customer_reboot :: "life_env \<Rightarrow> identity \<Rightarrow> guard \<Rightarrow> string \<Rightarrow> unit life" where
  "customer_reboot env i g vid =
     bind_prog (reboot_vm env (Some i) g vid) (\<lambda>ok. if ok then Return () else Raise (L_Http 404))"

subsection \<open>Disabled accounts\<close>

text \<open>The VMs of an account that was disabled or enabled, one at a time, by the worker of
  \<^verbatim>\<open>services/admin_operations.py\<close>. The result: whether the VM counts as changed.\<close>

definition suspend_account_held ::
    "life_env \<Rightarrow> string \<Rightarrow> string option \<Rightarrow> life_vm option \<Rightarrow> life_world \<Rightarrow> bool held" where
  "suspend_account_held env account actor row w =
     (case row of
        None \<Rightarrow> leave (Inr False) w
      | Some r \<Rightarrow>
        if lv_owner r \<noteq> Some account \<or> lv_status r = DESTROYED \<or> (lv_status r = FAILED \<and> \<not> truthy (lv_uuid r))
        then leave (Inr False) w
        else (case (if truthy (lv_uuid r) then power_towards env P_Suspend ''Running'' r w else (True, w)) of
            (False, called) \<Rightarrow> leave (Inl L_Runtime) called
          | (True, called) \<Rightarrow>
            if lv_status r = SUSPENDED \<and> lv_reason r \<in> {Some ''manual_admin'', Some ''expired''}
            then leave (Inr False) called
            else (Inr True, called,
              put_life (r\<lparr>lv_status := (if lv_status r \<in> {PROVISIONING, FAILED} then lv_status r else SUSPENDED),
                lv_reason := Some ''account_disabled'', lv_by := actor\<rparr>) called)))"

text \<open>The second flag: provisioning is to be started again.\<close>

definition resume_account_held ::
    "life_env \<Rightarrow> string \<Rightarrow> life_vm option \<Rightarrow> life_world \<Rightarrow> (bool \<times> bool) held" where
  "resume_account_held env account row w =
     (case row of
        None \<Rightarrow> leave (Inr (False, False)) w
      | Some r \<Rightarrow>
        if lv_owner r \<noteq> Some account \<or> lv_reason r \<noteq> Some ''account_disabled'' then leave (Inr (False, False)) w
        else if lv_status r \<in> {DESTROYED, FAILED} then (Inr (False, False), w, put_life (unsuspended r) w)
        else if (case lv_expires r of None \<Rightarrow> False | Some e \<Rightarrow> utc e \<le> le_now env)
        then (Inr (False, False), w, put_life (r\<lparr>lv_reason := Some ''expired'', lv_by := None\<rparr>) w)
        else if truthy (lv_uuid r) then
          (case power_towards env P_Enable ''Halted'' r w of
             (False, called) \<Rightarrow> leave (Inl L_Runtime) called
           | (True, called) \<Rightarrow>
             (Inr (True, False), called,
              put_life ((unsuspended r)\<lparr>lv_status := (if lv_status r = PROVISIONING then PROVISIONING else RUNNING)\<rparr>) called))
        else if lv_status r = PROVISIONING then (Inr (True, False), w, put_life (unsuspended r) w)
        else (Inr (True, True), w,
              (put_life ((unsuspended r)\<lparr>lv_status := PROVISIONING, lv_error := None\<rparr>) w)
                \<lparr>lw_attempts := insert (lv_id r) (lw_attempts w)\<rparr>))"

definition resume_account_vm :: "life_env \<Rightarrow> string \<Rightarrow> string \<Rightarrow> bool life" where
  "resume_account_vm env account vid =
     bind_prog (row_held vid (resume_account_held env account)) (\<lambda>(counted, restart).
       seq_prog (if restart then restart_provisioning vid else Return ()) (Return counted))"

text \<open>All VMs of the account, as they were read under the lease; the count of the changed ones.\<close>

definition account_vms :: "string \<Rightarrow> life_world \<Rightarrow> string list" where
  "account_vms account w = map lv_id (filter (\<lambda>r. lv_owner r = Some account) (lw_vms w))"

definition apply_to_account ::
    "bool \<Rightarrow> (string \<Rightarrow> life_env) \<Rightarrow> string \<Rightarrow> string option \<Rightarrow> int life" where
  "apply_to_account resume env account actor =
     bind_prog (life_read (\<lambda>w. (account_active w account, account_vms account w))) (\<lambda>(enabled, vms).
       if enabled \<noteq> resume then Return 0
       else bind_prog
         (each_prog (\<lambda>vid. if resume then resume_account_vm (env vid) account vid
            else row_held vid (suspend_account_held (env vid) account actor)) vms)
         (\<lambda>changed. Return (int (length (filter id changed)))))"

subsection \<open>Everything that runs against the world\<close>

text \<open>What the rest of the service may do to it: rows are added under fresh ids, removed, and written in the columns
  that the lifecycle does not own.\<close>

definition same_life :: "life_vm \<Rightarrow> life_vm \<Rightarrow> bool" where
  "same_life r r' \<longleftrightarrow>
     lv_id r' = lv_id r \<and> lv_deletion r' = lv_deletion r \<and> lv_expires r' = lv_expires r \<and>
     lv_deleted_uuid r' = lv_deleted_uuid r \<and> lv_uuid r' \<noteq> Some [] \<and> (lv_status r' = DESTROYED \<longrightarrow> lv_status r = DESTROYED)"

definition event_vm :: "life_event \<Rightarrow> string" where
  "event_vm e = (case e of Claimed v _ _ \<Rightarrow> v | Extended v _ \<Rightarrow> v | Regranted v _ \<Rightarrow> v | Recovered v \<Rightarrow> v
     | Delete_Asked v _ \<Rightarrow> v | Delete_Done v _ \<Rightarrow> v | Protect_Asked v _ \<Rightarrow> v | Unprotect_Asked v _ \<Rightarrow> v
     | Power_Asked _ v _ \<Rightarrow> v | Freed v _ \<Rightarrow> v)"

definition unborn :: "life_world \<Rightarrow> life_vm \<Rightarrow> bool" where
  "unborn w r \<longleftrightarrow> lv_deletion r = None \<and> lv_deleted_uuid r = None \<and> lv_status r \<noteq> DESTROYED \<and> lv_uuid r \<noteq> Some [] \<and>
     (\<forall>e \<in> set (lw_log w). event_vm e \<noteq> lv_id r)"

definition foreign :: "life_world \<Rightarrow> life_world \<Rightarrow> bool" where
  "foreign w w' \<longleftrightarrow>
     lw_log w' = lw_log w \<and> lw_retention w' = lw_retention w \<and> lw_restores w' = lw_restores w \<and>
     unique_by lv_id (lw_vms w') \<and>
     (\<forall>r' \<in> set (lw_vms w'). (\<exists>r \<in> set (lw_vms w). same_life r r') \<or> unborn w r')"

inductive_set life_starts :: "life_cfg \<Rightarrow> (life_world, life_exn, unit) prog set" for cfg where
  expiries: "seq_prog (check_expiries cfg now env c1 c2) (Return ()) \<in> life_starts cfg"
| verify: "seq_prog (verify_retained_vms cfg now created env) (Return ()) \<in> life_starts cfg"
| destroy: "seq_prog (destroy_vm cfg e None i reconcile g vid) (Return ()) \<in> life_starts cfg"
| reboot: "seq_prog (reboot_vm e i g vid) (Return ()) \<in> life_starts cfg"
| release: "release_destroyed_prefix vid \<in> life_starts cfg"
| extend: "seq_prog (extend_route e vid i' paid n) (Return ()) \<in> life_starts cfg"
| extend_unpaid: "seq_prog (extend_vm e vid n) (Return ()) \<in> life_starts cfg"
| grant: "0 < n \<Longrightarrow> seq_prog (grant_time e actor vid n) (Return ()) \<in> life_starts cfg"
| restore: "seq_prog (restore_retained_vm e actor vid op n reason) (Return ()) \<in> life_starts cfg"
| action: "vm_action e a actor vid \<in> life_starts cfg"
| account: "seq_prog (apply_to_account resume env account by) (Return ()) \<in> life_starts cfg"
| transfer: "seq_prog (reconcile_transfer_resume e vid) (Return ()) \<in> life_starts cfg"
| other: "(\<And>w. unique_by lv_id (lw_vms w) \<Longrightarrow> foreign w (f w)) \<Longrightarrow> life_do f \<in> life_starts cfg"

end
