(* ===== verification/Vm_Life_Safety.thy ===== *)
theory Vm_Life_Safety
  imports Vm_Expiry
begin

text \<open>
  Safety of the VM lifecycle. The log of every concurrent run of the sweeps, the customer routes, the administrator's
  actions and any foreign writer is accepted by a protocol: a guest is deleted only under a claim made without recovery
  evidence, which nothing takes back; a claim of the expiry worker comes after the time that was last paid; evidence,
  protection and recovery go together; nothing is extended or powered under a claim.
\<close>

subsection \<open>The protocol\<close>

text \<open>The open deletion claim of a VM, with its kind: \<open>True\<close> when it keeps recovery evidence.\<close>

fun claim_of :: "life_event list \<Rightarrow> string \<Rightarrow> bool option" where
  "claim_of [] v = None"
| "claim_of (Claimed u b ev # l) v = (if u = v then Some ev else claim_of l v)"
| "claim_of (Recovered u # l) v = (if u = v then None else claim_of l v)"
| "claim_of (_ # l) v = claim_of l v"

text \<open>The expiry that was last bought or granted.\<close>

fun paid_until :: "life_event list \<Rightarrow> string \<Rightarrow> int option" where
  "paid_until [] v = None"
| "paid_until (Extended u e # l) v = (if u = v then Some e else paid_until l v)"
| "paid_until (Regranted u e # l) v = (if u = v then Some e else paid_until l v)"
| "paid_until (_ # l) v = paid_until l v"

text \<open>The recovery under the open claim has its expiry.\<close>

fun regranted :: "life_event list \<Rightarrow> string \<Rightarrow> bool" where
  "regranted [] v = False"
| "regranted (Regranted u e # l) v = (u = v \<or> regranted l v)"
| "regranted (Claimed u b ev # l) v = (u \<noteq> v \<and> regranted l v)"
| "regranted (Recovered u # l) v = (u \<noteq> v \<and> regranted l v)"
| "regranted (_ # l) v = regranted l v"

definition later :: "int option \<Rightarrow> int \<Rightarrow> bool" where
  "later p e \<longleftrightarrow> (case p of None \<Rightarrow> True | Some t \<Rightarrow> t < e)"

fun life_allowed :: "life_event \<Rightarrow> life_event list \<Rightarrow> bool" where
  "life_allowed (Claimed v b ev) l \<longleftrightarrow> claim_of l v = None \<and>
     (case b of None \<Rightarrow> \<not> ev | Some c \<Rightarrow> later (paid_until l v) c)"
| "life_allowed (Extended v e) l \<longleftrightarrow> claim_of l v = None \<and> later (paid_until l v) e"
| "life_allowed (Regranted v e) l \<longleftrightarrow> claim_of l v = Some True \<and> later (paid_until l v) e"
| "life_allowed (Recovered v) l \<longleftrightarrow> claim_of l v = Some True \<and> regranted l v"
| "life_allowed (Delete_Asked v u) l \<longleftrightarrow> claim_of l v = Some False"
| "life_allowed (Delete_Done v u) l \<longleftrightarrow> Delete_Asked v u \<in> set l"
| "life_allowed (Protect_Asked v u) l \<longleftrightarrow> claim_of l v = Some True"
| "life_allowed (Unprotect_Asked v u) l \<longleftrightarrow> claim_of l v = Some True \<and> regranted l v"
| "life_allowed (Power_Asked k v u) l \<longleftrightarrow> k \<in> {P_Enable, P_Suspend} \<or> claim_of l v = None"
| "life_allowed (Freed v g) l \<longleftrightarrow> claim_of l v = Some False \<and> (case g of None \<Rightarrow> True | Some u \<Rightarrow> Delete_Done v u \<in> set l)"

fun life_protocol :: "life_event list \<Rightarrow> bool" where
  "life_protocol [] = True"
| "life_protocol (e # l) = (life_allowed e l \<and> life_protocol l)"

lemma event_vm_simps [simp]:
  "event_vm (Claimed v b ev) = v" "event_vm (Extended v e) = v" "event_vm (Regranted v e) = v" "event_vm (Recovered v) = v"
  "event_vm (Delete_Asked v u) = v" "event_vm (Delete_Done v u) = v" "event_vm (Protect_Asked v u) = v"
  "event_vm (Unprotect_Asked v u) = v" "event_vm (Power_Asked k v u) = v" "event_vm (Freed v g) = v"
  by (simp_all add: event_vm_def)

lemma other_vm:
  assumes "event_vm e \<noteq> v"
  shows "claim_of (e # l) v = claim_of l v" "paid_until (e # l) v = paid_until l v" "regranted (e # l) v = regranted l v"
  using assms by (cases e; simp)+

lemma unseen_vm: "\<forall>e \<in> set l. event_vm e \<noteq> v \<Longrightarrow> claim_of l v = None \<and> paid_until l v = None"
  by (induction l) (auto simp: other_vm)

lemma claim_logged: "claim_of l v = Some ev \<Longrightarrow> \<exists>b. Claimed v b ev \<in> set l"
  by (induction l v rule: claim_of.induct) (auto split: if_splits)

lemma direct_claim_stays: "life_protocol l \<Longrightarrow> Claimed v b False \<in> set l \<Longrightarrow> claim_of l v = Some False"
proof (induction l)
  case (Cons e l)
  show ?case
  proof (cases "event_vm e = v")
    case True
    with Cons show ?thesis by (cases e) auto
  next
    case False
    with Cons show ?thesis by (auto simp: other_vm)
  qed
qed simp

subsection \<open>The invariant\<close>

text \<open>A row agrees with the log.\<close>

definition row_ok :: "life_event list \<Rightarrow> life_vm \<Rightarrow> bool" where
  "row_ok l r \<longleftrightarrow>
     (lv_deletion r = None \<longleftrightarrow> claim_of l (lv_id r) = None) \<and>
     (\<forall>e. paid_until l (lv_id r) = Some e \<longrightarrow> map_option utc (lv_expires r) = Some e) \<and>
     (\<forall>u. lv_deleted_uuid r = Some u \<longrightarrow> Delete_Done (lv_id r) u \<in> set l) \<and>
     lv_uuid r \<noteq> Some [] \<and>
     (lv_status r = DESTROYED \<longrightarrow> claim_of l (lv_id r) = Some False)"

definition evidence_ok :: "life_event list \<Rightarrow> (string \<rightharpoonup> retention) \<Rightarrow> (string \<rightharpoonup> restore) \<Rightarrow> bool" where
  "evidence_ok l ret res \<longleftrightarrow>
     (\<forall>v. ret v = None \<longleftrightarrow> claim_of l v \<noteq> Some True) \<and>
     (\<forall>op x. res op = Some x \<longrightarrow> re_previous x < re_expiry x) \<and>
     (\<forall>v t op. ret v = Some t \<longrightarrow> rt_state t = Restoring \<longrightarrow> rt_operation t = Some op \<longrightarrow>
        (\<exists>x. res op = Some x \<and> re_vm x = v \<and> (re_state x = R_Authorized \<longrightarrow> regranted l v)))"

definition life_inv :: "life_world \<Rightarrow> bool" where
  "life_inv w \<longleftrightarrow>
     life_protocol (lw_log w) \<and> unique_by lv_id (lw_vms w) \<and> (\<forall>r \<in> set (lw_vms w). row_ok (lw_log w) r) \<and>
     evidence_ok (lw_log w) (lw_retention w) (lw_restores w)"

definition life_seen :: "life_world \<Rightarrow> life_event set" where
  "life_seen w = set (lw_log w)"

definition grown :: "life_world \<Rightarrow> life_world \<Rightarrow> bool" where
  "grown w w' \<longleftrightarrow> life_inv w' \<and> life_seen w \<subseteq> life_seen w'"

lemma grown_refl: "life_inv w \<Longrightarrow> grown w w"
  by (simp add: grown_def)

lemma grown_trans: "grown w w' \<Longrightarrow> grown w' w'' \<Longrightarrow> grown w w''"
  by (auto simp: grown_def)

lemma row_inv: "life_inv w \<Longrightarrow> life_at w v = Some r \<Longrightarrow> row_ok (lw_log w) r \<and> lv_id r = v"
  by (auto simp: life_inv_def life_at_def dest: row_at_Some)

lemma evidence_inv: "life_inv w \<Longrightarrow> lw_retention w v = None \<longleftrightarrow> claim_of (lw_log w) v \<noteq> Some True"
  by (simp add: life_inv_def evidence_ok_def)

lemma restore_inv: "life_inv w \<Longrightarrow> lw_restores w op = Some x \<Longrightarrow> re_previous x < re_expiry x"
  by (auto simp: life_inv_def evidence_ok_def)

lemma restoring_inv:
  "life_inv w \<Longrightarrow> lw_retention w v = Some t \<Longrightarrow> rt_state t = Restoring \<Longrightarrow> rt_operation t = Some op \<Longrightarrow>
     \<exists>x. lw_restores w op = Some x \<and> re_vm x = v \<and> (re_state x = R_Authorized \<longrightarrow> regranted (lw_log w) v)"
  unfolding life_inv_def evidence_ok_def by blast

text \<open>Steps that leave the log alone.\<close>

lemma put_life_simps [simp]:
  "lw_log (put_life r w) = lw_log w" "lw_retention (put_life r w) = lw_retention w" "lw_restores (put_life r w) = lw_restores w"
  "lw_vms (put_life r w) = put_row lv_id r (lw_vms w)" "lw_accounts (put_life r w) = lw_accounts w"
  by (simp_all add: put_life_def)

lemma add_event_simps [simp]:
  "lw_log (add_event e w) = e # lw_log w" "lw_retention (add_event e w) = lw_retention w"
  "lw_restores (add_event e w) = lw_restores w" "lw_vms (add_event e w) = lw_vms w" "lw_accounts (add_event e w) = lw_accounts w"
  by (simp_all add: add_event_def)

lemma audit_simps [simp]:
  "lw_log (audit a v w) = lw_log w" "lw_retention (audit a v w) = lw_retention w" "lw_restores (audit a v w) = lw_restores w"
  "lw_vms (audit a v w) = lw_vms w" "lw_accounts (audit a v w) = lw_accounts w"
  by (simp_all add: audit_def)

lemma life_at_add [simp]: "life_at (add_event e w) v = life_at w v" "life_at (audit a u w) v = life_at w v"
  by (simp_all add: life_at_def)

lemma rows_put:
  "\<forall>x \<in> set t. row_ok l x \<Longrightarrow> row_ok l r \<Longrightarrow> \<forall>x \<in> set (put_row lv_id r t). row_ok l x"
  by (auto dest: put_row_cases)

lemma put_grown:
  assumes "life_inv w" "row_ok (lw_log w) r" "lw_log w' = lw_log w" "lw_vms w' = put_row lv_id r (lw_vms w)"
    "lw_retention w' = lw_retention w" "lw_restores w' = lw_restores w"
  shows "grown w w'"
  using assms rows_put [of "lw_vms w" "lw_log w" r] by (simp add: life_inv_def grown_def life_seen_def)

lemma same_grown:
  assumes "life_inv w" "lw_log w' = lw_log w" "lw_vms w' = lw_vms w"
    "lw_retention w' = lw_retention w" "lw_restores w' = lw_restores w"
  shows "grown w w'"
  using assms by (simp add: life_inv_def grown_def life_seen_def)

text \<open>A row that differs only in columns the log does not speak of.\<close>

definition kin :: "life_vm \<Rightarrow> life_vm \<Rightarrow> bool" where
  "kin r r' \<longleftrightarrow> lv_id r' = lv_id r \<and> lv_deletion r' = lv_deletion r \<and> lv_expires r' = lv_expires r \<and>
     lv_deleted_uuid r' = lv_deleted_uuid r \<and> lv_uuid r' = lv_uuid r \<and> (lv_status r' = DESTROYED \<longrightarrow> lv_status r = DESTROYED)"

lemma row_ok_kin: "row_ok l r \<Longrightarrow> kin r r' \<Longrightarrow> row_ok l r'"
  by (auto simp: row_ok_def kin_def)

text \<open>Events that change neither the claim nor the expiry of a VM.\<close>

fun quiet :: "life_event \<Rightarrow> bool" where
  "quiet (Claimed v b ev) = False" | "quiet (Extended v e) = False" | "quiet (Regranted v e) = False"
| "quiet (Recovered v) = False" | "quiet _ = True"

lemma quiet_same: "quiet e \<Longrightarrow> claim_of (e # l) v = claim_of l v \<and> paid_until (e # l) v = paid_until l v \<and> regranted (e # l) v = regranted l v"
  by (cases e) simp_all

lemma quiet_row: "quiet e \<Longrightarrow> row_ok l r \<Longrightarrow> row_ok (e # l) r"
  by (auto simp: row_ok_def quiet_same)

lemma quiet_grown: "life_inv w \<Longrightarrow> quiet e \<Longrightarrow> life_allowed e (lw_log w) \<Longrightarrow> grown w (add_event e w)"
  by (auto simp: life_inv_def evidence_ok_def grown_def life_seen_def quiet_same quiet_row)

text \<open>An event of one VM, with the write of its row.\<close>

lemma other_row: "event_vm e \<noteq> lv_id r \<Longrightarrow> row_ok l r \<Longrightarrow> row_ok (e # l) r"
  by (simp add: row_ok_def other_vm)

lemma event_grown:
  assumes "life_inv w" "life_allowed e (lw_log w)" "event_vm e = lv_id r" "row_ok (e # lw_log w) r"
    "lw_log w' = e # lw_log w" "lw_vms w' = put_row lv_id r (lw_vms w)"
    "evidence_ok (e # lw_log w) (lw_retention w') (lw_restores w')"
  shows "grown w w'"
proof -
  have "row_ok (e # lw_log w) x" if "x \<in> set (put_row lv_id r (lw_vms w))" for x
    using put_row_cases [OF that] assms(1,3,4) other_row by (auto simp: life_inv_def)
  with assms show ?thesis by (auto simp: life_inv_def grown_def life_seen_def)
qed

subsection \<open>Programs\<close>

abbreviation guards :: "life_event set \<Rightarrow> 'a life \<Rightarrow> bool" where
  "guards F p \<equiv> secure life_inv life_seen F p"

lemma guards_call:
  assumes "\<And>w. life_inv w \<Longrightarrow> F \<subseteq> life_seen w \<Longrightarrow> grown w (f w)"
    and "\<And>w. life_inv w \<Longrightarrow> F \<subseteq> life_seen w \<Longrightarrow> \<exists>G. G \<subseteq> life_seen (f w) \<and> guards G q"
  shows "guards F (seq_prog (life_call f) q)"
  unfolding seq_prog_def life_call_def bind_prog.simps secure_Act
  using assms by (fastforce simp: grown_def secure_def)

lemma guards_call_alone:
  assumes "\<And>w. life_inv w \<Longrightarrow> F \<subseteq> life_seen w \<Longrightarrow> grown w (f w)"
  shows "guards F (life_call f)"
  unfolding life_call_def secure_Act using assms by (simp add: grown_def)

lemma guards_do:
  assumes "\<And>w. life_inv w \<Longrightarrow> F \<subseteq> life_seen w \<Longrightarrow> grown w (f w)"
  shows "guards F (life_do f)"
  unfolding life_do_def by (rule secure_transact) (use assms in \<open>simp add: grown_def\<close>)

lemma guards_read: "guards F (life_read f)"
  unfolding life_read_def by (rule secure_transact) simp

text \<open>A locked section keeps the invariant with its calls alone and with its commit.\<close>

definition held_ok :: "life_world \<Rightarrow> 'a held \<Rightarrow> bool" where
  "held_ok w h \<longleftrightarrow> (case h of (r, called, stored) \<Rightarrow> grown w called \<and> (case r of Inl e \<Rightarrow> True | Inr a \<Rightarrow> grown w stored))"

lemma held_ok_leave: "life_inv w \<Longrightarrow> held_ok w (leave r w)"
  by (simp add: held_ok_def leave_def grown_refl split: sum.split)

lemma held_ok_called: "grown w called \<Longrightarrow> held_ok w (leave r called)"
  by (simp add: held_ok_def leave_def split: sum.split)

lemma held_ok_Inr: "grown w called \<Longrightarrow> grown w stored \<Longrightarrow> held_ok w (Inr a, called, stored)"
  by (simp add: held_ok_def)

lemma held_ok_put: "life_inv w \<Longrightarrow> grown w stored \<Longrightarrow> held_ok w (Inr a, w, stored)"
  by (simp add: held_ok_def grown_refl)

text \<open>What the section returned, in the world that its commit left.\<close>

definition held_tells :: "'a held \<Rightarrow> ('a \<Rightarrow> life_event set \<Rightarrow> bool) \<Rightarrow> bool" where
  "held_tells h Q \<longleftrightarrow> (case h of (Inr a, _, stored) \<Rightarrow> Q a (life_seen stored) | _ \<Rightarrow> True)"

lemma held_tells_mono: "held_tells h P \<Longrightarrow> (\<And>a K. P a K \<Longrightarrow> Q a K) \<Longrightarrow> held_tells h Q"
  by (auto simp: held_tells_def split: sum.splits prod.splits)

lemma guards_held_try:
  assumes "\<And>w. life_inv w \<Longrightarrow> F \<subseteq> life_seen w \<Longrightarrow> held_ok w (f w)"
    and "\<And>w. life_inv w \<Longrightarrow> F \<subseteq> life_seen w \<Longrightarrow> held_tells (f w) (\<lambda>a K. \<exists>G. G \<subseteq> K \<and> guards G (k (a, True)))"
    and "\<And>a. guards F (k (a, False))"
  shows "guards F (bind_prog (held_try f) k)"
  unfolding held_try_def bind_prog.simps secure_Act
proof (intro allI impI)
  fix m w assume w: "life_inv w" "F \<subseteq> life_seen w"
  obtain r called stored where f: "f w = (r, called, stored)" by (metis prod_cases3)
  note ok = assms(1) [OF w] and tells = assms(2) [OF w]
  let ?x = "map_prod id (\<lambda>p. bind_prog p k) (case f w of (r, called, stored) \<Rightarrow>
     (case r of Inl e \<Rightarrow> (called, Raise e) | Inr a \<Rightarrow> (if m = Refused then called else stored, Return (a, m = Answered))))"
  show "life_inv (fst ?x) \<and> life_seen w \<subseteq> life_seen (fst ?x) \<and> safe life_inv life_seen (snd ?x) (life_seen (fst ?x))"
  proof (cases r)
    case (Inl e)
    with ok f show ?thesis by (simp add: held_ok_def grown_def)
  next
    case (Inr a)
    with ok f have g: "grown w called" "grown w stored" by (simp_all add: held_ok_def)
    have no: "safe life_inv life_seen (k (a, False)) K" if "life_seen w \<subseteq> K" for K
      using assms(3) [of a] that w(2) by (auto simp: secure_def)
    have yes: "safe life_inv life_seen (k (a, True)) (life_seen stored)"
      using tells f Inr by (auto simp: held_tells_def secure_def)
    show ?thesis using f Inr g no yes by (cases m) (simp_all add: grown_def)
  qed
qed

lemma guards_held_plain:
  assumes "\<And>w. life_inv w \<Longrightarrow> F \<subseteq> life_seen w \<Longrightarrow> held_ok w (f w)" "\<And>x. guards F (k x)"
  shows "guards F (bind_prog (held_try f) k)"
proof (rule guards_held_try)
  fix w assume w: "life_inv w" "F \<subseteq> life_seen w"
  show "held_ok w (f w)" using w by (rule assms(1))
  then show "held_tells (f w) (\<lambda>a K. \<exists>G. G \<subseteq> K \<and> guards G (k (a, True)))"
  proof (cases "f w")
    case (fields r called stored)
    with \<open>held_ok w (f w)\<close> w have "F \<subseteq> life_seen stored" if "r = Inr a" for a
      using that by (auto simp: held_ok_def grown_def)
    with fields assms(2) show ?thesis by (cases r) (auto simp: held_tells_def)
  qed
qed (rule assms(2))

lemma held_owner:
  "held_ok w (case x of None \<Rightarrow> body None w | Some r \<Rightarrow> if c r then leave (Inl e) w else body (Some r) w)"
  if "life_inv w" "held_ok w (body x w)"
  using that by (cases x) (simp_all add: held_ok_leave)

lemma bind_assoc: "bind_prog (bind_prog p f) g = bind_prog p (\<lambda>a. bind_prog (f a) g)"
proof (induction p)
  case (Act h)
  then have "bind_prog (bind_prog (snd (h m w)) f) g = bind_prog (snd (h m w)) (\<lambda>a. bind_prog (f a) g)" for m w
    by (auto simp: prod_set_simps)
  then show ?case by (auto simp: prod_eq_iff fun_eq_iff)
qed simp_all

lemma seq_assoc: "seq_prog (seq_prog p q) r = seq_prog p (seq_prog q r)"
  by (simp add: seq_prog_def bind_assoc)

lemma guards_locked_try:
  assumes "\<And>w. life_inv w \<Longrightarrow> F \<subseteq> life_seen w \<Longrightarrow> held_ok w (body (life_at w vid) w)"
    and "\<And>w. life_inv w \<Longrightarrow> F \<subseteq> life_seen w \<Longrightarrow>
           held_tells (body (life_at w vid) w) (\<lambda>a K. \<exists>G. G \<subseteq> K \<and> guards G (k (a, True)))"
    and "\<And>a. guards F (k (a, False))"
  shows "guards F (bind_prog (locked_try vid body) k)"
  unfolding locked_try_def bind_assoc
proof (rule secure_bind [OF guards_read], rule guards_held_try)
  fix owner w assume w: "life_inv w" "F \<subseteq> life_seen w"
  let ?f = "case life_at w vid of None \<Rightarrow> body None w | Some r \<Rightarrow> if lv_owner r \<noteq> owner then leave (Inl L_Runtime) w else body (Some r) w"
  show "held_ok w ?f" using w(1) assms(1) [OF w] by (rule held_owner [where body = body])
  show "held_tells ?f (\<lambda>a K. \<exists>G. G \<subseteq> K \<and> guards G (k (a, True)))"
    using assms(2) [OF w] by (cases "life_at w vid") (simp_all add: held_tells_def leave_def)
qed (rule assms(3))

lemma guards_locked_plain:
  assumes "\<And>w. life_inv w \<Longrightarrow> F \<subseteq> life_seen w \<Longrightarrow> held_ok w (body (life_at w vid) w)" "\<And>x. guards F (k x)"
  shows "guards F (bind_prog (locked_try vid body) k)"
proof (unfold locked_try_def bind_assoc, rule secure_bind [OF guards_read], rule guards_held_plain)
  fix owner w assume w: "life_inv w" "F \<subseteq> life_seen w"
  show "held_ok w (case life_at w vid of None \<Rightarrow> body None w
      | Some r \<Rightarrow> if lv_owner r \<noteq> owner then leave (Inl L_Runtime) w else body (Some r) w)"
    using w(1) assms(1) [OF w] by (rule held_owner [where body = body])
qed (rule assms(2))

lemma guards_locked:
  assumes "\<And>w. life_inv w \<Longrightarrow> F \<subseteq> life_seen w \<Longrightarrow> held_ok w (body (life_at w vid) w)"
  shows "guards F (locked_vm vid body)"
  unfolding locked_vm_def
  by (rule guards_locked_plain [where body = body], rule assms) (auto intro!: secure_Return secure_Raise split: prod.split)

lemma guards_row_held:
  assumes "\<And>w. life_inv w \<Longrightarrow> F \<subseteq> life_seen w \<Longrightarrow> held_ok w (body (life_at w vid) w)"
  shows "guards F (row_held vid body)"
  unfolding row_held_def
  by (rule guards_held_plain, rule assms) (auto intro!: secure_Return secure_Raise split: prod.split)

lemma held_guarded: "life_inv w \<Longrightarrow> held_ok w (body row w) \<Longrightarrow> held_ok w (guarded g body row w)"
  by (simp add: guarded_def held_ok_leave)

lemma guards_admin:
  assumes "\<And>w. life_inv w \<Longrightarrow> F \<subseteq> life_seen w \<Longrightarrow> held_ok w (body (life_at w vid) w)"
  shows "guards F (admin_locked actor vid body)"
  unfolding admin_locked_def
  by (rule secure_bind [OF guards_read], rule guards_row_held, rule held_guarded, assumption)
    (simp add: held_ok_leave assms)

lemma guards_each: "(\<And>k. guards F (f k)) \<Longrightarrow> guards F (each_prog f ks)"
  by (induction ks) (auto intro!: secure_rules)

subsection \<open>Writes of one row\<close>

lemma kin_refl [simp]: "kin r r"
  by (simp add: kin_def)

lemma kin_trans: "kin r s \<Longrightarrow> kin s t \<Longrightarrow> kin r t"
  by (auto simp: kin_def)

lemma kin_put: "life_inv w \<Longrightarrow> life_at w v = Some r \<Longrightarrow> kin r r' \<Longrightarrow> grown w (put_life r' w)"
  by (rule put_grown) (auto dest: row_inv intro: row_ok_kin)

lemma kin_called: "grown w w1 \<Longrightarrow> life_at w1 v = Some r \<Longrightarrow> kin r r' \<Longrightarrow> grown w (put_life r' w1)"
  by (metis grown_def grown_trans kin_put)

lemma unclaimed: "life_inv w \<Longrightarrow> life_at w v = Some r \<Longrightarrow> lv_deletion r = None \<longleftrightarrow> claim_of (lw_log w) v = None"
  by (auto simp: row_ok_def dest!: row_inv)

lemma power_grown:
  assumes "life_inv w" "life_at w v = Some r" "lv_deletion r = None \<or> k \<in> {P_Enable, P_Suspend}"
  shows "grown w (add_event (Power_Asked k v u) w)"
  by (rule quiet_grown [OF assms(1)]) (use assms unclaimed [OF assms(1,2)] in auto)

lemma evidence_quiet:
  assumes "evidence_ok l ret res" "claim_of (e # l) = claim_of l" "\<And>v. regranted l v \<Longrightarrow> regranted (e # l) v"
  shows "evidence_ok (e # l) ret res"
  using assms unfolding evidence_ok_def by (simp add: fun_eq_iff) blast

text \<open>The evidence and the recoveries of one VM change.\<close>

lemma evidence_at:
  assumes ok: "evidence_ok l ret res" and e: "event_vm e = v"
    and ret: "\<And>u. u \<noteq> v \<Longrightarrow> ret' u = ret u" "ret' v = None \<longleftrightarrow> claim_of (e # l) v \<noteq> Some True"
    and res: "\<And>op x. res op = Some x \<Longrightarrow> re_vm x \<noteq> v \<Longrightarrow> res' op = Some x"
      "\<And>op x. res' op = Some x \<Longrightarrow> re_previous x < re_expiry x"
    and here: "\<And>t op. ret' v = Some t \<Longrightarrow> rt_state t = Restoring \<Longrightarrow> rt_operation t = Some op \<Longrightarrow>
        \<exists>x. res' op = Some x \<and> re_vm x = v \<and> (re_state x = R_Authorized \<longrightarrow> regranted (e # l) v)"
  shows "evidence_ok (e # l) ret' res'"
  unfolding evidence_ok_def
proof (intro conjI allI impI)
  fix u show "(ret' u = None) = (claim_of (e # l) u \<noteq> Some True)"
    using ok ret e by (cases "u = v") (auto simp: evidence_ok_def other_vm)
next
  fix u t op assume t: "ret' u = Some t" "rt_state t = Restoring" "rt_operation t = Some op"
  show "\<exists>x. res' op = Some x \<and> re_vm x = u \<and> (re_state x = R_Authorized \<longrightarrow> regranted (e # l) u)"
  proof (cases "u = v")
    case True
    with t here show ?thesis by blast
  next
    case False
    with t ret(1) have "ret u = Some t" by simp
    with ok t obtain x where "res op = Some x" "re_vm x = u" "re_state x = R_Authorized \<longrightarrow> regranted l u"
      unfolding evidence_ok_def by blast
    with res(1) False e show ?thesis by (auto simp: other_vm)
  qed
qed (rule res(2))

text \<open>The expiry moves, and the log says so.\<close>

lemma extended_grown:
  assumes inv: "life_inv w" and r: "life_at w v = Some r" "lv_deletion r = None"
    and r': "lv_id r' = v" "lv_deletion r' = None" "lv_expires r' = Some (Aware e 0)" "lv_deleted_uuid r' = lv_deleted_uuid r"
      "lv_uuid r' = lv_uuid r" "lv_status r' = DESTROYED \<longrightarrow> lv_status r = DESTROYED"
    and e: "later (map_option utc (lv_expires r)) e"
    and w': "lw_log w' = Extended v e # lw_log w" "lw_vms w' = put_row lv_id r' (lw_vms w)"
      "lw_retention w' = lw_retention w" "lw_restores w' = lw_restores w"
  shows "grown w w'"
proof (rule event_grown [OF inv, where e = "Extended v e" and r = r'])
  have ok: "row_ok (lw_log w) r" "lv_id r = v" using row_inv [OF inv r(1)] by auto
  have free: "claim_of (lw_log w) v = None" using unclaimed [OF inv r(1)] r(2) by simp
  show "life_allowed (Extended v e) (lw_log w)"
    using free ok e by (cases "paid_until (lw_log w) v") (auto simp: row_ok_def later_def)
  show "row_ok (Extended v e # lw_log w) r'" using ok r r' free by (auto simp: row_ok_def)
  show "evidence_ok (Extended v e # lw_log w) (lw_retention w') (lw_restores w')"
    using inv w' by (auto simp: life_inv_def intro!: evidence_quiet)
qed (use r' w' in simp_all)

lemma granted_later: "0 < n \<Longrightarrow> later (map_option utc x) (max (utc (the x)) now + days n)"
  by (cases x) (auto simp: later_def days_def max_def)

subsection \<open>Extension\<close>

lemma power_kin: "reconcile_extension_power env r = Some r' \<Longrightarrow> kin r r'"
  by (auto simp: reconcile_extension_power_def kin_def split: option.splits if_splits)

lemma extend_held_ok:
  assumes inv: "life_inv w" and r0: "life_at w v = Some r0" and row: "kin r0 r1" and n: "0 < n"
  shows "held_ok w (extend_held env n (Some r1) w)"
proof (cases "reconcile_extension_power env r1")
  case None
  then show ?thesis by (simp add: extend_held_def held_ok_leave inv)
next
  case (Some r)
  then have k: "kin r0 r" using power_kin row kin_trans by blast
  let ?r = "extended_row env n r"
  let ?e = "utc (the (lv_expires ?r))"
  let ?w = "add_event (Extended (lv_id r) ?e) ((put_life ?r w)\<lparr>lw_receipts := lw_receipts w @ [(le_receipt env, lv_id r, ?e)]\<rparr>)"
  show ?thesis
  proof (cases "\<not> vm_can_extend (Some r) \<or> \<not> vm_owner_enabled w r")
    case True
    with Some show ?thesis by (auto simp: extend_held_def held_ok_leave inv)
  next
    case False
    have v: "lv_id r = v" "lv_id r0 = v" using k row_inv [OF inv r0] by (simp_all add: kin_def)
    have e: "?e = max (utc (the (lv_expires r))) (le_now env) + days n" by (simp add: extended_row_def Let_def)
    have "grown w ?w"
    proof (rule extended_grown [OF inv r0, where r' = ?r and e = ?e])
      show "later (map_option utc (lv_expires r0)) ?e" unfolding e using k n by (simp add: kin_def granted_later)
      show "lv_deletion r0 = None" using False k by (simp add: vm_can_extend_def kin_def)
    qed (use False k v in \<open>auto simp: vm_can_extend_def kin_def extended_row_def Let_def split: option.splits if_splits\<close>)
    with Some False show ?thesis by (simp add: extend_held_def Let_def held_ok_put [OF inv])
  qed
qed

lemma extend_held_none: "life_inv w \<Longrightarrow> held_ok w (extend_held env n None w)"
  by (simp add: extend_held_def held_ok_leave)

lemma extend_held_any: "life_inv w \<Longrightarrow> 0 < n \<Longrightarrow> held_ok w (extend_held env n (life_at w v) w)"
  by (cases "life_at w v") (simp_all add: extend_held_none extend_held_ok)

lemma extend_paid_ok:
  assumes inv: "life_inv w"
  shows "held_ok w (extend_paid_held env i paid n (life_at w v) w)"
proof (cases "life_at w v")
  case None
  then show ?thesis by (simp add: extend_paid_held_def held_ok_leave inv)
next
  case (Some r0)
  show ?thesis
  proof (cases "reconcile_extension_power env r0")
    case None
    with Some show ?thesis by (simp add: extend_paid_held_def held_ok_leave inv)
  next
    case (Some r)
    then have "0 < n \<Longrightarrow> held_ok w (extend_held env n (Some r) w)"
      using \<open>life_at w v = Some r0\<close> extend_held_ok [OF inv] power_kin by blast
    with Some \<open>life_at w v = Some r0\<close> show ?thesis by (simp add: extend_paid_held_def held_ok_leave inv)
  qed
qed

lemma resume_held_ok:
  assumes inv: "life_inv w"
  shows "held_ok w (resume_held env (life_at w v) w)"
proof (cases "life_at w v")
  case None
  then show ?thesis by (simp add: resume_held_def held_ok_leave inv)
next
  case (Some r)
  note kp = kin_put [OF inv Some]
  have v: "lv_id r = v" using row_inv [OF inv Some] by simp
  show ?thesis
  proof (cases "lv_resume r")
    case None
    with Some show ?thesis by (simp add: resume_held_def held_ok_leave inv)
  next
    case p: (Some p)
    let ?run = "r\<lparr>lv_status := RUNNING, lv_reason := None, lv_by := None, lv_resume := None\<rparr>"
    let ?call = "add_event (Power_Asked P_Start v (rs_uuid p)) w"
    show ?thesis
    proof (cases "resume_stale r p \<or> \<not> vm_owner_enabled w r \<or> le_power env (rs_uuid p) = None")
      case True
      with Some p show ?thesis
        by (auto simp: resume_held_def held_ok_leave inv intro!: held_ok_put kp) (auto simp: kin_def)
    next
      case False
      then have "lv_deletion r = None" by (simp add: resume_stale_def)
      then have c: "grown w ?call" using power_grown [OF inv Some] by simp
      have "grown w (put_life ?run ?call)" by (rule kin_called [OF c, of v r]) (simp_all add: Some kin_def)
      moreover have "grown w (put_life ?run w)" by (rule kp) (simp add: kin_def)
      ultimately show ?thesis using Some p False c v
        by (auto simp: resume_held_def Let_def inv held_ok_leave held_ok_called held_ok_put held_ok_Inr split: option.splits)
    qed
  qed
qed

lemma guards_find_receipt: "guards F (locked_vm v (find_receipt env))"
  by (rule guards_locked) (simp add: find_receipt_def held_ok_leave)

lemma guards_resume: "guards F (reconcile_extension_resume env v)"
  unfolding reconcile_extension_resume_def by (rule guards_locked) (rule resume_held_ok)

lemma guards_after_extension: "guards F (after_extension env v was)"
  unfolding after_extension_def by (intro secure_rules guards_resume guards_read)

lemma guards_settle: "guards F (settle_extension env v x)"
  unfolding settle_extension_def by (intro secure_rules guards_after_extension guards_find_receipt)

lemma guards_extend_vm: "guards F (extend_vm env v n)"
  unfolding extend_vm_def
proof (rule secure_if [OF secure_Raise], rule guards_locked_plain)
  fix w :: life_world assume "\<not> n \<le> 0" "life_inv w"
  then show "held_ok w (extend_held env n (life_at w v) w)" by (simp add: extend_held_any)
qed (rule guards_settle)

lemma guards_refund_extension: "guards F (refund_extension env v :: 'a life)"
  unfolding refund_extension_def
  by (intro secure_rules guards_do) (simp add: same_grown)

lemma guards_extend_route: "guards F (extend_route env v i paid n)"
  unfolding extend_route_def
proof (rule guards_locked_plain)
  show "held_ok w (extend_paid_held env i paid n (life_at w v) w)" if "life_inv w" for w
    using that by (rule extend_paid_ok)
qed (auto intro!: secure_rules guards_settle guards_refund_extension split: option.split)

lemma guards_grant: "0 < n \<Longrightarrow> guards F (grant_time env actor v n)"
  unfolding grant_time_def
proof (rule guards_admin)
  fix w assume inv: "life_inv w" and n: "0 < n"
  show "held_ok w (grant_held env n (life_at w v) w)"
  proof (cases "life_at w v")
    case (Some r)
    let ?e = "max (utc (the (lv_expires r))) (le_now env) + days n"
    let ?w = "audit ''vm.extend'' v (add_event (Extended v ?e) (put_life (r\<lparr>lv_expires := Some (Aware ?e 0)\<rparr>) w))"
    have v: "lv_id r = v" using row_inv [OF inv Some] by simp
    have "grown w ?w" if "lv_deletion r = None"
      by (rule extended_grown [OF inv Some that]) (use v that granted_later [OF n] in auto)
    with Some v show ?thesis by (auto simp: grant_held_def Let_def held_ok_leave inv intro!: held_ok_put)
  qed (simp add: grant_held_def held_ok_leave inv)
qed

subsection \<open>Deletion\<close>

lemma prepare_retention_new:
  assumes "lw_retention w v = None" "prepare_retention now v m until w = Some (t, w1)"
  shows "w1 = w\<lparr>lw_retention := (lw_retention w)(v \<mapsto> t)\<rparr> \<and> rt_state t = Prepared"
  using assms by (auto simp: prepare_retention_def Let_def split: option.splits if_splits)

text \<open>The evidence that a claim finds or stores.\<close>

lemma claim_evidence_cases:
  assumes inv: "life_inv w" and r: "life_at w v = Some r" and ev: "claim_evidence cfg env before r w = (Inr m, w1)"
  obtains (stored) "w1 = w" "m \<noteq> None" "claim_of (lw_log w) v = Some True"
  | (fresh) t where "w1 = w\<lparr>lw_retention := (lw_retention w)(v \<mapsto> t)\<rparr>" "rt_state t = Prepared" "m \<noteq> None"
      "lv_deletion r = None" "before \<noteq> None"
  | (none) "w1 = w" "m = None" "claim_of (lw_log w) v \<noteq> Some True"
proof -
  have v: "lv_id r = v" using row_inv [OF inv r] by simp
  show thesis
  proof (cases "lw_retention w v")
    case (Some t)
    with evidence_inv [OF inv, of v] have c: "claim_of (lw_log w) v = Some True" by simp
    from Some ev v have "m \<noteq> None" "w1 = w"
      by (simp_all add: claim_evidence_def split: option.splits) (metis option.distinct(1))
    with c stored show thesis by blast
  next
    case None
    then have no: "claim_of (lw_log w) v \<noteq> Some True" using evidence_inv [OF inv, of v] by simp
    show thesis
    proof (cases "lv_status r \<noteq> DESTROYED \<and> truthy (lv_uuid r) \<and> lv_deletion r = None \<and> before \<noteq> None \<and> lc_retention cfg")
      case True
      with ev v None obtain t m1 where t: "prepare_retention (le_now env) v m1 (le_now env + days (lc_retention_days cfg)) w = Some (t, w1)"
        "m = Some m1" by (auto simp: claim_evidence_def split: option.splits)
      from prepare_retention_new [OF None t(1)] True t(2) fresh show thesis by blast
    next
      case False
      with ev v None no none show thesis by (auto simp: claim_evidence_def)
    qed
  qed
qed

text \<open>The claim itself.\<close>

lemma claim_grown:
  assumes inv: "life_inv w" and r: "life_at w v = Some r" "lv_deletion r = None" and due: "still_due before r"
    and ev: "claim_evidence cfg env before r w = (Inr m, w1)"
  shows "grown w (add_event (Claimed v before (m \<noteq> None)) (put_life (r\<lparr>lv_deletion := Some now\<rparr>) w1))"
    (is "grown w ?w")
proof -
  let ?e = "Claimed v before (m \<noteq> None)"
  let ?r = "r\<lparr>lv_deletion := Some now\<rparr>"
  have ok: "row_ok (lw_log w) r" "lv_id r = v" using row_inv [OF inv r(1)] by auto
  have free: "claim_of (lw_log w) v = None" using unclaimed [OF inv r(1)] r(2) by simp
  then have live: "lv_status r \<noteq> DESTROYED" using ok by (auto simp: row_ok_def)
  have later: "later (paid_until (lw_log w) v) c" if "before = Some c" for c
  proof (cases "paid_until (lw_log w) v")
    case (Some e)
    with ok have "map_option utc (lv_expires r) = Some e" by (simp add: row_ok_def)
    with due live r(2) that Some show ?thesis by (auto simp: still_due_def later_def)
  qed (simp add: later_def)
  have same: "lw_vms w1 = lw_vms w \<and> lw_log w1 = lw_log w \<and> lw_restores w1 = lw_restores w"
    using claim_evidence_cases [OF inv r(1) ev] by cases simp_all
  have e_ok: "evidence_ok (?e # lw_log w) (lw_retention w1) (lw_restores w)"
  proof (rule evidence_at [of "lw_log w" "lw_retention w" "lw_restores w" ?e v])
    show "(lw_retention w1 v = None) = (claim_of (?e # lw_log w) v \<noteq> Some True)"
      using claim_evidence_cases [OF inv r(1) ev] free evidence_inv [OF inv, of v] by cases auto
    show "\<exists>x. lw_restores w op = Some x \<and> re_vm x = v \<and> (re_state x = R_Authorized \<longrightarrow> regranted (?e # lw_log w) v)"
      if "lw_retention w1 v = Some t" "rt_state t = Restoring" "rt_operation t = Some op" for t op
      using claim_evidence_cases [OF inv r(1) ev] free evidence_inv [OF inv, of v] that by cases auto
    show "lw_retention w1 u = lw_retention w u" if "u \<noteq> v" for u
      using claim_evidence_cases [OF inv r(1) ev] that by cases auto
  qed (use inv restore_inv [OF inv] in \<open>auto simp: life_inv_def\<close>)
  show ?thesis
  proof (rule event_grown [OF inv, where e = ?e and r = ?r])
    show "life_allowed ?e (lw_log w)"
      using claim_evidence_cases [OF inv r(1) ev] free later by cases (auto split: option.split)
    show "row_ok (?e # lw_log w) ?r" using ok live by (auto simp: row_ok_def)
  qed (use ok same e_ok in auto)
qed

text \<open>What a claim without evidence tells the calls that follow it.\<close>

definition claim_facts :: "string \<Rightarrow> claim \<Rightarrow> life_event set \<Rightarrow> bool" where
  "claim_facts v c K \<longleftrightarrow> cl_uuid c \<noteq> Some [] \<and>
     (cl_manifest c = None \<longrightarrow> (\<exists>b. Claimed v b False \<in> K)) \<and> (cl_manifest c \<noteq> None \<longrightarrow> truthy (cl_uuid c)) \<and>
     (\<forall>u. cl_verified c \<longrightarrow> cl_uuid c = Some u \<longrightarrow> Delete_Done v u \<in> K)"

lemma claim_held_cases:
  assumes "life_inv w" "life_at w v = Some r"
  obtains (left) x where "claim_held cfg env before i reconcile (Some r) w = leave x w" "\<And>c. x \<noteq> Inr (Inr c)"
  | (claimed) m w1 c w2 where "claim_held cfg env before i reconcile (Some r) w = (Inr (Inr c), w, w2)"
      "claim_evidence cfg env before r w = (Inr m, w1)" "still_due before r"
      "w2 = (if lv_deletion r \<noteq> None then w1
         else add_event (Claimed v before (m \<noteq> None)) (put_life (r\<lparr>lv_deletion := Some (le_now env)\<rparr>) w1))"
      "cl_uuid c = lv_uuid r" "cl_manifest c = m" "cl_verified c = provider_gone r" "m \<noteq> None \<longrightarrow> lv_uuid r \<noteq> None"
proof -
  have v: "lv_id r = v" using row_inv [OF assms] by simp
  obtain x w1 where ev: "claim_evidence cfg env before r w = (x, w1)" by fastforce
  show thesis
  proof (cases "claim_answer before i reconcile w r")
    case (Some a)
    show thesis by (rule left [of "Inr (Inl a)"]) (simp_all add: claim_held_def Some)
  next
    case None
    then have due: "still_due before r" by (auto simp: claim_answer_def Let_def split: if_splits)
    show thesis
    proof (cases x)
      case (Inl e)
      show thesis by (rule left [of "Inl e"]) (simp_all add: claim_held_def None ev Inl)
    next
      case (Inr m)
      show thesis
      proof (cases "m \<noteq> None \<and> lv_uuid r \<noteq> map_option mf_uuid m")
        case True
        show thesis by (rule left [of "Inl L_Runtime"]) (use True in \<open>simp_all add: claim_held_def None ev Inr\<close>)
      next
        case False
        let ?c = "\<lparr>cl_uuid = lv_uuid r, cl_manifest = m, cl_verified = provider_gone r, cl_status = lv_status r,
          cl_hostname = lv_hostname r, cl_mode = lv_mode r, cl_domain = lv_domain r, cl_owner = lv_owner r,
          cl_unresolved = (lv_uuid r = None \<and> lv_id r \<in> lw_attempts w)\<rparr>"
        from False have no: "\<not> (m \<noteq> None \<and> lv_uuid r \<noteq> map_option mf_uuid m)" .
        show thesis
          by (rule claimed [where c = ?c, OF _ ev [unfolded Inr] due refl])
            (use no in \<open>simp_all only: claim_held_def None ev Inr no Let_def v option.case sum.case prod.case if_False
              claim.simps not_not simp_thms, auto\<close>)
      qed
    qed
  qed
qed

text \<open>The claiming section: its world, and what a claim without evidence makes known.\<close>

lemma evidence_grown:
  assumes inv: "life_inv w" and r: "life_at w v = Some r" "lv_deletion r \<noteq> None"
    and ev: "claim_evidence cfg env before r w = (Inr m, w1)"
  shows "w1 = w \<and> (m = None \<longrightarrow> (\<exists>b. Claimed v b False \<in> life_seen w))"
proof (cases rule: claim_evidence_cases [OF inv r(1) ev, case_names stored fresh none])
  case none
  from unclaimed [OF inv r(1)] r(2) obtain k where "claim_of (lw_log w) v = Some k" by auto
  with none show ?thesis by (cases k) (auto simp: life_seen_def dest: claim_logged)
qed (use r in auto)

lemma claim_held_ok:
  assumes inv: "life_inv w"
  shows "held_ok w (claim_held cfg env before i reconcile (life_at w v) w)"
    and "held_tells (claim_held cfg env before i reconcile (life_at w v) w)
           (\<lambda>x K. life_seen w \<subseteq> K \<and> (\<forall>c. x = Inr c \<longrightarrow> claim_facts v c K))" (is "held_tells ?h ?Q")
proof -
  have "held_ok w ?h \<and> held_tells ?h ?Q"
  proof (cases "life_at w v")
    case None
    then have "?h = leave (Inr (Inl Not_Destroyed)) w" by (simp add: claim_held_def)
    then show ?thesis using inv by (simp add: held_ok_leave) (simp add: held_tells_def leave_def)
  next
    case (Some r)
    have ok: "row_ok (lw_log w) r" "lv_id r = v" using row_inv [OF inv Some] by auto
    show ?thesis
    proof (cases rule: claim_held_cases [OF inv Some, of cfg env before i reconcile, case_names left claimed])
      case (left x)
      have "held_ok w (leave x w)" by (rule held_ok_leave [OF inv])
      moreover have "held_tells (leave x w) ?Q" using left(2) by (auto simp: held_tells_def leave_def split: sum.split)
      ultimately show ?thesis using left(1) by (simp add: Some)
    next
      case (claimed m w1 c w2)
      have verified: "Delete_Done v u \<in> life_seen w" if "cl_verified c" "cl_uuid c = Some u" for u
        using that claimed ok by (auto simp: provider_gone_def row_ok_def life_seen_def)
      have "grown w w2 \<and> (m = None \<longrightarrow> (\<exists>b. Claimed v b False \<in> life_seen w2))"
      proof (cases "lv_deletion r = None")
        case True
        with claimed have "w2 = add_event (Claimed v before (m \<noteq> None)) (put_life (r\<lparr>lv_deletion := Some (le_now env)\<rparr>) w1)" by simp
        with claim_grown [OF inv Some True claimed(3) claimed(2)] show ?thesis by (auto simp: life_seen_def)
      next
        case False
        with claimed have "w2 = w1" by simp
        with evidence_grown [OF inv Some False claimed(2)] show ?thesis by (simp add: grown_refl inv)
      qed
      with claimed verified ok show ?thesis unfolding Some
        by (auto simp: held_ok_put inv held_tells_def claim_facts_def row_ok_def grown_def truthy_def split: option.split)
    qed
  qed
  then show "held_ok w ?h" "held_tells ?h ?Q" by auto
qed

lemma kept_grown:
  assumes inv: "life_inv w" and r: "life_at w v = Some r" and t: "lw_retention w v = Some t" and k: "kin r r'"
    and w': "lw_log w' = lw_log w" "lw_vms w' = put_row lv_id r' (lw_vms w)" "lw_restores w' = lw_restores w"
      "lw_retention w' = (lw_retention w)(v \<mapsto> t')" and t': "rt_state t' \<noteq> Restoring"
  shows "grown w w'"
proof -
  have "row_ok (lw_log w) r'" using row_inv [OF inv r] k by (auto intro: row_ok_kin)
  then have "\<forall>x \<in> set (put_row lv_id r' (lw_vms w)). row_ok (lw_log w) x"
    using inv by (intro rows_put) (auto simp: life_inv_def)
  moreover have "evidence_ok (lw_log w) (lw_retention w') (lw_restores w')"
    using inv t w' t' evidence_inv [OF inv, of v] by (auto simp: life_inv_def evidence_ok_def)
  ultimately show ?thesis using inv w' by (auto simp: life_inv_def grown_def life_seen_def)
qed

lemma protect_held_ok:
  assumes inv: "life_inv w"
  shows "held_ok w (protect_held cfg env before m (life_at w v) w)"
proof (cases "life_at w v")
  case None
  then show ?thesis by (simp add: protect_held_def held_ok_leave inv)
next
  case (Some r)
  have v: "lv_id r = v" using row_inv [OF inv Some] by simp
  show ?thesis
  proof (cases "lw_retention w v")
    case None
    with Some v show ?thesis by (simp add: protect_held_def held_ok_leave inv)
  next
    case t: (Some t)
    let ?called = "add_event (Protect_Asked v (mf_uuid m)) w"
    have "claim_of (lw_log w) v = Some True" using evidence_inv [OF inv, of v] t by simp
    then have c: "grown w ?called" by (intro quiet_grown [OF inv]) simp_all
    have k: "kin r (retained_vm_row r)" by (simp add: kin_def retained_vm_row_def)
    have "grown w (put_life (retained_vm_row r) (?called\<lparr>lw_retention := (lw_retention w)(v \<mapsto> t')\<rparr>))"
      if "rt_state t' \<noteq> Restoring" for t'
    proof (rule grown_trans [OF c], rule kept_grown [where v = v and r = r and r' = "retained_vm_row r" and t = t and t' = t'])
      show "life_inv ?called" using c by (simp add: grown_def)
    qed (use Some t k that in \<open>simp_all add: life_at_def\<close>)
    then show ?thesis using Some t v c
      by (auto simp: protect_held_def Let_def held_ok_leave inv held_ok_called intro!: held_ok_Inr)
  qed
qed

lemma finalize_held_ok:
  assumes inv: "life_inv w" and direct: "Claimed v b False \<in> life_seen w"
    and gone: "\<And>u. cl_uuid c = Some u \<Longrightarrow> Delete_Done v u \<in> life_seen w"
  shows "held_ok w (finalize_held env c clean (life_at w v) w)"
proof (cases "life_at w v")
  case None
  then show ?thesis by (simp add: finalize_held_def held_ok_leave inv)
next
  case (Some r)
  let ?r = "destroyed_row env c r"
  have ok: "row_ok (lw_log w) r" "lv_id r = v" using row_inv [OF inv Some] by auto
  have d: "claim_of (lw_log w) v = Some False"
    using direct_claim_stays inv direct by (auto simp: life_inv_def life_seen_def)
  have ok': "row_ok (lw_log w) x" if "x = ?r \<or> x = ?r\<lparr>lv_prefix := None\<rparr>" for x
    using that ok d gone by (cases "cl_uuid c") (auto simp: row_ok_def destroyed_row_def life_seen_def)
  have id: "lv_id ?r = v" using ok by (simp add: destroyed_row_def)
  have p: "grown w (put_life ?r w)" by (rule put_grown [OF inv]) (use ok' in simp_all)
  have f: "grown w (add_event (Freed v (lv_uuid r)) (put_life (?r\<lparr>lv_prefix := None\<rparr>) w))" if "lv_uuid r = cl_uuid c"
  proof (rule grown_trans, rule put_grown [OF inv, of "?r\<lparr>lv_prefix := None\<rparr>"])
    show "grown (put_life (?r\<lparr>lv_prefix := None\<rparr>) w) (add_event (Freed v (lv_uuid r)) (put_life (?r\<lparr>lv_prefix := None\<rparr>) w))"
      using put_grown [OF inv, of "?r\<lparr>lv_prefix := None\<rparr>"] ok' d gone that
      by (intro quiet_grown) (auto simp: grown_def life_seen_def split: option.split)
  qed (use ok' in simp_all)
  show ?thesis using Some p f ok by (auto simp: finalize_held_def Let_def intro!: held_ok_put inv)
qed

text \<open>After the claim: the guest is deleted and the row is closed, or the guest is protected.\<close>

lemma guards_finalize:
  assumes "Claimed v b False \<in> F" "\<And>u. cl_uuid c = Some u \<Longrightarrow> Delete_Done v u \<in> F"
  shows "guards F (locked_vm v (finalize_held env c clean))"
  by (rule guards_locked) (rule finalize_held_ok, use assms in auto)

lemma guards_detach: "guards F (detach_names cfg env v c)"
  unfolding detach_names_def Let_def by (auto intro!: secure_rules guards_do same_grown)

lemma guards_closing:
  assumes "Claimed v b False \<in> F" "\<And>u. cl_uuid c = Some u \<Longrightarrow> Delete_Done v u \<in> F"
  shows "guards F (bind_prog (detach_names cfg env v c)
    (\<lambda>clean. seq_prog (locked_vm v (finalize_held env c clean)) (Return Destroyed)))"
  by (intro secure_rules guards_detach guards_finalize [OF assms])

lemma guards_delete:
  assumes direct: "Claimed v b False \<in> F" and facts: "claim_facts v c F"
    and rest: "\<And>G. F \<subseteq> G \<Longrightarrow> (\<And>u. cl_uuid c = Some u \<Longrightarrow> Delete_Done v u \<in> G) \<Longrightarrow> guards G q"
  shows "guards F (seq_prog (delete_guest env v c) q)"
proof (cases "truthy (cl_uuid c) \<and> \<not> cl_verified c")
  case False
  with facts have "Delete_Done v u \<in> F" if "cl_uuid c = Some u" for u
    using that by (auto simp: claim_facts_def)
  then show ?thesis using False rest [of F] by (auto simp: delete_guest_def seq_prog_def)
next
  case True
  then obtain u where u: "cl_uuid c = Some u" by (cases "cl_uuid c") auto
  have asked: "grown w (add_event (Delete_Asked v u) w)" if "life_inv w" "F \<subseteq> life_seen w" for w
    using that direct direct_claim_stays [of "lw_log w" v b]
    by (intro quiet_grown) (auto simp: life_inv_def life_seen_def)
  have finished: "grown w (add_event (Delete_Done v u) w)"
    if "life_inv w" "insert (Delete_Asked v u) F \<subseteq> life_seen w" for w
    using that by (intro quiet_grown) (auto simp: life_seen_def)
  have "guards (insert (Delete_Asked v u) F)
      (seq_prog (if le_ok env u then life_call (add_event (Delete_Done v u)) else Raise L_Provider) q)"
  proof (cases "le_ok env u")
    case True
    have "guards (insert (Delete_Asked v u) F) (seq_prog (life_call (add_event (Delete_Done v u))) q)"
    proof (rule guards_call [OF finished])
      fix w assume w: "insert (Delete_Asked v u) F \<subseteq> life_seen w"
      have "guards (insert (Delete_Done v u) F) q" by (rule rest) (use u in auto)
      moreover have "insert (Delete_Done v u) F \<subseteq> life_seen (add_event (Delete_Done v u) w)"
        using w by (auto simp: life_seen_def)
      ultimately show "\<exists>G. G \<subseteq> life_seen (add_event (Delete_Done v u) w) \<and> guards G q" by blast
    qed
    with True show ?thesis by simp
  qed (simp add: seq_prog_def secure_Raise)
  then have onward: "\<exists>G. G \<subseteq> life_seen (add_event (Delete_Asked v u) w) \<and> guards G
      (seq_prog (if le_ok env u then life_call (add_event (Delete_Done v u)) else Raise L_Provider) q)"
    if "F \<subseteq> life_seen w" for w
    using that by (intro exI [of _ "insert (Delete_Asked v u) F"]) (auto simp: life_seen_def)
  have "delete_guest env v c = seq_prog (life_call (add_event (Delete_Asked v u)))
      (if le_ok env u then life_call (add_event (Delete_Done v u)) else Raise L_Provider)"
    using True u by (simp add: delete_guest_def)
  then show ?thesis unfolding seq_assoc by (simp only: seq_assoc) (rule guards_call [OF asked onward])
qed

lemma guards_carry_out:
  assumes facts: "claim_facts v c F"
  shows "guards F (carry_out cfg env v before c)"
proof (cases "truthy (cl_uuid c) \<and> cl_manifest c \<noteq> None")
  case True
  have "guards F (locked_vm v (protect_held cfg env before (the (cl_manifest c))))"
    by (rule guards_locked) (rule protect_held_ok)
  with True show ?thesis by (simp add: carry_out_def)
next
  case False
  then obtain b where direct: "Claimed v b False \<in> F" using facts by (auto simp: claim_facts_def)
  show ?thesis unfolding carry_out_def if_not_P [OF False]
    by (rule guards_delete [OF direct facts], rule guards_closing [where b = b]) (use direct in auto)
qed

lemma guards_destroy: "guards F (destroy_vm cfg env before i reconcile g v)"
  unfolding destroy_vm_def locked_vm_def bind_assoc
proof (rule guards_locked_try)
  fix w assume inv: "life_inv w" and F: "F \<subseteq> life_seen w"
  let ?h = "claim_held cfg env before i reconcile"
  show "held_ok w (guarded g ?h (life_at w v) w)" using inv claim_held_ok(1) [OF inv] by (rule held_guarded [where body = ?h])
  show "held_tells (guarded g ?h (life_at w v) w) (\<lambda>a K. \<exists>G. G \<subseteq> K \<and> guards G
      (bind_prog (case (a, True) of (a, acked) \<Rightarrow> if acked then Return a else Raise L_Db)
        (\<lambda>r. case r of Inl x \<Rightarrow> Return x | Inr c \<Rightarrow> carry_out cfg env v before c)))"
  proof (cases "g w")
    case True
    have "held_tells (?h (life_at w v) w) (\<lambda>a K. \<exists>G. G \<subseteq> K \<and> guards G
        (case a of Inl x \<Rightarrow> Return x | Inr c \<Rightarrow> carry_out cfg env v before c))"
    proof (rule held_tells_mono [OF claim_held_ok(2) [OF inv, of cfg env before i reconcile v]])
      fix a :: "destroy_result + claim" and K
      assume "life_seen w \<subseteq> K \<and> (\<forall>c. a = Inr c \<longrightarrow> claim_facts v c K)"
      then show "\<exists>G. G \<subseteq> K \<and> guards G (case a of Inl x \<Rightarrow> Return x | Inr c \<Rightarrow> carry_out cfg env v before c)"
        by (cases a) (auto intro!: exI [of _ K] guards_carry_out secure_Return)
    qed
    with True show ?thesis by (simp add: guarded_def)
  qed (simp add: guarded_def leave_def held_tells_def)
qed (simp add: secure_Raise)

lemma guards_release: "guards F (release_destroyed_prefix v)"
  unfolding release_destroyed_prefix_def
proof (rule guards_do)
  fix w assume inv: "life_inv w"
  show "grown w (case life_at w v of None \<Rightarrow> w | Some r \<Rightarrow>
        if lv_status r \<noteq> DESTROYED then w
        else if lv_uuid r \<noteq> None \<and> lv_deleted_uuid r \<noteq> lv_uuid r then w
        else if lv_uuid r = None \<and> v \<in> lw_attempts w then w
        else add_event (Freed v (lv_uuid r)) (put_life (r\<lparr>lv_prefix := None\<rparr>) w))"
  proof (cases "life_at w v")
    case None
    then show ?thesis by (simp add: grown_refl inv)
  next
    case (Some r)
    have ok: "row_ok (lw_log w) r" "lv_id r = v" using row_inv [OF inv Some] by auto
    let ?w = "put_life (r\<lparr>lv_prefix := None\<rparr>) w"
    have p: "grown w ?w" by (rule kin_put [OF inv Some]) (simp add: kin_def)
    have "grown ?w (add_event (Freed v (lv_uuid r)) ?w)"
      if "lv_status r = DESTROYED" "lv_uuid r = None \<or> lv_deleted_uuid r = lv_uuid r"
      using p that ok by (intro quiet_grown) (auto simp: grown_def row_ok_def split: option.split)
    with p have "grown w (add_event (Freed v (lv_uuid r)) ?w)"
      if "lv_status r = DESTROYED" "lv_uuid r = None \<or> lv_deleted_uuid r = lv_uuid r"
      using that grown_trans by blast
    with Some show ?thesis by (auto simp: grown_refl inv)
  qed
qed

lemma guards_reboot: "guards F (reboot_vm env i g v)"
  unfolding reboot_vm_def
proof (rule guards_locked, rule held_guarded, assumption)
  fix w assume inv: "life_inv w"
  show "held_ok w (case life_at w v of None \<Rightarrow> leave (Inr False) w
      | Some r \<Rightarrow> if \<not> truthy (lv_uuid r) \<or> lv_deletion r \<noteq> None \<or> identity_refused i w r then leave (Inr False) w
        else let called = add_event (Power_Asked P_Reboot v (the (lv_uuid r))) w in
          leave (if le_ok env (the (lv_uuid r)) then Inr True else Inl L_Provider) called)"
    using power_grown [OF inv] by (cases "life_at w v") (auto simp: held_ok_leave inv Let_def intro!: held_ok_called)
qed

subsection \<open>Sweeps\<close>

lemma kin_unsuspended [simp]: "kin r (unsuspended r)"
  by (simp add: kin_def unsuspended_def)

lemma life_at_more [simp]: "life_at (w\<lparr>lw_attempts := a\<rparr>) v = life_at w v"
  by (simp add: life_at_def)

lemma attempts_grown: "grown w w1 \<Longrightarrow> grown w (w1\<lparr>lw_attempts := a\<rparr>)"
  by (rule grown_trans [OF _ same_grown]) (auto simp: grown_def)

text \<open>A call of the hypervisor that turns the power, and the row after it.\<close>

lemma power_towards_grown:
  assumes "life_inv w" "life_at w v = Some r" "lv_deletion r = None \<or> k \<in> {P_Enable, P_Suspend}"
    "power_towards env k from r w = (ok, w1)"
  shows "grown w w1 \<and> life_at w1 v = Some r"
proof -
  have "lv_id r = v" using row_inv [OF assms(1,2)] by simp
  with assms power_grown [OF assms(1-3), of "the (lv_uuid r)"] show ?thesis
    by (auto simp: power_towards_def Let_def grown_refl split: option.splits if_splits)
qed

lemma transfer_step_kin:
  assumes inv: "life_inv w" and r: "life_at w v = Some r" and s: "transfer_step env recipient r w = (s, w1)"
  shows "grown w w1 \<and> life_at w1 v = Some r \<and>
     (case s of Dropped r1 \<Rightarrow> kin r r1 | Resumed r1 \<Rightarrow> kin r r1 | Restarted r1 \<Rightarrow> kin r r1 | Left \<Rightarrow> True)"
proof (cases "lv_transfer r")
  case None
  with s r inv show ?thesis by (auto simp: transfer_step_def grown_refl)
next
  case (Some owner)
  show ?thesis
  proof (cases "lv_deletion r = None \<and> lv_status r \<in> {PROVISIONING, SUSPENDED} \<and> truthy (lv_uuid r)")
    case False
    with s r inv Some show ?thesis
      by (auto simp: transfer_step_def grown_refl kin_def unsuspended_def split: if_splits)
  next
    case True
    obtain ok w2 where pw: "power_towards env P_Start ''Halted'' r w = (ok, w2)" by fastforce
    have "grown w w2 \<and> life_at w2 v = Some r" using power_towards_grown [OF inv r _ pw] True by simp
    with s r inv Some True pw show ?thesis
      by (cases ok) (auto simp: transfer_step_def grown_refl kin_def unsuspended_def split: if_splits)
  qed
qed

lemma transfer_held_ok:
  assumes inv: "life_inv w"
  shows "held_ok w (transfer_held env recipient (life_at w v) w)"
proof (cases "life_at w v")
  case None
  then show ?thesis by (simp add: transfer_held_def held_ok_leave inv)
next
  case (Some r)
  obtain s w1 where st: "transfer_step env recipient r w = (s, w1)" by fastforce
  note k = transfer_step_kin [OF inv Some st]
  have "grown w (put_life r1 w1)" if "kin r r1" for r1 using kin_called k that by blast
  with k Some st show ?thesis
    by (cases s) (auto simp: transfer_held_def held_ok_called intro!: held_ok_Inr attempts_grown)
qed

lemma guards_restart: "guards F (restart_provisioning v)"
  unfolding restart_provisioning_def by (rule guards_call_alone) (simp add: same_grown)

lemma guards_transfer: "guards F (reconcile_transfer_resume env v)"
  unfolding reconcile_transfer_resume_def
  by (intro secure_rules guards_read guards_row_held transfer_held_ok guards_restart)

lemma guards_transfers: "guards F (reconcile_transfer_resumes env cursor)"
  unfolding reconcile_transfer_resumes_def by (intro secure_rules guards_read guards_each guards_transfer)

lemma guards_resumes: "guards F (reconcile_extension_resumes env cursor)"
  unfolding reconcile_extension_resumes_def by (intro secure_rules guards_read guards_each guards_resume)

text \<open>The verification touches the evidence only.\<close>

lemma verify_held_ok:
  assumes inv: "life_inv w"
  shows "held_ok w (verify_held cfg env v row w)"
proof (cases "lw_retention w v")
  case None
  then show ?thesis by (simp add: verify_held_def held_ok_leave inv)
next
  case (Some t)
  let ?t = "verified_evidence cfg env row t"
  let ?w = "w\<lparr>lw_retention := (lw_retention w)(v \<mapsto> ?t)\<rparr>"
  have "rt_state ?t = rt_state t" "rt_operation ?t = rt_operation t" by (simp_all add: verified_evidence_def Let_def)
  then have "evidence_ok (lw_log w) (lw_retention ?w) (lw_restores w)"
    using inv Some evidence_inv [OF inv, of v] by (auto simp: life_inv_def evidence_ok_def)
  with inv have "grown w ?w" by (simp add: life_inv_def grown_def life_seen_def)
  with Some show ?thesis by (simp add: verify_held_def held_ok_leave held_ok_put inv)
qed

lemma guards_verify: "guards F (verify_retained_vms cfg now created env)"
  unfolding verify_retained_vms_def
  by (intro secure_rules guards_read guards_each guards_locked verify_held_ok)

lemma guards_emit: "guards F (emit v n)"
  unfolding emit_def by (intro secure_rules guards_do) (simp add: same_grown)

lemma kin_notice [simp]: "kin r (mark_notice n e r)"
  by (simp add: kin_def mark_notice_def)

lemma warn_held_ok:
  assumes inv: "life_inv w"
  shows "held_ok w (warn_held env ts (life_at w v) w)"
  using kin_put [OF inv, of v] by (cases "life_at w v") (auto simp: warn_held_def Let_def held_ok_leave inv intro!: held_ok_put)

lemma guards_warn: "guards F (warn_upcoming_expiries cfg now env)"
  unfolding warn_upcoming_expiries_def Let_def
  by (intro secure_rules guards_read guards_each guards_locked warn_held_ok guards_emit)

lemma guards_purge: "guards F (purge_reservations now)"
  unfolding purge_reservations_def
proof (rule guards_do)
  fix w assume "life_inv w"
  then show "grown w (w\<lparr>lw_vms := filter (\<lambda>r. \<not> stale_reservation now r) (lw_vms w)\<rparr>)"
    by (simp add: life_inv_def grown_def life_seen_def unique_by_filter)
qed

lemma sweep_held_ok:
  assumes inv: "life_inv w"
  shows "held_ok w (sweep_held cfg env (life_at w v) w)"
proof (cases "life_at w v")
  case None
  then show ?thesis by (simp add: sweep_held_def held_ok_leave inv)
next
  case (Some r)
  have v: "lv_id r = v" using row_inv [OF inv Some] by simp
  let ?call = "add_event (Power_Asked P_Suspend v (the (lv_uuid r))) w"
  have c: "grown w ?call" by (rule power_grown [OF inv Some]) simp
  have k: "kin r (suspended_row r)" by (simp add: kin_def suspended_row_def Let_def)
  have "grown w (put_life (suspended_row r) w)" "grown w (put_life (suspended_row r) ?call)"
    using kin_put [OF inv Some k] kin_called [OF c _ k, of v] Some by simp_all
  moreover have "grown w (put_life (mark_notice n e r) w)" for n e by (rule kin_put [OF inv Some]) simp
  ultimately show ?thesis using Some v c
    by (auto simp: sweep_held_def Let_def held_ok_leave held_ok_called inv grown_refl split: option.split
      intro!: held_ok_put held_ok_Inr)
qed

lemma guards_sweep_one: "guards F (sweep_one cfg env v)"
  unfolding sweep_one_def
proof (rule guards_locked_plain)
  show "held_ok w (sweep_held cfg env (life_at w v) w)" if "life_inv w" for w using that by (rule sweep_held_ok)
next
  fix x :: "sweep_step \<times> bool"
  show "guards F (case x of (s, acked) \<Rightarrow> case s of
      Skip_Vm \<Rightarrow> if acked then Return () else Raise L_Db
    | Warn_Owner h \<Rightarrow> if acked then emit v (Deletion_Warning h) else Return ()
    | Suspended told \<Rightarrow> if \<not> acked then Raise L_Db else if told then emit v Expiry_Suspended else Return ()
    | Delete_Due cutoff \<Rightarrow> if \<not> acked then Raise L_Db
        else handle_prog (seq_prog (destroy_vm cfg env (Some cutoff) None False (\<lambda>_. True) v) (Return ())) (\<lambda>_. Return ()))"
    by (cases x; cases "fst x") (auto intro!: secure_rules guards_emit guards_destroy)
qed

lemma guards_check_expiries: "guards F (check_expiries cfg now env c1 c2)"
  unfolding check_expiries_def
  by (intro secure_rules guards_resumes guards_transfers guards_warn guards_purge guards_read guards_each guards_sweep_one)

subsection \<open>The administrator\<close>

lemma transient_prepare:
  assumes inv: "life_inv w" and r: "life_at w v = Some r"
    and p: "prepare_restore now r op actor n reason w = Some (x, w1)"
  shows "grown w w1"
proof (cases "lw_restores w op")
  case (Some y)
  with p inv show ?thesis by (auto simp: prepare_restore_def grown_refl split: if_splits)
next
  case None
  have v: "lv_id r = v" using row_inv [OF inv r] by simp
  with p None obtain t e where t: "lw_retention w v = Some t" and e: "lv_expires r = Some e" and n: "1 \<le> n"
    and x: "re_state x = R_Pending" "re_vm x = v" "re_previous x = utc e" "re_expiry x = max (utc e) now + days n"
    and w1: "w1 = w\<lparr>lw_restores := (lw_restores w)(op \<mapsto> x),
      lw_retention := (lw_retention w)(v \<mapsto> t\<lparr>rt_state := Restoring, rt_operation := Some op\<rparr>)\<rparr>"
    by (auto simp: prepare_restore_def Let_def split: option.splits if_splits)
  have "re_previous x < re_expiry x" using x n by (simp add: days_def max_def)
  moreover have "lw_retention w v \<noteq> None" using t by simp
  moreover have "rt_operation s \<noteq> Some op" if "lw_retention w u = Some s" "rt_state s = Restoring" for u s
    using restoring_inv [OF inv that] None by auto
  ultimately have "evidence_ok (lw_log w) (lw_retention w1) (lw_restores w1)"
    using inv None x evidence_inv [OF inv, of v] unfolding w1 life_inv_def evidence_ok_def by auto
  with inv w1 show ?thesis by (simp add: life_inv_def grown_def life_seen_def)
qed

lemma audit_grown: "grown w w1 \<Longrightarrow> grown w (audit a v w1)"
  by (rule grown_trans [OF _ same_grown]) (auto simp: grown_def)

lemma guards_request_restore: "guards F (admin_locked actor v (request_restore_held env op actor n reason))"
proof (rule guards_admin)
  fix w assume inv: "life_inv w"
  show "held_ok w (request_restore_held env op actor n reason (life_at w v) w)"
  proof (cases "life_at w v")
    case (Some r)
    show ?thesis
    proof (cases "prepare_restore (le_now env) r op actor n reason w")
      case (Some y)
      with transient_prepare [OF inv \<open>life_at w v = Some r\<close>] \<open>life_at w v = Some r\<close> show ?thesis
        by (cases y) (auto simp: request_restore_held_def intro!: held_ok_put inv audit_grown)
    qed (simp add: request_restore_held_def Some held_ok_leave inv)
  qed (simp add: request_restore_held_def held_ok_leave inv)
qed

text \<open>The two commits of a recovery.\<close>

lemma restore_heldD:
  assumes "restore_held r op x w \<noteq> None"
  obtains t where "lw_retention w (lv_id r) = Some t" "rt_state t = Restoring" "rt_operation t = Some op"
    "re_vm x = lv_id r" "lv_deletion r \<noteq> None"
  using assms by (auto simp: restore_held_def split: option.splits if_splits)

lemma authorize_grown:
  assumes inv: "life_inv w" and r: "life_at w v = Some r" and x: "lw_restores w op = Some x"
    and a: "authorize_restore now r op x w = Some w1" and live: "lv_status r \<noteq> DESTROYED"
  shows "grown w w1"
proof -
  have ok: "row_ok (lw_log w) r" "lv_id r = v" using row_inv [OF inv r] by auto
  from a have pend: "re_state x = R_Pending" and held: "restore_held r op x w \<noteq> None"
    and prev: "map_option utc (lv_expires r) = Some (re_previous x)" by (auto simp: authorize_restore_def split: if_splits)
  obtain t where t: "lw_retention w v = Some t" "rt_operation t = Some op" "re_vm x = v" "lv_deletion r \<noteq> None"
    using restore_heldD [OF held] ok by metis
  let ?r = "r\<lparr>lv_expires := Some (Aware (re_expiry x) 0), lv_reason := Some ''manual_admin'', lv_by := Some (re_actor x)\<rparr>"
  let ?e = "Regranted v (re_expiry x)"
  have w1: "w1 = add_event ?e (put_life ?r (w\<lparr>lw_restores := (lw_restores w)(op \<mapsto> x\<lparr>re_state := R_Authorized\<rparr>)\<rparr>))"
    using a ok by (auto simp: authorize_restore_def split: if_splits)
  have c: "claim_of (lw_log w) v = Some True" using evidence_inv [OF inv, of v] t by simp
  show ?thesis
  proof (rule event_grown [OF inv, where e = ?e and r = ?r])
    show "life_allowed ?e (lw_log w)"
      using c ok prev restore_inv [OF inv x] by (cases "paid_until (lw_log w) v") (auto simp: row_ok_def later_def)
    show "row_ok (?e # lw_log w) ?r" using ok c live by (auto simp: row_ok_def)
    show "evidence_ok (?e # lw_log w) (lw_retention w1) (lw_restores w1)"
    proof (rule evidence_at [of "lw_log w" "lw_retention w" "lw_restores w" ?e v])
      show "(lw_retention w1 v = None) = (claim_of (?e # lw_log w) v \<noteq> Some True)" using t c w1 by simp
      show "\<exists>y. lw_restores w1 op' = Some y \<and> re_vm y = v \<and> (re_state y = R_Authorized \<longrightarrow> regranted (?e # lw_log w) v)"
        if "lw_retention w1 v = Some t'" "rt_state t' = Restoring" "rt_operation t' = Some op'" for t' op'
        using that t w1 by auto
      show "lw_restores w1 op' = Some y" if "lw_restores w op' = Some y" "re_vm y \<noteq> v" for op' y
        using that x t w1 by auto
      show "re_previous y < re_expiry y" if "lw_restores w1 op' = Some y" for op' y
        using that restore_inv [OF inv] x w1 by (auto split: if_splits)
    qed (use inv w1 in \<open>auto simp: life_inv_def\<close>)
  qed (use ok w1 in simp_all)
qed

lemma complete_grown:
  assumes inv: "life_inv w" and r: "life_at w v = Some r" and x: "lw_restores w op = Some x"
    and a: "complete_restore now r op x w = Some w1" and live: "lv_status r \<noteq> DESTROYED"
    and same: "map_option utc (lv_expires r) = Some (re_expiry x)"
  shows "grown w w1"
proof -
  have ok: "row_ok (lw_log w) r" "lv_id r = v" using row_inv [OF inv r] by auto
  from a have auth: "re_state x = R_Authorized" and held: "restore_held r op x w \<noteq> None"
    by (auto simp: complete_restore_def split: if_splits)
  obtain t where t: "lw_retention w v = Some t" "rt_state t = Restoring" "rt_operation t = Some op" "re_vm x = v"
    using restore_heldD [OF held] ok by metis
  let ?r = "r\<lparr>lv_expires := Some (Aware (re_expiry x) 0), lv_deletion := None, lv_reason := Some ''manual_admin'',
             lv_by := Some (re_actor x)\<rparr>"
  let ?e = "Recovered v"
  have w1: "w1 = add_event ?e (put_life ?r (w\<lparr>lw_restores := (lw_restores w)(op \<mapsto> x\<lparr>re_state := R_Completed, re_completed := Some now\<rparr>),
             lw_retention := (lw_retention w)(v := None)\<rparr>))"
    using a ok by (auto simp: complete_restore_def split: if_splits)
  have c: "claim_of (lw_log w) v = Some True" using evidence_inv [OF inv, of v] t by simp
  have g: "regranted (lw_log w) v" using restoring_inv [OF inv t(1-3)] x auth by auto
  show ?thesis
  proof (rule event_grown [OF inv, where e = ?e and r = ?r])
    show "life_allowed ?e (lw_log w)" using c g by simp
    show "row_ok (?e # lw_log w) ?r" using ok live same by (auto simp: row_ok_def)
    show "evidence_ok (?e # lw_log w) (lw_retention w1) (lw_restores w1)"
    proof (rule evidence_at [of "lw_log w" "lw_retention w" "lw_restores w" ?e v])
      show "lw_restores w1 op' = Some y" if "lw_restores w op' = Some y" "re_vm y \<noteq> v" for op' y
        using that x t w1 by auto
      show "re_previous y < re_expiry y" if "lw_restores w1 op' = Some y" for op' y
        using that restore_inv [OF inv] x w1 by (auto split: if_splits)
    qed (use inv w1 in \<open>auto simp: life_inv_def\<close>)
  qed (use ok w1 in simp_all)
qed

lemma restore_round_ok:
  assumes inv: "life_inv w"
  shows "held_ok w (restore_round env op finish (life_at w v) w)"
proof (cases "lw_restores w op")
  case None
  then show ?thesis by (simp add: restore_round_def held_ok_leave inv)
next
  case x: (Some x)
  show ?thesis
  proof (cases "life_at w v")
    case None
    with x show ?thesis by (simp add: restore_round_def held_ok_leave inv)
  next
    case (Some r)
    have v: "lv_id r = v" using row_inv [OF inv Some] by simp
    show ?thesis
    proof (cases "lw_retention w v")
      case None
      with x Some v show ?thesis by (simp add: restore_round_def held_ok_leave inv)
    next
      case t: (Some t)
      let ?called = "add_event (Unprotect_Asked v (rt_source t)) w"
      show ?thesis
      proof (cases "rt_state t = Restoring \<and> rt_operation t = Some op \<and> lv_status r = SUSPENDED")
        case False
        with x Some v t show ?thesis by (auto simp: restore_round_def held_ok_leave inv)
      next
        case True
        have authorized: "grown w (audit a u w1)" if "authorize_restore (le_now env) r op x w = Some w1" for w1 a u
          using authorize_grown [OF inv Some x that] True by (simp add: audit_grown)
        have called: "grown w ?called" if "re_state x = R_Authorized"
          using evidence_inv [OF inv, of v] t restoring_inv [OF inv t, of op] True x that by (intro quiet_grown [OF inv]) auto
        have completed: "grown w (audit a u w2)"
          if "re_state x = R_Authorized" "complete_restore (le_now env) r op x ?called = Some w2"
            "map_option utc (lv_expires r) = Some (re_expiry x)" for w2 a u
          using called [OF that(1)] complete_grown [of ?called v r op x "le_now env" w2] that Some x True
          by (auto simp: grown_def intro!: audit_grown [unfolded grown_def])
        show ?thesis
        proof (cases "re_state x")
          case R_Pending
          with x Some v t authorized show ?thesis
            by (auto simp: restore_round_def held_ok_leave inv split: option.split intro!: held_ok_put)
        next
          case R_Authorized
          with x Some v t called completed show ?thesis
            by (auto simp: restore_round_def Let_def held_ok_leave held_ok_called inv split: option.split intro!: held_ok_Inr)
        next
          case R_Completed
          with x show ?thesis by (simp add: restore_round_def held_ok_leave inv)
        qed
      qed
    qed
  qed
qed

lemma guards_restore: "guards F (restore_retained_vm env actor v op n reason)"
  unfolding restore_retained_vm_def
  by (intro secure_rules guards_request_restore guards_admin restore_round_ok)

lemma act_on_kin:
  assumes inv: "life_inv w" and r: "life_at w v = Some r" "lv_deletion r = None" and a: "act_on env a actor r w = (ok, w1, r1)"
  shows "grown w w1 \<and> life_at w1 v = Some r \<and> kin r r1"
proof -
  have v: "lv_id r = v" using row_inv [OF inv r(1)] by simp
  have p: "grown w w2 \<and> life_at w2 v = Some r" if "power_towards env k start r w = (o2, w2)" for k start o2 w2
    using power_towards_grown [OF inv r(1) _ that] r(2) by simp
  have b: "grown w (add_event (Power_Asked P_Reboot v u) w)" for u using power_grown [OF inv r(1)] r(2) by simp
  show ?thesis using a v r b p
    by (cases a) (auto simp: act_on_def Let_def kin_def unsuspended_def split: prod.splits if_splits)
qed

lemma guards_action: "guards F (vm_action env a actor v)"
  unfolding vm_action_def
proof (rule guards_admin)
  fix w assume inv: "life_inv w"
  show "held_ok w (action_held env a actor (life_at w v) w)"
  proof (cases "life_at w v")
    case None
    then show ?thesis by (simp add: action_held_def held_ok_leave inv)
  next
    case (Some r)
    let ?w = "audit ''vm.action.requested'' (lv_id r) w"
    have aud: "grown w ?w" by (rule audit_grown [OF grown_refl [OF inv]])
    show ?thesis
    proof (cases "action_refused env a w r")
      case True
      with Some show ?thesis by (simp add: action_held_def held_ok_leave inv)
    next
      case False
      then have free: "lv_deletion r = None" by (simp add: action_refused_def)
      obtain ok called r1 where act: "act_on env a actor r ?w = (ok, called, r1)" by (metis prod_cases3)
      have k: "grown ?w called \<and> life_at called v = Some r \<and> kin r r1"
        by (rule act_on_kin [OF _ _ free act]) (use aud Some in \<open>auto simp: grown_def\<close>)
      with aud have c: "grown w called" using grown_trans by blast
      with k have "grown w (put_life r1 called)" using kin_called by blast
      with c Some False act show ?thesis by (simp add: action_held_def held_ok_called held_ok_Inr)
    qed
  qed
qed

subsection \<open>Accounts\<close>

lemma suspend_account_ok:
  assumes inv: "life_inv w"
  shows "held_ok w (suspend_account_held env account actor (life_at w v) w)"
proof (cases "life_at w v")
  case None
  then show ?thesis by (simp add: suspend_account_held_def held_ok_leave inv)
next
  case (Some r)
  obtain ok called where pw: "(if truthy (lv_uuid r) then power_towards env P_Suspend ''Running'' r w else (True, w)) = (ok, called)"
    by fastforce
  have c: "grown w called \<and> life_at called v = Some r"
    using pw power_towards_grown [OF inv Some, of P_Suspend env "''Running''"] inv Some
    by (auto simp: grown_refl split: if_splits)
  then have k: "grown w (put_life r1 called)" if "kin r r1" for r1 using that kin_called by blast
  show ?thesis using c k Some pw
    by (cases ok) (auto simp: suspend_account_held_def held_ok_leave held_ok_called inv kin_def intro!: held_ok_Inr)
qed

lemma resume_account_ok:
  assumes inv: "life_inv w"
  shows "held_ok w (resume_account_held env account (life_at w v) w)"
proof (cases "life_at w v")
  case None
  then show ?thesis by (simp add: resume_account_held_def held_ok_leave inv)
next
  case (Some r)
  obtain ok called where pw: "power_towards env P_Enable ''Halted'' r w = (ok, called)" by fastforce
  have c: "grown w called \<and> life_at called v = Some r" using power_towards_grown [OF inv Some _ pw] by simp
  have k: "grown w (put_life r1 called) \<and> grown w (put_life r1 w)" if "kin r r1" for r1
    using that c kin_called kin_put [OF inv Some] by blast
  show ?thesis using Some pw c k
    by (cases ok) (auto simp: resume_account_held_def held_ok_leave held_ok_called inv kin_def unsuspended_def
      intro!: held_ok_Inr held_ok_put attempts_grown)
qed

lemma guards_account: "guards F (apply_to_account resume env account by)"
  unfolding apply_to_account_def resume_account_vm_def
  by (intro secure_rules guards_read guards_each guards_row_held resume_account_ok suspend_account_ok guards_restart)

subsection \<open>The service\<close>

lemma foreign_grown:
  assumes inv: "life_inv w" and f: "foreign w w'"
  shows "grown w w'"
proof -
  have "row_ok (lw_log w) r'" if "r' \<in> set (lw_vms w')" for r'
  proof (cases "unborn w r'")
    case True
    then show ?thesis using unseen_vm [of "lw_log w" "lv_id r'"] by (simp add: row_ok_def unborn_def)
  next
    case False
    with f that obtain r where "r \<in> set (lw_vms w)" "same_life r r'" by (auto simp: foreign_def)
    with inv show ?thesis by (auto simp: life_inv_def row_ok_def same_life_def)
  qed
  with inv f show ?thesis by (simp add: life_inv_def foreign_def grown_def life_seen_def)
qed

lemma life_started: "p \<in> life_starts cfg \<Longrightarrow> guards {} p"
proof (induction rule: life_starts.induct)
  case (other f)
  show ?case by (rule guards_do) (auto simp: life_inv_def intro: foreign_grown [unfolded life_inv_def] other)
qed (intro secure_rules guards_check_expiries guards_verify guards_destroy guards_reboot guards_release guards_extend_route
      guards_extend_vm guards_grant guards_restore guards_action guards_account guards_transfer; assumption?)+

interpretation life: secure_pool life_inv life_seen "life_starts cfg" for cfg
  by unfold_locales (rule life_started)

end
