(* ===== verification/Vm_Life_Props.thy ===== *)
theory Vm_Life_Props
  imports Vm_Life_Safety
begin

text \<open>
  Properties of the VM lifecycle: what concurrent runs may do to a VM and in which order, the consistency of its row
  with it, the agreement of the customer-visible expiry policy with the sweep, and the effect of a paid extension;
  with a run of the sweep that deletes a VM.
\<close>

subsection \<open>What every concurrent run keeps\<close>

text \<open>The start: no deletion is claimed, nothing is retained.\<close>

definition life_fresh :: "life_world \<Rightarrow> bool" where
  "life_fresh w \<longleftrightarrow> lw_log w = [] \<and> lw_retention w = Map.empty \<and> lw_restores w = Map.empty \<and>
     unique_by lv_id (lw_vms w) \<and> (\<forall>r \<in> set (lw_vms w). unborn w r)"

lemma life_fresh_inv: "life_fresh w \<Longrightarrow> life_inv w"
  by (auto simp: life_fresh_def life_inv_def row_ok_def evidence_ok_def unborn_def)

lemma life_run: "(pool_step (life_starts cfg))\<^sup>*\<^sup>* (w, []) (w', ps) \<Longrightarrow> life_fresh w \<Longrightarrow> life_inv w'"
  using life.reachable life_fresh_inv by blast

lemma life_protocol_split: "life_protocol (l @ e # m) \<Longrightarrow> life_allowed e m \<and> life_protocol m"
  by (induction l) auto

text \<open>What may still happen to a VM under a claim that keeps no evidence.\<close>

fun after_direct_claim :: "life_event \<Rightarrow> bool" where
  "after_direct_claim (Delete_Asked v u) = True" | "after_direct_claim (Delete_Done v u) = True"
| "after_direct_claim (Freed v g) = True" | "after_direct_claim (Power_Asked k v u) = (k \<in> {P_Enable, P_Suspend})"
| "after_direct_claim _ = False"

lemma direct_claim_final:
  "life_protocol (l @ m) \<Longrightarrow> claim_of m v = Some False \<Longrightarrow>
     claim_of (l @ m) v = Some False \<and> (\<forall>e \<in> set l. event_vm e = v \<longrightarrow> after_direct_claim e)"
proof (induction l)
  case (Cons e l)
  then have IH: "claim_of (l @ m) v = Some False" "\<forall>e \<in> set l. event_vm e = v \<longrightarrow> after_direct_claim e"
    and a: "life_allowed e (l @ m)" by simp_all
  show ?case
  proof (cases "event_vm e = v")
    case True
    with IH a have "claim_of ((e # l) @ m) v = Some False \<and> after_direct_claim e" by (cases e) auto
    with IH show ?thesis by auto
  next
    case False
    with IH show ?thesis by (auto simp: other_vm)
  qed
qed simp


text \<open>C19: the table stays well formed: ids are unique, a destroyed row and a row with recovery evidence carry a deletion
  claim and never both, the guest recorded as deleted was confirmed so by the provider, the stored expiry is the one that
  was bought or granted last, and a recovery in progress names an operation of its own VM.\<close>

theorem vm_rows_well_formed:
  assumes "(pool_step (life_starts cfg))\<^sup>*\<^sup>* (w, []) (w', ps)" and "life_fresh w"
  shows "unique_by lv_id (lw_vms w') \<and>
    (\<forall>r \<in> set (lw_vms w').
       (lv_status r = DESTROYED \<longrightarrow> lv_deletion r \<noteq> None \<and> lw_retention w' (lv_id r) = None) \<and>
       (lw_retention w' (lv_id r) \<noteq> None \<longrightarrow> lv_deletion r \<noteq> None) \<and>
       (\<forall>u. lv_deleted_uuid r = Some u \<longrightarrow> Delete_Done (lv_id r) u \<in> set (lw_log w')) \<and>
       (\<forall>t. paid_until (lw_log w') (lv_id r) = Some t \<longrightarrow> map_option utc (lv_expires r) = Some t)) \<and>
    (\<forall>v t op. lw_retention w' v = Some t \<longrightarrow> rt_state t = Restoring \<longrightarrow> rt_operation t = Some op \<longrightarrow>
       (\<exists>x. lw_restores w' op = Some x \<and> re_vm x = v))"
proof -
  have inv: "life_inv w'" by (rule life_run [OF assms])
  have rows: "(lv_status r = DESTROYED \<longrightarrow> lv_deletion r \<noteq> None \<and> lw_retention w' (lv_id r) = None) \<and>
       (lw_retention w' (lv_id r) \<noteq> None \<longrightarrow> lv_deletion r \<noteq> None) \<and>
       (\<forall>u. lv_deleted_uuid r = Some u \<longrightarrow> Delete_Done (lv_id r) u \<in> set (lw_log w')) \<and>
       (\<forall>t. paid_until (lw_log w') (lv_id r) = Some t \<longrightarrow> map_option utc (lv_expires r) = Some t)"
    if "r \<in> set (lw_vms w')" for r
    using that inv evidence_inv [OF inv, of "lv_id r"] by (auto simp: life_inv_def row_ok_def)
  show ?thesis
  proof (intro conjI ballI)
    show "unique_by lv_id (lw_vms w')" using inv by (simp add: life_inv_def)
  qed (use rows restoring_inv [OF inv] in blast)+
qed

subsection \<open>The announced expiry and the sweep\<close>

text \<open>C12: what the API tells a customer about the expiry of a VM that is neither destroyed nor retained is what the
  sweep does at that moment: it is eligible for deletion exactly if the sweep decides to delete it, with a cutoff that
  the deletion accepts when it looks at the row again, and the row is then among the candidates of the sweep; and a VM
  announced as active, without expiry or failed is neither stopped nor deleted.\<close>

theorem expiry_policy_matches_sweep:
  fixes cfg env r w
  defines "info \<equiv> build_vm_expiry (lv_status r) (lv_expires r) (lc_grace_hours cfg) (le_now env) (lv_deletion r) None None"
  assumes "lv_status r \<noteq> DESTROYED" and "lw_retention w (lv_id r) = None" and "0 \<le> lc_grace_hours cfg"
  shows "(ei_eligible info \<longleftrightarrow> (\<exists>c. fst (sweep_held cfg env (Some r) w) = Inr (Delete_Due c))) \<and>
    (\<forall>c. fst (sweep_held cfg env (Some r) w) = Inr (Delete_Due c) \<longrightarrow>
       c = le_now env - hours (lc_grace_hours cfg) \<and> still_due (Some c) r \<and> sweep_candidate (le_now env) w r) \<and>
    (ei_state info \<in> {E_Active, E_Not_Set, E_Not_Applicable} \<longrightarrow>
       (fst (sweep_held cfg env (Some r) w) = Inr Skip_Vm \<or> (\<exists>h. fst (sweep_held cfg env (Some r) w) = Inr (Warn_Owner h))) \<and>
       lw_log (fst (snd (sweep_held cfg env (Some r) w))) = lw_log w)"
proof -
  let ?h = "sweep_held cfg env (Some r) w"
  have alive: "\<not> fully_destroyed r" using assms(2) by (simp add: fully_destroyed_def)
  have due: "ei_eligible info \<longleftrightarrow> delete_due cfg (le_now env) r"
    using assms(2,4) by (auto simp: info_def build_vm_expiry_def delete_due_def plain_info_def Let_def hours_def split: option.split)
  have swept: "?h = leave (Inr (Delete_Due (le_now env - hours (lc_grace_hours cfg)))) w" if "delete_due cfg (le_now env) r"
    using that alive by (auto simp: sweep_held_def delete_due_def split: option.splits)
  have spared: "fst ?h \<noteq> Inr (Delete_Due c)" if "\<not> delete_due cfg (le_now env) r" for c
    using that alive by (auto simp: sweep_held_def leave_def Let_def split: option.splits if_splits)
  have again: "still_due (Some (le_now env - hours (lc_grace_hours cfg))) r \<and> sweep_candidate (le_now env) w r"
    if "delete_due cfg (le_now env) r"
    using that assms(2-4) by (auto simp: delete_due_def still_due_def sweep_candidate_def hours_def split: option.splits)
  have idle: "(fst ?h = Inr Skip_Vm \<or> (\<exists>h. fst ?h = Inr (Warn_Owner h))) \<and> lw_log (fst (snd ?h)) = lw_log w"
    if "ei_state info \<in> {E_Active, E_Not_Set, E_Not_Applicable}"
  proof (cases "lv_deletion r = None \<and> lv_status r \<noteq> FAILED \<and> lv_expires r \<noteq> None")
    case True
    then obtain e where e: "lv_expires r = Some e" by auto
    with that True assms(2) have "le_now env \<le> utc e"
      by (auto simp: info_def build_vm_expiry_def Let_def split: if_splits)
    with e True alive assms(4) show ?thesis
      by (auto simp: sweep_held_def delete_due_def leave_def Let_def hours_def split: option.splits)
  next
    case False
    have "ei_state info = E_Deleting" if "lv_deletion r \<noteq> None"
      using that assms(2) by (simp add: info_def build_vm_expiry_def plain_info_def)
    with that have "lv_deletion r = None" by (cases "lv_deletion r") auto
    with False alive have "?h = leave (Inr Skip_Vm) w" by (auto simp: sweep_held_def)
    then show ?thesis by (simp add: leave_def)
  qed
  show ?thesis using due swept spared again idle by (cases "delete_due cfg (le_now env) r") (auto simp: leave_def)
qed

subsection \<open>Paid extensions\<close>

text \<open>C38: an extension that is accepted moves the expiry to the later of the old one and now, plus the days bought, and
  writes its receipt and the resume of a suspended guest in the same commit, on this row only; one that the row, the
  owner or the power state rules out stores nothing.\<close>

theorem extension_exact:
  assumes "life_inv w" and "life_at w v = Some r"
  shows "if vm_can_extend (Some r) \<and> vm_owner_enabled w r \<and> reconcile_extension_power env r \<noteq> None
    then \<exists>r' w'. snd (snd (extend_held env n (Some r) w)) = w' \<and> life_at w' v = Some r' \<and>
      lv_expires r' = Some (Aware (max (utc (the (lv_expires r))) (le_now env) + days n) 0) \<and>
      lw_receipts w' = lw_receipts w @ [(le_receipt env, v, max (utc (the (lv_expires r))) (le_now env) + days n)] \<and>
      (lv_status r' = SUSPENDED \<and> lv_uuid r' \<noteq> None \<longrightarrow> map_option rs_receipt (lv_resume r') = Some (le_receipt env)) \<and>
      (\<forall>u. u \<noteq> v \<longrightarrow> life_at w' u = life_at w u)
    else extend_held env n (Some r) w = leave (Inr None) w"
proof (cases "reconcile_extension_power env r")
  case None
  then show ?thesis by (simp add: extend_held_def)
next
  case (Some r1)
  have k: "kin r r1" by (rule power_kin [OF Some])
  have v: "lv_id r = v" using row_inv [OF assms] by simp
  have same: "vm_can_extend (Some r1) \<longleftrightarrow> vm_can_extend (Some r)" "vm_owner_enabled w r1 \<longleftrightarrow> vm_owner_enabled w r"
    using Some by (auto simp: reconcile_extension_power_def vm_can_extend_def vm_owner_enabled_def locked_reason_def
        split: option.splits if_splits)
  show ?thesis
  proof (cases "vm_can_extend (Some r) \<and> vm_owner_enabled w r")
    case True
    have "row_at lv_id u (put_row lv_id (extended_row env n r1) (lw_vms w)) =
        (if u = v then Some (extended_row env n r1) else row_at lv_id u (lw_vms w))" for u
      using assms(2) k v by (auto simp: row_at_put life_at_def extended_row_def Let_def kin_def)
    then show ?thesis using True Some same k v
      by (auto simp: extend_held_def Let_def life_at_def extended_row_def kin_def put_life_def add_event_def split: option.splits)
  qed (use Some same in \<open>auto simp: extend_held_def\<close>)
qed

text \<open>Programs that touch neither receipts nor refunds.\<close>

definition leaves_money :: "'a life \<Rightarrow> bool" where
  "leaves_money p \<longleftrightarrow> (\<forall>w r w'. ends p w r w' \<longrightarrow> lw_receipts w' = lw_receipts w \<and> lw_refunds w' = lw_refunds w)"

lemma leaves_money_bind: "leaves_money p \<Longrightarrow> (\<And>a. leaves_money (k a)) \<Longrightarrow> leaves_money (bind_prog p k)"
  unfolding leaves_money_def by (fastforce dest!: ends_bind)

lemma leaves_money_handle: "leaves_money p \<Longrightarrow> (\<And>e. leaves_money (h e)) \<Longrightarrow> leaves_money (handle_prog p h)"
  unfolding leaves_money_def by (fastforce dest!: ends_handle)

lemma leaves_money_value: "leaves_money (Return a)" "leaves_money (Raise e)"
  by (simp_all add: leaves_money_def)

lemma leaves_money_read: "leaves_money (life_read f)"
  unfolding leaves_money_def life_read_def by (auto dest!: ends_transact)

definition same_money :: "life_world \<Rightarrow> 'a held \<Rightarrow> bool" where
  "same_money w h \<longleftrightarrow> (case h of (r, called, stored) \<Rightarrow>
     lw_receipts called = lw_receipts w \<and> lw_refunds called = lw_refunds w \<and>
     lw_receipts stored = lw_receipts w \<and> lw_refunds stored = lw_refunds w)"

lemma ends_held:
  assumes "ends (held_try f) w r w'" "f w = (x, called, stored)"
  shows "(\<exists>e. x = Inl e \<and> r = Inl e \<and> w' = called) \<or>
     (\<exists>a acked. x = Inr a \<and> r = Inr (a, acked) \<and> (w' = called \<and> \<not> acked \<or> w' = stored))"
  using assms unfolding held_try_def by (auto elim!: ends_ActE split: sum.splits if_splits)

lemma leaves_money_held:
  assumes "\<And>w. same_money w (f w)"
  shows "leaves_money (held_try f)"
  unfolding leaves_money_def
proof (intro allI impI)
  fix w r w' assume e: "ends (held_try f) w r w'"
  obtain x called stored where f: "f w = (x, called, stored)" by (metis prod_cases3)
  show "lw_receipts w' = lw_receipts w \<and> lw_refunds w' = lw_refunds w"
    using ends_held [OF e f] assms [of w] f by (auto simp: same_money_def)
qed

lemma same_money_leave [simp]: "same_money w (leave x w)"
  by (simp add: same_money_def leave_def)

lemma leaves_money_locked:
  assumes "\<And>row w. same_money w (body row w)"
  shows "leaves_money (locked_vm v body)"
  unfolding locked_vm_def locked_try_def
  by (intro leaves_money_bind leaves_money_read leaves_money_held)
    (auto simp: leaves_money_value assms split: option.split prod.split)

lemma leaves_money_resume: "leaves_money (reconcile_extension_resume env v)"
proof -
  have "same_money w (resume_held env row w)" for row w
    by (auto simp: resume_held_def same_money_def leave_def Let_def put_life_def add_event_def split: option.splits)
  then show ?thesis unfolding reconcile_extension_resume_def by (rule leaves_money_locked)
qed

lemma leaves_money_after: "leaves_money (after_extension env v was)"
  unfolding after_extension_def seq_prog_def
  by (intro leaves_money_handle leaves_money_bind leaves_money_read)
    (auto intro!: leaves_money_handle leaves_money_resume leaves_money_value split: option.split)

definition applied :: "life_env \<Rightarrow> life_world \<Rightarrow> bool" where
  "applied env w \<longleftrightarrow> (\<exists>x \<in> set (lw_receipts w). fst x = le_receipt env)"

definition refunded :: "life_env \<Rightarrow> string \<Rightarrow> life_world \<Rightarrow> bool" where
  "refunded env v w \<longleftrightarrow> (v, le_receipt env) \<in> set (lw_refunds w)"

lemma applied_same: "lw_receipts w' = lw_receipts w \<Longrightarrow> applied env w' = applied env w"
  by (simp add: applied_def)

lemma after_extension_ends:
  assumes "ends (after_extension env v was) w r w'"
  shows "applied env w' = applied env w \<and> refunded env v w' = refunded env v w \<and>
    (\<forall>e. r = Inl e \<longrightarrow> e = L_State_Unavailable) \<and> r \<noteq> Inr None"
proof -
  have "lw_receipts w' = lw_receipts w \<and> lw_refunds w' = lw_refunds w"
    using leaves_money_after assms unfolding leaves_money_def by blast
  moreover have "(\<forall>e. r = Inl e \<longrightarrow> e = L_State_Unavailable) \<and> r \<noteq> Inr None"
    using assms unfolding after_extension_def seq_prog_def
    by (auto dest!: ends_handle ends_bind split: option.splits)
  ultimately show ?thesis by (simp add: applied_def refunded_def)
qed

lemma extend_held_shape:
  obtains "extend_held env n row w = leave (Inr None) w"
  | was w1 where "extend_held env n row w = (Inr (Some was), w, w1)" "applied env w1" "lw_refunds w1 = lw_refunds w"
proof (cases "snd (snd (extend_held env n row w)) = w \<and> extend_held env n row w = leave (Inr None) w")
  case True
  then show thesis using that by blast
next
  case False
  then obtain was w1 where h: "extend_held env n row w = (Inr (Some was), w, w1)"
    and "applied env w1 \<and> lw_refunds w1 = lw_refunds w"
    by (auto simp: extend_held_def leave_def Let_def applied_def add_event_def put_life_def split: option.splits if_splits)
  then show thesis using that by blast
qed

lemma extend_paid_shape:
  obtains x where "extend_paid_held env i paid n row w = leave x w" "\<And>was. x \<noteq> Inr (Some was)"
  | was w1 where "extend_paid_held env i paid n row w = (Inr (Some was), w, w1)" "applied env w1" "lw_refunds w1 = lw_refunds w"
proof -
  have "(\<exists>e. extend_paid_held env i paid n row w = leave (Inl e) w) \<or>
      (\<exists>r. extend_paid_held env i paid n row w = extend_held env n (Some r) w)"
    by (auto simp: extend_paid_held_def split: option.splits)
  then show thesis
  proof (elim disjE exE)
    fix r assume e: "extend_paid_held env i paid n row w = extend_held env n (Some r) w"
    show thesis by (cases rule: extend_held_shape [of env n "Some r" w]) (use e that in auto)
  qed (use that in blast)
qed

lemma extend_paid_ends:
  assumes "ends (locked_try v (extend_paid_held env i paid n)) w r w1" "\<not> applied env w"
  shows "lw_refunds w1 = lw_refunds w \<and> (applied env w1 \<longrightarrow> (\<exists>was acked. r = Inr (Some was, acked))) \<and>
    (\<forall>was. r = Inr (Some was, True) \<longrightarrow> applied env w1) \<and> ((\<exists>e. r = Inl e) \<longrightarrow> w1 = w)"
proof -
  have read: "w2 = w" if "ends (life_read f) w r2 w2" for f and r2 :: "life_exn + string option" and w2
    using that by (auto simp: life_read_def dest!: ends_transact)
  from assms(1) consider (fail) e where "w1 = w" "r = Inl e"
    | (held) owner where "ends (held_try (\<lambda>w. case life_at w v of None \<Rightarrow> extend_paid_held env i paid n None w
        | Some r \<Rightarrow> if lv_owner r \<noteq> owner then leave (Inl L_Runtime) w else extend_paid_held env i paid n (Some r) w)) w r w1"
    unfolding locked_try_def by (auto dest!: ends_bind dest: read)
  then show ?thesis
  proof cases
    case fail
    with assms(2) show ?thesis by simp
  next
    case held
    let ?h = "case life_at w v of None \<Rightarrow> extend_paid_held env i paid n None w
        | Some r \<Rightarrow> if lv_owner r \<noteq> owner then leave (Inl L_Runtime) w else extend_paid_held env i paid n (Some r) w"
    have "(\<exists>x. ?h = leave x w \<and> (\<forall>was. x \<noteq> Inr (Some was))) \<or>
        (\<exists>was w1. ?h = (Inr (Some was), w, w1) \<and> applied env w1 \<and> lw_refunds w1 = lw_refunds w)"
    proof (cases "\<exists>r. life_at w v = Some r \<and> lv_owner r \<noteq> owner")
      case True
      then show ?thesis by (auto intro!: exI [of _ "Inl L_Runtime"])
    next
      case False
      then have "?h = extend_paid_held env i paid n (life_at w v) w" by (cases "life_at w v") auto
      then show ?thesis by (cases rule: extend_paid_shape [of env i paid n "life_at w v" w]) auto
    qed
    then show ?thesis
    proof (elim disjE exE conjE)
      fix x assume "?h = leave x w" "\<forall>was. x \<noteq> Inr (Some was)"
      with ends_held [OF held, of x w w] assms(2) show ?thesis by (auto simp: leave_def)
    next
      fix was w2 assume "?h = (Inr (Some was), w, w2)" "applied env w2" "lw_refunds w2 = lw_refunds w"
      with ends_held [OF held, of "Inr (Some was)" w w2] assms(2) show ?thesis by auto
    qed
  qed
qed

lemma find_receipt_ends:
  assumes "ends (locked_vm v (find_receipt env)) w r w'"
  shows "w' = w \<and> (\<forall>b. r = Inr b \<longrightarrow> b = applied env w)"
proof -
  have read: "w2 = w1" if "ends (life_read f) w1 r2 w2" for f and r2 :: "life_exn + string option" and w1 w2
    using that by (auto simp: life_read_def dest!: ends_transact)
  have "w1 = w \<and> (\<forall>b k. x = Inr (b, k) \<longrightarrow> b = applied env w)" if "ends (locked_try v (find_receipt env)) w x w1" for x w1
  proof -
    from that consider (fail) e where "w1 = w" "x = Inl e"
      | (held) owner where "ends (held_try (\<lambda>w. case life_at w v of None \<Rightarrow> find_receipt env None w
          | Some r \<Rightarrow> if lv_owner r \<noteq> owner then leave (Inl L_Runtime) w else find_receipt env (Some r) w)) w x w1"
      unfolding locked_try_def by (auto dest!: ends_bind dest: read)
    then show ?thesis
    proof cases
      case held
      let ?h = "case life_at w v of None \<Rightarrow> find_receipt env None w
          | Some r \<Rightarrow> if lv_owner r \<noteq> owner then leave (Inl L_Runtime) w else find_receipt env (Some r) w"
      have "\<exists>y. ?h = (y, w, w) \<and> (\<forall>b. y = Inr b \<longrightarrow> b = applied env w)"
        by (cases "life_at w v") (auto simp: find_receipt_def leave_def applied_def)
      then obtain y where "?h = (y, w, w)" "\<forall>b. y = Inr b \<longrightarrow> b = applied env w" by blast
      with ends_held [OF held, of y w w] show ?thesis by auto
    qed simp
  qed
  with assms show ?thesis unfolding locked_vm_def by (fastforce dest!: ends_bind split: if_splits)
qed

lemma refund_extension_ends:
  assumes "ends (refund_extension env v :: 'a life) w r w'"
  shows "applied env w' = applied env w \<and> (r = Inl (L_Http 503) \<or> r = Inl (L_Http 409) \<and> refunded env v w')"
  using assms unfolding refund_extension_def seq_prog_def life_do_def
  by (auto dest!: ends_bind ends_handle ends_transact simp: applied_def refunded_def)

text \<open>What the stage after the payment returned: the VM, if the extension is stored.\<close>

lemma settle_ends:
  assumes "ends (settle_extension env v x) w y w1"
    and "applied env w \<longrightarrow> fst x \<noteq> None" "fst x \<noteq> None \<and> snd x \<longrightarrow> applied env w"
  shows "applied env w1 = applied env w \<and> refunded env v w1 = refunded env v w \<and>
    (\<forall>u. y = Inr u \<longrightarrow> applied env w = (u \<noteq> None))"
proof (cases "fst x")
  case None
  with assms show ?thesis by (auto simp: settle_extension_def)
next
  case (Some was)
  note after = after_extension_ends [of env v was w y w1]
  show ?thesis
  proof (cases "snd x")
    case True
    with assms Some after show ?thesis by (auto simp: settle_extension_def)
  next
    case False
    have found: "w2 = w \<and> (\<forall>b. z = Inr b \<longrightarrow> b = applied env w)"
      if "ends (handle_prog (locked_vm v (find_receipt env)) (\<lambda>_. Raise L_Unknown)) w z w2" for z w2
      using ends_handle [OF that] by (auto dest: find_receipt_ends)
    from assms(1) Some False have "ends (bind_prog (handle_prog (locked_vm v (find_receipt env)) (\<lambda>_. Raise L_Unknown))
        (\<lambda>found. if found then after_extension env v was else Return None)) w y w1" by (simp add: settle_extension_def)
    from ends_bind [OF this] consider e where "y = Inl e" "w1 = w"
      | "applied env w" "ends (after_extension env v was) w y w1" | "\<not> applied env w" "y = Inr None" "w1 = w"
      by (auto dest!: found split: if_splits)
    then show ?thesis by cases (use after in auto)
  qed
qed

lemma confirm_ends:
  assumes "ends (handle_prog (settle_extension env v x) (\<lambda>_. Raise (L_Http 503))) w r w'"
    and "applied env w \<longrightarrow> fst x \<noteq> None" "fst x \<noteq> None \<and> snd x \<longrightarrow> applied env w"
  shows "applied env w' = applied env w \<and> refunded env v w' = refunded env v w \<and>
    (\<forall>e. r = Inl e \<longrightarrow> e = L_Http 503) \<and> (\<forall>u. r = Inr u \<longrightarrow> applied env w = (u \<noteq> None))"
  using ends_handle [OF assms(1)] settle_ends [OF _ assms(2,3)] by fastforce

text \<open>C9: a paid extension, whichever of its transactions are refused by the database or lose their answers: the customer is never
  both given the time and recorded for a refund; the route answers with the VM only if the time is stored, and with 402,
  404 or 409 only if it is not; after such a refusal nothing has changed or the refund is recorded.\<close>

theorem extension_applied_or_refunded:
  assumes "ends (extend_route env v i paid n) w r w'" and "\<not> applied env w" and "\<not> refunded env v w"
  shows "\<not> (applied env w' \<and> refunded env v w') \<and> (\<forall>row. r = Inr row \<longrightarrow> applied env w') \<and>
    (r \<in> {Inl (L_Http 402), Inl (L_Http 404), Inl (L_Http 409)} \<longrightarrow>
       \<not> applied env w' \<and> (refunded env v w' \<or> w' = w))"
proof -
  from ends_bind [OF assms(1) [unfolded extend_route_def]] show ?thesis
  proof (elim disjE exE conjE)
    fix e assume s: "ends (locked_try v (extend_paid_held env i paid n)) w (Inl e) w'" "r = Inl e"
    with extend_paid_ends [OF s(1) assms(2)] assms show ?thesis by (auto simp: refunded_def)
  next
    fix x w1 assume s: "ends (locked_try v (extend_paid_held env i paid n)) w (Inr x) w1"
      and k: "ends (bind_prog (handle_prog (settle_extension env v x) (\<lambda>_. Raise (L_Http 503)))
         (\<lambda>updated. case updated of Some row \<Rightarrow> Return row | None \<Rightarrow> refund_extension env v)) w1 r w'"
    from extend_paid_ends [OF s assms(2)] have w1: "applied env w1 \<longrightarrow> fst x \<noteq> None" "fst x \<noteq> None \<and> snd x \<longrightarrow> applied env w1"
      "\<not> refunded env v w1" using assms(3) by (cases x; auto simp: refunded_def)+
    note confirm = confirm_ends [OF _ w1(1,2)]
    from ends_bind [OF k] show ?thesis
    proof (elim disjE exE conjE)
      fix e assume "r = Inl e" "ends (handle_prog (settle_extension env v x) (\<lambda>_. Raise (L_Http 503))) w1 (Inl e) w'"
      with confirm w1(3) show ?thesis by fastforce
    next
      fix u w2 assume k2: "ends (case u of Some row \<Rightarrow> Return row | None \<Rightarrow> refund_extension env v) w2 r w'"
        and c: "ends (handle_prog (settle_extension env v x) (\<lambda>_. Raise (L_Http 503))) w1 (Inr u) w2"
      show ?thesis
      proof (cases u)
        case None
        with k2 have "ends (refund_extension env v) w2 r w'" by simp
        from refund_extension_ends [OF this] confirm [OF c] None show ?thesis by auto
      next
        case (Some row)
        with k2 confirm [OF c] w1(3) show ?thesis by auto
      qed
    qed
  qed
qed

subsection \<open>Runs\<close>

definition demo_vm :: life_vm where
  "demo_vm = \<lparr>lv_id = ''v1'', lv_wallet = ''w'', lv_owner = Some ''a1'', lv_token = None, lv_status = RUNNING,
     lv_uuid = Some ''g1'', lv_prefix = Some 7, lv_expires = Some (Aware 0 0), lv_deletion = None, lv_reason = None,
     lv_by = None, lv_resume = None, lv_transfer = None, lv_deleted_uuid = None, lv_notices = [], lv_created = 0,
     lv_destroyed = None, lv_error = None, lv_hostname = [], lv_mode = AUTO, lv_domain = None,
     lv_config = (''os'', 1, 1, 1, ''key'')\<rparr>"

definition demo_life :: life_world where
  "demo_life = \<lparr>lw_vms = [demo_vm], lw_retention = Map.empty, lw_restores = Map.empty,
     lw_accounts = [''a1'' \<mapsto> \<lparr>ac_id = ''a1'', ac_is_admin = False, ac_disabled_at = None\<rparr>],
     lw_attempts = {''v1''}, lw_receipts = [], lw_refunds = [], lw_jobs = [], lw_notes = [], lw_audit = [],
     lw_dispatched = [], lw_log = []\<rparr>"

definition demo_life_cfg :: life_cfg where
  "demo_life_cfg = \<lparr>lc_grace_hours = 1, lc_retention = False, lc_retention_days = 1, lc_verify_interval = 1,
     lc_verify_retry = 1, lc_verify_batch = 1, lc_warning_hours = [2], lc_deletion_warning_hours = 1, lc_domains = False\<rparr>"

definition demo_life_env :: "int \<Rightarrow> bool \<Rightarrow> life_env" where
  "demo_life_env now ok = \<lparr>le_now = now, le_receipt = ''r1'', le_power = (\<lambda>_. Some ''Halted''), le_ok = (\<lambda>_. ok),
     le_capture = (\<lambda>_. None), le_dns_ok = True, le_detach_ok = True\<rparr>"

text \<open>Ten hours after the expiry the sweep deletes the VM and frees its prefix.\<close>

definition demo_sweep :: "(life_world, life_exn, unit) prog" where
  "demo_sweep = seq_prog (check_expiries demo_life_cfg (hours 10) (\<lambda>_. demo_life_env (hours 10) True) [] []) (Return ())"

lemma demo_sweep_log:
  "lw_log (fst (drive 40 demo_sweep demo_life)) =
     [Freed ''v1'' (Some ''g1''), Delete_Done ''v1'' ''g1'', Delete_Asked ''v1'' ''g1'', Claimed ''v1'' (Some (hours 9)) False]"
  by code_simp

lemma demo_life_fresh: "life_fresh demo_life"
  by (simp add: life_fresh_def demo_life_def demo_vm_def unborn_def unique_by_def)

lemma demo_sweep_run:
  "(pool_step (life_starts demo_life_cfg))\<^sup>*\<^sup>* (demo_life, []) (fst (drive 40 demo_sweep demo_life), [snd (drive 40 demo_sweep demo_life)])"
  using drive_started [of demo_sweep "life_starts demo_life_cfg" demo_life "[]" 40]
  by (simp add: demo_sweep_def life_starts.expiries)


theorem vm_rows_well_formed_witness: "unique_by lv_id (lw_vms (fst (drive 40 demo_sweep demo_life)))"
  using vm_rows_well_formed [OF demo_sweep_run demo_life_fresh] by blast

theorem expiry_policy_matches_sweep_witness:
  "fst (sweep_held demo_life_cfg (demo_life_env (hours 10) True) (Some demo_vm) demo_life) = Inr (Delete_Due (hours 9))"
proof -
  have "\<exists>c. fst (sweep_held demo_life_cfg (demo_life_env (hours 10) True) (Some demo_vm) demo_life) = Inr (Delete_Due c)"
    using expiry_policy_matches_sweep [of demo_vm demo_life demo_life_cfg "demo_life_env (hours 10) True"]
    by (simp add: demo_vm_def demo_life_def demo_life_cfg_def build_vm_expiry_def demo_life_env_def Let_def hours_def)
  moreover have "c = hours 9"
    if "fst (sweep_held demo_life_cfg (demo_life_env (hours 10) True) (Some demo_vm) demo_life) = Inr (Delete_Due c)" for c
    using expiry_policy_matches_sweep [of demo_vm demo_life demo_life_cfg "demo_life_env (hours 10) True"] that
    by (simp add: demo_vm_def demo_life_def demo_life_cfg_def demo_life_env_def hours_def)
  ultimately show ?thesis by auto
qed

theorem extension_exact_witness:
  "\<exists>r'. life_at (snd (snd (extend_held (demo_life_env 5 True) 2 (Some demo_vm) demo_life))) ''v1'' = Some r' \<and>
     lv_expires r' = Some (Aware (5 + days 2) 0)"
proof -
  have ok: "vm_can_extend (Some demo_vm) \<and> vm_owner_enabled demo_life demo_vm \<and>
      reconcile_extension_power (demo_life_env 5 True) demo_vm \<noteq> None"
    by (simp add: reconcile_extension_power_def demo_life_env_def demo_vm_def demo_life_def vm_can_extend_def
        vm_owner_enabled_def account_active_def locked_reason_def)
  have at: "life_at demo_life ''v1'' = Some demo_vm" by (simp add: life_at_def demo_life_def demo_vm_def)
  have e: "utc (the (lv_expires demo_vm)) = 0" "le_now (demo_life_env 5 True) = 5"
    by (simp_all add: demo_vm_def demo_life_env_def)
  from extension_exact [OF life_fresh_inv [OF demo_life_fresh] at, of "demo_life_env 5 True" 2] ok e show ?thesis by auto
qed

text \<open>An extension bought in time.\<close>

definition demo_extension :: "life_vm life" where
  "demo_extension = extend_route (demo_life_env (- 5) True) ''v1'' (identity_of demo_vm) True 2"

lemma demo_extension_run: "\<exists>row. fst (run_alone demo_extension demo_life) = Inr row"
proof -
  have "(case fst (run_alone demo_extension demo_life) of Inl e \<Rightarrow> False | Inr row \<Rightarrow> True)" by code_simp
  then show ?thesis by (cases "fst (run_alone demo_extension demo_life)") simp_all
qed

theorem extension_applied_or_refunded_witness:
  "applied (demo_life_env (- 5) True) (snd (run_alone demo_extension demo_life))"
proof -
  obtain row where "fst (run_alone demo_extension demo_life) = Inr row" using demo_extension_run by blast
  then have "run_alone demo_extension demo_life = (Inr row, snd (run_alone demo_extension demo_life))"
    by (metis prod.collapse)
  from extension_applied_or_refunded [OF run_ends [OF this [unfolded demo_extension_def]]] show ?thesis
    by (simp add: demo_extension_def applied_def refunded_def demo_life_def)
qed

text \<open>The gap in the fence: the VM of a disabled account is being destroyed, the provider fails, and the enabling of the
  account starts the guest under the open claim.\<close>

definition demo_disabled :: life_world where
  "demo_disabled = demo_life\<lparr>lw_vms := [demo_vm\<lparr>lv_status := SUSPENDED, lv_reason := Some ''account_disabled'',
     lv_expires := Some (Aware (days 9) 0)\<rparr>]\<rparr>"

lemma enabling_starts_claimed_guest:
  "lw_log (snd (run_alone (resume_account_vm (demo_life_env 6 True) ''a1'' ''v1'')
     (snd (run_alone (destroy_vm demo_life_cfg (demo_life_env 5 False) None None False (\<lambda>_. True) ''v1'') demo_disabled)))) =
   [Power_Asked P_Enable ''v1'' ''g1'', Delete_Asked ''v1'' ''g1'', Claimed ''v1'' None False]"
  by code_simp

end
