(* ===== verification/Accounts.thy ===== *)
theory Accounts
  imports Vm_Expiry "HOL-Library.Sublist"
begin

text \<open>
  Accounts and their credentials (\<^verbatim>\<open>api/auth.py\<close>, \<^verbatim>\<open>domains/wallet_auth.py\<close>, \<^verbatim>\<open>services/passwords.py\<close>): registration,
  login by password or wallet, both kinds of recovery, password and wallet changes, the claim of an ownerless VM and the
  deletion of an account. A handler is a program of \<^verbatim>\<open>Threads\<close>; what it does under the row lock of the account is one
  transaction. The VM rows and the account rows are those of the world of \<^verbatim>\<open>Vm_Life\<close>, which is a part of this one.
\<close>

subsection \<open>Rows\<close>

text \<open>The credential columns of \<^verbatim>\<open>AccountRow\<close>.\<close>

record credential =
  cd_password :: "string option"
  cd_recovery :: "string option"
  cd_recovery_issued :: "int option"
  cd_recovery_used :: "int option"
  cd_changed :: "int option"
  cd_last_login :: "int option"

record wallet_row =
  wl_account :: string
  wl_address :: string
  wl_chain :: int

datatype wallet_action = W_LOGIN | W_LINK | W_ROTATE | W_TRANSFER

record wallet_challenge =
  wc_nonce :: string
  wc_action :: wallet_action
  wc_address :: string
  wc_chain :: int
  wc_account :: "string option"
  wc_resource :: "string option"
  wc_message :: string
  wc_expires :: int
  wc_used :: "int option"

record recovery_challenge =
  rc_nonce :: string
  rc_account :: string
  rc_text :: string
  rc_expires :: int
  rc_used :: "int option"

datatype recovery_method = By_Code | By_Wallet

record recovery_attempt =
  ra_account :: "string option"
  ra_method :: recovery_method
  ra_success :: bool

text \<open>The columns of domains and mailboxes that belong to their owner.\<close>

record held_domain =
  dm_fqdn :: string
  dm_owner :: "string option"
  dm_wallet :: "string option"
  dm_token :: "string option"
  dm_vm :: "string option"

record mailbox =
  mb_id :: string
  mb_owner :: "string option"
  mb_token :: "string option"
  mb_status :: string
  mb_expires :: "py_datetime option"
  mb_reason :: "string option"
  mb_by :: "string option"

datatype operation_kind = Suspend_Resources | Resume_Resources

datatype operation_status = Q_QUEUED | Q_RUNNING | Q_COMPLETED | Q_FAILED

record admin_operation =
  op_id :: string
  op_kind :: operation_kind
  op_account :: string
  op_actor :: "string option"
  op_status :: operation_status
  op_created :: int
  op_started :: "int option"
  op_completed :: "int option"
  op_error :: bool
  op_counts :: "(int \<times> int) option"       \<comment> \<open>\<^verbatim>\<open>progress["vms"]\<close>, \<^verbatim>\<open>progress["mailboxes"]\<close>\<close>
  op_superseded :: "string option"           \<comment> \<open>\<^verbatim>\<open>progress["superseded"]\<close>: by which operation\<close>

record resolution =
  rn_id :: string
  rn_event :: string
  rn_type :: string
  rn_resource :: string
  rn_resolved :: bool                        \<comment> \<open>or rejected\<close>
  rn_actor :: string

text \<open>A \<^verbatim>\<open>refund_owed\<close> row of the ledger, with what it says of its resource; and the status of a linked domain order.\<close>

record owed_event =
  oe_id :: string
  oe_vm :: "string option"
  oe_order :: "string option"
  oe_tx :: "string option"

record audit_row =
  au_actor :: string
  au_action :: string
  au_target :: "string option"
  au_succeeded :: bool

text \<open>What the safety argument is about; the code has no such log. A credential is the hash of its token.\<close>

datatype acct_event =
  Registered_With string string            \<comment> \<open>account, session or key that its registration issued\<close>
| Account_Opened string
| Challenge_Spent string
| Recovery_Spent string
| Password_Set string
| Obeyed operation_kind string bool        \<comment> \<open>account; all of its resources were treated\<close>
| Session_Opened string
| Password_Checked string int bool         \<comment> \<open>step-up of a session, when, with what result\<close>

record acct_world =
  aw_life :: life_world
  aw_cred :: "string \<rightharpoonup> credential"
  aw_sessions :: sessions
  aw_step_up :: "string \<Rightarrow> nat \<times> int option"  \<comment> \<open>attempts and start of their window, by session\<close>
  aw_keys :: api_keys
  aw_wallets :: "wallet_row list"
  aw_challenges :: "wallet_challenge list"
  aw_recovery :: "recovery_challenge list"
  aw_attempts :: "recovery_attempt list"
  aw_domains :: "held_domain list"
  aw_mail :: "mailbox list"
  aw_orders :: "(string \<times> string) list"    \<comment> \<open>domain orders with their owners\<close>
  aw_refunded :: "string set"               \<comment> \<open>domain orders whose status an administrator set to \<^verbatim>\<open>refunded\<close>\<close>
  aw_pending :: "string set"                \<comment> \<open>names and VMs with a queued or running operation or job\<close>
  aw_ops :: "admin_operation list"
  aw_owed :: "owed_event list"
  aw_resolutions :: "resolution list"
  aw_audit :: "audit_row list"
  aw_log :: "acct_event list"               \<comment> \<open>newest first\<close>

type_synonym 'a acct = "(acct_world, http_exn, 'a) prog"

text \<open>The clock, the drawn values and the answers of the libraries during one request: argon2, SHA-256, the recovery
  of the signer of an EIP-191 message, \<^verbatim>\<open>ssh-keygen -Y verify\<close> and the rendering of times.\<close>

record acct_env =
  ae_now :: int
  ae_ids :: "string list"                   \<comment> \<open>drawn account ids\<close>
  ae_uuid :: string
  ae_rnd1 :: string
  ae_rnd2 :: string
  ae_key_rnd :: string
  ae_nonce :: string
  ae_password_hash :: string                \<comment> \<open>\<^verbatim>\<open>hash_password\<close> of the new password\<close>
  ae_code :: string
  ae_code_hash :: string
  ae_vm_token :: "string \<Rightarrow> string"        \<comment> \<open>fresh management token of a detached VM\<close>
  ae_argon :: "string \<Rightarrow> string \<Rightarrow> bool"
  ae_sha :: hash
  ae_signer :: "string \<Rightarrow> string \<Rightarrow> string option"
  ae_ssh :: "string \<Rightarrow> string \<Rightarrow> string \<Rightarrow> bool"
  ae_show_time :: "int \<Rightarrow> string"
  ae_agent :: "string option"
  ae_ip :: "string option"

definition acct_db_error :: http_exn where
  "acct_db_error = HTTP 500 ''Internal Server Error''"

definition acct_do :: "(acct_world \<Rightarrow> (http_exn + 'a) \<times> acct_world) \<Rightarrow> 'a acct" where
  "acct_do f = transact acct_db_error f"

definition acct_at :: "acct_world \<Rightarrow> string \<Rightarrow> account option" where
  "acct_at w a = lw_accounts (aw_life w) a"

definition enabled_account :: "acct_world \<Rightarrow> string \<Rightarrow> bool" where
  "enabled_account w a = (case acct_at w a of None \<Rightarrow> False | Some acc \<Rightarrow> ac_disabled_at acc = None)"

definition disabled_account :: "acct_world \<Rightarrow> string \<Rightarrow> bool" where
  "disabled_account w a = (case acct_at w a of None \<Rightarrow> False | Some acc \<Rightarrow> ac_disabled_at acc \<noteq> None)"

definition enabled_admin :: "acct_world \<Rightarrow> string \<Rightarrow> bool" where
  "enabled_admin w a = (case acct_at w a of None \<Rightarrow> False | Some acc \<Rightarrow> ac_is_admin acc \<and> ac_disabled_at acc = None)"

definition put_acct :: "string \<Rightarrow> account option \<Rightarrow> acct_world \<Rightarrow> acct_world" where
  "put_acct a acc w = w\<lparr>aw_life := (aw_life w)\<lparr>lw_accounts := (lw_accounts (aw_life w))(a := acc)\<rparr>\<rparr>"

definition cred_of :: "acct_world \<Rightarrow> string \<Rightarrow> credential" where
  "cred_of w a = (case aw_cred w a of
     None \<Rightarrow> \<lparr>cd_password = None, cd_recovery = None, cd_recovery_issued = None, cd_recovery_used = None,
       cd_changed = None, cd_last_login = None\<rparr>
   | Some c \<Rightarrow> c)"

definition put_cred :: "string \<Rightarrow> credential \<Rightarrow> acct_world \<Rightarrow> acct_world" where
  "put_cred a c w = w\<lparr>aw_cred := (aw_cred w)(a \<mapsto> c)\<rparr>"

definition acct_log :: "acct_event \<Rightarrow> acct_world \<Rightarrow> acct_world" where
  "acct_log e w = w\<lparr>aw_log := e # aw_log w\<rparr>"

definition map_vms :: "(life_vm \<Rightarrow> life_vm) \<Rightarrow> acct_world \<Rightarrow> acct_world" where
  "map_vms f w = w\<lparr>aw_life := (aw_life w)\<lparr>lw_vms := map f (lw_vms (aw_life w))\<rparr>\<rparr>"

definition verify_password :: "acct_env \<Rightarrow> string option \<Rightarrow> string \<Rightarrow> bool" where
  "verify_password env stored password = (case stored of None \<Rightarrow> False | Some h \<Rightarrow> ae_argon env h password)"

definition generate_recovery_code :: "string \<Rightarrow> string" where
  "generate_recovery_code body = ''hyr-rec-'' @ body"

subsection \<open>Sessions and registration\<close>

text \<open>\<^verbatim>\<open>create_session\<close> with its commit: the tokens of the session that it stores.\<close>

definition open_session :: "acct_env \<Rightarrow> string \<Rightarrow> acct_world \<Rightarrow> (http_exn + string \<times> string) \<times> acct_world" where
  "open_session env a w =
     (if acct_at w a = None then (Inl acct_db_error, w)
      else case create_session (ae_sha env) a (ae_agent env) (ae_ip env) (ae_rnd1 env) (ae_rnd2 env) (ae_now env) (aw_sessions w) of
        None \<Rightarrow> (Inl acct_db_error, w)
      | Some (tokens, t) \<Rightarrow>
        let th = hash_session_token (ae_sha env) (fst tokens)
        in (Inr tokens, acct_log (Session_Opened th) (w\<lparr>aw_sessions := t, aw_step_up := (aw_step_up w)(th := (0, None))\<rparr>)))"

definition insert_account :: "acct_env \<Rightarrow> string \<Rightarrow> acct_world \<Rightarrow> (http_exn + unit) \<times> acct_world" where
  "insert_account env a w =
     (if acct_at w a \<noteq> None then (Inl acct_db_error, w)
      else (Inr (), acct_log (Account_Opened a) (put_cred a \<lparr>cd_password = Some (ae_password_hash env), cd_recovery = Some (ae_code_hash env),
              cd_recovery_issued = Some (ae_now env), cd_recovery_used = None, cd_changed = Some (ae_now env),
              cd_last_login = None\<rparr>
            (put_acct a (Some \<lparr>ac_id = a, ac_is_admin = False, ac_disabled_at = None\<rparr>) w))))"

fun register_tries :: "acct_env \<Rightarrow> string list \<Rightarrow> string acct" where
  "register_tries env [] = Raise (HTTP 500 ''Account creation failed'')"
| "register_tries env (a # ids) =
     handle_prog (seq_prog (acct_do (insert_account env a)) (Return a)) (\<lambda>_. register_tries env ids)"

definition first_session :: "acct_env \<Rightarrow> string \<Rightarrow> acct_world \<Rightarrow> (http_exn + string \<times> string) \<times> acct_world" where
  "first_session env a w =
     (case open_session env a w of
        (Inl e, w1) \<Rightarrow> (Inl e, w1)
      | (Inr tokens, w1) \<Rightarrow> (Inr tokens, acct_log (Registered_With a (hash_session_token (ae_sha env) (fst tokens))) w1))"

definition first_key :: "acct_env \<Rightarrow> string option \<Rightarrow> string \<Rightarrow> acct_world \<Rightarrow> (http_exn + string \<times> api_key_row) \<times> acct_world" where
  "first_key env name a w =
     (if acct_at w a = None then (Inl acct_db_error, w)
      else case create_api_key (ae_sha env) a (take 64 (or_str name ''agent-bootstrap''))
             (map scope_value DEFAULT_BOOTSTRAP_SCOPES) None (ae_key_rnd env) (ae_uuid env) (ae_now env) (aw_keys w) of
        Inl e \<Rightarrow> (Inl acct_db_error, w)
      | Inr (r, keys) \<Rightarrow> (Inr r, acct_log (Registered_With a (k_hash (snd r))) (w\<lparr>aw_keys := keys\<rparr>)))"

definition register :: "acct_env \<Rightarrow> bool \<Rightarrow> string option \<Rightarrow> (string \<times> string \<times> (string \<times> api_key_row) option) acct" where
  "register env with_key name =
     bind_prog (register_tries env (take 5 (ae_ids env))) (\<lambda>a.
       seq_prog (acct_do (first_session env a))
         (if with_key then bind_prog (acct_do (first_key env name a)) (\<lambda>k. Return (a, ae_code env, Some k))
          else Return (a, ae_code env, None)))"

subsection \<open>Login\<close>

definition invalid_credentials :: http_exn where
  "invalid_credentials = HTTP 401 ''Invalid credentials''"

definition check_login :: "acct_env \<Rightarrow> string \<Rightarrow> string \<Rightarrow> acct_world \<Rightarrow> http_exn + string" where
  "check_login env a password w =
     (if acct_at w a = None then Inl invalid_credentials
      else case cd_password (cred_of w a) of
        None \<Rightarrow> Inl invalid_credentials
      | Some h \<Rightarrow> if \<not> verify_password env (Some h) password then Inl invalid_credentials else Inr h)"

text \<open>The password was verified before the lock was taken, against the hash \<open>h\<close>.\<close>

definition issue_login :: "acct_env \<Rightarrow> string \<Rightarrow> string \<Rightarrow> acct_world \<Rightarrow> (http_exn + string \<times> string) \<times> acct_world" where
  "issue_login env a h w =
     (if acct_at w a = None \<or> cd_password (cred_of w a) \<noteq> Some h then (Inl invalid_credentials, w)
      else if disabled_account w a then (Inl (HTTP 403 ''Account disabled''), w)
      else case open_session env a w of
        (Inl e, _) \<Rightarrow> (Inl e, w)
      | (Inr tokens, w1) \<Rightarrow> (Inr tokens, put_cred a ((cred_of w a)\<lparr>cd_last_login := Some (ae_now env)\<rparr>) w1))"

definition login :: "acct_env \<Rightarrow> string \<Rightarrow> string \<Rightarrow> (string \<times> string) acct" where
  "login env a password =
     bind_prog (acct_do (\<lambda>w. (check_login env a password w, w))) (\<lambda>h. acct_do (issue_login env a h))"

definition logout :: "acct_env \<Rightarrow> string option \<Rightarrow> unit acct" where
  "logout env cookie = acct_do (\<lambda>w. (Inr (), w\<lparr>aw_sessions := revoke_session (ae_sha env) cookie (aw_sessions w)\<rparr>))"

subsection \<open>Recovery by code\<close>

definition note_attempt :: "string option \<Rightarrow> recovery_method \<Rightarrow> bool \<Rightarrow> acct_world \<Rightarrow> acct_world" where
  "note_attempt a m ok w = w\<lparr>aw_attempts := aw_attempts w @ [\<lparr>ra_account = a, ra_method = m, ra_success = ok\<rparr>]\<rparr>"

definition code_valid :: "acct_env \<Rightarrow> string \<Rightarrow> credential \<Rightarrow> bool" where
  "code_valid env code c \<longleftrightarrow>
     (case cd_recovery c of None \<Rightarrow> False | Some h \<Rightarrow> cd_recovery_used c = None \<and> ae_argon env h code)"

definition bad_code :: "string option \<Rightarrow> http_exn \<Rightarrow> acct_world \<Rightarrow> (http_exn + 'a) \<times> acct_world" where
  "bad_code a e w = (Inl e, note_attempt a By_Code False w)"

definition close_sessions :: "string \<Rightarrow> acct_world \<Rightarrow> acct_world" where
  "close_sessions a w = w\<lparr>aw_sessions := snd (revoke_all_sessions_for a (aw_sessions w))\<rparr>"

definition set_password :: "acct_env \<Rightarrow> string \<Rightarrow> acct_world \<Rightarrow> acct_world" where
  "set_password env a w =
     acct_log (Password_Set a)
       (put_cred a ((cred_of w a)\<lparr>cd_password := Some (ae_password_hash env), cd_changed := Some (ae_now env)\<rparr>) w)"

definition new_code :: "acct_env \<Rightarrow> string \<Rightarrow> acct_world \<Rightarrow> acct_world" where
  "new_code env a w =
     put_cred a ((cred_of w a)\<lparr>cd_recovery := Some (ae_code_hash env), cd_recovery_issued := Some (ae_now env),
       cd_recovery_used := None\<rparr>) w"

definition check_code :: "acct_env \<Rightarrow> string \<Rightarrow> string \<Rightarrow> acct_world \<Rightarrow> (http_exn + unit) \<times> acct_world" where
  "check_code env a code w =
     (if acct_at w a = None then bad_code None (HTTP 401 ''Invalid recovery code'') w
      else if \<not> code_valid env code (cred_of w a) then bad_code (Some a) (HTTP 401 ''Invalid recovery code'') w
      else (Inr (), w))"

definition redeem_code :: "acct_env \<Rightarrow> string \<Rightarrow> string \<Rightarrow> acct_world \<Rightarrow> (http_exn + string) \<times> acct_world" where
  "redeem_code env a code w =
     (if acct_at w a = None then bad_code None (HTTP 401 ''Invalid recovery code'') w
      else if disabled_account w a then bad_code (Some a) (HTTP 403 ''Account access is disabled'') w
      else if \<not> code_valid env code (cred_of w a) then bad_code (Some a) (HTTP 401 ''Invalid recovery code'') w
      else (Inr (ae_code env),
            close_sessions a (note_attempt (Some a) By_Code True (new_code env a (set_password env a w)))))"

definition recover_with_code :: "acct_env \<Rightarrow> string \<Rightarrow> string \<Rightarrow> string acct" where
  "recover_with_code env a code = seq_prog (acct_do (check_code env a code)) (acct_do (redeem_code env a code))"

subsection \<open>Recovery by wallet\<close>

definition RECOVERY_CHALLENGE_TTL :: int where
  "RECOVERY_CHALLENGE_TTL = minutes 5"

definition build_recovery_challenge_text :: "string \<Rightarrow> string \<Rightarrow> string \<Rightarrow> string \<Rightarrow> string \<Rightarrow> string" where
  "build_recovery_challenge_text account nonce issued expires origin =
     ''Recover Hyrule account '' @ account @ ''\<newline>Origin: '' @ origin @ ''\<newline>Nonce: '' @ nonce @
     ''\<newline>Issued: '' @ issued @ ''\<newline>Expires: '' @ expires"

definition recover_wallet_challenge :: "acct_env \<Rightarrow> string \<Rightarrow> string \<Rightarrow> recovery_challenge acct" where
  "recover_wallet_challenge env origin a =
     acct_do (\<lambda>w.
       let expires = ae_now env + RECOVERY_CHALLENGE_TTL;
           c = \<lparr>rc_nonce = ae_nonce env, rc_account = a,
             rc_text = build_recovery_challenge_text a (ae_nonce env) (ae_show_time env (ae_now env))
               (ae_show_time env expires) origin,
             rc_expires = expires, rc_used = None\<rparr>
       in if row_at rc_nonce (ae_nonce env) (aw_recovery w) \<noteq> None then (Inl acct_db_error, w)
          else (Inr c, w\<lparr>aw_recovery := aw_recovery w @ [c]\<rparr>))"

definition invalid_recovery :: http_exn where
  "invalid_recovery = HTTP 401 ''Invalid or expired recovery challenge''"

definition bad_proof :: "string option \<Rightarrow> http_exn \<Rightarrow> acct_world \<Rightarrow> (http_exn + 'a) \<times> acct_world" where
  "bad_proof a e w = (Inl e, note_attempt a By_Wallet False w)"

definition pays_for :: "string \<Rightarrow> string \<Rightarrow> life_vm \<Rightarrow> bool" where
  "pays_for address a r \<longleftrightarrow> lv_owner r = Some a \<and> lower (lv_wallet r) = lower address"

definition spend_recovery :: "int \<Rightarrow> recovery_challenge \<Rightarrow> acct_world \<Rightarrow> acct_world" where
  "spend_recovery now c w =
     acct_log (Recovery_Spent (rc_nonce c)) (w\<lparr>aw_recovery := put_row rc_nonce (c\<lparr>rc_used := Some now\<rparr>) (aw_recovery w)\<rparr>)"

text \<open>\<open>seen\<close>: the VM rows, which are read before the lock of the account is taken.\<close>

definition recover_wallet_verify :: "acct_env \<Rightarrow> life_vm list \<Rightarrow> string \<Rightarrow> string \<Rightarrow> string acct" where
  "recover_wallet_verify env seen nonce signature =
     acct_do (\<lambda>w.
       case row_at rc_nonce nonce (aw_recovery w) of
         None \<Rightarrow> bad_proof None invalid_recovery w
       | Some c \<Rightarrow>
         let a = rc_account c in
         if rc_used c \<noteq> None \<or> rc_expires c < ae_now env then bad_proof (Some a) invalid_recovery w
         else (case ae_signer env (rc_text c) signature of
             None \<Rightarrow> bad_proof (Some a) invalid_recovery w
           | Some address \<Rightarrow>
             if filter (pays_for address a) seen = [] then bad_proof (Some a) invalid_recovery w
             else if acct_at w a = None then bad_proof (Some a) invalid_recovery w
             else if disabled_account w a then bad_proof (Some a) (HTTP 403 ''Account access is disabled'') w
             else (Inr a, close_sessions a (note_attempt (Some a) By_Wallet True
                     (set_password env a (spend_recovery (ae_now env) c w))))))"

subsection \<open>The signed-in account\<close>

text \<open>The cookie's own session survives; \<open>a\<close> is the account of \<^verbatim>\<open>require_browser_session\<close>.\<close>

definition change_password :: "acct_env \<Rightarrow> string \<Rightarrow> string option \<Rightarrow> string \<Rightarrow> unit acct" where
  "change_password env a cookie current =
     acct_do (\<lambda>w.
       if acct_at w a = None then (Inl (HTTP 404 ''Account not found''), w)
       else if disabled_account w a then (Inl (HTTP 403 ''Account access is disabled''), w)
       else if cd_password (cred_of w a) \<noteq> None \<and> \<not> verify_password env (cd_password (cred_of w a)) current
       then (Inl (HTTP 401 ''Current password is incorrect''), w)
       else
         let w1 = set_password env a w in
         (Inr (), if truthy cookie
            then w1\<lparr>aw_sessions := snd (delete_rows (\<lambda>s. ss_account s = a \<and>
                   ss_token_hash s \<noteq> hash_session_token (ae_sha env) (the cookie)) (aw_sessions w1))\<rparr>
            else close_sessions a w1))"

definition rotate_recovery_code :: "acct_env \<Rightarrow> string \<Rightarrow> string \<Rightarrow> string acct" where
  "rotate_recovery_code env a current =
     acct_do (\<lambda>w.
       if acct_at w a = None then (Inl (HTTP 404 ''Account not found''), w)
       else if disabled_account w a then (Inl (HTTP 403 ''Account access is disabled''), w)
       else if \<not> verify_password env (cd_password (cred_of w a)) current
       then (Inl (HTTP 401 ''Current password is incorrect''), w)
       else (Inr (ae_code env), new_code env a w))"

text \<open>The key endpoints of \<^verbatim>\<open>Access\<close>, on the tables of this world.\<close>

definition auth_db_of :: "acct_world \<Rightarrow> auth_db" where
  "auth_db_of w = \<lparr>db_sessions = aw_sessions w, db_keys = aw_keys w, db_accounts = lw_accounts (aw_life w)\<rparr>"

definition mint_key :: "acct_env \<Rightarrow> key_body \<Rightarrow> account \<Rightarrow> req_state \<Rightarrow> (string \<times> api_key_row) acct" where
  "mint_key env body acc st =
     acct_do (\<lambda>w. case create_api_key_endpoint (ae_sha env) True body acc st (ae_key_rnd env) (ae_uuid env) (ae_now env)
           (auth_db_of w) of
         (r, db) \<Rightarrow> (r, w\<lparr>aw_keys := db_keys db\<rparr>))"

definition drop_key :: "acct_env \<Rightarrow> string \<Rightarrow> account \<Rightarrow> req_state \<Rightarrow> bool acct" where
  "drop_key env key_id acc st =
     acct_do (\<lambda>w. case revoke_api_key_endpoint True key_id acc st (ae_now env) (auth_db_of w) of
         (r, db) \<Rightarrow> (r, w\<lparr>aw_keys := db_keys db\<rparr>))"

subsection \<open>The claim of an ownerless VM\<close>

datatype claim_proof =
  Proof_Token string | Proof_Wallet string string | Proof_Ssh string string  \<comment> \<open>challenge and signature\<close>

text \<open>\<open>None\<close>: the challenge does not name the VM. The text of a challenge is the client's own.\<close>

definition claim_proven :: "acct_env \<Rightarrow> claim_proof \<Rightarrow> life_vm \<Rightarrow> bool option" where
  "claim_proven env p r =
     (case p of
        Proof_Token token \<Rightarrow> Some (lv_token r \<noteq> None \<and> lv_token r = Some (hash_anon_token (ae_sha env) token))
      | Proof_Wallet challenge signature \<Rightarrow>
        if \<not> sublist (lv_id r) challenge then None
        else Some (case ae_signer env challenge signature of
            None \<Rightarrow> False
          | Some address \<Rightarrow> lv_wallet r \<noteq> [] \<and> lower address = lower (lv_wallet r))
      | Proof_Ssh challenge armor \<Rightarrow>
        if \<not> sublist (lv_id r) challenge then None
        else (case lv_config r of (_, _, _, _, pubkey) \<Rightarrow>
          Some (strip pubkey \<noteq> [] \<and> ae_ssh env challenge armor (strip pubkey))))"

text \<open>Account first, then VM; both stay locked, so that the second check of each sees the same rows.\<close>

definition claim_vm :: "acct_env \<Rightarrow> string \<Rightarrow> string \<Rightarrow> claim_proof \<Rightarrow> string acct" where
  "claim_vm env a vid p =
     acct_do (\<lambda>w.
       if \<not> enabled_account w a then (Inl (HTTP 403 ''Account is disabled or unavailable''), w)
       else (case life_at (aw_life w) vid of
           None \<Rightarrow> (Inl (HTTP 404 ''VM not found''), w)
         | Some r \<Rightarrow>
           if lv_owner r \<noteq> None then (Inl (HTTP 409 ''VM already claimed''), w)
           else (case claim_proven env p r of
               None \<Rightarrow> (Inl (HTTP 400 ''Challenge must contain the vm_id''), w)
             | Some proven \<Rightarrow>
               if \<not> proven then (Inl (HTTP 403 ''Proof of ownership rejected''), w)
               else if lv_deletion r \<noteq> None \<or> lv_status r = DESTROYED \<or> lw_retention (aw_life w) vid \<noteq> None
               then (Inl (HTTP 409 ''VM deletion or retention is in progress''), w)
               else (Inr a, w\<lparr>aw_life := put_life (r\<lparr>lv_owner := Some a, lv_token := None\<rparr>) (aw_life w)\<rparr>))))"

subsection \<open>The deletion of an account\<close>

text \<open>A program of the VM lifecycle, in this world.\<close>

primrec lift_life :: "(life_exn \<Rightarrow> http_exn) \<Rightarrow> 'a life \<Rightarrow> 'a acct" where
  "lift_life err (Return a) = Return a"
| "lift_life err (Raise e) = Raise (err e)"
| "lift_life err (Act f) =
     Act (\<lambda>m w. case map_prod id (lift_life err) (f m (aw_life w)) of (l, p) \<Rightarrow> (w\<lparr>aw_life := l\<rparr>, p))"

definition live_vms_of :: "string \<Rightarrow> acct_world \<Rightarrow> life_vm list" where
  "live_vms_of a w =
     sort_key lv_id (filter (\<lambda>r. lv_owner r = Some a \<and> lv_status r \<noteq> DESTROYED) (lw_vms (aw_life w)))"

definition retention_of :: "string \<Rightarrow> acct_world \<Rightarrow> bool" where
  "retention_of a w \<longleftrightarrow>
     (\<exists>r \<in> set (lw_vms (aw_life w)). case lw_retention (aw_life w) (lv_id r) of
        None \<Rightarrow> False
      | Some t \<Rightarrow> rt_owner t = Some a \<or> r \<in> set (live_vms_of a w))"

definition account_deletion_snapshot :: "string \<Rightarrow> acct_world \<Rightarrow> http_exn + life_vm list" where
  "account_deletion_snapshot a w =
     (case acct_at w a of
        None \<Rightarrow> Inl (HTTP 409 ''Account deletion state changed'')
      | Some acc \<Rightarrow>
        if ac_disabled_at acc \<noteq> None then Inl (HTTP 403 ''Account disabled'')
        else if ac_is_admin acc
        then Inl (HTTP 409 ''Administrator accounts must be demoted before account deletion.'')
        else if (\<exists>x \<in> set (aw_orders w). snd x = a) \<or> (\<exists>d \<in> set (aw_domains w). dm_owner d = Some a)
        then Inl (HTTP 409 ''Accounts with domains or domain order history require assisted deletion.'')
        else if retention_of a w then Inl (HTTP 409 ''Accounts with retained VMs require assisted deletion.'')
        else Inr (live_vms_of a w))"

text \<open>The account's row, its sessions, and what the foreign keys delete or clear with them.\<close>

definition disown :: "string \<Rightarrow> string option \<Rightarrow> string option" where
  "disown a owner = (if owner = Some a then None else owner)"

definition remove_account :: "string \<Rightarrow> acct_world \<Rightarrow> acct_world" where
  "remove_account a w =
     (map_vms (\<lambda>r. r\<lparr>lv_owner := disown a (lv_owner r)\<rparr>) (put_acct a None w))
       \<lparr>aw_cred := (aw_cred w)(a := None),
        aw_sessions := filter (\<lambda>s. ss_account s \<noteq> a) (aw_sessions w),
        aw_keys := filter (\<lambda>k. k_account k \<noteq> a) (aw_keys w),
        aw_wallets := filter (\<lambda>x. wl_account x \<noteq> a) (aw_wallets w),
        aw_domains := map (\<lambda>d. d\<lparr>dm_owner := disown a (dm_owner d)\<rparr>) (aw_domains w),
        aw_mail := map (\<lambda>m. m\<lparr>mb_owner := disown a (mb_owner m)\<rparr>) (aw_mail w),
        aw_ops := map (\<lambda>x. x\<lparr>op_actor := disown a (op_actor x)\<rparr>) (filter (\<lambda>x. op_account x \<noteq> a) (aw_ops w))\<rparr>"

definition detach_row :: "acct_env \<Rightarrow> string \<Rightarrow> life_vm \<Rightarrow> life_vm" where
  "detach_row env a r =
     (if lv_owner r = Some a \<and> lv_status r \<noteq> DESTROYED
      then r\<lparr>lv_token := Some (hash_anon_token (ae_sha env) (ae_vm_token env (lv_id r))), lv_owner := None\<rparr> else r)"

definition resume_pending :: "string \<Rightarrow> acct_world \<Rightarrow> bool" where
  "resume_pending a w \<longleftrightarrow>
     (\<exists>x \<in> set (aw_ops w). op_account x = a \<and> op_kind x = Resume_Resources \<and> op_status x \<noteq> Q_COMPLETED)"

definition detach_account :: "acct_env \<Rightarrow> string \<Rightarrow> acct_world \<Rightarrow> (http_exn + (string \<times> string) list) \<times> acct_world" where
  "detach_account env a w =
     (case account_deletion_snapshot a w of
        Inl e \<Rightarrow> (Inl e, w)
      | Inr vms \<Rightarrow>
        if resume_pending a w \<or> (\<exists>r \<in> set vms. lv_reason r = Some ''account_disabled'')
        then (Inl (HTTP 409 ''Account resources must finish resuming before VM detachment.''), w)
        else if \<exists>r \<in> set vms. lv_resume r \<noteq> None
        then (Inl (HTTP 409 ''VM extensions must finish resuming before account detachment.''), w)
        else (Inr (map (\<lambda>r. (lv_id r, ae_vm_token env (lv_id r))) vms),
              remove_account a (map_vms (detach_row env a) w)))"

definition finish_deletion :: "string \<Rightarrow> acct_world \<Rightarrow> (http_exn + unit) \<times> acct_world" where
  "finish_deletion a w =
     (case account_deletion_snapshot a w of
        Inl e \<Rightarrow> (Inl e, w)
      | Inr vms \<Rightarrow>
        if vms \<noteq> [] then (Inl (HTTP 409 ''VM deletion incomplete; account was not deleted''), w)
        else (Inr (), remove_account a w))"

definition deletion_incomplete :: "'e \<Rightarrow> http_exn" where
  "deletion_incomplete e = HTTP 503 ''VM deletion incomplete; account was not deleted''"

primrec destroy_all :: "life_cfg \<Rightarrow> (string \<Rightarrow> life_env) \<Rightarrow> (string \<times> identity) list \<Rightarrow> unit acct" where
  "destroy_all cfg lenv [] = Return ()"
| "destroy_all cfg lenv (x # xs) =
     seq_prog (lift_life deletion_incomplete
         (destroy_vm cfg (lenv (fst x)) None (Some (snd x)) False (\<lambda>_. True) (fst x)))
       (destroy_all cfg lenv xs)"

definition delete_me ::
    "acct_env \<Rightarrow> life_cfg \<Rightarrow> (string \<Rightarrow> life_env) \<Rightarrow> account \<Rightarrow> string \<Rightarrow> (string \<times> string) list acct" where
  "delete_me env cfg lenv acc policy =
     (let a = ac_id acc in
      if ac_is_admin acc
      then Raise (HTTP 409 ''Administrator accounts must be demoted before account deletion.'')
      else if policy \<notin> {''destroy'', ''detach''} then Raise (HTTP 400 ''vm_policy must be destroy or detach'')
      else if policy = ''detach'' then acct_do (detach_account env a)
      else bind_prog (acct_do (\<lambda>w. (account_deletion_snapshot a w, w))) (\<lambda>vms.
        seq_prog (destroy_all cfg lenv (map (\<lambda>r. (lv_id r, identity_of r)) vms))
          (seq_prog (acct_do (finish_deletion a)) (Return []))))"
end
