(* ===== verification/Wallet_Auth.thy ===== *)
theory Wallet_Auth
  imports Accounts
begin

text \<open>
  Wallets of accounts (\<^verbatim>\<open>domains/wallet_auth.py\<close>): single-use challenges, login, linking and rotation by signature, the
  account that owns a sale paid by x402, and the transfer challenges of domains. Programs over the world of
  \<^verbatim>\<open>Accounts\<close>; the recovery of a signer is a parameter.
\<close>

definition normalize_address :: "string \<Rightarrow> string" where
  "normalize_address v = ''0x'' @ lower (drop 2 v)"

definition wallet_of :: "acct_world \<Rightarrow> string \<Rightarrow> wallet_row option" where
  "wallet_of w a = row_at wl_account a (aw_wallets w)"

definition wallet_at :: "acct_world \<Rightarrow> string \<Rightarrow> wallet_row option" where
  "wallet_at w address = row_at wl_address address (aw_wallets w)"

definition get_wallet :: "string \<Rightarrow> wallet_row option acct" where
  "get_wallet a = acct_do (\<lambda>w. (Inr (wallet_of w a), w))"

text \<open>The insertion of a wallet row under its two unique indexes.\<close>

definition add_wallet :: "wallet_row \<Rightarrow> acct_world \<Rightarrow> acct_world option" where
  "add_wallet x w =
     (if wallet_of w (wl_account x) \<noteq> None \<or> wallet_at w (wl_address x) \<noteq> None then None
      else Some (w\<lparr>aw_wallets := aw_wallets w @ [x]\<rparr>))"

text \<open>An account without a password.\<close>

definition add_wallet_account :: "string \<Rightarrow> acct_world \<Rightarrow> acct_world option" where
  "add_wallet_account a w =
     (if acct_at w a \<noteq> None then None
      else Some (acct_log (Account_Opened a) (put_cred a \<lparr>cd_password = None, cd_recovery = None, cd_recovery_issued = None, cd_recovery_used = None,
               cd_changed = None, cd_last_login = None\<rparr>
             (put_acct a (Some \<lparr>ac_id = a, ac_is_admin = False, ac_disabled_at = None\<rparr>) w))))"

subsection \<open>The owner of a sale\<close>

datatype x402_owner = Known_Owner string | New_Link string | New_Owner

text \<open>The reading half; the account, when there is one, stays locked until the insertion.\<close>

definition read_x402_owner :: "string \<Rightarrow> string option \<Rightarrow> bool \<Rightarrow> acct_world \<Rightarrow> http_exn + x402_owner" where
  "read_x402_owner address acc allow_link w =
     (if (case acc of None \<Rightarrow> False | Some a \<Rightarrow> \<not> enabled_account w a) then Inl (HTTP 403 ''account_disabled'')
      else case wallet_at w address of
        Some x \<Rightarrow>
          if (case acc of None \<Rightarrow> False | Some a \<Rightarrow> wl_account x \<noteq> a) then Inl (HTTP 409 ''wallet_account_mismatch'')
          else if acct_at w (wl_account x) = None then Inl (HTTP 409 ''wallet_account_unavailable'')
          else Inr (Known_Owner (wl_account x))
      | None \<Rightarrow>
        (case acc of
           None \<Rightarrow> Inr New_Owner
         | Some a \<Rightarrow>
           if \<not> allow_link then Inl (HTTP 403 ''browser_session_required'')
           else if wallet_of w a \<noteq> None then Inl (HTTP 409 ''wallet_account_mismatch'')
           else Inr (New_Link a)))"

text \<open>The inserting half; \<open>None\<close>: an integrity error, nothing is stored.\<close>

definition store_x402_owner :: "acct_env \<Rightarrow> string \<Rightarrow> int \<Rightarrow> x402_owner \<Rightarrow> acct_world \<Rightarrow> (string \<times> bool) option \<times> acct_world" where
  "store_x402_owner env address chain decision w =
     (case decision of
        Known_Owner a \<Rightarrow> (Some (a, False), w)
      | New_Link a \<Rightarrow>
        (case add_wallet \<lparr>wl_account = a, wl_address = address, wl_chain = chain\<rparr> w of
           None \<Rightarrow> (None, w) | Some w1 \<Rightarrow> (Some (a, False), w1))
      | New_Owner \<Rightarrow>
        let a = hd (ae_ids env @ [[]]) in
        (case add_wallet_account a w of
           None \<Rightarrow> (None, w)
         | Some w1 \<Rightarrow>
           (case add_wallet \<lparr>wl_account = a, wl_address = address, wl_chain = chain\<rparr> w1 of
              None \<Rightarrow> (None, w) | Some w2 \<Rightarrow> (Some (a, True), w2))))"

text \<open>The attempts of the two rounds draw their own ids; the result is the owner and whether it was created.\<close>

fun resolve_x402_owner ::
    "acct_env list \<Rightarrow> string \<Rightarrow> int \<Rightarrow> string option \<Rightarrow> bool \<Rightarrow> (string \<times> bool) acct" where
  "resolve_x402_owner [] raw chain acc allow_link = Raise (HTTP 409 ''wallet_link_conflict'')"
| "resolve_x402_owner (env # envs) raw chain acc allow_link =
     bind_prog (acct_do (\<lambda>w. (read_x402_owner (normalize_address raw) acc allow_link w, w))) (\<lambda>decision.
       case decision of
         Known_Owner a \<Rightarrow> Return (a, False)
       | _ \<Rightarrow> bind_prog (acct_do (\<lambda>w. map_prod Inr id (store_x402_owner env (normalize_address raw) chain decision w)))
           (\<lambda>r. case r of Some x \<Rightarrow> Return x | None \<Rightarrow> resolve_x402_owner envs raw chain acc allow_link))"

definition issue_session :: "acct_env \<Rightarrow> string \<Rightarrow> (string \<times> string) acct" where
  "issue_session env a =
     acct_do (\<lambda>w. if \<not> enabled_account w a then (Inl (HTTP 403 ''account_disabled''), w) else open_session env a w)"

subsection \<open>Challenges\<close>

definition action_value :: "wallet_action \<Rightarrow> string" where
  "action_value x = (case x of W_LOGIN \<Rightarrow> ''login'' | W_LINK \<Rightarrow> ''link'' | W_ROTATE \<Rightarrow> ''rotate'' | W_TRANSFER \<Rightarrow> ''transfer'')"

definition statement_of :: "wallet_action \<Rightarrow> string option \<Rightarrow> string" where
  "statement_of x resource =
     (case x of
        W_LOGIN \<Rightarrow> ''Sign in to Hyrule with this wallet.''
      | W_LINK \<Rightarrow> ''Link this wallet as the account's primary wallet.''
      | W_ROTATE \<Rightarrow> ''Authorize primary-wallet rotation from both wallets.''
      | W_TRANSFER \<Rightarrow> ''Authorize transfer-out for '' @ (case resource of None \<Rightarrow> ''None'' | Some r \<Rightarrow> r) @ ''.'')"

definition newline :: string where
  "newline = [char_of (10::nat)]"

fun join_lines :: "string list \<Rightarrow> string" where
  "join_lines [] = []"
| "join_lines [x] = x"
| "join_lines (x # xs) = x @ newline @ join_lines xs"

definition optional_line :: "string \<Rightarrow> string option \<Rightarrow> string list" where
  "optional_line pfx x = (if truthy x then [''- '' @ pfx @ the x] else [])"

text \<open>\<open>host\<close> and \<open>origin\<close> come from the configuration, the rendered times from \<open>env\<close>.\<close>

definition challenge_message ::
    "acct_env \<Rightarrow> string \<Rightarrow> string \<Rightarrow> string \<Rightarrow> wallet_action \<Rightarrow> string \<Rightarrow> string \<Rightarrow> int \<Rightarrow> string option \<Rightarrow> string option
     \<Rightarrow> string option \<Rightarrow> string" where
  "challenge_message env host origin chain action address nonce expires account current resource =
     join_lines
       ([host @ '' wants you to sign in with your Ethereum account:'', address, [], statement_of action resource, [],
         ''URI: '' @ origin, ''Version: 1'', ''Chain ID: '' @ chain, ''Nonce: '' @ nonce,
         ''Issued At: '' @ ae_show_time env (ae_now env), ''Expiration Time: '' @ ae_show_time env expires,
         ''Resources:'', ''- urn:hyrule:action:'' @ action_value action] @
        optional_line ''urn:hyrule:account:'' account @ optional_line ''urn:hyrule:current-wallet:'' current @
        optional_line ''urn:hyrule:domain:'' resource)"

record wallet_cfg =
  wf_chains :: "int list"
  wf_transfer_ttl :: int
  wf_host :: string
  wf_origin :: string
  wf_show_chain :: "int \<Rightarrow> string"

text \<open>What a first look at the account's wallet refuses; the result is the current address of a rotation.\<close>

definition challenge_wallet :: "wallet_action \<Rightarrow> string option \<Rightarrow> acct_world \<Rightarrow> http_exn + string option" where
  "challenge_wallet action acc w =
     (case (action, acc) of
        (W_LINK, Some a) \<Rightarrow> if wallet_of w a \<noteq> None then Inl (HTTP 409 ''wallet_already_linked'') else Inr None
      | (W_ROTATE, Some a) \<Rightarrow>
        (case wallet_of w a of None \<Rightarrow> Inl (HTTP 409 ''wallet_not_linked'') | Some x \<Rightarrow> Inr (Some (wl_address x)))
      | _ \<Rightarrow> Inr None)"

definition create_challenge ::
    "acct_env \<Rightarrow> wallet_cfg \<Rightarrow> wallet_action \<Rightarrow> string \<Rightarrow> int \<Rightarrow> string option \<Rightarrow> string option \<Rightarrow> wallet_challenge acct" where
  "create_challenge env cfg action raw chain resource acc =
     (if action \<noteq> W_LOGIN \<and> acc = None then Raise (HTTP 401 ''authentication_required'')
      else if wf_chains cfg \<noteq> [] \<and> chain \<notin> set (wf_chains cfg) then Raise (HTTP 422 ''unsupported_chain'')
      else bind_prog (acct_do (\<lambda>w. (challenge_wallet action acc w, w))) (\<lambda>current.
        let address = normalize_address raw;
            expires = ae_now env + seconds (if action = W_TRANSFER then wf_transfer_ttl cfg else 300);
            c = \<lparr>wc_nonce = ae_nonce env, wc_action = action, wc_address = address, wc_chain = chain, wc_account = acc,
                 wc_resource = resource,
                 wc_message = challenge_message env (wf_host cfg) (wf_origin cfg) (wf_show_chain cfg chain) action address
                   (ae_nonce env) expires acc current resource,
                 wc_expires = expires, wc_used = None\<rparr>
        in acct_do (\<lambda>w.
          if row_at wc_nonce (ae_nonce env) (aw_challenges w) \<noteq> None then (Inl acct_db_error, w)
          else (Inr c, w\<lparr>aw_challenges := aw_challenges w @ [c]\<rparr>))))"

definition challenge_expired :: "int \<Rightarrow> wallet_challenge option \<Rightarrow> bool" where
  "challenge_expired now c = (case c of None \<Rightarrow> True | Some x \<Rightarrow> wc_used x \<noteq> None \<or> wc_expires x \<le> now)"

definition spend_challenge :: "int \<Rightarrow> wallet_challenge \<Rightarrow> acct_world \<Rightarrow> acct_world" where
  "spend_challenge now c w =
     acct_log (Challenge_Spent (wc_nonce c))
       (w\<lparr>aw_challenges := put_row wc_nonce (c\<lparr>wc_used := Some now\<rparr>) (aw_challenges w)\<rparr>)"

definition signed_by :: "acct_env \<Rightarrow> wallet_challenge \<Rightarrow> string \<Rightarrow> string \<Rightarrow> bool" where
  "signed_by env c signature address =
     (case ae_signer env (wc_message c) signature of None \<Rightarrow> False | Some x \<Rightarrow> lower x = lower address)"

definition bad_signature :: http_exn where
  "bad_signature = HTTP 401 ''invalid_wallet_signature''"

subsection \<open>Login, link and rotation\<close>

record wallet_result =
  wr_account :: string
  wr_address :: string
  wr_action :: wallet_action
  wr_created :: bool
  wr_tokens :: "(string \<times> string) option"

definition wallet_login :: "acct_env \<Rightarrow> wallet_challenge \<Rightarrow> string \<Rightarrow> acct_world \<Rightarrow> (http_exn + wallet_result) \<times> acct_world" where
  "wallet_login env c signature w =
     (if \<not> signed_by env c signature (wc_address c) then (Inl bad_signature, w)
      else
        let owner = (case wallet_at w (wc_address c) of
              None \<Rightarrow>
                let a = hd (ae_ids env @ [[]]) in
                (case add_wallet_account a w of
                   None \<Rightarrow> Inl acct_db_error
                 | Some w1 \<Rightarrow>
                   (case add_wallet \<lparr>wl_account = a, wl_address = wc_address c, wl_chain = wc_chain c\<rparr> w1 of
                      None \<Rightarrow> Inl acct_db_error | Some w2 \<Rightarrow> Inr (a, True, w2)))
            | Some x \<Rightarrow>
              if acct_at w (wl_account x) = None then Inl (HTTP 401 ''invalid_wallet_account'')
              else if disabled_account w (wl_account x) then Inl (HTTP 403 ''account_disabled'')
              else Inr (wl_account x, False, w))
        in case owner of
          Inl e \<Rightarrow> (Inl e, w)
        | Inr (a, created, w1) \<Rightarrow>
          (case open_session env a (spend_challenge (ae_now env) c w1) of
             (Inl e, _) \<Rightarrow> (Inl e, w)
           | (Inr tokens, w2) \<Rightarrow>
             (Inr \<lparr>wr_account = a, wr_address = wc_address c, wr_action = W_LOGIN, wr_created = created,
                  wr_tokens = Some tokens\<rparr>, w2)))"

definition wallet_link :: "acct_env \<Rightarrow> wallet_challenge \<Rightarrow> string \<Rightarrow> string \<Rightarrow> acct_world \<Rightarrow> (http_exn + wallet_result) \<times> acct_world" where
  "wallet_link env c signature a w =
     (if \<not> signed_by env c signature (wc_address c) then (Inl bad_signature, w)
      else case add_wallet \<lparr>wl_account = a, wl_address = wc_address c, wl_chain = wc_chain c\<rparr> w of
        None \<Rightarrow> (Inl (HTTP 409 ''wallet_already_in_use''), w)
      | Some w1 \<Rightarrow>
        (Inr \<lparr>wr_account = a, wr_address = wc_address c, wr_action = W_LINK, wr_created = False, wr_tokens = None\<rparr>,
         spend_challenge (ae_now env) c w1))"

text \<open>The wallet that the account has now and the new one must both sign.\<close>

definition wallet_rotate ::
    "acct_env \<Rightarrow> wallet_challenge \<Rightarrow> string \<Rightarrow> string option \<Rightarrow> string \<Rightarrow> acct_world \<Rightarrow> (http_exn + wallet_result) \<times> acct_world" where
  "wallet_rotate env c signature second a w =
     (case wallet_of w a of
        None \<Rightarrow> (Inl (HTTP 409 ''wallet_not_linked''), w)
      | Some x \<Rightarrow>
        if \<not> signed_by env c signature (wl_address x) then (Inl bad_signature, w)
        else if \<not> truthy second then (Inl (HTTP 422 ''new_wallet_signature_required''), w)
        else if \<not> signed_by env c (the second) (wc_address c) then (Inl bad_signature, w)
        else if (case wallet_at w (wc_address c) of None \<Rightarrow> False | Some y \<Rightarrow> wl_account y \<noteq> a)
        then (Inl (HTTP 409 ''wallet_already_in_use''), w)
        else
          (Inr \<lparr>wr_account = a, wr_address = wc_address c, wr_action = W_ROTATE, wr_created = False, wr_tokens = None\<rparr>,
           spend_challenge (ae_now env) c
             (w\<lparr>aw_wallets := put_row wl_account (x\<lparr>wl_address := wc_address c, wl_chain := wc_chain c\<rparr>) (aw_wallets w)\<rparr>)))"

text \<open>\<open>acc\<close>: the account of the browser session, if there is one. A signature that names no signer is refused first.\<close>

definition verify_wallet_action ::
    "acct_env \<Rightarrow> string \<Rightarrow> string \<Rightarrow> string option \<Rightarrow> string option \<Rightarrow> acct_world \<Rightarrow> (http_exn + wallet_result) \<times> acct_world" where
  "verify_wallet_action env nonce signature second acc w =
     (case row_at wc_nonce nonce (aw_challenges w) of
        None \<Rightarrow> (Inl (HTTP 401 ''challenge_expired''), w)
      | Some c \<Rightarrow>
        if challenge_expired (ae_now env) (Some c) then (Inl (HTTP 401 ''challenge_expired''), w)
        else if wc_action c = W_TRANSFER then (Inl (HTTP 422 ''wrong_challenge_action''), w)
        else if ae_signer env (wc_message c) signature = None then (Inl bad_signature, w)
        else if wc_action c = W_LOGIN then wallet_login env c signature w
        else (case acc of
            None \<Rightarrow> (Inl (HTTP 401 ''authentication_required''), w)
          | Some a \<Rightarrow>
            if wc_account c \<noteq> Some a then (Inl (HTTP 401 ''authentication_required''), w)
            else if acct_at w a = None then (Inl (HTTP 401 ''invalid_wallet_account''), w)
            else if disabled_account w a then (Inl (HTTP 403 ''account_disabled''), w)
            else if wc_action c = W_LINK then wallet_link env c signature a w
            else wallet_rotate env c signature second a w))"

definition verify_login_or_account_action ::
    "acct_env \<Rightarrow> string \<Rightarrow> string \<Rightarrow> string option \<Rightarrow> string option \<Rightarrow> wallet_result acct" where
  "verify_login_or_account_action env nonce signature second acc =
     acct_do (verify_wallet_action env nonce signature second acc)"

text \<open>The route refuses API keys.\<close>

definition wallet_verify ::
    "acct_env \<Rightarrow> string \<Rightarrow> string \<Rightarrow> string option \<Rightarrow> string option \<Rightarrow> bool \<Rightarrow> wallet_result acct" where
  "wallet_verify env nonce signature second acc is_key =
     (if is_key then Raise (HTTP 403 ''browser_session_required'')
      else verify_login_or_account_action env nonce signature second acc)"

definition wallet_challenge_route ::
    "acct_env \<Rightarrow> wallet_cfg \<Rightarrow> wallet_action \<Rightarrow> string \<Rightarrow> int \<Rightarrow> string option \<Rightarrow> string option \<Rightarrow> bool \<Rightarrow> wallet_challenge acct" where
  "wallet_challenge_route env cfg action raw chain resource acc is_key =
     (if action \<noteq> W_LOGIN \<and> is_key then Raise (HTTP 403 ''browser_session_required'')
      else create_challenge env cfg action raw chain resource acc)"

definition consume_transfer_challenge :: "acct_env \<Rightarrow> string \<Rightarrow> string \<Rightarrow> string \<Rightarrow> string \<Rightarrow> unit acct" where
  "consume_transfer_challenge env nonce signature a resource =
     acct_do (\<lambda>w.
       case row_at wc_nonce nonce (aw_challenges w) of
         None \<Rightarrow> (Inl (HTTP 401 ''challenge_expired''), w)
       | Some c \<Rightarrow>
         if challenge_expired (ae_now env) (Some c) then (Inl (HTTP 401 ''challenge_expired''), w)
         else if wc_action c \<noteq> W_TRANSFER \<or> wc_account c \<noteq> Some a \<or> wc_resource c \<noteq> Some resource
         then (Inl (HTTP 401 ''invalid_transfer_challenge''), w)
         else (case wallet_of w a of
             None \<Rightarrow> (Inl (HTTP 401 ''wallet_not_linked''), w)
           | Some x \<Rightarrow>
             if lower (wc_address c) \<noteq> lower (wl_address x) then (Inl (HTTP 401 ''wallet_not_linked''), w)
             else if \<not> signed_by env c signature (wl_address x) then (Inl bad_signature, w)
             else (Inr (), spend_challenge (ae_now env) c w)))"

end
