(* ===== verification/Account_Admin.thy ===== *)
theory Account_Admin
  imports Wallet_Auth
begin

text \<open>
  The administration of accounts (\<^verbatim>\<open>api/admin.py\<close>, \<^verbatim>\<open>services/admin_operations.py\<close>): step-up, disabling and enabling,
  roles, revocations, transfers of ownership, the resolution of refunds, and the queue of operations that carries the
  state of an account over to its VMs and mailboxes. Programs over the world of \<^verbatim>\<open>Accounts\<close>. A worker keeps the row of
  the account locked while it carries out an operation, so that this is one action, whose inner transactions are answered
  by a list of outcomes; where the list ends the worker has died.
\<close>

subsection \<open>The fence of privileged requests\<close>

definition note_audit :: "string \<Rightarrow> string \<Rightarrow> string option \<Rightarrow> bool \<Rightarrow> acct_world \<Rightarrow> acct_world" where
  "note_audit actor action target ok w =
     w\<lparr>aw_audit := aw_audit w @ [\<lparr>au_actor = actor, au_action = action, au_target = target, au_succeeded = ok\<rparr>]\<rparr>"

text \<open>A request of an administrator, whose rights are checked again under the locks.\<close>

definition as_admin :: "string \<Rightarrow> (acct_world \<Rightarrow> (http_exn + 'a) \<times> acct_world) \<Rightarrow> 'a acct" where
  "as_admin actor f =
     acct_do (\<lambda>w. case validate_admin_dispatch (auth_db_of w) actor of Inl e \<Rightarrow> (Inl e, w) | Inr _ \<Rightarrow> f w)"

subsection \<open>Step-up\<close>

definition STEP_UP_LIMIT :: nat where "STEP_UP_LIMIT = 5"
definition STEP_UP_WINDOW :: int where "STEP_UP_WINDOW = minutes 15"

definition attempt_window :: "int \<Rightarrow> nat \<times> int option \<Rightarrow> nat \<times> int option" where
  "attempt_window now s =
     (case snd s of None \<Rightarrow> (0, Some now) | Some t \<Rightarrow> if STEP_UP_WINDOW \<le> now - t then (0, Some now) else s)"

definition put_step_up :: "string \<Rightarrow> nat \<times> int option \<Rightarrow> acct_world \<Rightarrow> acct_world" where
  "put_step_up th s w = w\<lparr>aw_step_up := (aw_step_up w)(th := s)\<rparr>"

definition elevate :: "string \<Rightarrow> int \<Rightarrow> acct_world \<Rightarrow> acct_world" where
  "elevate th now w =
     w\<lparr>aw_sessions := map (\<lambda>s. if ss_token_hash s = th then s\<lparr>ss_elevated_at := Some (Aware now 0)\<rparr> else s) (aw_sessions w)\<rparr>"

text \<open>\<open>a\<close> and \<open>th\<close>: the account and the session of \<^verbatim>\<open>require_admin_csrf\<close>. The result: until when, for a lifetime in
  seconds.\<close>

definition step_up :: "acct_env \<Rightarrow> int \<Rightarrow> string \<Rightarrow> string option \<Rightarrow> string \<Rightarrow> int acct" where
  "step_up env ttl a token_hash password =
     (if \<not> truthy token_hash then Raise (HTTP 401 ''Browser session required'')
      else
        let th = the token_hash; now = ae_now env in
        acct_do (\<lambda>w.
          if \<not> enabled_admin w a then (Inl (HTTP 403 ''Administrator access was revoked''), w)
          else (case session_get (aw_sessions w) th of
              None \<Rightarrow> (Inl (HTTP 401 ''Session expired''), w)
            | Some s \<Rightarrow>
              if ss_account s \<noteq> a then (Inl (HTTP 401 ''Session expired''), w)
              else case attempt_window now (aw_step_up w th) of (n, start) \<Rightarrow>
                if STEP_UP_LIMIT \<le> n then (Inl (HTTP 429 ''Too many step-up attempts; try again later''), w)
                else if \<not> verify_password env (cd_password (cred_of w a)) password
                then (Inl (HTTP 401 ''Password is incorrect''),
                      acct_log (Password_Checked th now False)
                        (note_audit a ''admin.step_up_failed'' None False (put_step_up th (n + 1, start) w)))
                else (Inr (now + seconds ttl),
                      acct_log (Password_Checked th now True)
                        (note_audit a ''admin.step_up'' None True (elevate th now (put_step_up th (0, None) w)))))))"

subsection \<open>Disabling, enabling, roles and revocations\<close>

definition supersede :: "operation_kind \<Rightarrow> admin_operation \<Rightarrow> admin_operation list \<Rightarrow> admin_operation list" where
  "supersede undone new ops =
     map (\<lambda>x. if op_account x = op_account new \<and> op_kind x = undone \<and> op_status x = Q_FAILED
       then x\<lparr>op_superseded := Some (op_id new), op_status := Q_COMPLETED, op_completed := Some (op_created new)\<rparr> else x) ops"

definition new_operation :: "acct_env \<Rightarrow> operation_kind \<Rightarrow> string \<Rightarrow> string \<Rightarrow> admin_operation" where
  "new_operation env k a actor =
     \<lparr>op_id = ae_uuid env, op_kind = k, op_account = a, op_actor = Some actor, op_status = Q_QUEUED, op_created = ae_now env,
      op_started = None, op_completed = None, op_error = False, op_counts = None, op_superseded = None\<rparr>"

definition revoke_keys_of :: "int \<Rightarrow> string \<Rightarrow> acct_world \<Rightarrow> nat \<times> acct_world" where
  "revoke_keys_of now a w =
     (length (filter (\<lambda>k. k_account k = a \<and> k_revoked_at k = None) (aw_keys w)),
      w\<lparr>aw_keys := map (\<lambda>k. if k_account k = a \<and> k_revoked_at k = None then k\<lparr>k_revoked_at := Some (Aware now 0)\<rparr> else k)
          (aw_keys w)\<rparr>)"

definition clear_tokens :: "string \<Rightarrow> acct_world \<Rightarrow> acct_world" where
  "clear_tokens a w =
     (map_vms (\<lambda>r. if lv_owner r = Some a then r\<lparr>lv_token := None\<rparr> else r) w)
       \<lparr>aw_domains := map (\<lambda>d. if dm_owner d = Some a then d\<lparr>dm_token := None\<rparr> else d) (aw_domains w),
        aw_mail := map (\<lambda>m. if mb_owner m = Some a then m\<lparr>mb_token := None\<rparr> else m) (aw_mail w)\<rparr>"

definition queue_operation :: "operation_kind \<Rightarrow> admin_operation \<Rightarrow> acct_world \<Rightarrow> (http_exn + string) \<times> acct_world" where
  "queue_operation undone x w =
     (if row_at op_id (op_id x) (aw_ops w) \<noteq> None then (Inl acct_db_error, w)
      else (Inr (op_id x), w\<lparr>aw_ops := supersede undone x (aw_ops w) @ [x]\<rparr>))"

text \<open>How many administrators are enabled; the accounts are those with a row, \<open>known\<close>.\<close>

definition enabled_admin_count :: "string list \<Rightarrow> acct_world \<Rightarrow> nat" where
  "enabled_admin_count known w = length (filter (enabled_admin w) (remdups known))"

definition disable_account :: "acct_env \<Rightarrow> string list \<Rightarrow> string \<Rightarrow> string \<Rightarrow> string acct" where
  "disable_account env known actor a =
     (if a = actor then Raise (HTTP 409 ''You cannot disable your current Admin account'')
      else as_admin actor (\<lambda>w.
        case acct_at w a of
          None \<Rightarrow> (Inl (HTTP 404 ''Account not found''), w)
        | Some acc \<Rightarrow>
          if enabled_admin w a \<and> enabled_admin_count known w \<le> 1
          then (Inl (HTTP 409 ''At least one enabled Admin must remain''), w)
          else
            let now = ae_now env;
                w1 = clear_tokens a (snd (revoke_keys_of now a (close_sessions a
                       (put_acct a (Some (acc\<lparr>ac_disabled_at := Some (Aware now 0)\<rparr>)) w))))
            in (case queue_operation Resume_Resources (new_operation env Suspend_Resources a actor) w1 of
                (Inl e, _) \<Rightarrow> (Inl e, w)
              | (Inr i, w2) \<Rightarrow> (Inr i, note_audit actor ''account.disable'' (Some a) True w2))))"

definition enable_account :: "acct_env \<Rightarrow> string \<Rightarrow> string \<Rightarrow> string acct" where
  "enable_account env actor a =
     as_admin actor (\<lambda>w.
       case acct_at w a of
         None \<Rightarrow> (Inl (HTTP 404 ''Account not found''), w)
       | Some acc \<Rightarrow>
         (case queue_operation Suspend_Resources (new_operation env Resume_Resources a actor)
             (put_acct a (Some (acc\<lparr>ac_disabled_at := None\<rparr>)) w) of
            (Inl e, _) \<Rightarrow> (Inl e, w)
          | (Inr i, w2) \<Rightarrow> (Inr i, note_audit actor ''account.enable'' (Some a) True w2)))"

definition set_account_role :: "string list \<Rightarrow> string \<Rightarrow> string \<Rightarrow> bool \<Rightarrow> unit acct" where
  "set_account_role known actor a is_admin =
     (if a = actor \<and> \<not> is_admin then Raise (HTTP 409 ''You cannot demote your current Admin account'')
      else as_admin actor (\<lambda>w.
        case acct_at w a of
          None \<Rightarrow> (Inl (HTTP 404 ''Account not found''), w)
        | Some acc \<Rightarrow>
          if enabled_admin w a \<and> \<not> is_admin \<and> enabled_admin_count known w \<le> 1
          then (Inl (HTTP 409 ''At least one enabled Admin must remain''), w)
          else (Inr (), note_audit actor (if is_admin then ''account.promote'' else ''account.demote'') (Some a) True
                  (put_acct a (Some (acc\<lparr>ac_is_admin := is_admin\<rparr>)) w))))"

definition revoke_account_sessions :: "string \<Rightarrow> string \<Rightarrow> nat acct" where
  "revoke_account_sessions actor a =
     as_admin actor (\<lambda>w.
       if acct_at w a = None then (Inl (HTTP 404 ''Account not found''), w)
       else (Inr (fst (revoke_all_sessions_for a (aw_sessions w))),
             note_audit actor ''account.revoke_sessions'' (Some a) True (close_sessions a w)))"

definition revoke_account_keys :: "acct_env \<Rightarrow> string \<Rightarrow> string \<Rightarrow> nat acct" where
  "revoke_account_keys env actor a =
     as_admin actor (\<lambda>w.
       if acct_at w a = None then (Inl (HTTP 404 ''Account not found''), w)
       else (case revoke_keys_of (ae_now env) a w of
           (n, w1) \<Rightarrow> (Inr n, note_audit actor ''account.revoke_keys'' (Some a) True w1)))"

subsection \<open>The queue of operations\<close>

definition STALE_AFTER :: int where "STALE_AFTER = minutes 15"

definition eligible :: "int \<Rightarrow> admin_operation \<Rightarrow> bool" where
  "eligible now x \<longleftrightarrow>
     op_status x = Q_QUEUED \<or>
     (op_status x = Q_RUNNING \<and> (case op_started x of None \<Rightarrow> True | Some s \<Rightarrow> s < now - STALE_AFTER))"

definition fresh_running :: "int \<Rightarrow> admin_operation \<Rightarrow> bool" where
  "fresh_running now x \<longleftrightarrow>
     op_status x = Q_RUNNING \<and> (case op_started x of None \<Rightarrow> False | Some s \<Rightarrow> now - STALE_AFTER \<le> s)"

definition pending_ops :: "int \<Rightarrow> string \<Rightarrow> acct_world \<Rightarrow> admin_operation list" where
  "pending_ops now a w = filter (\<lambda>x. op_account x = a \<and> eligible now x) (aw_ops w)"

text \<open>\<open>skip\<close>: the accounts whose rows others have locked.\<close>

definition claimable_account :: "int \<Rightarrow> (string \<Rightarrow> bool) \<Rightarrow> acct_world \<Rightarrow> string \<Rightarrow> bool" where
  "claimable_account now skip w a \<longleftrightarrow>
     acct_at w a \<noteq> None \<and> \<not> skip a \<and> pending_ops now a w \<noteq> [] \<and>
     (\<forall>x \<in> set (aw_ops w). op_account x = a \<longrightarrow> \<not> fresh_running now x)"

definition earliest_pending :: "int \<Rightarrow> acct_world \<Rightarrow> string \<Rightarrow> int" where
  "earliest_pending now w a = Min (op_created ` set (pending_ops now a w))"

definition next_account :: "int \<Rightarrow> (string \<Rightarrow> bool) \<Rightarrow> acct_world \<Rightarrow> string option" where
  "next_account now skip w =
     (case sort_key (\<lambda>a. (earliest_pending now w a, a))
         (filter (claimable_account now skip w) (remdups (map op_account (aw_ops w)))) of
        [] \<Rightarrow> None | a # _ \<Rightarrow> Some a)"

definition next_operation :: "int \<Rightarrow> string \<Rightarrow> acct_world \<Rightarrow> admin_operation option" where
  "next_operation now a w =
     (case sort_key (\<lambda>x. (if op_status x = Q_RUNNING then 0 else 1 :: nat, op_created x)) (pending_ops now a w) of
        [] \<Rightarrow> None | x # _ \<Rightarrow> Some x)"

definition put_op :: "admin_operation \<Rightarrow> acct_world \<Rightarrow> acct_world" where
  "put_op x w = w\<lparr>aw_ops := put_row op_id x (aw_ops w)\<rparr>"

definition claim_operation :: "int \<Rightarrow> (string \<Rightarrow> bool) \<Rightarrow> acct_world \<Rightarrow> string option \<times> acct_world" where
  "claim_operation now skip w =
     (case next_account now skip w of
        None \<Rightarrow> (None, w)
      | Some a \<Rightarrow>
        (case next_operation now a w of
           None \<Rightarrow> (None, w)
         | Some x \<Rightarrow>
           (Some (op_id x),
            put_op (x\<lparr>op_status := Q_RUNNING, op_started := Some now, op_completed := None, op_error := False\<rparr>) w)))"

subsection \<open>Carrying out an operation\<close>

definition suspend_mailbox :: "string \<Rightarrow> string option \<Rightarrow> mailbox \<Rightarrow> mailbox \<times> bool" where
  "suspend_mailbox a actor m =
     (if mb_owner m = Some a \<and> mb_status m \<noteq> ''suspended''
      then (m\<lparr>mb_status := ''suspended'', mb_reason := Some ''account_disabled'', mb_by := actor\<rparr>, True)
      else (m, False))"

definition resume_mailbox :: "int \<Rightarrow> string \<Rightarrow> mailbox \<Rightarrow> mailbox \<times> bool" where
  "resume_mailbox now a m =
     (if mb_owner m = Some a \<and> mb_reason m = Some ''account_disabled'' then
        (if (case mb_expires m of None \<Rightarrow> False | Some e \<Rightarrow> utc e \<le> now)
         then (m\<lparr>mb_status := ''suspended'', mb_reason := Some ''expired'', mb_by := None\<rparr>, False)
         else (m\<lparr>mb_status := ''active'', mb_reason := None, mb_by := None\<rparr>, True))
      else (m, False))"

text \<open>All mailboxes in one transaction, with the count of the changed ones.\<close>

definition treat_mail :: "int \<Rightarrow> admin_operation \<Rightarrow> acct_world \<Rightarrow> int \<times> acct_world" where
  "treat_mail now x w =
     (let rs = map (\<lambda>m. case op_kind x of
              Suspend_Resources \<Rightarrow> suspend_mailbox (op_account x) (op_actor x) m
            | Resume_Resources \<Rightarrow> resume_mailbox now (op_account x) m) (aw_mail w)
      in (int (length (filter snd rs)), w\<lparr>aw_mail := map fst rs\<rparr>))"

definition matches_state :: "operation_kind \<Rightarrow> acct_world \<Rightarrow> string \<Rightarrow> bool" where
  "matches_state k w a = (case k of Suspend_Resources \<Rightarrow> disabled_account w a | Resume_Resources \<Rightarrow> enabled_account w a)"

record worker_env =
  we_now :: int
  we_skip :: "string \<Rightarrow> bool"
  we_life :: "string \<Rightarrow> life_env"
  we_outcomes :: "outcome list"              \<comment> \<open>of the transactions on the VMs\<close>
  we_mail_ok :: bool

text \<open>The VMs one by one, then the mailboxes; \<open>None\<close>: the worker has died.\<close>

definition treat_resources :: "worker_env \<Rightarrow> admin_operation \<Rightarrow> acct_world \<Rightarrow> (bool + int \<times> int) option \<times> acct_world" where
  "treat_resources env x w =
     (case run_with (we_outcomes env)
          (apply_to_account (op_kind x = Resume_Resources) (we_life env) (op_account x) (op_actor x)) (aw_life w) of
        (r, l) \<Rightarrow>
        let w1 = w\<lparr>aw_life := l\<rparr> in
        (case r of
           None \<Rightarrow> (None, w1)
         | Some (Inl e) \<Rightarrow> (Some (Inl False), w1)
         | Some (Inr vms) \<Rightarrow>
           if \<not> we_mail_ok env then (Some (Inl False), w1)
           else (case treat_mail (we_now env) x w1 of (mails, w2) \<Rightarrow> (Some (Inr (vms, mails)), w2))))"

definition finish_operation :: "int \<Rightarrow> (bool + int \<times> int) \<Rightarrow> admin_operation \<Rightarrow> admin_operation" where
  "finish_operation now r x =
     (case r of
        Inl _ \<Rightarrow> x\<lparr>op_status := Q_FAILED, op_error := True, op_completed := Some now\<rparr>
      | Inr counts \<Rightarrow>
        x\<lparr>op_status := Q_COMPLETED, op_counts := Some counts, op_superseded := None, op_error := False, op_completed := Some now\<rparr>)"

definition worker_died :: http_exn where
  "worker_died = HTTP 0 ''process died''"

text \<open>The result, the world without the last commit, and with it.\<close>

definition apply_leased ::
    "worker_env \<Rightarrow> string \<Rightarrow> acct_world \<Rightarrow> (http_exn + unit) \<times> acct_world \<times> acct_world" where
  "apply_leased env i w =
     (case row_at op_id i (aw_ops w) of
        None \<Rightarrow> (Inl acct_db_error, w, w)
      | Some x \<Rightarrow>
        if acct_at w (op_account x) = None then (Inl acct_db_error, w, w)
        else if \<not> matches_state (op_kind x) w (op_account x)
        then (Inr (), w, put_op (finish_operation (we_now env) (Inr (0, 0)) x) w)
        else (case treat_resources env x w of
            (None, w1) \<Rightarrow>
              (let w2 = acct_log (Obeyed (op_kind x) (op_account x) False) w1 in (Inl worker_died, w2, w2))
          | (Some r, w1) \<Rightarrow>
              let w2 = acct_log (Obeyed (op_kind x) (op_account x) (\<not> (case r of Inl _ \<Rightarrow> True | Inr _ \<Rightarrow> False))) w1
              in ((case r of Inl _ \<Rightarrow> Inl acct_db_error | Inr _ \<Rightarrow> Inr ()), w2,
                  put_op (finish_operation (we_now env) r x) w2)))"

definition apply_account_operation :: "worker_env \<Rightarrow> string \<Rightarrow> unit acct" where
  "apply_account_operation env i =
     Act (\<lambda>m w. case apply_leased env i w of
       (r, called, stored) \<Rightarrow>
         if m = Refused then (called, Raise (if r = Inl worker_died then worker_died else acct_db_error))
         else (stored, case r of
             Inl e \<Rightarrow> Raise e
           | Inr _ \<Rightarrow> if m = Lost then Raise acct_db_error else Return ()))"

definition mark_failed :: "worker_env \<Rightarrow> string \<Rightarrow> unit acct" where
  "mark_failed env i =
     acct_do (\<lambda>w. case row_at op_id i (aw_ops w) of
         None \<Rightarrow> (Inr (), w)
       | Some x \<Rightarrow>
         (Inr (), if op_status x = Q_RUNNING then put_op (finish_operation (we_now env) (Inl False) x) w else w))"

text \<open>Up to \<open>n\<close> rounds; the result is how many operations were taken.\<close>

primrec process_admin_operations :: "(nat \<Rightarrow> worker_env) \<Rightarrow> nat \<Rightarrow> nat acct" where
  "process_admin_operations env 0 = Return 0"
| "process_admin_operations env (Suc n) =
     bind_prog (acct_do (\<lambda>w. map_prod Inr id (claim_operation (we_now (env n)) (we_skip (env n)) w)))
       (\<lambda>taken. case taken of
          None \<Rightarrow> Return 0
        | Some i \<Rightarrow>
          seq_prog
            (handle_prog (apply_account_operation (env n) i)
              (\<lambda>e. if e = worker_died then Raise e else mark_failed (env n) i))
            (bind_prog (process_admin_operations env n) (\<lambda>k. Return (Suc k))))"

definition retry_admin_operation :: "string \<Rightarrow> string \<Rightarrow> unit acct" where
  "retry_admin_operation actor i =
     as_admin actor (\<lambda>w.
       case row_at op_id i (aw_ops w) of
         None \<Rightarrow> (Inl (HTTP 404 ''Operation not found''), w)
       | Some x \<Rightarrow>
         if op_status x \<noteq> Q_FAILED then (Inl (HTTP 409 ''Only failed operations can be retried''), w)
         else if acct_at w (op_account x) = None then (Inl (HTTP 409 ''Operation account no longer exists''), w)
         else if op_kind x = Suspend_Resources \<and> enabled_account w (op_account x)
         then (Inl (HTTP 409 ''Cannot retry suspension while the account is enabled''), w)
         else if op_kind x = Resume_Resources \<and> disabled_account w (op_account x)
         then (Inl (HTTP 409 ''Cannot retry resumption while the account is disabled''), w)
         else (Inr (), note_audit actor ''admin_operation.retry'' (Some i) True
                 (put_op (x\<lparr>op_status := Q_QUEUED, op_error := False, op_started := None, op_completed := None\<rparr>) w)))"

subsection \<open>Transfers of ownership\<close>

text \<open>The transferee's wallet, or a marker that cannot sign.\<close>

definition transfer_wallet_identity :: "acct_world \<Rightarrow> string \<Rightarrow> string" where
  "transfer_wallet_identity w a =
     (case wallet_of w a of
        None \<Rightarrow> ''account:'' @ a
      | Some x \<Rightarrow> if wl_address x \<noteq> [] then wl_address x else ''account:'' @ a)"

definition pending_domain_work :: "acct_world \<Rightarrow> string option \<Rightarrow> string option \<Rightarrow> bool" where
  "pending_domain_work w fqdn vid \<longleftrightarrow>
     (case fqdn of None \<Rightarrow> False | Some f \<Rightarrow> f \<in> aw_pending w) \<or> (case vid of None \<Rightarrow> False | Some v \<Rightarrow> v \<in> aw_pending w)"

definition vm_untransferable :: "life_vm \<Rightarrow> bool" where
  "vm_untransferable r \<longleftrightarrow>
     lv_deletion r \<noteq> None \<or> lv_status r = DESTROYED \<or> lv_resume r \<noteq> None \<or> lv_status r = PROVISIONING"

definition handed_over :: "string \<Rightarrow> string \<Rightarrow> life_vm \<Rightarrow> life_vm" where
  "handed_over a wallet r =
     (let r1 = r\<lparr>lv_owner := Some a, lv_wallet := wallet, lv_token := None\<rparr> in
      if lv_reason r = Some ''account_disabled''
      then (if lv_status r \<in> {FAILED, DESTROYED} then unsuspended r1 else r1\<lparr>lv_transfer := Some (Some a)\<rparr>)
      else r1)"

definition domain_over :: "string \<Rightarrow> string \<Rightarrow> held_domain \<Rightarrow> held_domain" where
  "domain_over a wallet d = d\<lparr>dm_owner := Some a, dm_wallet := Some wallet, dm_token := None\<rparr>"

text \<open>The locks of the accounts, the VM and the domain are held together; the source is read again under them.\<close>

definition transfer_vm_held :: "string \<Rightarrow> string \<Rightarrow> string \<Rightarrow> acct_world \<Rightarrow> (http_exn + unit) \<times> acct_world" where
  "transfer_vm_held actor vid target w =
     (case life_at (aw_life w) vid of
        None \<Rightarrow> (Inl (HTTP 404 ''VM not found''), w)
      | Some r \<Rightarrow>
        if \<not> enabled_account w target then (Inl (HTTP 409 ''Target account is missing or disabled''), w)
        else if vm_untransferable r then (Inl (HTTP 409 ''Deleting, resuming or provisioning VMs cannot be transferred''), w)
        else
          let d = find (\<lambda>d. dm_vm d = Some vid) (aw_domains w); wallet = transfer_wallet_identity w target in
          if pending_domain_work w (map_option dm_fqdn d) (Some vid)
          then (Inl (HTTP 409 ''Attached domain has a pending operation''), w)
          else (Inr (), note_audit actor ''vm.transfer'' (Some vid) True
            (w\<lparr>aw_life := put_life (handed_over target wallet r) (aw_life w),
               aw_domains := (case d of None \<Rightarrow> aw_domains w
                 | Some x \<Rightarrow> put_row dm_fqdn (domain_over target wallet x) (aw_domains w))\<rparr>)))"

definition transfer_error :: "life_exn \<Rightarrow> http_exn" where
  "transfer_error e = (case e of L_Http n \<Rightarrow> HTTP n [] | _ \<Rightarrow> acct_db_error)"

definition transfer_vm :: "(string \<Rightarrow> life_env) \<Rightarrow> string \<Rightarrow> string \<Rightarrow> string \<Rightarrow> unit acct" where
  "transfer_vm lenv actor vid target =
     seq_prog (as_admin actor (transfer_vm_held actor vid target))
       (seq_prog (lift_life transfer_error (reconcile_transfer_resume (lenv vid) vid)) (Return ()))"

text \<open>The result names the attached VM.\<close>

definition transfer_domain_held :: "string \<Rightarrow> string \<Rightarrow> string \<Rightarrow> acct_world \<Rightarrow> (http_exn + string option) \<times> acct_world" where
  "transfer_domain_held actor fqdn target w =
     (case row_at dm_fqdn fqdn (aw_domains w) of
        None \<Rightarrow> (Inl (HTTP 404 ''Domain not found''), w)
      | Some d \<Rightarrow>
        if \<not> enabled_account w target then (Inl (HTTP 409 ''Target account is missing or disabled''), w)
        else
          let vm = (case dm_vm d of None \<Rightarrow> None | Some v \<Rightarrow> life_at (aw_life w) v); wallet = transfer_wallet_identity w target in
          if pending_domain_work w (Some fqdn) (dm_vm d) then (Inl (HTTP 409 ''Domain has a pending operation''), w)
          else if truthy (dm_vm d) \<and> (case vm of None \<Rightarrow> False | Some r \<Rightarrow> vm_untransferable r)
          then (Inl (HTTP 409 ''Deletion-claimed, resuming or provisioning VMs cannot be transferred''), w)
          else (Inr (if truthy (dm_vm d) then dm_vm d else None), note_audit actor ''domain.transfer'' (Some fqdn) True
            (w\<lparr>aw_life := (case vm of None \<Rightarrow> aw_life w | Some r \<Rightarrow> put_life (handed_over target wallet r) (aw_life w)),
               aw_domains := put_row dm_fqdn (domain_over target wallet d) (aw_domains w)\<rparr>)))"

definition transfer_domain :: "(string \<Rightarrow> life_env) \<Rightarrow> string \<Rightarrow> string \<Rightarrow> string \<Rightarrow> unit acct" where
  "transfer_domain lenv actor raw target =
     bind_prog (as_admin actor (transfer_domain_held actor (rstrip_char (CHR ''.'') (lower raw)) target)) (\<lambda>vm.
       case vm of
         None \<Rightarrow> Return ()
       | Some v \<Rightarrow> seq_prog (lift_life transfer_error (reconcile_transfer_resume (lenv v) v)) (Return ()))"

subsection \<open>The resolution of refunds\<close>

text \<open>\<^verbatim>\<open>_bounded_text\<close> of an optional string.\<close>

definition bounded_text :: "nat \<Rightarrow> string option \<Rightarrow> string option" where
  "bounded_text n v = (case v of None \<Rightarrow> None | Some s \<Rightarrow> (let t = take n (strip s) in if t = [] then None else Some t))"

definition resolution_of :: "acct_env \<Rightarrow> string \<Rightarrow> bool \<Rightarrow> owed_event \<Rightarrow> resolution" where
  "resolution_of env actor resolved e =
     \<lparr>rn_id = ae_uuid env, rn_event = oe_id e,
      rn_type = (if truthy (oe_vm e) then ''vm'' else if truthy (oe_order e) then ''domain'' else ''payment''),
      rn_resource = take 128 (or_str (oe_vm e) (or_str (oe_order e) (or_str (oe_tx e) (oe_id e)))),
      rn_resolved = resolved, rn_actor = actor\<rparr>"

definition resolve_refund :: "acct_env \<Rightarrow> string \<Rightarrow> string \<Rightarrow> bool \<Rightarrow> string acct" where
  "resolve_refund env actor event resolved =
     as_admin actor (\<lambda>w.
       case row_at oe_id event (aw_owed w) of
         None \<Rightarrow> (Inl (HTTP 404 ''Refund obligation not found''), w)
       | Some e \<Rightarrow>
         let order = (if resolved then bounded_text 32 (oe_order e) else None) in
         if order \<noteq> None \<and> the order \<notin> fst ` set (aw_orders w)
         then (Inl (HTTP 409 ''Linked domain order no longer exists''), w)
         else if row_at rn_event event (aw_resolutions w) \<noteq> None
         then (Inl (HTTP 409 ''Refund obligation is already resolved''), w)
         else
           let x = resolution_of env actor resolved e in
           (Inr (rn_id x), note_audit actor ''refund.resolve'' (Some event) True
             (w\<lparr>aw_resolutions := aw_resolutions w @ [x],
                aw_refunded := (case order of None \<Rightarrow> aw_refunded w | Some o1 \<Rightarrow> insert o1 (aw_refunded w))\<rparr>)))"

end
