(* ===== verification/Account_Safety.thy ===== *)
theory Account_Safety
  imports Account_Admin Vm_Life_Safety
begin

text \<open>
  Safety of accounts and of their administration: the invariant of every concurrent run of sign-in, recovery, wallet,
  key, deletion and administration requests, of the worker that carries out operations, and of whatever else the service
  does to the tables.
\<close>

subsection \<open>Programs that leave a part of the world alone\<close>

primrec steady :: "('w \<Rightarrow> 'k) \<Rightarrow> ('w, 'e, 'a) prog \<Rightarrow> bool" where
  "steady g (Return a) = True"
| "steady g (Raise e) = True"
| "steady g (Act f) = (\<forall>m w. case map_prod id (steady g) (f m w) of (w', s) \<Rightarrow> g w' = g w \<and> s)"

lemma steady_Act: "steady g (Act f) \<longleftrightarrow> (\<forall>m w. g (fst (f m w)) = g w \<and> steady g (snd (f m w)))"
  by (simp add: case_prod_beta)

declare steady.simps(3) [simp del]

lemma steady_bind: "steady g p \<Longrightarrow> (\<And>a. steady g (k a)) \<Longrightarrow> steady g (bind_prog p k)"
  by (induction p) (simp_all add: steady_Act)

lemma steady_handle: "steady g p \<Longrightarrow> (\<And>e. steady g (h e)) \<Longrightarrow> steady g (handle_prog p h)"
  by (induction p) (simp_all add: steady_Act)

lemma steady_seq: "steady g p \<Longrightarrow> steady g q \<Longrightarrow> steady g (seq_prog p q)"
  unfolding seq_prog_def by (rule steady_bind)

lemma steady_Return: "steady g (Return a)" and steady_Raise: "steady g (Raise e)"
  by simp_all

lemma steady_if: "(b \<Longrightarrow> steady g p) \<Longrightarrow> (\<not> b \<Longrightarrow> steady g q) \<Longrightarrow> steady g (if b then p else q)"
  by simp

lemma steady_option:
  "(x = None \<Longrightarrow> steady g p) \<Longrightarrow> (\<And>y. x = Some y \<Longrightarrow> steady g (q y)) \<Longrightarrow> steady g (case x of None \<Rightarrow> p | Some y \<Rightarrow> q y)"
  by (cases x) simp_all

lemma steady_prod: "(\<And>a b. steady g (k a b)) \<Longrightarrow> steady g (case x of (a, b) \<Rightarrow> k a b)"
  by (cases x) simp

lemma steady_sum: "(\<And>a. steady g (p a)) \<Longrightarrow> (\<And>b. steady g (q b)) \<Longrightarrow> steady g (case x of Inl a \<Rightarrow> p a | Inr b \<Rightarrow> q b)"
  by (cases x) simp_all

lemma steady_transact: "(\<And>w. g (snd (f w)) = g w) \<Longrightarrow> steady g (transact e f)"
  by (auto simp: transact_def steady_Act answer_def split: outcome.split sum.split)

lemma steady_read: "steady g (life_read f)"
  unfolding life_read_def by (rule steady_transact) simp

lemma steady_call: "(\<And>w. g (f w) = g w) \<Longrightarrow> steady g (life_call f)"
  by (simp add: life_call_def steady_Act)

definition held_steady :: "(life_world \<Rightarrow> 'k) \<Rightarrow> life_world \<Rightarrow> 'a held \<Rightarrow> bool" where
  "held_steady g w h \<longleftrightarrow> (case h of (r, called, stored) \<Rightarrow> g called = g w \<and> g stored = g w)"

lemma held_steady_leave [simp]: "held_steady g w (leave r w') \<longleftrightarrow> g w' = g w"
  by (simp add: held_steady_def leave_def)

lemma steady_held:
  assumes "\<And>w. held_steady g w (f w)"
  shows "steady g (held_try f)"
  unfolding held_try_def steady_Act
proof (intro allI)
  fix m w
  obtain r called stored where f: "f w = (r, called, stored)" by (metis prod_cases3)
  with assms [of w] have "g called = g w" "g stored = g w" by (simp_all add: held_steady_def)
  with f show "g (fst (case f w of (r, called, stored) \<Rightarrow> case r of Inl e \<Rightarrow> (called, Raise e)
          | Inr a \<Rightarrow> (if m = Refused then called else stored, Return (a, m = Answered)))) = g w \<and>
      steady g (snd (case f w of (r, called, stored) \<Rightarrow> case r of Inl e \<Rightarrow> (called, Raise e)
          | Inr a \<Rightarrow> (if m = Refused then called else stored, Return (a, m = Answered))))"
    by (cases r) auto
qed

lemma steady_locked_try:
  assumes "\<And>row w. held_steady g w (body row w)"
  shows "steady g (locked_try vid body)"
  unfolding locked_try_def by (intro steady_bind steady_read steady_held) (auto simp: assms split: option.split)

lemma steady_locked: "(\<And>row w. held_steady g w (body row w)) \<Longrightarrow> steady g (locked_vm vid body)"
  unfolding locked_vm_def by (auto intro!: steady_bind steady_locked_try)

lemma steady_row_held: "(\<And>row w. held_steady g w (body row w)) \<Longrightarrow> steady g (row_held vid body)"
  unfolding row_held_def by (auto intro!: steady_bind steady_held)

lemma steady_each: "(\<And>k. steady g (f k)) \<Longrightarrow> steady g (each_prog f ks)"
  by (induction ks) (auto intro!: steady_bind)

lemmas steady_rules = steady_bind steady_handle steady_seq steady_Return steady_Raise steady_if steady_option steady_prod
  steady_sum steady_read

text \<open>The lifecycle programs that requests of accounts run write no account row.\<close>

lemma power_towards_accounts: "power_towards env c from r w = (ok, w1) \<Longrightarrow> lw_accounts w1 = lw_accounts w"
  by (auto simp: power_towards_def Let_def split: option.splits if_splits)

lemma suspend_held_steady: "held_steady lw_accounts w (suspend_account_held env a actor row w)"
  by (auto simp: suspend_account_held_def held_steady_def leave_def
      dest!: power_towards_accounts split: option.splits prod.splits bool.splits if_splits)

lemma resume_held_steady: "held_steady lw_accounts w (resume_account_held env a row w)"
  by (auto simp: resume_account_held_def held_steady_def leave_def
      dest!: power_towards_accounts split: option.splits prod.splits bool.splits if_splits)

lemma steady_account: "steady lw_accounts (apply_to_account resume env a by)"
  unfolding apply_to_account_def resume_account_vm_def restart_provisioning_def
  by (intro steady_rules steady_each steady_row_held suspend_held_steady resume_held_steady steady_call) simp_all

lemma transfer_step_accounts: "transfer_step env x r w = (t, w1) \<Longrightarrow> lw_accounts w1 = lw_accounts w"
  by (auto simp: transfer_step_def dest!: power_towards_accounts split: option.splits if_splits prod.splits bool.splits)

lemma steady_transfer: "steady lw_accounts (reconcile_transfer_resume env vid)"
proof -
  have "held_steady lw_accounts w (transfer_held env x row w)" for x row w
    by (auto simp: transfer_held_def held_steady_def leave_def
        split: option.splits prod.splits transfer_outcome.splits dest!: transfer_step_accounts)
  then show ?thesis unfolding reconcile_transfer_resume_def restart_provisioning_def
    by (intro steady_rules steady_row_held steady_call) simp_all
qed

lemma prepare_accounts: "prepare_retention now v m u w = Some (t, w1) \<Longrightarrow> lw_accounts w1 = lw_accounts w"
  by (auto simp: prepare_retention_def Let_def split: option.splits if_splits)

lemma claim_held_steady: "held_steady lw_accounts w (claim_held cfg env before i reconcile row w)"
proof -
  have "claim_evidence cfg env before r w = (x, w1) \<Longrightarrow> lw_accounts w1 = lw_accounts w" for r x w1
    by (auto simp: claim_evidence_def dest: prepare_accounts split: option.splits if_splits)
  then show ?thesis
    by (auto simp: claim_held_def held_steady_def leave_def Let_def split: option.splits prod.splits sum.splits)
qed

lemma protect_held_steady: "held_steady lw_accounts w (protect_held cfg env before m row w)"
  by (auto simp: protect_held_def held_steady_def leave_def Let_def split: option.splits)

lemma finalize_held_steady: "held_steady lw_accounts w (finalize_held env c clean row w)"
  by (auto simp: finalize_held_def held_steady_def leave_def Let_def split: option.splits)

lemma guarded_steady: "held_steady g w (body row w) \<Longrightarrow> held_steady g w (guarded gd body row w)"
  by (simp add: guarded_def)

lemma steady_delete_guest: "steady lw_accounts (delete_guest env vid c)"
  unfolding delete_guest_def Let_def by (intro steady_rules steady_call) simp_all

lemma steady_detach: "steady lw_accounts (detach_names cfg env vid c)"
  unfolding detach_names_def Let_def life_do_def by (intro steady_rules steady_transact) simp_all

lemma steady_destroy: "steady lw_accounts (destroy_vm cfg env before i reconcile g vid)"
  unfolding destroy_vm_def carry_out_def
  by (intro steady_rules steady_locked guarded_steady claim_held_steady protect_held_steady finalize_held_steady
      steady_delete_guest steady_detach)

subsection \<open>The protocol\<close>

text \<open>Since the account was opened, its resources were last treated completely as \<open>k\<close> asks, and nothing else was done to
  them after that.\<close>

fun obeys :: "operation_kind \<Rightarrow> string \<Rightarrow> acct_event list \<Rightarrow> bool" where
  "obeys k a [] = (k = Resume_Resources)"
| "obeys k a (Account_Opened b # l) = (if b = a then k = Resume_Resources else obeys k a l)"
| "obeys k a (Obeyed k' b full # l) = (if b = a then k' = k \<and> (full \<or> obeys k a l) else obeys k a l)"
| "obeys k a (_ # l) = obeys k a l"

text \<open>The step-up counter of a session, from the log.\<close>

fun step_up_replay :: "acct_event list \<Rightarrow> string \<Rightarrow> nat \<times> int option" where
  "step_up_replay [] th = (0, None)"
| "step_up_replay (Session_Opened t # l) th = (if t = th then (0, None) else step_up_replay l th)"
| "step_up_replay (Password_Checked t now ok # l) th =
     (if t = th then (if ok then (0, None) else (case attempt_window now (step_up_replay l th) of (n, s) \<Rightarrow> (n + 1, s))) else step_up_replay l th)"
| "step_up_replay (_ # l) th = step_up_replay l th"

fun acct_allowed :: "acct_event \<Rightarrow> acct_event list \<Rightarrow> bool" where
  "acct_allowed (Password_Checked th now ok) l = (fst (attempt_window now (step_up_replay l th)) < STEP_UP_LIMIT)"
| "acct_allowed (Challenge_Spent n) l = (Challenge_Spent n \<notin> set l)"
| "acct_allowed (Recovery_Spent n) l = (Recovery_Spent n \<notin> set l)"
| "acct_allowed _ l = True"

fun acct_protocol :: "acct_event list \<Rightarrow> bool" where
  "acct_protocol [] = True"
| "acct_protocol (e # l) \<longleftrightarrow> acct_allowed e l \<and> acct_protocol l"

subsection \<open>The invariant\<close>

type_synonym accounts = "string \<rightharpoonup> account"

definition state_kind :: "account \<Rightarrow> operation_kind" where
  "state_kind acc = (if ac_disabled_at acc = None then Resume_Resources else Suspend_Resources)"

definition has_admin :: "accounts \<Rightarrow> bool" where
  "has_admin as \<longleftrightarrow> (\<exists>a acc. as a = Some acc \<and> ac_is_admin acc \<and> ac_disabled_at acc = None)"

definition barred :: "accounts \<Rightarrow> string \<Rightarrow> bool" where
  "barred as a \<longleftrightarrow> (\<exists>acc. as a = Some acc \<and> ac_disabled_at acc \<noteq> None)"

text \<open>A disabled account has no session and no live key, except those that its own registration issued late.\<close>

definition fenced :: "accounts \<Rightarrow> sessions \<Rightarrow> api_keys \<Rightarrow> acct_event list \<Rightarrow> bool" where
  "fenced as ss ks l \<longleftrightarrow>
     (\<forall>s \<in> set ss. barred as (ss_account s) \<longrightarrow> Registered_With (ss_account s) (ss_token_hash s) \<in> set l) \<and>
     (\<forall>k \<in> set ks. barred as (k_account k) \<longrightarrow> k_revoked_at k = None \<longrightarrow> Registered_With (k_account k) (k_hash k) \<in> set l)"

definition unfinished :: "admin_operation list \<Rightarrow> string \<Rightarrow> operation_kind \<Rightarrow> bool" where
  "unfinished ops a k \<longleftrightarrow> (\<exists>x \<in> set ops. op_account x = a \<and> op_kind x = k \<and> op_status x \<noteq> Q_COMPLETED)"

text \<open>An operation for the present state is still to be carried out, or it was the last one.\<close>

definition settled :: "accounts \<Rightarrow> admin_operation list \<Rightarrow> acct_event list \<Rightarrow> bool" where
  "settled as ops l \<longleftrightarrow>
     (\<forall>a acc. as a = Some acc \<longrightarrow> unfinished ops a (state_kind acc) \<or> obeys (state_kind acc) a l)"

definition spent_ok :: "wallet_challenge list \<Rightarrow> recovery_challenge list \<Rightarrow> acct_event list \<Rightarrow> bool" where
  "spent_ok cs rs l \<longleftrightarrow>
     (\<forall>n. Challenge_Spent n \<in> set l \<longrightarrow> (\<exists>c. row_at wc_nonce n cs = Some c \<and> wc_used c \<noteq> None)) \<and>
     (\<forall>n. Recovery_Spent n \<in> set l \<longrightarrow> (\<exists>c. row_at rc_nonce n rs = Some c \<and> rc_used c \<noteq> None))"

definition accts :: "acct_world \<Rightarrow> accounts" where
  "accts w = lw_accounts (aw_life w)"

definition acct_inv :: "acct_world \<Rightarrow> bool" where
  "acct_inv w \<longleftrightarrow>
     acct_protocol (aw_log w) \<and> has_admin (accts w) \<and> fenced (accts w) (aw_sessions w) (aw_keys w) (aw_log w) \<and>
     unique_by op_id (aw_ops w) \<and> settled (accts w) (aw_ops w) (aw_log w) \<and>
     spent_ok (aw_challenges w) (aw_recovery w) (aw_log w) \<and> unique_by rn_event (aw_resolutions w) \<and>
     (\<forall>th. aw_step_up w th = step_up_replay (aw_log w) th) \<and>
     unique_by wl_account (aw_wallets w) \<and> unique_by wl_address (aw_wallets w) \<and> life_inv (aw_life w)"

text \<open>What a program has learnt from the log of the accounts or of the VMs.\<close>

definition acct_seen :: "acct_world \<Rightarrow> (acct_event + life_event) set" where
  "acct_seen w = Inl ` set (aw_log w) \<union> Inr ` life_seen (aw_life w)"

definition acct_grown :: "acct_world \<Rightarrow> acct_world \<Rightarrow> bool" where
  "acct_grown w w' \<longleftrightarrow> acct_inv w' \<and> acct_seen w \<subseteq> acct_seen w'"

lemma acct_grown_refl: "acct_inv w \<Longrightarrow> acct_grown w w"
  by (simp add: acct_grown_def)

lemma acct_grown_trans: "acct_grown w w' \<Longrightarrow> acct_grown w' w'' \<Longrightarrow> acct_grown w w''"
  by (auto simp: acct_grown_def)

text \<open>The columns that an update leaves alone.\<close>

lemmas acct_helpers = put_cred_def acct_log_def put_acct_def map_vms_def note_attempt_def note_audit_def close_sessions_def
  set_password_def new_code_def put_op_def put_step_up_def elevate_def spend_recovery_def spend_challenge_def

lemma acct_inv_same:
  assumes "acct_inv w" "aw_log w' = aw_log w" "aw_life w' = aw_life w" "aw_sessions w' = aw_sessions w" "aw_keys w' = aw_keys w"
    "aw_ops w' = aw_ops w" "aw_challenges w' = aw_challenges w" "aw_recovery w' = aw_recovery w"
    "aw_resolutions w' = aw_resolutions w" "aw_step_up w' = aw_step_up w" "aw_wallets w' = aw_wallets w"
  shows "acct_inv w'"
  using assms by (simp add: acct_inv_def accts_def)

lemma acct_inv_trivial [simp]:
  "acct_inv (put_cred a c w) = acct_inv w" "acct_inv (note_attempt o1 m ok w) = acct_inv w"
  "acct_inv (note_audit a act o2 ok w) = acct_inv w" "acct_inv (w\<lparr>aw_mail := ms\<rparr>) = acct_inv w"
  "acct_inv (w\<lparr>aw_domains := ds\<rparr>) = acct_inv w" "acct_inv (w\<lparr>aw_refunded := rs\<rparr>) = acct_inv w"
  by (simp_all add: acct_inv_def accts_def acct_helpers)

lemma acct_seen_trivial [simp]:
  "acct_seen (put_cred a c w) = acct_seen w" "acct_seen (note_attempt o1 m ok w) = acct_seen w"
  "acct_seen (note_audit a act o2 ok w) = acct_seen w" "acct_seen (acct_log e w) = insert (Inl e) (acct_seen w)"
  "acct_seen (close_sessions a w) = acct_seen w" "acct_seen (put_op x w) = acct_seen w"
  "acct_seen (w\<lparr>aw_sessions := t\<rparr>) = acct_seen w" "acct_seen (w\<lparr>aw_mail := ms\<rparr>) = acct_seen w"
  "acct_seen (w\<lparr>aw_keys := ks\<rparr>) = acct_seen w" "acct_seen (put_acct a acc w) = acct_seen w"
  "acct_seen (w\<lparr>aw_wallets := xs\<rparr>) = acct_seen w" "acct_seen (map_vms f w) = acct_seen w"
  "acct_seen (put_step_up th s w) = acct_seen w" "acct_seen (elevate th n w) = acct_seen w"
  "acct_seen (w\<lparr>aw_ops := ops\<rparr>) = acct_seen w" "acct_seen (w\<lparr>aw_domains := ds\<rparr>) = acct_seen w"
  "acct_seen (set_password env a w) = insert (Inl (Password_Set a)) (acct_seen w)" "acct_seen (new_code env a w) = acct_seen w"
  by (simp_all add: acct_seen_def acct_helpers life_seen_def)

lemma acct_grown_trivial [simp]:
  "acct_grown v (put_cred a c w) = acct_grown v w" "acct_grown v (note_attempt o1 m ok w) = acct_grown v w"
  "acct_grown v (note_audit a act o2 ok w) = acct_grown v w" "acct_grown v (w\<lparr>aw_mail := ms\<rparr>) = acct_grown v w"
  "acct_grown v (w\<lparr>aw_domains := ds\<rparr>) = acct_grown v w" "acct_grown v (new_code env a w) = acct_grown v w"
  by (simp_all add: acct_grown_def) (simp_all add: new_code_def)

subsection \<open>Updates of one part\<close>

lemma inv_sessions:
  assumes "acct_inv w" "\<And>s. s \<in> set t \<Longrightarrow> \<exists>s0 \<in> set (aw_sessions w). ss_account s0 = ss_account s \<and> ss_token_hash s0 = ss_token_hash s"
  shows "acct_inv (w\<lparr>aw_sessions := t\<rparr>)"
proof -
  have "fenced (accts w) t (aw_keys w) (aw_log w)"
    using assms by (fastforce simp: acct_inv_def fenced_def)
  with assms(1) show ?thesis by (simp add: acct_inv_def accts_def)
qed

lemma inv_keys:
  assumes "acct_inv w" "\<And>k. k \<in> set t \<Longrightarrow> k_revoked_at k = None \<Longrightarrow>
      \<exists>k0 \<in> set (aw_keys w). k_account k0 = k_account k \<and> k_hash k0 = k_hash k \<and> k_revoked_at k0 = None"
  shows "acct_inv (w\<lparr>aw_keys := t\<rparr>)"
proof -
  have "fenced (accts w) (aw_sessions w) t (aw_log w)"
    using assms by (fastforce simp: acct_inv_def fenced_def)
  with assms(1) show ?thesis by (simp add: acct_inv_def accts_def)
qed

lemma inv_life: "acct_inv w \<Longrightarrow> lw_accounts l = lw_accounts (aw_life w) \<Longrightarrow> life_inv l \<Longrightarrow> acct_inv (w\<lparr>aw_life := l\<rparr>)"
  by (simp add: acct_inv_def accts_def)

lemma inv_close: "acct_inv w \<Longrightarrow> acct_inv (close_sessions a w)"
  unfolding close_sessions_def by (rule inv_sessions) (auto simp: revoke_all_sessions_for_def delete_rows_def)

text \<open>Events that the invariant does not speak of.\<close>

fun idle :: "acct_event \<Rightarrow> bool" where
  "idle (Registered_With a h) = True" | "idle (Password_Set a) = True" | "idle _ = False"

lemma idle_same: "idle e \<Longrightarrow> obeys k a (e # l) = obeys k a l \<and> step_up_replay (e # l) th = step_up_replay l th \<and> acct_allowed e l"
  by (cases e) simp_all

lemma fenced_log: "fenced as ss ks l \<Longrightarrow> fenced as ss ks (e # l)"
  by (simp add: fenced_def)

lemma inv_idle:
  assumes "acct_inv w" "idle e"
  shows "acct_inv (acct_log e w)"
proof -
  have "spent_ok cs rs (e # l) = spent_ok cs rs l" for cs rs l using assms(2) by (cases e) (simp_all add: spent_ok_def)
  moreover have "settled as ops (e # l) = settled as ops l" for as ops l using idle_same [OF assms(2)] by (simp add: settled_def)
  ultimately show ?thesis using assms idle_same [OF assms(2)]
    by (simp add: acct_inv_def accts_def acct_log_def fenced_log)
qed

subsection \<open>Sessions, challenges and passwords\<close>

lemma fenced_open:
  assumes "fenced as ss ks l" "set l \<subseteq> set l'" "barred as (ss_account row) \<Longrightarrow> Registered_With (ss_account row) (ss_token_hash row) \<in> set l'"
  shows "fenced as (ss @ [row]) ks l'"
  using assms by (auto simp: fenced_def)

definition opened :: "session_row \<Rightarrow> acct_world \<Rightarrow> acct_world" where
  "opened row w = acct_log (Session_Opened (ss_token_hash row))
     (w\<lparr>aw_sessions := aw_sessions w @ [row], aw_step_up := (aw_step_up w)(ss_token_hash row := (0, None))\<rparr>)"

lemma create_sessionD:
  assumes "create_session sha a ua ip r1 r2 now t = Some (tokens, t')"
  obtains row where "t' = t @ [row]" "ss_account row = a" "ss_token_hash row = hash_session_token sha (fst tokens)"
  using assms by (auto simp: create_session_def Let_def split: if_splits)

lemma open_sessionD:
  assumes "open_session env a w = (r, w1)"
  shows "(\<exists>e. r = Inl e) \<and> w1 = w \<or>
    (\<exists>tokens row. r = Inr tokens \<and> ss_account row = a \<and> ss_token_hash row = hash_session_token (ae_sha env) (fst tokens) \<and>
       w1 = opened row w \<and> acct_at w a \<noteq> None)"
proof (cases "create_session (ae_sha env) a (ae_agent env) (ae_ip env) (ae_rnd1 env) (ae_rnd2 env) (ae_now env) (aw_sessions w)")
  case None
  with assms show ?thesis by (auto simp: open_session_def split: if_splits)
next
  case (Some x)
  obtain tokens t where x: "x = (tokens, t)" by fastforce
  from create_sessionD [OF Some [unfolded x]] obtain row where
    row: "t = aw_sessions w @ [row]" "ss_account row = a" "ss_token_hash row = hash_session_token (ae_sha env) (fst tokens)" .
  show ?thesis
  proof (cases "acct_at w a = None")
    case True
    with assms show ?thesis by (auto simp: open_session_def)
  next
    case False
    with assms Some x row have "r = Inr tokens" "w1 = opened row w" by (auto simp: open_session_def opened_def Let_def)
    with False row show ?thesis by blast
  qed
qed

lemma inv_opened:
  assumes "acct_inv w" "\<not> barred (accts w) (ss_account row)"
  shows "acct_inv (opened row w)"
proof -
  have "fenced (accts w) (aw_sessions w @ [row]) (aw_keys w) (Session_Opened (ss_token_hash row) # aw_log w)"
    using assms by (intro fenced_open [where l = "aw_log w"]) (auto simp: acct_inv_def)
  with assms(1) show ?thesis by (simp add: acct_inv_def opened_def acct_log_def accts_def settled_def spent_ok_def)
qed

lemma inv_registered:
  assumes "acct_inv w" "h = ss_token_hash row"
  shows "acct_inv (acct_log (Registered_With (ss_account row) h) (opened row w))"
proof -
  let ?th = "ss_token_hash row"
  have "fenced (accts w) (aw_sessions w @ [row]) (aw_keys w) (Registered_With (ss_account row) ?th # Session_Opened ?th # aw_log w)"
    using assms by (intro fenced_open [where l = "aw_log w"]) (auto simp: acct_inv_def)
  with assms show ?thesis by (simp add: acct_inv_def opened_def acct_log_def accts_def settled_def spent_ok_def)
qed

lemma barred_iff: "barred (accts w) a \<longleftrightarrow> disabled_account w a"
  by (auto simp: barred_def accts_def disabled_account_def acct_at_def split: option.split)

lemma inv_spend_challenge:
  assumes "acct_inv w" "row_at wc_nonce n (aw_challenges w) = Some c" "wc_used c = None"
  shows "acct_inv (spend_challenge now c w)"
proof -
  have c: "wc_nonce c = n" using row_at_Some [OF assms(2)] by simp
  with assms have "Challenge_Spent n \<notin> set (aw_log w)" by (auto simp: acct_inv_def spent_ok_def)
  with assms c show ?thesis
    by (auto simp: acct_inv_def spend_challenge_def acct_log_def accts_def settled_def spent_ok_def fenced_log row_at_put)
qed

lemma inv_spend_recovery:
  assumes "acct_inv w" "row_at rc_nonce n (aw_recovery w) = Some c" "rc_used c = None"
  shows "acct_inv (spend_recovery now c w)"
proof -
  have c: "rc_nonce c = n" using row_at_Some [OF assms(2)] by simp
  with assms have "Recovery_Spent n \<notin> set (aw_log w)" by (auto simp: acct_inv_def spent_ok_def)
  with assms c show ?thesis
    by (auto simp: acct_inv_def spend_recovery_def acct_log_def accts_def settled_def spent_ok_def fenced_log row_at_put)
qed

lemma inv_set_password: "acct_inv w \<Longrightarrow> acct_inv (set_password env a w)"
  unfolding set_password_def by (rule inv_idle) simp_all

lemma inv_elevate: "acct_inv w \<Longrightarrow> acct_inv (elevate th now w)"
  unfolding elevate_def by (rule inv_sessions) (auto intro: bexI)

lemma inv_checked:
  assumes "acct_inv w" "attempt_window now (aw_step_up w th) = (n, s)" "n < STEP_UP_LIMIT"
  shows "acct_inv (acct_log (Password_Checked th now ok) (put_step_up th (if ok then (0, None) else (n + 1, s)) w))"
  using assms by (simp add: acct_inv_def acct_log_def put_step_up_def accts_def settled_def spent_ok_def fenced_log)

subsection \<open>Accounts\<close>

lemma life_put_acct: "life_inv (aw_life (put_acct a acc w)) = life_inv (aw_life w)"
  by (simp add: put_acct_def life_inv_def)

lemma accts_put [simp]: "accts (put_acct a acc w) = (accts w)(a := acc)"
  by (simp add: accts_def put_acct_def)

lemma put_acct_same [simp]:
  "aw_log (put_acct a acc w) = aw_log w" "aw_ops (put_acct a acc w) = aw_ops w" "aw_sessions (put_acct a acc w) = aw_sessions w"
  "aw_keys (put_acct a acc w) = aw_keys w" "aw_challenges (put_acct a acc w) = aw_challenges w"
  "aw_recovery (put_acct a acc w) = aw_recovery w" "aw_resolutions (put_acct a acc w) = aw_resolutions w"
  "aw_step_up (put_acct a acc w) = aw_step_up w" "aw_wallets (put_acct a acc w) = aw_wallets w"
  by (simp_all add: put_acct_def)

lemma accts_at: "accts w a = acct_at w a"
  by (simp add: accts_def acct_at_def)

lemma inv_new_account:
  assumes "acct_inv w" "acct_at w a = None" "ac_disabled_at acc = None"
  shows "acct_inv (acct_log (Account_Opened a) (put_cred a c (put_acct a (Some acc) w)))"
proof -
  have none: "accts w a = None" using assms(2) by (simp add: accts_at)
  let ?as = "(accts w)(a := Some acc)"
  from assms(1) obtain b x where b: "accts w b = Some x" "ac_is_admin x" "ac_disabled_at x = None"
    by (auto simp: acct_inv_def has_admin_def)
  with none have "b \<noteq> a" by auto
  with b have "has_admin ?as" unfolding has_admin_def by (intro exI [of _ b] exI [of _ x]) simp
  moreover have "fenced ?as (aw_sessions w) (aw_keys w) (Account_Opened a # aw_log w)"
    using assms(1,3) none by (auto simp: acct_inv_def fenced_def barred_def)
  moreover have "settled ?as (aw_ops w) (Account_Opened a # aw_log w)"
    using assms(1,3) none by (auto simp: acct_inv_def settled_def state_kind_def)
  ultimately have "acct_inv (acct_log (Account_Opened a) (put_acct a (Some acc) w))"
    using assms(1) by (simp add: acct_inv_def acct_log_def accts_def spent_ok_def put_acct_def life_inv_def)
  moreover have "acct_log (Account_Opened a) (put_cred a c (put_acct a (Some acc) w))
      = put_cred a c (acct_log (Account_Opened a) (put_acct a (Some acc) w))"
    by (simp add: acct_log_def put_cred_def put_acct_def)
  ultimately show ?thesis by simp
qed

text \<open>A change of an account's row that is not about being disabled.\<close>

lemma inv_role:
  assumes "acct_inv w" "acct_at w a = Some acc" "ac_disabled_at acc' = ac_disabled_at acc" "has_admin ((accts w)(a := Some acc'))"
  shows "acct_inv (put_acct a (Some acc') w)"
proof -
  have some: "accts w a = Some acc" using assms(2) by (simp add: accts_at)
  let ?as = "(accts w)(a := Some acc')"
  have "barred ?as b = barred (accts w) b" for b using some assms(3) by (auto simp: barred_def)
  then have "fenced ?as ss ks l = fenced (accts w) ss ks l" for ss ks l by (simp add: fenced_def)
  moreover have kind: "state_kind acc' = state_kind acc" using assms(3) by (simp add: state_kind_def)
  have "settled ?as ops l" if "settled (accts w) ops l" for ops l
    unfolding settled_def
  proof (intro allI impI)
    fix b x assume x: "?as b = Some x"
    show "unfinished ops b (state_kind x) \<or> obeys (state_kind x) b l"
      using that x some kind unfolding settled_def by (cases "b = a") auto
  qed
  ultimately show ?thesis using assms(1,4) by (simp add: acct_inv_def life_put_acct)
qed

lemma life_map_vms:
  assumes "life_inv l" "\<And>r. lv_id (f r) = lv_id r" "\<And>r. lv_uuid r \<noteq> Some [] \<Longrightarrow> same_life r (f r)"
  shows "life_inv (l\<lparr>lw_vms := map f (lw_vms l)\<rparr>)"
proof -
  have "lv_uuid r \<noteq> Some []" if "r \<in> set (lw_vms l)" for r using assms(1) that by (auto simp: life_inv_def row_ok_def)
  then have "foreign l (l\<lparr>lw_vms := map f (lw_vms l)\<rparr>)"
    using assms(1,3) by (auto simp: foreign_def life_inv_def unique_by_map [of lv_id f, OF assms(2)])
  with assms(1) show ?thesis using foreign_grown by (auto simp: grown_def)
qed

lemma inv_map_vms:
  assumes "acct_inv w" "\<And>r. lv_id (f r) = lv_id r" "\<And>r. lv_uuid r \<noteq> Some [] \<Longrightarrow> same_life r (f r)"
  shows "acct_inv (map_vms f w)"
  unfolding map_vms_def using assms(1) life_map_vms [OF _ assms(2,3)] by (intro inv_life) (simp_all add: acct_inv_def)

subsection \<open>Programs\<close>

abbreviation admits :: "'a acct \<Rightarrow> bool" where
  "admits p \<equiv> secure acct_inv acct_seen {} p"

lemma admits_do: "(\<And>w. acct_inv w \<Longrightarrow> acct_grown w (snd (f w))) \<Longrightarrow> admits (acct_do f)"
  unfolding acct_do_def by (rule secure_transact) (simp add: acct_grown_def)

lemma validated: "validate_admin_dispatch (auth_db_of w) actor = Inr x \<Longrightarrow> enabled_admin w actor"
  by (auto simp: validate_admin_dispatch_def auth_db_of_def enabled_admin_def acct_at_def split: option.splits if_splits)

lemma admits_admin:
  assumes "\<And>w. acct_inv w \<Longrightarrow> enabled_admin w actor \<Longrightarrow> acct_grown w (snd (f w))"
  shows "admits (as_admin actor f)"
  unfolding as_admin_def by (rule admits_do) (auto simp: acct_grown_refl assms validated split: sum.split)

lemma admits_read: "admits (acct_do (\<lambda>w. (f w, w)))"
  by (rule admits_do) (simp add: acct_grown_refl)

lemma lift_safe:
  "safe life_inv life_seen p K \<Longrightarrow> steady lw_accounts p \<Longrightarrow> Inr ` K \<subseteq> K' \<Longrightarrow> safe acct_inv acct_seen (lift_life err p) K'"
proof (induction p arbitrary: K K')
  case (Act f)
  have "acct_inv (w\<lparr>aw_life := fst (f m (aw_life w))\<rparr>) \<and> acct_seen w \<subseteq> acct_seen (w\<lparr>aw_life := fst (f m (aw_life w))\<rparr>) \<and>
      safe acct_inv acct_seen (lift_life err (snd (f m (aw_life w)))) (acct_seen (w\<lparr>aw_life := fst (f m (aw_life w))\<rparr>))"
    if w: "acct_inv w" "K' \<subseteq> acct_seen w" for m w
  proof -
    let ?l = "fst (f m (aw_life w))"
    from w(2) Act.prems(3) have "K \<subseteq> life_seen (aw_life w)" by (auto simp: acct_seen_def)
    with Act.prems(1) w(1) have l: "life_inv ?l" "life_seen (aw_life w) \<subseteq> life_seen ?l"
      "safe life_inv life_seen (snd (f m (aw_life w))) (life_seen ?l)"
      unfolding safe_Act acct_inv_def by blast+
    from Act.prems(2) have st: "lw_accounts ?l = lw_accounts (aw_life w)" "steady lw_accounts (snd (f m (aw_life w)))"
      unfolding steady_Act by blast+
    have "safe acct_inv acct_seen (lift_life err (snd (f m (aw_life w)))) (acct_seen (w\<lparr>aw_life := ?l\<rparr>))"
      by (rule Act.IH [OF l(3) st(2)]) (auto simp: acct_seen_def)
    with inv_life [OF w(1) st(1) l(1)] l(2) show ?thesis by (auto simp: acct_seen_def)
  qed
  then show ?case by (simp add: safe_Act case_prod_beta)
qed simp_all

lemma admits_lift: "guards {} p \<Longrightarrow> steady lw_accounts p \<Longrightarrow> admits (lift_life err p)"
  unfolding secure_def by (auto intro: lift_safe [where K = "{}"])

subsection \<open>Sign-in and recovery\<close>

lemma grown_close: "acct_grown v w \<Longrightarrow> acct_grown v (close_sessions a w)"
  by (simp add: acct_grown_def inv_close)

lemma grown_set_password: "acct_grown v w \<Longrightarrow> acct_grown v (set_password env a w)"
  by (auto simp: acct_grown_def inv_set_password)

lemma grown_sessions:
  "acct_inv w \<Longrightarrow> set t \<subseteq> set (aw_sessions w) \<Longrightarrow> acct_grown w (w\<lparr>aw_sessions := t\<rparr>)"
  by (auto simp: acct_grown_def intro!: inv_sessions)

lemma seen_opened [simp]: "acct_seen (opened row w) = insert (Inl (Session_Opened (ss_token_hash row))) (acct_seen w)"
  by (simp add: opened_def acct_seen_def acct_log_def)

lemma grown_open:
  assumes "acct_inv w" "\<not> disabled_account w a" "open_session env a w = (r, w1)"
  shows "acct_grown w w1"
  using open_sessionD [OF assms(3)] assms(1,2) inv_opened
  by (auto simp: acct_grown_def barred_iff)

lemma grown_first_session:
  assumes "acct_inv w"
  shows "acct_grown w (snd (first_session env a w))"
proof -
  obtain r w1 where o1: "open_session env a w = (r, w1)" by fastforce
  from open_sessionD [OF this] assms show ?thesis
    by (auto simp: first_session_def o1 acct_grown_def intro!: inv_registered [OF assms])
qed

lemma grown_first_key:
  assumes inv: "acct_inv w"
  shows "acct_grown w (snd (first_key env name a w))"
proof (cases "create_api_key (ae_sha env) a (take 64 (or_str name ''agent-bootstrap''))
    (map scope_value DEFAULT_BOOTSTRAP_SCOPES) None (ae_key_rnd env) (ae_uuid env) (ae_now env) (aw_keys w)")
  case (Inl e)
  then show ?thesis by (simp add: first_key_def acct_grown_refl inv)
next
  case (Inr x)
  obtain c row keys where x: "x = ((c, row), keys)" by (metis prod.exhaust)
  with Inr have k: "keys = aw_keys w @ [row]" "k_account row = a"
    by (auto simp: create_api_key_def Let_def split: sum.splits if_splits)
  have "fenced (accts w) (aw_sessions w) keys (Registered_With a (k_hash row) # aw_log w)"
    using inv k by (auto simp: acct_inv_def fenced_def)
  with inv have "acct_inv (acct_log (Registered_With a (k_hash row)) (w\<lparr>aw_keys := keys\<rparr>))"
    by (simp add: acct_inv_def acct_log_def accts_def settled_def spent_ok_def)
  then show ?thesis using Inr x by (auto simp: first_key_def acct_grown_refl inv acct_grown_def)
qed

lemma grown_insert:
  assumes "acct_inv w"
  shows "acct_grown w (snd (insert_account env a w))"
  using assms by (auto simp: insert_account_def acct_grown_refl acct_grown_def intro: inv_new_account)

lemma admits_register: "admits (register env with_key name)"
proof -
  have "admits (register_tries env ids)" for ids
    by (induction ids) (auto intro!: secure_rules admits_do grown_insert)
  then show ?thesis unfolding register_def
    by (intro secure_rules admits_do grown_first_session grown_first_key)
qed

lemma grown_issue_login:
  assumes "acct_inv w"
  shows "acct_grown w (snd (issue_login env a h w))"
proof -
  obtain r w1 where o1: "open_session env a w = (r, w1)" by fastforce
  with grown_open [OF assms _ o1] show ?thesis
    by (auto simp: issue_login_def acct_grown_refl assms split: sum.split)
qed

lemma admits_login: "admits (login env a password)"
  unfolding login_def by (intro secure_rules admits_read admits_do grown_issue_login)

lemma admits_logout: "admits (logout env cookie)"
  unfolding logout_def by (rule admits_do) (auto simp: revoke_session_def acct_grown_refl intro!: grown_sessions)

lemma admits_recover_with_code: "admits (recover_with_code env a code)"
  unfolding recover_with_code_def
  by (intro secure_rules admits_do)
    (auto simp: check_code_def redeem_code_def bad_code_def acct_grown_refl intro!: grown_close grown_set_password)

lemma admits_recover_wallet_challenge: "admits (recover_wallet_challenge env origin a)"
  unfolding recover_wallet_challenge_def
proof (rule admits_do)
  fix w assume inv: "acct_inv w"
  have "spent_ok (aw_challenges w) (aw_recovery w @ [c]) (aw_log w)" for c
    using inv by (fastforce simp: acct_inv_def spent_ok_def row_at_append)
  with inv have "acct_grown w (w\<lparr>aw_recovery := aw_recovery w @ [c]\<rparr>)" for c
    by (simp add: acct_grown_def acct_inv_def accts_def acct_seen_def)
  with inv show "acct_grown w (snd (let expires = ae_now env + RECOVERY_CHALLENGE_TTL;
           c = \<lparr>rc_nonce = ae_nonce env, rc_account = a,
             rc_text = build_recovery_challenge_text a (ae_nonce env) (ae_show_time env (ae_now env))
               (ae_show_time env expires) origin,
             rc_expires = expires, rc_used = None\<rparr>
       in if row_at rc_nonce (ae_nonce env) (aw_recovery w) \<noteq> None then (Inl acct_db_error, w)
          else (Inr c, w\<lparr>aw_recovery := aw_recovery w @ [c]\<rparr>)))"
    by (simp add: Let_def acct_grown_refl)
qed

lemma grown_spend_recovery:
  "acct_inv w \<Longrightarrow> row_at rc_nonce n (aw_recovery w) = Some c \<Longrightarrow> rc_used c = None \<Longrightarrow> acct_grown w (spend_recovery now c w)"
  by (auto simp: acct_grown_def inv_spend_recovery) (simp add: spend_recovery_def acct_log_def acct_seen_def)

lemma admits_recover_wallet_verify: "admits (recover_wallet_verify env rows nonce signature)"
  unfolding recover_wallet_verify_def
  by (rule admits_do)
    (auto simp: bad_proof_def acct_grown_refl Let_def split: option.split
      intro!: grown_close grown_set_password intro: grown_spend_recovery)

lemma admits_change_password: "admits (change_password env a cookie current)"
proof -
  have del: "acct_grown v (w\<lparr>aw_sessions := snd (delete_rows p (aw_sessions w))\<rparr>)" if "acct_grown v w" for v w p
    using that grown_sessions [of w "snd (delete_rows p (aw_sessions w))"]
    by (auto simp: acct_grown_def delete_rows_def)
  show ?thesis unfolding change_password_def
    by (intro admits_do) (auto simp: Let_def acct_grown_refl intro!: del grown_close grown_set_password)
qed

lemma admits_rotate_recovery_code: "admits (rotate_recovery_code env a current)"
  unfolding rotate_recovery_code_def by (rule admits_do) (auto simp: acct_grown_refl)

lemma admits_mint_key: "admits (mint_key env body acc st)"
  unfolding mint_key_def
proof (rule admits_do)
  fix w assume inv: "acct_inv w"
  obtain r db where e: "create_api_key_endpoint (ae_sha env) True body acc st (ae_key_rnd env) (ae_uuid env) (ae_now env)
      (auth_db_of w) = (r, db)" by fastforce
  then consider "db_keys db = aw_keys w"
    | row where "db_keys db = aw_keys w @ [row]" "k_account row = ac_id acc" "\<not> disabled_account w (ac_id acc)"
    by (auto simp: create_api_key_endpoint_def auth_db_of_def create_api_key_def Let_def disabled_account_def acct_at_def
        split: if_splits option.splits sum.splits scope_error.splits)
  then have "fenced (accts w) (aw_sessions w) (db_keys db) (aw_log w)"
    using inv by cases (auto simp: acct_inv_def fenced_def barred_iff)
  with inv have "acct_grown w (w\<lparr>aw_keys := db_keys db\<rparr>)"
    by (simp add: acct_grown_def acct_inv_def accts_def)
  with e show "acct_grown w (snd (case create_api_key_endpoint (ae_sha env) True body acc st (ae_key_rnd env) (ae_uuid env)
      (ae_now env) (auth_db_of w) of (r, db) \<Rightarrow> (r, w\<lparr>aw_keys := db_keys db\<rparr>)))" by simp
qed

lemma grown_keys:
  assumes "acct_inv w" "\<And>k. k \<in> set t \<Longrightarrow> k_revoked_at k = None \<Longrightarrow> k \<in> set (aw_keys w)"
  shows "acct_grown w (w\<lparr>aw_keys := t\<rparr>)"
  using inv_keys [OF assms(1), of t] assms(2) by (auto simp: acct_grown_def)

lemma admits_drop_key: "admits (drop_key env key_id acc st)"
  unfolding drop_key_def
proof (rule admits_do)
  fix w assume inv: "acct_inv w"
  obtain r db where e: "revoke_api_key_endpoint True key_id acc st (ae_now env) (auth_db_of w) = (r, db)" by fastforce
  have "k \<in> set (aw_keys w)" if "k \<in> set (snd (revoke_api_key a key_id now (aw_keys w)))" "k_revoked_at k = None" for a now k
    using that by (auto simp: revoke_api_key_def split: option.splits if_splits)
  then have "k \<in> set (aw_keys w)" if "k \<in> set (db_keys db)" "k_revoked_at k = None" for k
    using that e by (auto simp: revoke_api_key_endpoint_def auth_db_of_def Let_def split: if_splits prod.splits) (metis snd_conv)+
  with inv e show "acct_grown w (snd (case revoke_api_key_endpoint True key_id acc st (ae_now env) (auth_db_of w) of
      (r, db) \<Rightarrow> (r, w\<lparr>aw_keys := db_keys db\<rparr>)))" by (auto intro!: grown_keys)
qed

subsection \<open>Ownership\<close>

lemma grown_life:
  assumes "acct_inv w" "lw_accounts l = lw_accounts (aw_life w)" "grown (aw_life w) l"
  shows "acct_grown w (w\<lparr>aw_life := l\<rparr>)"
  using assms inv_life by (auto simp: acct_grown_def grown_def acct_seen_def)

lemma admits_claim_vm: "admits (claim_vm env a vid p)"
proof -
  have "acct_grown w (w\<lparr>aw_life := put_life (r\<lparr>lv_owner := o1, lv_token := None\<rparr>) (aw_life w)\<rparr>)"
    if "acct_inv w" "life_at (aw_life w) vid = Some r" for w r o1
    using that by (intro grown_life kin_put [where r = r and v = vid]) (auto simp: acct_inv_def kin_def)
  then show ?thesis unfolding claim_vm_def
    by (intro admits_do) (auto simp: acct_grown_refl split: option.split)
qed

lemma snapshotD:
  "account_deletion_snapshot a w = Inr vms \<Longrightarrow>
     \<exists>acc. acct_at w a = Some acc \<and> \<not> ac_is_admin acc \<and> ac_disabled_at acc = None \<and> vms = live_vms_of a w"
  by (auto simp: account_deletion_snapshot_def split: option.splits if_splits)

lemma settled_remove:
  assumes "settled as ops l"
  shows "settled (as(a := None)) (map (\<lambda>x. x\<lparr>op_actor := f x\<rparr>) (filter (\<lambda>x. op_account x \<noteq> a) ops)) l"
  unfolding settled_def
proof (intro allI impI)
  fix b acc assume b: "(as(a := None)) b = Some acc"
  then have "b \<noteq> a" "as b = Some acc" by (auto split: if_splits)
  moreover from this assms have "unfinished ops b (state_kind acc) \<or> obeys (state_kind acc) b l" by (simp add: settled_def)
  ultimately show "unfinished (map (\<lambda>x. x\<lparr>op_actor := f x\<rparr>) (filter (\<lambda>x. op_account x \<noteq> a) ops)) b (state_kind acc) \<or>
      obeys (state_kind acc) b l"
    by (fastforce simp: unfinished_def)
qed

lemma fenced_remove:
  assumes "fenced as ss ks l" "set ss' \<subseteq> set ss" "set ks' \<subseteq> set ks"
  shows "fenced (as(a := None)) ss' ks' l"
proof -
  have "barred as b" if "barred (as(a := None)) b" for b using that by (auto simp: barred_def split: if_splits)
  with assms show ?thesis unfolding fenced_def by blast
qed

lemma grown_remove:
  assumes inv: "acct_inv w" and acc: "acct_at w a = Some acc" "\<not> ac_is_admin acc"
  shows "acct_grown w (remove_account a w)"
proof -
  let ?f = "\<lambda>r. r\<lparr>lv_owner := disown a (lv_owner r)\<rparr>"
  let ?w = "remove_account a w"
  have acs: "accts ?w = (accts w)(a := None)" by (simp add: accts_def remove_account_def map_vms_def put_acct_def)
  from inv obtain b x where b: "accts w b = Some x" "ac_is_admin x" "ac_disabled_at x = None"
    by (auto simp: acct_inv_def has_admin_def)
  with acc have "b \<noteq> a" by (auto simp: accts_at)
  with b have "has_admin (accts ?w)" unfolding has_admin_def acs by (intro exI [of _ b] exI [of _ x]) simp
  moreover have "fenced (accts ?w) (aw_sessions ?w) (aw_keys ?w) (aw_log ?w)"
    unfolding acs using inv by (intro fenced_remove) (auto simp: acct_inv_def remove_account_def map_vms_def put_acct_def)
  moreover have "settled (accts ?w) (aw_ops ?w) (aw_log ?w)"
    unfolding acs using inv settled_remove by (simp add: acct_inv_def remove_account_def map_vms_def put_acct_def)
  moreover have "life_inv (aw_life (put_acct a None w))" using inv by (simp add: acct_inv_def life_put_acct)
  then have "life_inv (aw_life ?w)"
    using life_map_vms [of "aw_life (put_acct a None w)" ?f] by (simp add: remove_account_def map_vms_def same_life_def)
  moreover have "unique_by op_id (aw_ops ?w)"
    using inv by (simp add: acct_inv_def remove_account_def unique_by_map unique_by_filter)
  moreover have "unique_by wl_account (aw_wallets ?w)" "unique_by wl_address (aw_wallets ?w)"
    using inv by (simp_all add: acct_inv_def remove_account_def unique_by_filter)
  moreover have "aw_log ?w = aw_log w" "aw_challenges ?w = aw_challenges w" "aw_recovery ?w = aw_recovery w"
    "aw_resolutions ?w = aw_resolutions w" "aw_step_up ?w = aw_step_up w" "lw_log (aw_life ?w) = lw_log (aw_life w)"
    by (simp_all add: remove_account_def map_vms_def put_acct_def)
  ultimately show ?thesis using inv by (simp add: acct_grown_def acct_inv_def acct_seen_def life_seen_def)
qed

lemma admits_delete_me: "admits (delete_me env cfg lenv acc policy)"
proof -
  have fin: "acct_grown w (snd (finish_deletion a w))" if "acct_inv w" for a w
    using that by (auto simp: finish_deletion_def acct_grown_refl dest!: snapshotD intro: grown_remove split: sum.split)
  have det: "acct_grown w (snd (detach_account env a w))" if inv: "acct_inv w" for a w
  proof -
    have "acct_grown w (remove_account a (map_vms (detach_row env a) w))" if "acct_at w a = Some acc" "\<not> ac_is_admin acc" for acc
    proof -
      have "acct_inv (map_vms (detach_row env a) w)"
        using inv by (rule inv_map_vms) (simp_all add: detach_row_def same_life_def)
      moreover have "acct_at (map_vms (detach_row env a) w) a = Some acc"
        using that(1) by (simp add: acct_at_def map_vms_def)
      ultimately have "acct_grown (map_vms (detach_row env a) w) (remove_account a (map_vms (detach_row env a) w))"
        using that(2) by (rule grown_remove)
      then show ?thesis by (simp add: acct_grown_def)
    qed
    with inv show ?thesis
      by (auto simp: detach_account_def acct_grown_refl dest!: snapshotD split: sum.split)
  qed
  have all: "admits (destroy_all cfg lenv xs)" for xs
    by (induction xs) (auto intro!: secure_rules admits_lift guards_destroy steady_destroy)
  show ?thesis unfolding delete_me_def Let_def by (intro secure_rules admits_do all fin det admits_read)
qed

subsection \<open>Wallets\<close>

lemma inv_add_wallet:
  assumes "acct_inv w" "add_wallet x w = Some w1"
  shows "acct_inv w1 \<and> acct_seen w1 = acct_seen w \<and> aw_challenges w1 = aw_challenges w \<and> aw_life w1 = aw_life w"
proof -
  have "row_at wl_account (wl_account x) (aw_wallets w) = None" "row_at wl_address (wl_address x) (aw_wallets w) = None"
    and w1: "w1 = w\<lparr>aw_wallets := aw_wallets w @ [x]\<rparr>"
    using assms(2) by (auto simp: add_wallet_def wallet_of_def wallet_at_def split: if_splits)
  then have "unique_by wl_account (aw_wallets w @ [x])" "unique_by wl_address (aw_wallets w @ [x])"
    using assms(1) by (auto simp: acct_inv_def unique_by_append row_at_def find_None_iff)
  with assms(1) w1 show ?thesis by (simp add: acct_inv_def accts_def)
qed

lemma inv_add_wallet_account:
  assumes "acct_inv w" "add_wallet_account a w = Some w1"
  shows "acct_inv w1 \<and> acct_seen w \<subseteq> acct_seen w1 \<and> aw_challenges w1 = aw_challenges w \<and> enabled_account w1 a"
proof -
  have "acct_at w a = None" and w1: "w1 = acct_log (Account_Opened a) (put_cred a \<lparr>cd_password = None, cd_recovery = None,
      cd_recovery_issued = None, cd_recovery_used = None, cd_changed = None, cd_last_login = None\<rparr>
      (put_acct a (Some \<lparr>ac_id = a, ac_is_admin = False, ac_disabled_at = None\<rparr>) w))"
    using assms(2) by (auto simp: add_wallet_account_def split: if_splits)
  with assms(1) have "acct_inv w1" by (auto intro: inv_new_account)
  with w1 show ?thesis
    by (auto simp: enabled_account_def acct_at_def acct_log_def put_cred_def put_acct_def acct_seen_def life_seen_def)
qed

lemma grown_store_owner:
  assumes inv: "acct_inv w"
  shows "acct_grown w (snd (store_x402_owner env address chain decision w))"
proof (cases decision)
  case (Known_Owner a)
  with inv show ?thesis by (simp add: store_x402_owner_def acct_grown_refl)
next
  case (New_Link a)
  with inv inv_add_wallet show ?thesis
    by (auto simp: store_x402_owner_def acct_grown_refl acct_grown_def split: option.split)
next
  case New_Owner
  show ?thesis
  proof (cases "add_wallet_account (hd (ae_ids env @ [[]])) w")
    case (Some w1)
    note w1 = inv_add_wallet_account [OF inv Some]
    show ?thesis
    proof (cases "add_wallet \<lparr>wl_account = hd (ae_ids env @ [[]]), wl_address = address, wl_chain = chain\<rparr> w1")
      case (Some w2)
      with w1 inv_add_wallet [OF _ Some] have "acct_grown w w2" by (simp add: acct_grown_def)
      with New_Owner Some \<open>add_wallet_account _ w = Some w1\<close> show ?thesis by (simp add: store_x402_owner_def)
    qed (use New_Owner Some inv in \<open>simp add: store_x402_owner_def acct_grown_refl\<close>)
  qed (use New_Owner inv in \<open>simp add: store_x402_owner_def acct_grown_refl\<close>)
qed

lemma admits_resolve_owner: "admits (resolve_x402_owner envs raw chain acc allow_link)"
proof (induction envs)
  case (Cons env envs)
  have store: "admits (bind_prog (acct_do (\<lambda>w. map_prod Inr id (store_x402_owner env (normalize_address raw) chain d w)))
      (\<lambda>r. case r of Some x \<Rightarrow> Return x | None \<Rightarrow> resolve_x402_owner envs raw chain acc allow_link))" for d
    by (intro secure_rules admits_do Cons) (simp_all add: grown_store_owner)
  show ?case unfolding resolve_x402_owner.simps
  proof (rule secure_bind [OF admits_read])
    fix d show "admits (case d of Known_Owner a \<Rightarrow> Return (a, False)
        | _ \<Rightarrow> bind_prog (acct_do (\<lambda>w. map_prod Inr id (store_x402_owner env (normalize_address raw) chain d w)))
            (\<lambda>r. case r of Some x \<Rightarrow> Return x | None \<Rightarrow> resolve_x402_owner envs raw chain acc allow_link))"
      using store [of d] by (cases d) (auto intro: secure_Return)
  qed
qed (simp add: secure_rules)

lemma admits_issue_session: "admits (issue_session env a)"
proof -
  have "acct_grown w (snd (open_session env a w))" if "acct_inv w" "enabled_account w a" for w
    using that grown_open [OF that(1), of a env] by (cases "open_session env a w")
      (auto simp: enabled_account_def disabled_account_def split: option.splits)
  then show ?thesis unfolding issue_session_def by (intro admits_do) (auto simp: acct_grown_refl)
qed

lemma admits_create_challenge: "admits (create_challenge env cfg action raw chain resource acc)"
proof -
  have "acct_grown w (w\<lparr>aw_challenges := aw_challenges w @ [c]\<rparr>)" if inv: "acct_inv w" for w c
  proof -
    have "spent_ok (aw_challenges w @ [c]) (aw_recovery w) (aw_log w)"
      using inv by (fastforce simp: acct_inv_def spent_ok_def row_at_append)
    with inv show ?thesis by (simp add: acct_grown_def acct_inv_def accts_def acct_seen_def)
  qed
  then show ?thesis unfolding create_challenge_def Let_def
    by (intro secure_rules admits_read admits_do) (auto simp: acct_grown_refl)
qed

lemma spend_same [simp]:
  "acct_at (spend_challenge now c w) a = acct_at w a" "disabled_account (spend_challenge now c w) a = disabled_account w a"
  "enabled_account (spend_challenge now c w) a = enabled_account w a"
  "acct_seen (spend_challenge now c w) = insert (Inl (Challenge_Spent (wc_nonce c))) (acct_seen w)"
  by (simp_all add: spend_challenge_def acct_log_def acct_at_def disabled_account_def enabled_account_def acct_seen_def)

lemma enabled_not_disabled: "enabled_account w a \<Longrightarrow> \<not> disabled_account w a"
  by (simp add: enabled_account_def disabled_account_def split: option.splits)

lemma grown_wallet_login:
  assumes inv: "acct_inv w" and c: "row_at wc_nonce n (aw_challenges w) = Some c" "wc_used c = None"
  shows "acct_grown w (snd (wallet_login env c signature w))"
proof -
  have sess: "acct_grown w w2"
    if v: "acct_inv w1" "acct_seen w \<subseteq> acct_seen w1" "aw_challenges w1 = aw_challenges w" "\<not> disabled_account w1 a"
      and o1: "open_session env a (spend_challenge (ae_now env) c w1) = (r, w2)" for w1 a r w2
  proof -
    have "acct_inv (spend_challenge (ae_now env) c w1)" by (rule inv_spend_challenge [where n = n, OF v(1) _ c(2)]) (simp add: v(3) c(1))
    from grown_open [OF this _ o1] v have "acct_grown (spend_challenge (ae_now env) c w1) w2" by simp
    with v(2) show ?thesis by (auto simp: acct_grown_def)
  qed
  show ?thesis
  proof (cases "wallet_at w (wc_address c)")
    case (Some x)
    obtain r w2 where "open_session env (wl_account x) (spend_challenge (ae_now env) c w) = (r, w2)" by fastforce
    with Some sess [of w "wl_account x" r w2] inv show ?thesis
      by (auto simp: wallet_login_def acct_grown_refl Let_def split: sum.split)
  next
    case None
    let ?a = "hd (ae_ids env @ [[]])"
    show ?thesis
    proof (cases "add_wallet_account ?a w")
      case (Some w1)
      note w1 = inv_add_wallet_account [OF inv Some]
      show ?thesis
      proof (cases "add_wallet \<lparr>wl_account = ?a, wl_address = wc_address c, wl_chain = wc_chain c\<rparr> w1")
        case (Some w2)
        note w2 = inv_add_wallet [OF _ Some]
        obtain r w3 where o1: "open_session env ?a (spend_challenge (ae_now env) c w2) = (r, w3)" by fastforce
        have "\<not> disabled_account w2 ?a"
          using w1 w2 enabled_not_disabled [of w1 ?a] by (simp add: disabled_account_def acct_at_def)
        with sess [of w2 ?a r w3] w1 w2 o1 have "acct_grown w w3" by simp
        with None Some o1 inv \<open>add_wallet_account ?a w = Some w1\<close> show ?thesis
          by (auto simp: wallet_login_def acct_grown_refl Let_def split: sum.split)
      qed (use None Some inv in \<open>simp add: wallet_login_def acct_grown_refl\<close>)
    qed (use None inv in \<open>simp add: wallet_login_def acct_grown_refl\<close>)
  qed
qed

lemma grown_wallet_link:
  assumes inv: "acct_inv w" and c: "row_at wc_nonce n (aw_challenges w) = Some c" "wc_used c = None"
  shows "acct_grown w (snd (wallet_link env c signature a w))"
proof (cases "add_wallet \<lparr>wl_account = a, wl_address = wc_address c, wl_chain = wc_chain c\<rparr> w")
  case (Some w1)
  note w1 = inv_add_wallet [OF inv Some]
  have "acct_inv (spend_challenge (ae_now env) c w1)" by (rule inv_spend_challenge [where n = n, OF _ _ c(2)]) (use w1 c in simp_all)
  with Some w1 inv show ?thesis by (auto simp: wallet_link_def acct_grown_refl acct_grown_def)
qed (use inv in \<open>simp add: wallet_link_def acct_grown_refl\<close>)

lemma unique_put_key:
  assumes "unique_by key t" "unique_by k2 t" "\<And>z. z \<in> set (put_row key r t) \<Longrightarrow> z = r \<or> k2 z \<noteq> k2 r"
  shows "unique_by k2 (put_row key r t)"
  using assms
proof (induction t)
  case (Cons x xs)
  have rest: "unique_by k2 (put_row key r xs)"
    using Cons by (auto simp: unique_by_def put_row_def alter_row_def)
  have put: "put_row key r (x # xs) = (if key x = key r then r else x) # put_row key r xs"
    by (simp add: put_row_def alter_row_def)
  show ?case
  proof (cases "key x = key r")
    case True
    have others: "key z \<noteq> key r" if "z \<in> set xs" for z using Cons.prems(1) True that by (auto simp: unique_by_def image_iff)
    then have same: "put_row key r xs = xs" by (auto simp: put_row_def alter_row_def intro: map_idI)
    have "k2 z \<noteq> k2 r" if "z \<in> set xs" for z using Cons.prems(3) [of z] others [OF that] that same put by auto
    then have "k2 r \<notin> k2 ` set xs" by (metis imageE)
    with rest put True same show ?thesis by (simp add: unique_by_def)
  next
    case False
    have "k2 x \<noteq> k2 z" if z: "z \<in> set (put_row key r xs)" for z
    proof (cases "z = r")
      case True
      with Cons.prems(3) [of x] put False show ?thesis by auto
    next
      case False
      with put_row_cases [OF z] have "z \<in> set xs" by simp
      with Cons.prems(2) show ?thesis by (auto simp: unique_by_def image_iff)
    qed
    with rest put False show ?thesis by (auto simp: unique_by_def)
  qed
qed (simp add: put_row_def alter_row_def unique_by_def)

lemma inv_rotate:
  assumes inv: "acct_inv w" and x: "wallet_of w a = Some x" "case wallet_at w (wl_address y) of None \<Rightarrow> True | Some z \<Rightarrow> wl_account z = a"
    "wl_account y = a"
  shows "acct_inv (w\<lparr>aw_wallets := put_row wl_account y (aw_wallets w)\<rparr>)"
proof -
  have "z = y \<or> wl_address z \<noteq> wl_address y" if "z \<in> set (put_row wl_account y (aw_wallets w))" for z
  proof (cases "z = y")
    case False
    with put_row_cases [OF that] have z: "z \<in> set (aw_wallets w)" "wl_account z \<noteq> a" using x(3) by auto
    from inv have "unique_by wl_address (aw_wallets w)" by (simp add: acct_inv_def)
    from row_at_member [OF this z(1)] x(2) z(2) show ?thesis by (auto simp: wallet_at_def)
  qed simp
  then have "unique_by wl_address (put_row wl_account y (aw_wallets w))"
    using inv by (intro unique_put_key) (auto simp: acct_inv_def)
  with inv show ?thesis by (simp add: acct_inv_def accts_def)
qed

lemma grown_verify_action:
  assumes inv: "acct_inv w"
  shows "acct_grown w (snd (verify_wallet_action env nonce signature second acc w))"
proof (cases "row_at wc_nonce nonce (aw_challenges w)")
  case None
  with inv show ?thesis by (simp add: verify_wallet_action_def acct_grown_refl)
next
  case (Some c)
  show ?thesis
  proof (cases "wc_used c")
    case None
    note c = Some None
    have rot: "acct_grown w (snd (wallet_rotate env c signature second a w))" for a
    proof (cases "wallet_of w a")
      case (Some x)
      let ?y = "x\<lparr>wl_address := wc_address c, wl_chain := wc_chain c\<rparr>"
      have "wl_account x = a" using Some by (auto simp: wallet_of_def dest: row_at_Some)
      with inv_rotate [OF inv Some, of ?y]
      have "acct_inv (w\<lparr>aw_wallets := put_row wl_account ?y (aw_wallets w)\<rparr>)"
        if "case wallet_at w (wc_address c) of None \<Rightarrow> True | Some z \<Rightarrow> wl_account z = a"
        using that by simp
      from inv_spend_challenge [where n = nonce, OF this _ c(2)] c(1)
      have "acct_inv (spend_challenge (ae_now env) c (w\<lparr>aw_wallets := put_row wl_account ?y (aw_wallets w)\<rparr>))"
        if "case wallet_at w (wc_address c) of None \<Rightarrow> True | Some z \<Rightarrow> wl_account z = a"
        using that by simp
      with Some inv show ?thesis
        by (auto simp: wallet_rotate_def acct_grown_refl acct_grown_def split: option.splits)
    qed (use inv in \<open>simp add: wallet_rotate_def acct_grown_refl\<close>)
    show ?thesis
      using c inv grown_wallet_login [OF inv c] grown_wallet_link [OF inv c] rot
      by (auto simp: verify_wallet_action_def acct_grown_refl split: option.split)
  qed (use Some inv in \<open>simp add: verify_wallet_action_def challenge_expired_def acct_grown_refl\<close>)
qed

lemma admits_wallet_verify: "admits (wallet_verify env nonce signature second acc is_key)"
  unfolding wallet_verify_def verify_login_or_account_action_def
  by (intro secure_rules admits_do grown_verify_action)

lemma admits_wallet_challenge: "admits (wallet_challenge_route env cfg action raw chain resource acc is_key)"
  unfolding wallet_challenge_route_def by (intro secure_rules admits_create_challenge)

lemma admits_consume_transfer: "admits (consume_transfer_challenge env nonce signature a resource)"
proof -
  have "acct_grown w (spend_challenge now c w)"
    if "acct_inv w" "row_at wc_nonce nonce (aw_challenges w) = Some c" "\<not> challenge_expired now' (Some c)" for w c now now'
    using that inv_spend_challenge [OF that(1,2)] by (auto simp: acct_grown_def challenge_expired_def)
  then show ?thesis unfolding consume_transfer_challenge_def
    by (intro admits_do) (auto simp: acct_grown_refl split: option.split)
qed

subsection \<open>Administration\<close>

lemma admits_step_up: "admits (step_up env ttl a token_hash password)"
proof -
  have ok: "acct_grown w (acct_log (Password_Checked th now True) (note_audit b s o1 True (elevate th now (put_step_up th (0, None) w))))"
    if "acct_inv w" "attempt_window now (aw_step_up w th) = (n, st)" "\<not> STEP_UP_LIMIT \<le> n" for w th now n st s o1 b
  proof -
    let ?v = "acct_log (Password_Checked th now True) (put_step_up th (0, None) w)"
    have "acct_inv ?v" using inv_checked [OF that(1,2), of True] that(3) by simp
    then have "acct_inv (note_audit b s o1 True (elevate th now ?v))" by (simp add: inv_elevate)
    moreover have "acct_log (Password_Checked th now True) (note_audit b s o1 True (elevate th now (put_step_up th (0, None) w)))
        = note_audit b s o1 True (elevate th now ?v)"
      by (simp add: acct_log_def note_audit_def elevate_def put_step_up_def)
    ultimately show ?thesis by (auto simp: acct_grown_def)
  qed
  have bad: "acct_grown w (acct_log (Password_Checked th now False) (note_audit b s o1 False (put_step_up th (Suc n, st) w)))"
    if "acct_inv w" "attempt_window now (aw_step_up w th) = (n, st)" "\<not> STEP_UP_LIMIT \<le> n" for w th now n st s o1 b
  proof -
    let ?v = "acct_log (Password_Checked th now False) (put_step_up th (Suc n, st) w)"
    have "acct_inv ?v" using inv_checked [OF that(1,2), of False] that(3) by simp
    then have "acct_inv (note_audit b s o1 False ?v)" by simp
    moreover have "acct_log (Password_Checked th now False) (note_audit b s o1 False (put_step_up th (Suc n, st) w))
        = note_audit b s o1 False ?v"
      by (simp add: acct_log_def note_audit_def put_step_up_def)
    ultimately show ?thesis by (auto simp: acct_grown_def)
  qed
  show ?thesis unfolding step_up_def Let_def
    by (intro secure_rules admits_do)
      (auto simp: acct_grown_refl split: option.split prod.split intro: ok bad)
qed

lemma unfinished_append: "unfinished (ops @ [x]) a k \<longleftrightarrow> unfinished ops a k \<or> op_account x = a \<and> op_kind x = k \<and> op_status x \<noteq> Q_COMPLETED"
  by (auto simp: unfinished_def)

text \<open>Operations of the undone kind alone are closed when an account changes its state.\<close>

lemma unfinished_supersede:
  "unfinished ops a k \<Longrightarrow> op_account x \<noteq> a \<or> k \<noteq> undone \<Longrightarrow> unfinished (supersede undone x ops) a k"
  by (fastforce simp: unfinished_def supersede_def)

lemma settled_switch:
  assumes "settled as ops l" "op_account x = a" "op_kind x = state_kind acc" "op_status x = Q_QUEUED" "undone \<noteq> state_kind acc"
  shows "settled (as(a := Some acc)) (supersede undone x ops @ [x]) l"
  unfolding settled_def
proof (intro allI impI)
  fix b y assume b: "(as(a := Some acc)) b = Some y"
  show "unfinished (supersede undone x ops @ [x]) b (state_kind y) \<or> obeys (state_kind y) b l"
  proof (cases "b = a")
    case True
    with b assms show ?thesis by (simp add: unfinished_append)
  next
    case False
    with b assms have "unfinished ops b (state_kind y) \<or> obeys (state_kind y) b l" by (auto simp: settled_def)
    with False assms(2) show ?thesis by (auto simp: unfinished_append intro: unfinished_supersede)
  qed
qed

lemma supersede_ids: "map op_id (supersede undone x ops) = map op_id ops"
  by (simp add: supersede_def)

lemma inv_switch:
  assumes inv: "acct_inv w" and acc: "acct_at w a = Some acc" and q: "queue_operation undone x w1 = (Inr i, w2)"
    and x: "op_account x = a" "op_kind x = state_kind acc'" "op_status x = Q_QUEUED" "undone \<noteq> state_kind acc'"
    and w1: "accts w1 = (accts w)(a := Some acc')" "aw_log w1 = aw_log w" "aw_ops w1 = aw_ops w" "aw_challenges w1 = aw_challenges w"
      "aw_recovery w1 = aw_recovery w" "aw_resolutions w1 = aw_resolutions w" "aw_step_up w1 = aw_step_up w"
      "aw_wallets w1 = aw_wallets w" "life_inv (aw_life w1)" "lw_log (aw_life w1) = lw_log (aw_life w)"
    and admin: "has_admin (accts w1)" and fence: "fenced (accts w1) (aw_sessions w1) (aw_keys w1) (aw_log w)"
  shows "acct_grown w w2"
proof -
  have w2: "w2 = w1\<lparr>aw_ops := supersede undone x (aw_ops w) @ [x]\<rparr>" and new: "row_at op_id (op_id x) (aw_ops w) = None"
    using q w1(3) by (auto simp: queue_operation_def split: if_splits)
  have "unique_by op_id (supersede undone x (aw_ops w) @ [x])"
  proof -
    have "op_id x \<notin> op_id ` set (aw_ops w)" using new by (auto simp: row_at_def find_None_iff)
    then have "op_id x \<notin> set (map op_id (supersede undone x (aw_ops w)))" by (simp add: supersede_ids)
    with inv show ?thesis by (simp add: unique_by_def supersede_ids acct_inv_def del: set_map)
  qed
  moreover have "settled (accts w1) (supersede undone x (aw_ops w) @ [x]) (aw_log w)"
    unfolding w1(1) by (rule settled_switch) (use inv x in \<open>simp_all add: acct_inv_def\<close>)
  ultimately have "acct_inv w2" using inv admin fence w1 w2 by (simp add: acct_inv_def accts_def)
  then show ?thesis using w1 w2 by (simp add: acct_grown_def acct_seen_def life_seen_def)
qed

lemma clear_tokens_same [simp]:
  "aw_log (clear_tokens a w) = aw_log w" "aw_ops (clear_tokens a w) = aw_ops w" "aw_sessions (clear_tokens a w) = aw_sessions w"
  "aw_keys (clear_tokens a w) = aw_keys w" "aw_challenges (clear_tokens a w) = aw_challenges w"
  "aw_recovery (clear_tokens a w) = aw_recovery w" "aw_resolutions (clear_tokens a w) = aw_resolutions w"
  "aw_step_up (clear_tokens a w) = aw_step_up w" "aw_wallets (clear_tokens a w) = aw_wallets w"
  "accts (clear_tokens a w) = accts w" "lw_log (aw_life (clear_tokens a w)) = lw_log (aw_life w)"
  by (simp_all add: clear_tokens_def map_vms_def accts_def)

lemma clear_tokens_life: "life_inv (aw_life w) \<Longrightarrow> life_inv (aw_life (clear_tokens a w))"
  using life_map_vms [of "aw_life w" "\<lambda>r. if lv_owner r = Some a then r\<lparr>lv_token := None\<rparr> else r"]
  by (simp add: clear_tokens_def map_vms_def same_life_def)

definition cut_off :: "int \<Rightarrow> string \<Rightarrow> account \<Rightarrow> acct_world \<Rightarrow> acct_world" where
  "cut_off now a acc w =
     clear_tokens a (snd (revoke_keys_of now a (close_sessions a
       (put_acct a (Some (acc\<lparr>ac_disabled_at := Some (Aware now 0)\<rparr>)) w))))"

lemma fenced_cut_off:
  assumes "fenced as ss ks l"
  shows "fenced (as(a := Some acc')) (filter (\<lambda>s. ss_account s \<noteq> a) ss)
     (map (\<lambda>k. if k_account k = a \<and> k_revoked_at k = None then k\<lparr>k_revoked_at := Some t\<rparr> else k) ks) l"
proof -
  have b: "barred as b" if "barred (as(a := Some acc')) b" "b \<noteq> a" for b using that by (auto simp: barred_def split: if_splits)
  have "Registered_With (k_account k) (k_hash k) \<in> set l"
    if "k \<in> (\<lambda>k. if k_account k = a \<and> k_revoked_at k = None then k\<lparr>k_revoked_at := Some t\<rparr> else k) ` set ks"
      "barred (as(a := Some acc')) (k_account k)" "k_revoked_at k = None" for k
  proof -
    from that(1) obtain k0 where k0: "k0 \<in> set ks"
      "k = (if k_account k0 = a \<and> k_revoked_at k0 = None then k0\<lparr>k_revoked_at := Some t\<rparr> else k0)" by blast
    with that(3) have "\<not> (k_account k0 = a \<and> k_revoked_at k0 = None)" "k = k0" by (cases "k_account k0 = a \<and> k_revoked_at k0 = None"; simp)+
    with k0(1) that(3) have "k \<in> set ks" "k_account k \<noteq> a" by auto
    with assms that(3) b [OF that(2)] show ?thesis unfolding fenced_def by blast
  qed
  moreover have "Registered_With (ss_account s) (ss_token_hash s) \<in> set l"
    if "s \<in> set (filter (\<lambda>s. ss_account s \<noteq> a) ss)" "barred (as(a := Some acc')) (ss_account s)" for s
  proof -
    from that(1) have "s \<in> set ss" "ss_account s \<noteq> a" by simp_all
    with assms b [OF that(2)] show ?thesis unfolding fenced_def by blast
  qed
  ultimately show ?thesis unfolding fenced_def set_map by blast
qed

lemma cut_off_parts:
  "accts (cut_off now a acc w) = (accts w)(a := Some (acc\<lparr>ac_disabled_at := Some (Aware now 0)\<rparr>))"
  "aw_sessions (cut_off now a acc w) = filter (\<lambda>s. ss_account s \<noteq> a) (aw_sessions w)"
  "aw_keys (cut_off now a acc w) = map (\<lambda>k. if k_account k = a \<and> k_revoked_at k = None
     then k\<lparr>k_revoked_at := Some (Aware now 0)\<rparr> else k) (aw_keys w)"
  "aw_log (cut_off now a acc w) = aw_log w" "aw_ops (cut_off now a acc w) = aw_ops w"
  "aw_challenges (cut_off now a acc w) = aw_challenges w" "aw_recovery (cut_off now a acc w) = aw_recovery w"
  "aw_resolutions (cut_off now a acc w) = aw_resolutions w" "aw_step_up (cut_off now a acc w) = aw_step_up w"
  "aw_wallets (cut_off now a acc w) = aw_wallets w" "lw_log (aw_life (cut_off now a acc w)) = lw_log (aw_life w)"
  by (simp_all add: cut_off_def revoke_keys_of_def close_sessions_def revoke_all_sessions_for_def delete_rows_def put_acct_def accts_def
      clear_tokens_def map_vms_def)

lemma cut_off_life: "life_inv (aw_life w) \<Longrightarrow> life_inv (aw_life (cut_off now a acc w))"
  unfolding cut_off_def
  by (intro clear_tokens_life) (simp add: revoke_keys_of_def close_sessions_def put_acct_def life_inv_def)

lemma admin_remains:
  assumes "enabled_admin w actor" "actor \<noteq> a"
  shows "has_admin ((accts w)(a := x))"
proof -
  from assms(1) obtain acc where "accts w actor = Some acc" "ac_is_admin acc" "ac_disabled_at acc = None"
    by (auto simp: enabled_admin_def accts_at split: option.splits)
  with assms(2) show ?thesis unfolding has_admin_def by (intro exI [of _ actor] exI [of _ acc]) simp
qed

lemma queued_grown:
  assumes "acct_inv w" "\<And>i w2. q = (Inr i, w2) \<Longrightarrow> acct_grown w w2"
  shows "acct_grown w (snd (case q of (Inl e, _) \<Rightarrow> (Inl e, w) | (Inr i, w2) \<Rightarrow> (Inr i, note_audit b s t ok w2)))"
  using assms by (cases q; cases "fst q") (auto simp: acct_grown_refl)

lemma admits_disable: "admits (disable_account env known actor a)"
proof -
  have "acct_grown w w2"
    if inv: "acct_inv w" and adm: "enabled_admin w actor" "a \<noteq> actor" and acc: "acct_at w a = Some acc"
      and q: "queue_operation Resume_Resources (new_operation env Suspend_Resources a actor) (cut_off (ae_now env) a acc w) = (Inr i, w2)"
    for w acc i w2
    by (rule inv_switch [OF inv acc q, where acc' = "acc\<lparr>ac_disabled_at := Some (Aware (ae_now env) 0)\<rparr>"])
      (use inv adm admin_remains fenced_cut_off cut_off_life in
        \<open>simp_all add: cut_off_parts new_operation_def state_kind_def acct_inv_def\<close>)
  then show ?thesis unfolding disable_account_def Let_def cut_off_def [symmetric]
    by (intro secure_rules admits_admin) (auto simp: acct_grown_refl split: option.split intro!: queued_grown)
qed

lemma fenced_enable:
  assumes "fenced as ss ks l" "ac_disabled_at acc' = None"
  shows "fenced (as(a := Some acc')) ss ks l"
proof -
  have "barred as b" if "barred (as(a := Some acc')) b" for b using that assms(2) by (auto simp: barred_def split: if_splits)
  with assms(1) show ?thesis unfolding fenced_def by blast
qed

lemma admits_enable: "admits (enable_account env actor a)"
proof -
  have "acct_grown w w2"
    if inv: "acct_inv w" and adm: "enabled_admin w actor" and acc: "acct_at w a = Some acc"
      and q: "queue_operation Suspend_Resources (new_operation env Resume_Resources a actor)
        (put_acct a (Some (acc\<lparr>ac_disabled_at := None\<rparr>)) w) = (Inr i, w2)" for w acc i w2
  proof (rule inv_switch [OF inv acc q, where acc' = "acc\<lparr>ac_disabled_at := None\<rparr>"])
    show "has_admin (accts (put_acct a (Some (acc\<lparr>ac_disabled_at := None\<rparr>)) w))"
    proof (cases "a = actor")
      case True
      with acc adm have "ac_is_admin acc" by (simp add: enabled_admin_def)
      then show ?thesis unfolding has_admin_def accts_put by (intro exI [of _ a] exI [of _ "acc\<lparr>ac_disabled_at := None\<rparr>"]) simp
    next
      case False
      with adm show ?thesis by (simp add: admin_remains)
    qed
  qed (use inv fenced_enable in \<open>simp_all add: new_operation_def state_kind_def acct_inv_def life_put_acct put_acct_def life_inv_def accts_def\<close>)
  then show ?thesis unfolding enable_account_def
    by (intro admits_admin) (auto simp: acct_grown_refl split: option.split intro!: queued_grown)
qed

lemma admits_role: "admits (set_account_role known actor a is_admin)"
proof -
  have "acct_grown w (put_acct a (Some (acc\<lparr>ac_is_admin := is_admin\<rparr>)) w)"
    if inv: "acct_inv w" and adm: "enabled_admin w actor" "a = actor \<Longrightarrow> is_admin" and acc: "acct_at w a = Some acc" for w acc
  proof -
    have "has_admin ((accts w)(a := Some (acc\<lparr>ac_is_admin := is_admin\<rparr>)))"
    proof (cases "a = actor")
      case True
      with acc adm have "ac_disabled_at acc = None" is_admin by (simp_all add: enabled_admin_def)
      then show ?thesis unfolding has_admin_def by (intro exI [of _ a] exI [of _ "acc\<lparr>ac_is_admin := is_admin\<rparr>"]) simp
    next
      case False
      with adm show ?thesis by (simp add: admin_remains)
    qed
    with inv acc show ?thesis by (auto simp: acct_grown_def intro: inv_role)
  qed
  then show ?thesis unfolding set_account_role_def
    by (intro secure_rules admits_admin) (auto simp: acct_grown_refl split: option.split)
qed

lemma admits_revoke_sessions: "admits (revoke_account_sessions actor a)"
  unfolding revoke_account_sessions_def
  by (rule admits_admin) (auto simp: acct_grown_refl intro!: grown_close)

lemma admits_revoke_keys: "admits (revoke_account_keys env actor a)"
proof -
  have "acct_grown w w1" if "acct_inv w" "revoke_keys_of now a w = (n, w1)" for w w1 now n
    using that by (auto simp: revoke_keys_of_def intro!: grown_keys split: if_splits)
  then show ?thesis unfolding revoke_account_keys_def
    by (intro admits_admin) (auto simp: acct_grown_refl split: prod.split)
qed

subsection \<open>The worker\<close>

lemma unfinished_put:
  assumes "unique_by op_id ops" "row_at op_id (op_id x) ops = Some old" "op_account x = op_account old" "op_kind x = op_kind old"
    "unfinished ops a k" "op_status x \<noteq> Q_COMPLETED \<or> op_account x \<noteq> a \<or> op_kind x \<noteq> k"
  shows "unfinished (put_row op_id x ops) a k"
proof -
  from assms(5) obtain y where y: "y \<in> set ops" "op_account y = a" "op_kind y = k" "op_status y \<noteq> Q_COMPLETED"
    by (auto simp: unfinished_def)
  show ?thesis
  proof (cases "op_id y = op_id x")
    case True
    from row_at_member [OF assms(1) y(1)] True assms(2) have "y = old" by simp
    with y assms(3,4,6) have "op_status x \<noteq> Q_COMPLETED" by auto
    moreover have "x \<in> set (put_row op_id x ops)" using y(1) True by (force simp: put_row_def alter_row_def)
    ultimately show ?thesis using y \<open>y = old\<close> assms(3,4) unfolding unfinished_def by (intro bexI [of _ x]) auto
  next
    case False
    with y put_row_other [OF y(1), of op_id x] show ?thesis unfolding unfinished_def by (intro bexI [of _ y]) auto
  qed
qed

text \<open>An operation is written back, and completed only if the state has changed or its resources were treated.\<close>

lemma inv_put_op:
  assumes inv: "acct_inv w" and x: "row_at op_id (op_id x) (aw_ops w) = Some old" "op_account x = op_account old" "op_kind x = op_kind old"
    and c: "op_status x = Q_COMPLETED \<Longrightarrow>
      (case accts w (op_account x) of None \<Rightarrow> True
       | Some acc \<Rightarrow> op_kind x \<noteq> state_kind acc \<or> obeys (state_kind acc) (op_account x) (aw_log w))"
  shows "acct_inv (put_op x w)"
proof -
  have "settled (accts w) (put_row op_id x (aw_ops w)) (aw_log w)"
    unfolding settled_def
  proof (intro allI impI)
    fix a acc assume a: "accts w a = Some acc"
    with inv have "unfinished (aw_ops w) a (state_kind acc) \<or> obeys (state_kind acc) a (aw_log w)"
      by (simp add: acct_inv_def settled_def)
    moreover have "unfinished (put_row op_id x (aw_ops w)) a (state_kind acc) \<or> obeys (state_kind acc) a (aw_log w)"
      if u: "unfinished (aw_ops w) a (state_kind acc)"
    proof (cases "op_status x \<noteq> Q_COMPLETED \<or> op_account x \<noteq> a \<or> op_kind x \<noteq> state_kind acc")
      case True
      with unfinished_put [OF _ x u] inv show ?thesis by (simp add: acct_inv_def)
    next
      case False
      with c a show ?thesis by auto
    qed
    ultimately show "unfinished (put_row op_id x (aw_ops w)) a (state_kind acc) \<or> obeys (state_kind acc) a (aw_log w)" by blast
  qed
  with inv show ?thesis by (simp add: acct_inv_def put_op_def accts_def)
qed

lemma next_operation_row:
  assumes "acct_inv w" "next_operation now a w = Some x"
  shows "row_at op_id (op_id x) (aw_ops w) = Some x \<and> op_account x = a \<and> eligible now x"
proof -
  from assms(2) have "x \<in> set (sort_key (\<lambda>x. (if op_status x = Q_RUNNING then 0 else 1 :: nat, op_created x)) (pending_ops now a w))"
    by (auto simp: next_operation_def simp del: set_sort split: list.splits)
  then have "x \<in> set (aw_ops w)" "op_account x = a" "eligible now x" by (auto simp: pending_ops_def)
  with assms(1) show ?thesis by (auto simp: acct_inv_def intro: row_at_member)
qed

lemma grown_claim:
  assumes inv: "acct_inv w"
  shows "acct_grown w (snd (claim_operation now skip w))"
proof (cases "next_account now skip w")
  case (Some a)
  show ?thesis
  proof (cases "next_operation now a w")
    case None
    with Some inv show ?thesis by (simp add: claim_operation_def acct_grown_refl)
  next
    case s: (Some x)
    have "acct_inv (put_op (x\<lparr>op_status := Q_RUNNING, op_started := Some now, op_completed := None, op_error := False\<rparr>) w)"
      by (rule inv_put_op [OF inv, where old = x]) (use next_operation_row [OF inv s] in simp_all)
    with Some s show ?thesis by (simp add: claim_operation_def acct_grown_def)
  qed
qed (use inv in \<open>simp add: claim_operation_def acct_grown_refl\<close>)

lemma obeys_matching:
  "accts w a = Some acc \<Longrightarrow> matches_state k w a \<longleftrightarrow> k = state_kind acc"
  by (cases k) (auto simp: matches_state_def state_kind_def disabled_account_def enabled_account_def accts_at)

lemma inv_obeyed:
  assumes inv: "acct_inv w" and m: "matches_state k w a"
  shows "acct_inv (acct_log (Obeyed k a full) w)"
proof -
  have "settled (accts w) (aw_ops w) (Obeyed k a full # aw_log w)"
    unfolding settled_def
  proof (intro allI impI)
    fix b acc assume b: "accts w b = Some acc"
    with inv have "unfinished (aw_ops w) b (state_kind acc) \<or> obeys (state_kind acc) b (aw_log w)"
      by (simp add: acct_inv_def settled_def)
    with b m obeys_matching [of w b acc k]
    show "unfinished (aw_ops w) b (state_kind acc) \<or> obeys (state_kind acc) b (Obeyed k a full # aw_log w)" by auto
  qed
  with inv show ?thesis by (simp add: acct_inv_def acct_log_def accts_def fenced_log spent_ok_def)
qed

lemma treated:
  assumes inv: "acct_inv w" and t: "treat_resources env x w = (r, w1)"
  shows "acct_grown w w1 \<and> aw_ops w1 = aw_ops w \<and> accts w1 = accts w"
proof -
  let ?p = "apply_to_account (op_kind x = Resume_Resources) (we_life env) (op_account x) (op_actor x)"
  obtain r0 l where run: "run_with (we_outcomes env) ?p (aw_life w) = (r0, l)" by fastforce
  have g: "life_inv l \<and> life_seen (aw_life w) \<subseteq> life_seen l"
    using run_with_safe [of life_inv life_seen ?p "{}" "aw_life w" "we_outcomes env"] guards_account [of "{}"] inv run
    by (simp add: secure_def acct_inv_def)
  have "lw_accounts (snd (run_with ms p v)) = lw_accounts v" if "steady lw_accounts p" for ms v and p :: "int life"
    using that
  proof (induction ms p v rule: run_with.induct)
    case (4 m ms f v)
    then show ?case by (cases "f m v") (auto simp: steady_Act, metis fst_conv snd_conv)
  qed simp_all
  from this [OF steady_account] run have acs: "lw_accounts l = lw_accounts (aw_life w)" by (metis snd_conv)
  then have "acct_grown w (w\<lparr>aw_life := l\<rparr>)" using g by (intro grown_life inv) (simp_all add: grown_def)
  with t run acs show ?thesis
    by (auto simp: treat_resources_def Let_def treat_mail_def accts_def split: option.splits sum.splits if_splits)
qed

lemma finish_same [simp]:
  "op_id (finish_operation now r x) = op_id x" "op_account (finish_operation now r x) = op_account x"
  "op_kind (finish_operation now r x) = op_kind x"
  by (simp_all add: finish_operation_def split: sum.split)

lemma grown_leased:
  assumes inv: "acct_inv w" and a: "apply_leased env i w = (r, called, stored)"
  shows "acct_grown w called \<and> acct_grown w stored"
proof (cases "row_at op_id i (aw_ops w)")
  case None
  with a inv show ?thesis by (auto simp: apply_leased_def acct_grown_refl)
next
  case (Some x)
  then have xid: "op_id x = i" using row_at_Some by fastforce
  show ?thesis
  proof (cases "acct_at w (op_account x)")
    case None
    with a inv Some show ?thesis by (auto simp: apply_leased_def acct_grown_refl)
  next
    case acc: (Some acc)
    then have ac: "accts w (op_account x) = Some acc" by (simp add: accts_at)
    show ?thesis
    proof (cases "matches_state (op_kind x) w (op_account x)")
      case False
      with ac have "op_kind x \<noteq> state_kind acc" using obeys_matching by blast
      then have "acct_inv (put_op (finish_operation (we_now env) (Inr (0, 0)) x) w)"
        by (intro inv_put_op [OF inv, where old = x]) (simp_all add: Some xid ac)
      with a inv Some acc False show ?thesis by (auto simp: apply_leased_def acct_grown_refl acct_grown_def)
    next
      case True
      then have k: "op_kind x = state_kind acc" using obeys_matching [OF ac] by blast
      obtain r0 w1 where t: "treat_resources env x w = (r0, w1)" by fastforce
      note tr = treated [OF inv t]
      then have m1: "matches_state (op_kind x) w1 (op_account x)"
        using obeys_matching [of w1 "op_account x" acc] ac k by simp
      from tr have "acct_inv w1" by (simp add: acct_grown_def)
      note logged = inv_obeyed [OF this m1]
      have fin: "acct_inv (put_op (finish_operation (we_now env) res x) (acct_log (Obeyed (op_kind x) (op_account x) full) w1))"
        if "full \<or> (\<exists>e. res = Inl e)" for res full
      proof (rule inv_put_op [OF logged, where old = x])
        show "case accts (acct_log (Obeyed (op_kind x) (op_account x) full) w1) (op_account (finish_operation (we_now env) res x)) of
            None \<Rightarrow> True | Some acc' \<Rightarrow> op_kind (finish_operation (we_now env) res x) \<noteq> state_kind acc' \<or>
              obeys (state_kind acc') (op_account (finish_operation (we_now env) res x))
                (aw_log (acct_log (Obeyed (op_kind x) (op_account x) full) w1))"
          if "op_status (finish_operation (we_now env) res x) = Q_COMPLETED"
          using that \<open>full \<or> (\<exists>e. res = Inl e)\<close> by (auto simp: finish_operation_def acct_log_def split: option.split sum.splits)
      qed (use tr xid Some in \<open>simp_all add: acct_log_def\<close>)
      have seen: "acct_seen w \<subseteq> acct_seen w1" using tr by (simp add: acct_grown_def)
      show ?thesis
      proof (cases r0)
        case None
        with a Some acc True t logged seen show ?thesis by (auto simp: apply_leased_def Let_def acct_grown_def)
      next
        case s: (Some res)
        show ?thesis
        proof (cases res)
          case (Inl e)
          with a Some acc True t s logged [of False] fin [of False res] seen show ?thesis
            by (auto simp: apply_leased_def Let_def acct_grown_def)
        next
          case (Inr n)
          with a Some acc True t s logged [of True] fin [of True res] seen show ?thesis
            by (auto simp: apply_leased_def Let_def acct_grown_def)
        qed
      qed
    qed
  qed
qed

lemma admits_apply: "admits (apply_account_operation env i)"
  unfolding apply_account_operation_def secure_Act
proof (intro allI impI)
  fix m w assume inv: "acct_inv w"
  obtain r called stored where a: "apply_leased env i w = (r, called, stored)" by (metis prod_cases3)
  from grown_leased [OF inv a] show "acct_inv (fst (case apply_leased env i w of (r, called, stored) \<Rightarrow>
         if m = Refused then (called, Raise (if r = Inl worker_died then worker_died else acct_db_error))
         else (stored, case r of Inl e \<Rightarrow> Raise e | Inr _ \<Rightarrow> if m = Lost then Raise acct_db_error else Return ()))) \<and>
      acct_seen w \<subseteq> acct_seen (fst (case apply_leased env i w of (r, called, stored) \<Rightarrow>
         if m = Refused then (called, Raise (if r = Inl worker_died then worker_died else acct_db_error))
         else (stored, case r of Inl e \<Rightarrow> Raise e | Inr _ \<Rightarrow> if m = Lost then Raise acct_db_error else Return ()))) \<and>
      safe acct_inv acct_seen (snd (case apply_leased env i w of (r, called, stored) \<Rightarrow>
         if m = Refused then (called, Raise (if r = Inl worker_died then worker_died else acct_db_error))
         else (stored, case r of Inl e \<Rightarrow> Raise e | Inr _ \<Rightarrow> if m = Lost then Raise acct_db_error else Return ())))
       (acct_seen (fst (case apply_leased env i w of (r, called, stored) \<Rightarrow>
         if m = Refused then (called, Raise (if r = Inl worker_died then worker_died else acct_db_error))
         else (stored, case r of Inl e \<Rightarrow> Raise e | Inr _ \<Rightarrow> if m = Lost then Raise acct_db_error else Return ()))))"
    by (cases r) (simp_all add: a acct_grown_def)
qed

lemma grown_mark_failed:
  assumes "acct_inv w" "row_at op_id i (aw_ops w) = Some x"
  shows "acct_grown w (put_op (finish_operation now (Inl e) x) w)"
proof -
  have "op_id x = i" using row_at_Some [OF assms(2)] by simp
  then have "acct_inv (put_op (finish_operation now (Inl e) x) w)"
    by (intro inv_put_op [OF assms(1), where old = x]) (simp_all add: assms(2), simp add: finish_operation_def)
  then show ?thesis by (simp add: acct_grown_def)
qed

lemma admits_process: "admits (process_admin_operations env n)"
proof (induction n)
  case (Suc n)
  have "admits (mark_failed (env n) i)" for i
    unfolding mark_failed_def by (rule admits_do) (auto simp: acct_grown_refl grown_mark_failed split: option.split)
  then show ?case
    by (auto intro!: secure_rules admits_do admits_apply Suc simp: grown_claim)
qed (simp add: secure_rules)

lemma admits_retry: "admits (retry_admin_operation actor i)"
proof -
  have "acct_grown w (put_op (x\<lparr>op_status := Q_QUEUED, op_error := False, op_started := None, op_completed := None\<rparr>) w)"
    if "acct_inv w" "row_at op_id i (aw_ops w) = Some x" for w x
  proof -
    have "op_id x = i" using row_at_Some [OF that(2)] by simp
    then have "acct_inv (put_op (x\<lparr>op_status := Q_QUEUED, op_error := False, op_started := None, op_completed := None\<rparr>) w)"
      by (intro inv_put_op [OF that(1), where old = x]) (simp_all add: that(2))
    then show ?thesis by (simp add: acct_grown_def)
  qed
  then show ?thesis unfolding retry_admin_operation_def
    by (intro admits_admin) (auto simp: acct_grown_refl split: option.split)
qed

subsection \<open>Transfers and refunds\<close>

lemma handed_over_kin: "kin r (handed_over a wallet r)"
  by (simp add: handed_over_def Let_def kin_def unsuspended_def)

lemma grown_hand_over:
  assumes "acct_inv w" "life_at (aw_life w) vid = Some r"
  shows "acct_grown w (w\<lparr>aw_life := put_life (handed_over a wallet r) (aw_life w)\<rparr>)"
  using assms by (intro grown_life kin_put [OF _ assms(2) handed_over_kin]) (simp_all add: acct_inv_def)

lemma with_domains: "acct_grown v (w\<lparr>aw_life := l\<rparr>) \<Longrightarrow> acct_grown v (w\<lparr>aw_life := l, aw_domains := ds\<rparr>)"
  using acct_grown_trivial(5) [where v = v and w = "w\<lparr>aw_life := l\<rparr>" and ds = ds] by simp

lemma admits_transfer_vm: "admits (transfer_vm lenv actor vid target)"
proof -
  have "acct_grown w (snd (transfer_vm_held actor vid target w))" if "acct_inv w" for w
    using that by (auto simp: transfer_vm_held_def Let_def acct_grown_refl split: option.split intro!: with_domains grown_hand_over)
  then show ?thesis unfolding transfer_vm_def
    by (intro secure_rules admits_admin admits_lift guards_transfer steady_transfer)
qed

lemma admits_transfer_domain: "admits (transfer_domain lenv actor raw target)"
proof -
  have "acct_grown w (snd (transfer_domain_held actor fqdn target w))" if inv: "acct_inv w" for w fqdn
  proof (cases "row_at dm_fqdn fqdn (aw_domains w)")
    case (Some d)
    let ?vm = "case dm_vm d of None \<Rightarrow> None | Some v \<Rightarrow> life_at (aw_life w) v"
    have "acct_grown w (w\<lparr>aw_life := (case ?vm of None \<Rightarrow> aw_life w | Some r \<Rightarrow> put_life (handed_over target wallet r) (aw_life w)),
        aw_domains := ds\<rparr>)" for ds wallet
    proof (cases ?vm)
      case None
      from inv have "acct_grown w (w\<lparr>aw_life := aw_life w, aw_domains := ds\<rparr>)" by (intro with_domains) (simp add: acct_grown_refl)
      with None show ?thesis by simp
    next
      case (Some r)
      then obtain v where "life_at (aw_life w) v = Some r" by (auto split: option.splits)
      from with_domains [OF grown_hand_over [OF inv this]] Some show ?thesis by simp
    qed
    with Some inv show ?thesis by (simp add: transfer_domain_held_def Let_def acct_grown_refl)
  qed (use inv in \<open>simp add: transfer_domain_held_def acct_grown_refl\<close>)
  then show ?thesis unfolding transfer_domain_def
    by (intro secure_rules admits_admin admits_lift guards_transfer steady_transfer)
qed

lemma admits_resolve: "admits (resolve_refund env actor event resolved)"
proof -
  have add: "acct_grown w (w\<lparr>aw_resolutions := aw_resolutions w @ [x], aw_refunded := rs\<rparr>)"
    if inv: "acct_inv w" and new: "row_at rn_event (rn_event x) (aw_resolutions w) = None" for w x rs
  proof -
    have "unique_by rn_event (aw_resolutions w @ [x])"
      using inv new by (auto simp: acct_inv_def unique_by_append row_at_def find_None_iff)
    with inv show ?thesis by (simp add: acct_grown_def acct_inv_def accts_def acct_seen_def)
  qed
  have "acct_grown w (snd (case row_at oe_id event (aw_owed w) of
         None \<Rightarrow> (Inl (HTTP 404 ''Refund obligation not found''), w)
       | Some e \<Rightarrow>
         let order = (if resolved then bounded_text 32 (oe_order e) else None) in
         if order \<noteq> None \<and> the order \<notin> fst ` set (aw_orders w)
         then (Inl (HTTP 409 ''Linked domain order no longer exists''), w)
         else if row_at rn_event event (aw_resolutions w) \<noteq> None
         then (Inl (HTTP 409 ''Refund obligation is already resolved''), w)
         else
           let x = resolution_of env actor resolved e in
           (Inr (rn_id x), note_audit actor ''refund.resolve'' (Some event) True
             (w\<lparr>aw_resolutions := aw_resolutions w @ [x],
                aw_refunded := (case order of None \<Rightarrow> aw_refunded w | Some o1 \<Rightarrow> insert o1 (aw_refunded w))\<rparr>))))"
    if inv: "acct_inv w" for w
  proof (cases "row_at oe_id event (aw_owed w)")
    case (Some e)
    have "rn_event (resolution_of env actor b e) = event" for b
      using row_at_Some [OF Some] by (simp add: resolution_of_def)
    then have new: "acct_grown w (w\<lparr>aw_resolutions := aw_resolutions w @ [resolution_of env actor b e], aw_refunded := rs\<rparr>)"
      if "row_at rn_event event (aw_resolutions w) = None" for b rs
      using add [OF inv, of "resolution_of env actor b e" rs] that by simp
    from new [where rs = "aw_refunded w"] have "acct_grown w (w\<lparr>aw_resolutions := aw_resolutions w @ [resolution_of env actor b e]\<rparr>)"
      if "row_at rn_event event (aw_resolutions w) = None" for b
      using that by simp
    with new show ?thesis using Some inv by (simp add: Let_def acct_grown_refl)
  qed (use inv in \<open>simp add: acct_grown_refl\<close>)
  then show ?thesis unfolding resolve_refund_def by (intro admits_admin)
qed

subsection \<open>Everything that runs against the world\<close>

text \<open>What the rest of the service may do to it: sessions are closed and touched, keys are used, and the other tables
  change in any way that keeps the invariant of the VM lifecycle.\<close>

definition elsewhere :: "acct_world \<Rightarrow> acct_world \<Rightarrow> bool" where
  "elsewhere w w' \<longleftrightarrow>
     accts w' = accts w \<and> aw_log w' = aw_log w \<and> aw_ops w' = aw_ops w \<and> aw_challenges w' = aw_challenges w \<and>
     aw_recovery w' = aw_recovery w \<and> aw_resolutions w' = aw_resolutions w \<and> aw_step_up w' = aw_step_up w \<and>
     aw_wallets w' = aw_wallets w \<and>
     (\<forall>s \<in> set (aw_sessions w'). \<exists>s0 \<in> set (aw_sessions w). ss_account s0 = ss_account s \<and> ss_token_hash s0 = ss_token_hash s) \<and>
     (\<forall>k \<in> set (aw_keys w'). k_revoked_at k = None \<longrightarrow>
        (\<exists>k0 \<in> set (aw_keys w). k_account k0 = k_account k \<and> k_hash k0 = k_hash k \<and> k_revoked_at k0 = None)) \<and>
     (life_inv (aw_life w) \<longrightarrow> grown (aw_life w) (aw_life w'))"

inductive_set acct_starts :: "(acct_world, http_exn, unit) prog set" where
  register: "seq_prog (register env k n) (Return ()) \<in> acct_starts"
| login: "seq_prog (login env a password) (Return ()) \<in> acct_starts"
| logout: "logout env cookie \<in> acct_starts"
| code: "seq_prog (recover_with_code env a c) (Return ()) \<in> acct_starts"
| recovery: "seq_prog (recover_wallet_challenge env origin a) (Return ()) \<in> acct_starts"
| recover: "seq_prog (recover_wallet_verify env rows nonce s) (Return ()) \<in> acct_starts"
| password: "change_password env a cookie current \<in> acct_starts"
| rotate: "seq_prog (rotate_recovery_code env a current) (Return ()) \<in> acct_starts"
| mint: "seq_prog (mint_key env body acc st) (Return ()) \<in> acct_starts"
| drop: "seq_prog (drop_key env i acc st) (Return ()) \<in> acct_starts"
| claim: "seq_prog (claim_vm env a vid p) (Return ()) \<in> acct_starts"
| delete: "seq_prog (delete_me env cfg lenv acc policy) (Return ()) \<in> acct_starts"
| owner: "seq_prog (resolve_x402_owner envs raw chain o1 link) (Return ()) \<in> acct_starts"
| session: "seq_prog (issue_session env a) (Return ()) \<in> acct_starts"
| challenge: "seq_prog (wallet_challenge_route env wcfg action raw chain res o1 is_key) (Return ()) \<in> acct_starts"
| wallet: "seq_prog (wallet_verify env nonce s s2 o1 is_key) (Return ()) \<in> acct_starts"
| consume: "consume_transfer_challenge env nonce s a res \<in> acct_starts"
| step_up: "seq_prog (step_up env ttl a th password) (Return ()) \<in> acct_starts"
| disable: "seq_prog (disable_account env known actor a) (Return ()) \<in> acct_starts"
| enable: "seq_prog (enable_account env actor a) (Return ()) \<in> acct_starts"
| role: "set_account_role known actor a is_admin \<in> acct_starts"
| sessions: "seq_prog (revoke_account_sessions actor a) (Return ()) \<in> acct_starts"
| keys: "seq_prog (revoke_account_keys env actor a) (Return ()) \<in> acct_starts"
| worker: "seq_prog (process_admin_operations wenv n) (Return ()) \<in> acct_starts"
| retry: "retry_admin_operation actor i \<in> acct_starts"
| transfer_vm: "transfer_vm lenv actor vid target \<in> acct_starts"
| transfer_domain: "transfer_domain lenv actor raw target \<in> acct_starts"
| refund: "seq_prog (resolve_refund env actor event resolved) (Return ()) \<in> acct_starts"
| other: "(\<And>w. elsewhere w (f w)) \<Longrightarrow> acct_do (\<lambda>w. (Inr (), f w)) \<in> acct_starts"

lemma elsewhere_grown:
  assumes "acct_inv w" "elsewhere w w'"
  shows "acct_grown w w'"
proof -
  have "grown (aw_life w) (aw_life w')" using assms by (simp add: acct_inv_def elsewhere_def)
  moreover have "fenced (accts w) (aw_sessions w') (aw_keys w') (aw_log w)"
    using assms unfolding acct_inv_def fenced_def elsewhere_def by metis
  ultimately show ?thesis using assms by (auto simp: acct_grown_def acct_inv_def elsewhere_def grown_def acct_seen_def)
qed

lemmas admits_rules = admits_register admits_login admits_logout admits_recover_with_code admits_recover_wallet_challenge
  admits_recover_wallet_verify admits_change_password admits_rotate_recovery_code admits_mint_key admits_drop_key
  admits_claim_vm admits_delete_me admits_resolve_owner admits_issue_session admits_wallet_challenge admits_wallet_verify
  admits_consume_transfer admits_step_up admits_disable admits_enable admits_role admits_revoke_sessions admits_revoke_keys
  admits_process admits_retry admits_transfer_vm admits_transfer_domain admits_resolve

lemma acct_started: "p \<in> acct_starts \<Longrightarrow> admits p"
proof (induction rule: acct_starts.induct)
  case (other f)
  show ?case by (rule admits_do) (simp add: elsewhere_grown other)
qed (intro secure_seq secure_Return admits_rules)+

interpretation acct: secure_pool acct_inv acct_seen acct_starts
  by unfold_locales (rule acct_started)

end
