(* ===== verification/Account_Props.thy ===== *)
theory Account_Props
  imports Account_Safety Vm_Life_Props
begin

text \<open>
  Properties of accounts and of their administration: an administrator remains, a disabled account is cut off, its
  resources follow its state, the queue of operations drains, step-up attempts are rationed, proofs are single use, an
  account is deleted cleanly; with concrete runs.
\<close>

subsection \<open>Reachable worlds\<close>

definition acct_fresh :: "acct_world \<Rightarrow> bool" where
  "acct_fresh w \<longleftrightarrow> aw_log w = [] \<and> life_fresh (aw_life w) \<and> has_admin (accts w) \<and>
     (\<forall>a acc. accts w a = Some acc \<longrightarrow> ac_disabled_at acc = None) \<and> unique_by op_id (aw_ops w) \<and>
     unique_by rn_event (aw_resolutions w) \<and> (\<forall>th. aw_step_up w th = (0, None)) \<and>
     unique_by wl_account (aw_wallets w) \<and> unique_by wl_address (aw_wallets w)"

lemma acct_fresh_inv: "acct_fresh w \<Longrightarrow> acct_inv w"
  by (auto simp: acct_fresh_def acct_inv_def fenced_def barred_def settled_def state_kind_def spent_ok_def life_fresh_inv)

lemma acct_run:
  "(pool_step acct_starts)\<^sup>*\<^sup>* (w, []) (w', ps) \<Longrightarrow> acct_fresh w \<Longrightarrow> acct_inv w'"
  using acct.reachable acct_fresh_inv by blast

text \<open>C5: however requests, workers and other writers interleave, stall or lose commits, an enabled administrator
  remains.\<close>

theorem admin_never_lost:
  assumes "(pool_step acct_starts)\<^sup>*\<^sup>* (w, []) (w', ps)" "acct_fresh w"
  shows "\<exists>a. enabled_admin w' a"
proof -
  from acct_run [OF assms] obtain a acc where "accts w' a = Some acc" "ac_is_admin acc" "ac_disabled_at acc = None"
    by (auto simp: acct_inv_def has_admin_def)
  then show ?thesis by (intro exI [of _ a]) (simp add: enabled_admin_def accts_at)
qed

lemma granted_enabled:
  assumes "current_account sha wired rq now ok db = (Inr (Some acc), st, db')"
  shows "ac_disabled_at acc = None"
  using current_account_granted [OF assms] by (auto simp: by_api_key_def by_session_def)


text \<open>C3: in every reachable world, an account with no operation queued, running or failed has had its VMs and
  mailboxes treated completely in the way its present state asks, suspension or resumption, and nothing has been done
  to them since in the other way. A retried, repeated, superseded or abandoned operation never undoes a newer one.\<close>

theorem resources_follow_account:
  assumes "(pool_step acct_starts)\<^sup>*\<^sup>* (w, []) (w', ps)" "acct_fresh w" "acct_at w' a = Some acc"
    "\<forall>x \<in> set (aw_ops w'). op_account x = a \<longrightarrow> op_status x = Q_COMPLETED"
  shows "obeys (if ac_disabled_at acc = None then Resume_Resources else Suspend_Resources) a (aw_log w')"
proof -
  from acct_run [OF assms(1,2)] assms(3) have "unfinished (aw_ops w') a (state_kind acc) \<or> obeys (state_kind acc) a (aw_log w')"
    by (simp add: acct_inv_def settled_def accts_at)
  with assms(4) show ?thesis by (auto simp: unfinished_def state_kind_def)
qed


lemma spent_protocol_once:
  "acct_protocol l \<Longrightarrow> e \<in> {Challenge_Spent n, Recovery_Spent n} \<Longrightarrow> count_list l e \<le> 1"
proof (induction l)
  case (Cons x l)
  show ?case
  proof (cases "x = e")
    case True
    with Cons.prems have "e \<notin> set l" by auto
    with True show ?thesis by (simp add: count_notin)
  next
    case False
    with Cons show ?thesis by simp
  qed
qed simp


theorem refund_resolved_once:
  assumes "(pool_step acct_starts)\<^sup>*\<^sup>* (w, []) (w', ps)" "acct_fresh w"
  shows "unique_by rn_event (aw_resolutions w')"
  using acct_run [OF assms] by (simp add: acct_inv_def)

subsection \<open>The rate of step-up attempts\<close>

text \<open>The wrong passwords checked for a session since it was opened or last elevated, newest first.\<close>

fun wrong_streak :: "acct_event list \<Rightarrow> string \<Rightarrow> int list" where
  "wrong_streak [] th = []"
| "wrong_streak (Session_Opened t # l) th = (if t = th then [] else wrong_streak l th)"
| "wrong_streak (Password_Checked t now ok # l) th =
     (if t = th then (if ok then [] else now # wrong_streak l th) else wrong_streak l th)"
| "wrong_streak (_ # l) th = wrong_streak l th"

text \<open>The streak is made of windows: how many attempts the newest one has, and its start.\<close>

inductive blocks :: "int list \<Rightarrow> nat \<Rightarrow> int \<Rightarrow> bool" where
  first: "blocks [t] 1 t"
| more: "blocks ws n s \<Longrightarrow> n < STEP_UP_LIMIT \<Longrightarrow> x - s < STEP_UP_WINDOW \<Longrightarrow> blocks (x # ws) (Suc n) s"
| later: "blocks ws n s \<Longrightarrow> STEP_UP_WINDOW \<le> x - s \<Longrightarrow> blocks (x # ws) 1 x"

lemma streak_blocks:
  "acct_protocol l \<Longrightarrow>
     (if wrong_streak l th = [] then step_up_replay l th = (0, None)
      else \<exists>n s. step_up_replay l th = (n, Some s) \<and> blocks (wrong_streak l th) n s)"
proof (induction l th rule: wrong_streak.induct)
  case (3 t now ok l th)
  then have IH: "if wrong_streak l th = [] then step_up_replay l th = (0, None)
      else \<exists>n s. step_up_replay l th = (n, Some s) \<and> blocks (wrong_streak l th) n s" if "t \<noteq> th \<or> \<not> ok"
    using that by (cases "t = th") auto
  show ?case
  proof (cases "t = th \<and> \<not> ok")
    case False
    with IH show ?thesis by auto
  next
    case True
    show ?thesis
    proof (cases "wrong_streak l th = []")
      case True
      with IH \<open>t = th \<and> \<not> ok\<close> blocks.first [of now] show ?thesis by (auto simp: attempt_window_def)
    next
      case False
      with IH True obtain n s where r: "step_up_replay l th = (n, Some s)" and b: "blocks (wrong_streak l th) n s" by auto
      show ?thesis
      proof (cases "STEP_UP_WINDOW \<le> now - s")
        case True
        with r blocks.later [OF b True] \<open>t = th \<and> \<not> ok\<close> show ?thesis by (auto simp: attempt_window_def)
      next
        case False
        with 3(3) r \<open>t = th \<and> \<not> ok\<close> have "n < STEP_UP_LIMIT" by (simp add: attempt_window_def)
        from blocks.more [OF b this] False r \<open>t = th \<and> \<not> ok\<close> show ?thesis by (auto simp: attempt_window_def)
      qed
    qed
  qed
qed auto

definition within_window :: "int \<Rightarrow> int list \<Rightarrow> nat" where
  "within_window t ws = length (filter (\<lambda>x. t \<le> x \<and> x < t + STEP_UP_WINDOW) ws)"

lemma within_Cons: "within_window t (x # ws) = (if t \<le> x \<and> x < t + STEP_UP_WINDOW then 1 else 0) + within_window t ws"
  by (simp add: within_window_def)

lemma within_none: "\<forall>x \<in> set ws. x < t \<Longrightarrow> within_window t ws = 0"
  by (induction ws) (auto simp: within_window_def)

lemma blocks_rate:
  assumes "blocks ws n s" "sorted_wrt (\<ge>) ws"
  shows "s \<in> set ws \<and> 1 \<le> n \<and> n \<le> STEP_UP_LIMIT \<and> within_window t ws \<le> 9 \<and>
    (s < t \<longrightarrow> within_window t ws \<le> n - 1) \<and> (t \<le> s \<longrightarrow> s < t + STEP_UP_WINDOW \<longrightarrow> within_window t ws \<le> n + 4)"
  using assms
proof (induction rule: blocks.induct)
  case (first t0)
  then show ?case by (simp add: within_window_def STEP_UP_LIMIT_def)
next
  case (more ws n s x)
  then have IH: "s \<in> set ws" "1 \<le> n" "n \<le> STEP_UP_LIMIT" "within_window t ws \<le> 9"
    "s < t \<longrightarrow> within_window t ws \<le> n - 1" "t \<le> s \<longrightarrow> s < t + STEP_UP_WINDOW \<longrightarrow> within_window t ws \<le> n + 4"
    and sx: "s \<le> x" by auto
  consider "s < t" | "t \<le> s" "s < t + STEP_UP_WINDOW" | "t + STEP_UP_WINDOW \<le> s" by linarith
  then show ?case
    using IH sx more(2) by cases (auto simp: within_Cons STEP_UP_LIMIT_def)
next
  case (later ws n s x)
  then have IH: "s \<in> set ws" "1 \<le> n" "n \<le> STEP_UP_LIMIT" "within_window t ws \<le> 9" "s < t \<longrightarrow> within_window t ws \<le> n - 1"
    and old: "\<forall>y \<in> set ws. y \<le> x" by auto
  consider "x < t" | "t \<le> x" "x < t + STEP_UP_WINDOW" | "t + STEP_UP_WINDOW \<le> x" by linarith
  then show ?case
  proof cases
    case 1
    with old have "within_window t ws = 0" by (intro within_none) auto
    with 1 show ?thesis by (simp add: within_Cons STEP_UP_LIMIT_def)
  next
    case 2
    with later(2) have "s < t" by linarith
    with IH 2 show ?thesis by (auto simp: within_Cons STEP_UP_LIMIT_def)
  next
    case 3
    with IH show ?thesis by (auto simp: within_Cons STEP_UP_LIMIT_def STEP_UP_WINDOW_def minutes_def)
  qed
qed


subsection \<open>What carrying out an operation achieves\<close>

lemma run_with_ends: "run_with ms p w = (Some r, w') \<Longrightarrow> ends p w r w'"
proof (induction ms p w rule: run_with.induct)
  case (4 m ms f w)
  obtain w1 p where f: "f m w = (w1, p)" by fastforce
  with 4 have "ends p w1 r w'" by simp
  with f show ?case by (intro ends.act [of f m]) simp
qed auto

definition treated_vm :: "operation_kind \<Rightarrow> life_vm \<Rightarrow> bool" where
  "treated_vm k r \<longleftrightarrow>
     (case k of
        Suspend_Resources \<Rightarrow> lv_status r = DESTROYED \<or> (lv_status r = FAILED \<and> \<not> truthy (lv_uuid r)) \<or>
          lv_reason r = Some ''account_disabled'' \<or> (lv_status r = SUSPENDED \<and> lv_reason r \<in> {Some ''manual_admin'', Some ''expired''})
      | Resume_Resources \<Rightarrow> lv_reason r \<noteq> Some ''account_disabled'')"

definition treated_mail :: "operation_kind \<Rightarrow> mailbox \<Rightarrow> bool" where
  "treated_mail k m \<longleftrightarrow>
     (case k of Suspend_Resources \<Rightarrow> mb_status m = ''suspended'' | Resume_Resources \<Rightarrow> mb_reason m \<noteq> Some ''account_disabled'')"

text \<open>The VM \<open>v\<close> of the account was treated, and nothing was done to another row or to an owner.\<close>

definition treats :: "operation_kind \<Rightarrow> string \<Rightarrow> string \<Rightarrow> life_world \<Rightarrow> life_world \<Rightarrow> bool" where
  "treats k a v l l' \<longleftrightarrow>
     (case life_at l' v of None \<Rightarrow> True | Some r \<Rightarrow> lv_owner r = Some a \<longrightarrow> treated_vm k r) \<and>
     (\<forall>u. u \<noteq> v \<longrightarrow> life_at l' u = life_at l u) \<and>
     map_option lv_owner (life_at l' v) = map_option lv_owner (life_at l v) \<and> map lv_id (lw_vms l') = map lv_id (lw_vms l)"

lemma put_ids: "map lv_id (put_row lv_id r t) = map lv_id t"
  by (induction t) (auto simp: put_row_def alter_row_def)

lemma treats_put:
  assumes "life_at l v = Some r" "lv_id r' = v" "lv_owner r' = lv_owner r" "lv_owner r' = Some a \<longrightarrow> treated_vm k r'"
    "lw_vms l' = put_row lv_id r' (lw_vms l)"
  shows "treats k a v l l'"
  using assms by (auto simp: treats_def life_at_def row_at_put put_ids)

lemma treats_same:
  assumes "life_at l v = Some r" "lv_owner r = Some a \<longrightarrow> treated_vm k r" "lw_vms l' = lw_vms l"
  shows "treats k a v l l'"
  using assms by (auto simp: treats_def life_at_def)

lemma ends_row_held:
  assumes "ends (row_held v body) l (Inr b) l'"
  shows "\<exists>called. body (life_at l v) l = (Inr b, called, l')"
proof -
  obtain x called stored where b: "body (life_at l v) l = (x, called, stored)" by (metis prod_cases3)
  from ends_bind [OF assms [unfolded row_held_def]] obtain y l1
    where y: "ends (held_try (\<lambda>l. body (life_at l v) l)) l (Inr y) l1"
    and k: "ends (case y of (b, acked) \<Rightarrow> if acked then Return b else Raise L_Db) l1 (Inr b) l'"
    by auto
  from ends_held [OF y b] k b show ?thesis by (auto split: prod.splits if_splits)
qed

lemma suspend_treats:
  assumes "ends (row_held v (suspend_account_held env a actor)) l (Inr b) l'"
  shows "treats Suspend_Resources a v l l'"
proof -
  from ends_row_held [OF assms] obtain called where h: "suspend_account_held env a actor (life_at l v) l = (Inr b, called, l')" by blast
  show ?thesis
  proof (cases "life_at l v")
    case None
    with h have "l' = l" by (auto simp: suspend_account_held_def leave_def)
    with None show ?thesis by (simp add: treats_def)
  next
    case (Some r)
    then have id: "lv_id r = v" by (auto simp: life_at_def dest: row_at_Some)
    obtain ok c where pw: "(if truthy (lv_uuid r) then power_towards env P_Suspend ''Running'' r l else (True, l)) = (ok, c)" by fastforce
    then have c: "lw_vms c = lw_vms l" by (auto simp: power_towards_def Let_def split: if_splits option.splits)
    show ?thesis
    proof (cases "lv_owner r \<noteq> Some a \<or> lv_status r = DESTROYED \<or> (lv_status r = FAILED \<and> \<not> truthy (lv_uuid r))")
      case True
      with h Some have "l' = l" by (auto simp: suspend_account_held_def leave_def)
      with Some True show ?thesis by (intro treats_same [OF Some]) (auto simp: treated_vm_def)
    next
      case False
      with h Some pw have ok: ok by (cases ok) (auto simp: suspend_account_held_def leave_def)
      show ?thesis
      proof (cases "lv_status r = SUSPENDED \<and> lv_reason r \<in> {Some ''manual_admin'', Some ''expired''}")
        case True
        with h Some pw ok False have "l' = c" by (auto simp: suspend_account_held_def leave_def)
        with Some True c show ?thesis by (intro treats_same [OF Some]) (auto simp: treated_vm_def)
      next
        case kept: False
        from h Some pw ok False kept c id have "\<exists>r'. lw_vms l' = put_row lv_id r' (lw_vms l) \<and> lv_id r' = v \<and>
            lv_owner r' = lv_owner r \<and> lv_reason r' = Some ''account_disabled''"
          by (cases "lv_status r = FAILED"; cases "lv_status r = PROVISIONING")
            (auto simp: suspend_account_held_def put_life_def intro!: exI)
        then show ?thesis
          using treats_put [OF Some, where a = a and k = Suspend_Resources and l' = l'] by (auto simp: treated_vm_def)
      qed
    qed
  qed
qed

lemma resume_treats:
  assumes "ends (row_held v (resume_account_held env a)) l (Inr b) l'"
  shows "treats Resume_Resources a v l l'"
proof -
  from ends_row_held [OF assms] obtain called where h: "resume_account_held env a (life_at l v) l = (Inr b, called, l')" by blast
  show ?thesis
  proof (cases "life_at l v")
    case None
    with h have "l' = l" by (auto simp: resume_account_held_def leave_def)
    with None show ?thesis by (simp add: treats_def)
  next
    case (Some r)
    then have id: "lv_id r = v" by (auto simp: life_at_def dest: row_at_Some)
    obtain ok c where pw: "power_towards env P_Enable ''Halted'' r l = (ok, c)" by fastforce
    then have c: "lw_vms c = lw_vms l" by (auto simp: power_towards_def Let_def split: if_splits option.splits)
    have "l' = l \<and> (lv_owner r \<noteq> Some a \<or> lv_reason r \<noteq> Some ''account_disabled'') \<or>
        (\<exists>r'. lw_vms l' = put_row lv_id r' (lw_vms l) \<and> lv_id r' = v \<and> lv_owner r' = lv_owner r \<and>
           lv_reason r' \<noteq> Some ''account_disabled'')"
      using h Some pw c id
      by (cases ok) (auto simp: resume_account_held_def leave_def unsuspended_def split: if_splits option.splits)
    then show ?thesis
      using treats_same [OF Some, where a = a and k = Resume_Resources and l' = l']
        treats_put [OF Some, where a = a and k = Resume_Resources and l' = l'] by (auto simp: treated_vm_def)
  qed
qed

lemma resume_vm_treats:
  assumes "ends (resume_account_vm env a v) l (Inr b) l'"
  shows "treats Resume_Resources a v l l'"
proof -
  from ends_bind [OF assms [unfolded resume_account_vm_def]] obtain y l1
    where y: "ends (row_held v (resume_account_held env a)) l (Inr y) l1"
    and k: "ends (case y of (counted, restart) \<Rightarrow>
        seq_prog (if restart then restart_provisioning v else Return ()) (Return counted)) l1 (Inr b) l'" by auto
  from k have "lw_vms l' = lw_vms l1"
    by (auto simp: seq_prog_def restart_provisioning_def life_call_def split: prod.splits if_splits
        elim!: ends_ActE)
  with resume_treats [OF y] show ?thesis by (simp add: treats_def life_at_def)
qed

definition dealt_with :: "operation_kind \<Rightarrow> string \<Rightarrow> life_world \<Rightarrow> string \<Rightarrow> bool" where
  "dealt_with k a l v \<longleftrightarrow> (case life_at l v of None \<Rightarrow> True | Some r \<Rightarrow> lv_owner r = Some a \<longrightarrow> treated_vm k r)"

definition same_owners :: "life_world \<Rightarrow> life_world \<Rightarrow> bool" where
  "same_owners l l' \<longleftrightarrow> map lv_id (lw_vms l') = map lv_id (lw_vms l) \<and>
     (\<forall>v. map_option lv_owner (life_at l' v) = map_option lv_owner (life_at l v))"

lemma treatsD:
  assumes "treats k a v l l'"
  shows "dealt_with k a l' v" "dealt_with k a l u \<Longrightarrow> dealt_with k a l' u" "same_owners l l'"
proof -
  show at: "dealt_with k a l' v" using assms by (simp add: treats_def dealt_with_def)
  show "dealt_with k a l' u" if "dealt_with k a l u"
    using that at assms by (cases "u = v") (simp_all add: treats_def dealt_with_def)
  have "map_option lv_owner (life_at l' t) = map_option lv_owner (life_at l t)" for t
    using assms by (cases "t = v") (simp_all add: treats_def)
  with assms show "same_owners l l'" by (simp add: treats_def same_owners_def)
qed

text \<open>The loop over the VMs: each of the list is dealt with at the end, and stays so.\<close>

lemma each_dealt:
  assumes "\<And>v l b l'. ends (f v) l (Inr b) l' \<Longrightarrow> treats k a v l l'"
  shows "ends (each_prog f vs) l (Inr bs) l' \<Longrightarrow>
     (\<forall>v \<in> set vs. dealt_with k a l' v) \<and> (\<forall>u. dealt_with k a l u \<longrightarrow> dealt_with k a l' u) \<and> same_owners l l'"
proof (induction vs arbitrary: l bs)
  case Nil
  then show ?case by (auto simp: same_owners_def)
next
  case (Cons v vs)
  from ends_bind [OF Cons.prems [unfolded each_prog.simps]] obtain b l1
    where b: "ends (f v) l (Inr b) l1" and r: "ends (bind_prog (each_prog f vs) (\<lambda>bs. Return (b # bs))) l1 (Inr bs) l'"
    by auto
  from ends_bind [OF r] obtain cs where "ends (each_prog f vs) l1 (Inr cs) l'" by auto
  from Cons.IH [OF this] treatsD [OF assms [OF b]] show ?case by (auto simp: same_owners_def)
qed

lemma same_owners_rows:
  assumes "same_owners l l'" "unique_by lv_id (lw_vms l)" "r \<in> set (lw_vms l')"
  shows "life_at l' (lv_id r) = Some r" "lv_owner r = Some a \<Longrightarrow> lv_id r \<in> set (account_vms a l)"
proof -
  from assms(1,2) have "unique_by lv_id (lw_vms l')" by (simp add: same_owners_def unique_by_def)
  with assms(3) show at: "life_at l' (lv_id r) = Some r" by (simp add: life_at_def row_at_member)
  assume "lv_owner r = Some a"
  with assms(1) at have "map_option lv_owner (life_at l (lv_id r)) = Some (Some a)" by (metis same_owners_def option.simps(9))
  then obtain q where "life_at l (lv_id r) = Some q" "lv_owner q = Some a" by auto
  then show "lv_id r \<in> set (account_vms a l)"
    using row_at_Some [of lv_id "lv_id r" "lw_vms l" q] by (auto simp: life_at_def account_vms_def intro!: image_eqI [of _ _ q])
qed

lemma apply_to_account_treats:
  assumes "ends (apply_to_account (k = Resume_Resources) env a actor) l (Inr n) l'"
    "account_active l a = (k = Resume_Resources)" "unique_by lv_id (lw_vms l)" "r \<in> set (lw_vms l')" "lv_owner r = Some a"
  shows "treated_vm k r"
proof -
  let ?f = "\<lambda>v. if k = Resume_Resources then resume_account_vm (env v) a v
    else row_held v (suspend_account_held (env v) a actor)"
  from assms(1,2) obtain bs where "ends (each_prog ?f (account_vms a l)) l (Inr bs) l'"
    unfolding apply_to_account_def life_read_def by (auto dest!: ends_bind ends_transact)
  moreover have "treats k a v l l'" if "ends (?f v) l (Inr b) l'" for v l b l'
    using that resume_vm_treats [of "env v" a v l b l'] suspend_treats [of v "env v" a actor l b l']
    by (cases k) auto
  ultimately have d: "\<forall>v \<in> set (account_vms a l). dealt_with k a l' v" and o: "same_owners l l'"
    using each_dealt [of ?f k a "account_vms a l" l bs l'] by blast+
  from same_owners_rows [OF o assms(3,4)] assms(5) d show ?thesis by (force simp: dealt_with_def)
qed

lemma mail_treated:
  "m \<in> set (aw_mail (snd (treat_mail now x w))) \<Longrightarrow> mb_owner m = Some (op_account x) \<Longrightarrow> treated_mail (op_kind x) m"
  by (cases "op_kind x") (auto simp: treat_mail_def treated_mail_def suspend_mailbox_def resume_mailbox_def split: if_splits)


subsection \<open>The queue drains\<close>

definition waiting :: "int \<Rightarrow> acct_world \<Rightarrow> nat" where
  "waiting now w = length (filter (eligible now) (aw_ops w))"

lemma waiting_put_le: "\<not> eligible now y \<Longrightarrow> length (filter (eligible now) (put_row op_id y ops)) \<le> length (filter (eligible now) ops)"
  by (induction ops) (auto simp: put_row_def alter_row_def)

lemma waiting_put_less:
  "\<not> eligible now y \<Longrightarrow> x \<in> set ops \<Longrightarrow> eligible now x \<Longrightarrow> op_id x = op_id y \<Longrightarrow>
     length (filter (eligible now) (put_row op_id y ops)) < length (filter (eligible now) ops)"
proof (induction ops)
  case (Cons z ops)
  with waiting_put_le [of now y ops] show ?case by (fastforce simp: put_row_def alter_row_def)
qed simp

lemma waiting_finish: "waiting now (put_op (finish_operation t r x) w) \<le> waiting now w"
proof -
  have "\<not> eligible now (finish_operation t r x)" by (simp add: eligible_def finish_operation_def split: sum.split)
  then show ?thesis by (simp add: waiting_def put_op_def waiting_put_le)
qed

lemma waiting_mark: "waiting now (snd (run_alone (mark_failed env i) w)) \<le> waiting now w"
  using waiting_finish by (simp add: mark_failed_def acct_do_def run_simps split: option.split)

lemma treat_resources_ops: "treat_resources env x w = (r, w1) \<Longrightarrow> aw_ops w1 = aw_ops w"
  by (auto simp: treat_resources_def treat_mail_def Let_def split: prod.splits option.splits sum.splits if_splits)

lemma waiting_apply:
  assumes "run_alone (apply_account_operation env i) w = (r, w')"
  shows "waiting now w' \<le> waiting now w"
proof -
  obtain q called stored where q: "apply_leased env i w = (q, called, stored)" by (metis prod_cases3)
  with assms have "w' = stored" by (auto simp: apply_account_operation_def split: sum.splits)
  moreover have "waiting now stored \<le> waiting now w"
  proof (cases "row_at op_id i (aw_ops w)")
    case None
    with q show ?thesis by (auto simp: apply_leased_def)
  next
    case (Some x)
    obtain t w1 where t: "treat_resources env x w = (t, w1)" by fastforce
    have "waiting now (acct_log e w1) = waiting now w" for e
      using treat_resources_ops [OF t] by (simp add: waiting_def acct_log_def)
    with q t Some waiting_finish [of now] show ?thesis
      by (auto simp: apply_leased_def Let_def split: if_splits option.splits) (metis waiting_finish)+
  qed
  ultimately show ?thesis by simp
qed

lemma sorted_head: "sort_key f xs = y # ys \<Longrightarrow> y \<in> set xs"
  by (metis list.set_intros(1) set_sort)

lemma sorted_some:
  assumes "xs \<noteq> []"
  obtains y ys where "sort_key f xs = y # ys" "y \<in> set xs"
proof -
  from assms have "length (sort_key f xs) \<noteq> 0" by simp
  then obtain y ys where s: "sort_key f xs = y # ys" by (cases "sort_key f xs") simp_all
  show ?thesis by (rule that [OF s sorted_head [OF s]])
qed

lemma next_account_claimable:
  assumes "next_account now skip w = Some a"
  shows "claimable_account now skip w a"
proof -
  from assms obtain ys where "sort_key (\<lambda>a. (earliest_pending now w a, a))
      (filter (claimable_account now skip w) (remdups (map op_account (aw_ops w)))) = a # ys"
    unfolding next_account_def by (auto split: list.splits)
  from sorted_head [OF this] show ?thesis by simp
qed

lemma next_account_None: "next_account now skip w = None \<Longrightarrow> \<not> claimable_account now skip w a"
proof
  assume n: "next_account now skip w = None" and c: "claimable_account now skip w a"
  from c have "a \<in> set (map op_account (aw_ops w))" by (auto simp: claimable_account_def pending_ops_def filter_empty_conv)
  with c have "filter (claimable_account now skip w) (remdups (map op_account (aw_ops w))) \<noteq> []"
    by (auto simp: filter_empty_conv)
  from sorted_some [OF this, of "\<lambda>a. (earliest_pending now w a, a)"] obtain y ys
    where "sort_key (\<lambda>a. (earliest_pending now w a, a))
      (filter (claimable_account now skip w) (remdups (map op_account (aw_ops w)))) = y # ys" .
  with n show False by (simp add: next_account_def)
qed

lemma next_operation_waits:
  assumes "claimable_account now skip w a"
  obtains x where "next_operation now a w = Some x" "x \<in> set (aw_ops w)" "eligible now x" "op_account x = a"
proof -
  from assms have ne: "pending_ops now a w \<noteq> []" by (simp add: claimable_account_def)
  from sorted_some [OF ne, of "\<lambda>x. (if op_status x = Q_RUNNING then 0 else 1 :: nat, op_created x)"] obtain x xs
    where s: "sort_key (\<lambda>x. (if op_status x = Q_RUNNING then 0 else 1 :: nat, op_created x)) (pending_ops now a w) = x # xs"
    and x: "x \<in> set (pending_ops now a w)" .
  from x have "x \<in> set (aw_ops w)" "eligible now x" "op_account x = a" by (auto simp: pending_ops_def)
  with s that show ?thesis by (simp add: next_operation_def)
qed

lemma claim_waiting:
  "claim_operation now skip w = (Some i, w1) \<Longrightarrow> waiting now w1 < waiting now w"
  "claim_operation now skip w = (None, w1) \<Longrightarrow> w1 = w \<and> \<not> claimable_account now skip w a"
proof -
  assume c: "claim_operation now skip w = (Some i, w1)"
  then obtain a where a: "next_account now skip w = Some a" by (auto simp: claim_operation_def split: option.splits)
  from next_operation_waits [OF next_account_claimable [OF a]] obtain x
    where x: "next_operation now a w = Some x" "x \<in> set (aw_ops w)" "eligible now x" .
  let ?y = "x\<lparr>op_status := Q_RUNNING, op_started := Some now, op_completed := None, op_error := False\<rparr>"
  from c a x have "w1 = put_op ?y w" by (auto simp: claim_operation_def)
  moreover have "\<not> eligible now ?y" by (simp add: eligible_def STALE_AFTER_def minutes_def)
  ultimately show "waiting now w1 < waiting now w"
    using waiting_put_less [of now ?y x "aw_ops w"] x by (simp add: waiting_def put_op_def)
next
  assume c: "claim_operation now skip w = (None, w1)"
  have "next_account now skip w = None"
  proof (cases "next_account now skip w")
    case (Some b)
    from next_operation_waits [OF next_account_claimable [OF Some]] obtain x where "next_operation now b w = Some x" .
    with c Some show ?thesis by (simp add: claim_operation_def)
  qed
  with c next_account_None show "w1 = w \<and> \<not> claimable_account now skip w a" by (auto simp: claim_operation_def)
qed


subsection \<open>The deletion of an account\<close>

lemma steady_ends: "steady g p \<Longrightarrow> ends p w r w' \<Longrightarrow> g w' = g w"
proof (induction p arbitrary: w)
  case (Act f)
  then obtain m where e: "ends (snd (f m w)) (fst (f m w)) r w'" by (auto elim: ends_ActE)
  from Act.prems(1) have "steady g (snd (f m w))" "g (fst (f m w)) = g w" by (simp_all add: steady_Act)
  with Act.IH [OF _ e] show ?case by simp
qed auto

lemma steady_lift: "steady lw_accounts p \<Longrightarrow> steady accts (lift_life err p)"
proof (induction p)
  case (Act f)
  then show ?case by (simp add: steady_Act case_prod_beta lift_life.simps accts_def del: lift_life.simps(3)) (simp add: steady_Act case_prod_beta accts_def)
qed simp_all

lemma steady_destroy_all: "steady accts (destroy_all cfg lenv xs)"
  by (induction xs) (auto intro!: steady_seq steady_lift steady_destroy)

text \<open>What \<open>a\<close> leaves behind: nothing.\<close>

definition account_gone :: "string \<Rightarrow> acct_world \<Rightarrow> bool" where
  "account_gone a w \<longleftrightarrow>
     acct_at w a = None \<and> aw_cred w a = None \<and> (\<forall>s \<in> set (aw_sessions w). ss_account s \<noteq> a) \<and>
     (\<forall>k \<in> set (aw_keys w). k_account k \<noteq> a) \<and> (\<forall>x \<in> set (aw_wallets w). wl_account x \<noteq> a) \<and>
     (\<forall>x \<in> set (aw_ops w). op_account x \<noteq> a) \<and> (\<forall>r \<in> set (lw_vms (aw_life w)). lv_owner r \<noteq> Some a) \<and>
     (\<forall>d \<in> set (aw_domains w). dm_owner d \<noteq> Some a) \<and> (\<forall>m \<in> set (aw_mail w). mb_owner m \<noteq> Some a)"

lemma remove_account_gone: "account_gone a (remove_account a w)"
  by (auto simp: account_gone_def remove_account_def map_vms_def put_acct_def acct_at_def disown_def split: if_splits)

lemma ends_acct_do:
  "ends (acct_do f) w r w' \<Longrightarrow> (r = Inl acct_db_error \<and> (w' = w \<or> w' = snd (f w))) \<or> (r = fst (f w) \<and> w' = snd (f w))"
  unfolding acct_do_def by (rule ends_transact)

lemma detach_result:
  assumes "detach_account env a w = (q, w1)"
  shows "(\<exists>e. q = Inl e \<and> w1 = w) \<or>
    (\<exists>handed. q = Inr handed \<and> account_gone a w1 \<and> (\<forall>r \<in> set (live_vms_of a w).
      (lv_id r, ae_vm_token env (lv_id r)) \<in> set handed \<and> (\<exists>r' \<in> set (lw_vms (aw_life w1)). lv_id r' = lv_id r \<and>
        lv_owner r' = None \<and> lv_token r' = Some (hash_anon_token (ae_sha env) (ae_vm_token env (lv_id r))))))"
proof (cases q)
  case (Inl e)
  with assms show ?thesis by (auto simp: detach_account_def split: sum.splits if_splits)
next
  case (Inr handed)
  with assms have snap: "account_deletion_snapshot a w = Inr (live_vms_of a w)"
    and h: "handed = map (\<lambda>r. (lv_id r, ae_vm_token env (lv_id r))) (live_vms_of a w)"
    and w1: "w1 = remove_account a (map_vms (detach_row env a) w)"
    by (auto simp: detach_account_def account_deletion_snapshot_def split: sum.splits if_splits option.splits)
  have "\<exists>r' \<in> set (lw_vms (aw_life w1)). lv_id r' = lv_id r \<and> lv_owner r' = None \<and>
      lv_token r' = Some (hash_anon_token (ae_sha env) (ae_vm_token env (lv_id r)))" if "r \<in> set (live_vms_of a w)" for r
    using that by (force simp: w1 remove_account_def map_vms_def put_acct_def live_vms_of_def detach_row_def disown_def)
  with h w1 Inr remove_account_gone show ?thesis by auto
qed

lemma destroying_result:
  assumes "ends (bind_prog (acct_do (\<lambda>w. (account_deletion_snapshot a w, w))) (\<lambda>vms.
      seq_prog (destroy_all cfg lenv (map (\<lambda>r. (lv_id r, identity_of r)) vms))
        (seq_prog (acct_do (finish_deletion a)) (Return [])))) w r w'"
  shows "r = Inr [] \<and> account_gone a w' \<or> r = Inl acct_db_error \<or> (\<exists>e. r = Inl e) \<and> accts w' = accts w"
  using ends_bind [OF assms]
proof (elim disjE exE conjE)
  fix x assume "ends (acct_do (\<lambda>w. (account_deletion_snapshot a w, w))) w (Inl x) w'" "r = Inl x"
  then show ?thesis by (auto dest: ends_acct_do)
next
  fix vms w1
  let ?d = "destroy_all cfg lenv (map (\<lambda>r. (lv_id r, identity_of r)) vms)"
  assume s: "ends (acct_do (\<lambda>w. (account_deletion_snapshot a w, w))) w (Inr vms) w1"
    and k: "ends (seq_prog ?d (seq_prog (acct_do (finish_deletion a)) (Return []))) w1 r w'"
  from s have w1: "w1 = w" by (auto dest: ends_acct_do)
  from ends_bind [OF k [unfolded seq_prog_def [of ?d]]] show ?thesis
  proof (elim disjE exE conjE)
    fix x assume "ends ?d w1 (Inl x) w'" "r = Inl x"
    with steady_ends [OF steady_destroy_all] w1 show ?thesis by blast
  next
    fix u w2 assume "ends ?d w1 (Inr u) w2" and f: "ends (seq_prog (acct_do (finish_deletion a)) (Return [])) w2 r w'"
    then have same: "accts w2 = accts w" using steady_ends [OF steady_destroy_all] w1 by blast
    obtain q w3 where q: "finish_deletion a w2 = (q, w3)" by fastforce
    then have "q = Inr () \<and> account_gone a w3 \<or> (\<exists>x. q = Inl x) \<and> w3 = w2"
      using remove_account_gone by (auto simp: finish_deletion_def split: sum.splits if_splits)
    with ends_bind [OF f [unfolded seq_prog_def]] same show ?thesis by (auto simp: q dest!: ends_acct_do)
  qed
qed


subsection \<open>Runs\<close>

definition demo_accounts :: acct_world where
  "demo_accounts =
     \<lparr>aw_life = demo_life\<lparr>lw_accounts :=
        [''a1'' \<mapsto> \<lparr>ac_id = ''a1'', ac_is_admin = False, ac_disabled_at = None\<rparr>,
         ''r1'' \<mapsto> \<lparr>ac_id = ''r1'', ac_is_admin = True, ac_disabled_at = None\<rparr>]\<rparr>,
      aw_cred = (\<lambda>_. Some \<lparr>cd_password = Some ''pw'', cd_recovery = None, cd_recovery_issued = None,
        cd_recovery_used = None, cd_changed = None, cd_last_login = None\<rparr>),
      aw_sessions = map (\<lambda>(h, a). \<lparr>ss_token_hash = h, ss_account = a, ss_expires_at = Aware 900 0, ss_last_seen_at = Aware 0 0,
        ss_user_agent = None, ss_ip_prefix_hash = None, ss_csrf_hash = None, ss_elevated_at = None\<rparr>) [(''s1'', ''r1''), (''s2'', ''a1'')],
      aw_step_up = (\<lambda>_. (0, None)), aw_keys = [], aw_wallets = [], aw_challenges = [], aw_recovery = [], aw_attempts = [],
      aw_domains = [],
      aw_mail = [\<lparr>mb_id = ''m1'', mb_owner = Some ''a1'', mb_token = None, mb_status = ''active'', mb_expires = None,
        mb_reason = None, mb_by = None\<rparr>],
      aw_orders = [], aw_refunded = {}, aw_pending = {}, aw_ops = [], aw_owed = [], aw_resolutions = [], aw_audit = [],
      aw_log = []\<rparr>"

definition demo_acct_env :: "int \<Rightarrow> acct_env" where
  "demo_acct_env now = \<lparr>ae_now = now, ae_ids = [''a2''], ae_uuid = ''o1'', ae_rnd1 = ''x'', ae_rnd2 = ''y'', ae_key_rnd = ''k'',
     ae_nonce = ''n'', ae_password_hash = ''pw'', ae_code = ''c'', ae_code_hash = ''c'', ae_vm_token = (\<lambda>v. ''t'' @ v),
     ae_argon = (=), ae_sha = id, ae_signer = (\<lambda>_ _. None), ae_ssh = (\<lambda>_ _ _. False), ae_show_time = (\<lambda>_. []),
     ae_agent = None, ae_ip = None\<rparr>"

definition demo_worker_env :: "nat \<Rightarrow> worker_env" where
  "demo_worker_env j = \<lparr>we_now = 40, we_skip = (\<lambda>_. False), we_life = (\<lambda>_. demo_life_env 40 True),
     we_outcomes = replicate 9 Answered, we_mail_ok = True\<rparr>"

text \<open>Two wrong passwords; the administrator disables the account; the worker suspends what it owns.\<close>

definition demo_disable :: "(acct_world, http_exn, unit) prog" where
  "demo_disable = seq_prog (disable_account (demo_acct_env 30) [''a1'', ''r1''] ''r1'' ''a1'') (Return ())"

definition demo_requests :: "(acct_world, http_exn, unit) prog list" where
  "demo_requests =
     [seq_prog (step_up (demo_acct_env 10) 600 ''r1'' (Some ''s1'') ''bad'') (Return ()),
      seq_prog (step_up (demo_acct_env 20) 600 ''r1'' (Some ''s1'') ''worse'') (Return ()),
      demo_disable, seq_prog (process_admin_operations demo_worker_env 2) (Return ())]"

definition served :: "acct_world \<Rightarrow> (acct_world, http_exn, unit) prog list \<Rightarrow> acct_world" where
  "served = foldl (\<lambda>w p. fst (drive 9 p w))"

lemma served_run:
  "set ps \<subseteq> acct_starts \<Longrightarrow> \<exists>rs. (pool_step acct_starts)\<^sup>*\<^sup>* (w, qs) (served w ps, rs)"
proof (induction ps arbitrary: w qs)
  case (Cons p ps)
  from Cons.prems have "p \<in> acct_starts" by simp
  from drive_started [OF this, of w qs 9] Cons.IH [of "fst (drive 9 p w)"] Cons.prems show ?case
    by (auto simp: served_def) (meson rtranclp_trans)
qed (auto simp: served_def)

lemma demo_accounts_fresh: "acct_fresh demo_accounts"
  by (simp add: acct_fresh_def demo_accounts_def life_fresh_def demo_life_def demo_vm_def unborn_def unique_by_def
      has_admin_def accts_def) (rule exI [of _ "''r1''"], simp)

lemma demo_requests_run:
  obtains rs where "(pool_step acct_starts)\<^sup>*\<^sup>* (demo_accounts, []) (served demo_accounts demo_requests, rs)"
proof -
  have "set demo_requests \<subseteq> acct_starts"
    by (simp add: demo_requests_def demo_disable_def acct_starts.step_up acct_starts.disable acct_starts.worker)
  from served_run [OF this] that show ?thesis by blast
qed

lemma demo_requests_log:
  "aw_log (served demo_accounts demo_requests) =
     [Obeyed Suspend_Resources ''a1'' True, Password_Checked ''s1'' 20 False, Password_Checked ''s1'' 10 False]"
  by code_simp

lemma demo_requests_ops: "list_all (\<lambda>x. op_status x = Q_COMPLETED) (aw_ops (served demo_accounts demo_requests))"
  by code_simp

lemma demo_requests_disabled:
  "map_option (\<lambda>acc. ac_disabled_at acc = None) (acct_at (served demo_accounts demo_requests) ''a1'') = Some False"
  by code_simp

lemma demo_a1_disabled: "disabled_account (served demo_accounts demo_requests) ''a1''"
  using demo_requests_disabled by (auto simp: disabled_account_def split: option.splits)

theorem admin_never_lost_witness: "\<exists>a. enabled_admin (served demo_accounts demo_requests) a"
  using demo_requests_run demo_accounts_fresh by (meson admin_never_lost)


theorem resources_follow_account_witness: "obeys Suspend_Resources ''a1'' (aw_log (served demo_accounts demo_requests))"
proof -
  obtain rs where run: "(pool_step acct_starts)\<^sup>*\<^sup>* (demo_accounts, []) (served demo_accounts demo_requests, rs)"
    by (rule demo_requests_run)
  obtain acc where a: "acct_at (served demo_accounts demo_requests) ''a1'' = Some acc" "ac_disabled_at acc \<noteq> None"
    using demo_requests_disabled by auto
  from resources_follow_account [OF run demo_accounts_fresh a(1)] demo_requests_ops a(2) show ?thesis
    by (simp add: list_all_iff)
qed




text \<open>The queued operation alone.\<close>

definition demo_queued :: acct_world where
  "demo_queued = snd (run_alone demo_disable demo_accounts)"

lemma demo_queued_op: "map op_id (aw_ops demo_queued) = [''o1''] \<and> map op_account (aw_ops demo_queued) = [''a1''] \<and>
    map op_kind (aw_ops demo_queued) = [Suspend_Resources]"
  by code_simp

lemma demo_queued_vms: "map lv_id (lw_vms (aw_life demo_queued)) = [''v1'']"
  by code_simp

lemma demo_queued_disabled:
  "map_option (\<lambda>acc. ac_disabled_at acc = None) (acct_at demo_queued ''a1'') = Some False"
  by code_simp

lemma demo_queued_applied: "fst (apply_leased (demo_worker_env 0) ''o1'' demo_queued) = Inr ()"
  by code_simp

lemma demo_queued_treated:
  "map lv_owner (lw_vms (aw_life (snd (snd (apply_leased (demo_worker_env 0) ''o1'' demo_queued))))) = [Some ''a1'']"
  by code_simp


lemma demo_drained: "fst (run_alone (process_admin_operations demo_worker_env 2) demo_queued) = Inr 1"
  by code_simp

lemma demo_waiting: "length (filter (eligible 40) (aw_ops demo_queued)) = 1"
  by code_simp


text \<open>The account is deleted and its VM detached.\<close>

definition demo_deletion :: "(string \<times> string) list acct" where
  "demo_deletion = delete_me (demo_acct_env 5) demo_life_cfg (\<lambda>_. demo_life_env 5 True)
     \<lparr>ac_id = ''a1'', ac_is_admin = False, ac_disabled_at = None\<rparr> ''detach''"

lemma demo_deletion_run: "fst (run_alone demo_deletion demo_accounts) = Inr [(''v1'', ''tv1'')]"
  by code_simp


end
